(* ===== verification/Prelude.thy ===== *)
theory Prelude
  imports Main "HOL-Library.Word"
begin

text \<open>
  Shared vocabulary of the development: the machine integers of the C++ sources, byte
  buffers and their slices, the exception monad in which the stateful server code is written,
  the two generic contracts (a codec with its round trip, a state invariant kept by an
  operation) and the list and word lemmas that the component theories use.
\<close>

unbundle bit_operations_syntax

named_theorems keeps_intros \<open>rules that show that an operation keeps a state predicate\<close>
named_theorems layout \<open>lengths and positions in packet buffers\<close>

type_synonym byte = "8 word"
type_synonym u8 = "8 word"
type_synonym u16 = "16 word"
type_synonym u32 = "32 word"
type_synonym u64 = "64 word"


section \<open>Characters\<close>

text \<open>A C++ \<^verbatim>\<open>char\<close> is a byte here; the characters the sources compare with have names.\<close>

abbreviation ch_nul :: byte where "ch_nul \<equiv> 0"
abbreviation ch_tab :: byte where "ch_tab \<equiv> 0x09"
abbreviation ch_lf :: byte where "ch_lf \<equiv> 0x0A"
abbreviation ch_cr :: byte where "ch_cr \<equiv> 0x0D"
abbreviation ch_space :: byte where "ch_space \<equiv> 0x20"
abbreviation ch_quote :: byte where "ch_quote \<equiv> 0x22"
abbreviation ch_hash :: byte where "ch_hash \<equiv> 0x23"
abbreviation ch_comma :: byte where "ch_comma \<equiv> 0x2C"
abbreviation ch_dot :: byte where "ch_dot \<equiv> 0x2E"
abbreviation ch_slash :: byte where "ch_slash \<equiv> 0x2F"
abbreviation ch_0 :: byte where "ch_0 \<equiv> 0x30"
abbreviation ch_1 :: byte where "ch_1 \<equiv> 0x31"
abbreviation ch_9 :: byte where "ch_9 \<equiv> 0x39"
abbreviation ch_colon :: byte where "ch_colon \<equiv> 0x3A"
abbreviation ch_equals :: byte where "ch_equals \<equiv> 0x3D"
abbreviation ch_question :: byte where "ch_question \<equiv> 0x3F"
abbreviation ch_A :: byte where "ch_A \<equiv> 0x41"
abbreviation ch_C :: byte where "ch_C \<equiv> 0x43"
abbreviation ch_Z :: byte where "ch_Z \<equiv> 0x5A"
abbreviation ch_backslash :: byte where "ch_backslash \<equiv> 0x5C"
abbreviation ch_underscore :: byte where "ch_underscore \<equiv> 0x5F"
abbreviation ch_a :: byte where "ch_a \<equiv> 0x61"
abbreviation ch_z :: byte where "ch_z \<equiv> 0x7A"
abbreviation ch_tilde :: byte where "ch_tilde \<equiv> 0x7E"

text \<open>The bytes of a C string literal.\<close>

definition bytes_of :: "string \<Rightarrow> byte list" where
  "bytes_of s = map of_char s"


section \<open>Byte buffers\<close>

definition slice :: "'a list \<Rightarrow> nat \<Rightarrow> nat \<Rightarrow> 'a list" where
  "slice xs off n = take n (drop off xs)"

text \<open>A store of \<open>ys\<close> into the array \<open>xs\<close> at \<open>off\<close>, in bounds when
  \<open>off + length ys \<le> length xs\<close>.\<close>

definition overwrite :: "'a list \<Rightarrow> nat \<Rightarrow> 'a list \<Rightarrow> 'a list" where
  "overwrite xs off ys = take off xs @ ys @ drop (off + length ys) xs"

lemma length_slice [simp]: "length (slice xs off n) = min n (length xs - off)"
  by (simp add: slice_def)

lemma length_overwrite [layout]:
  "off + length ys \<le> length xs \<Longrightarrow> length (overwrite xs off ys) = length xs"
  by (simp add: overwrite_def)

lemma take_overwrite_0: "n \<le> length ys \<Longrightarrow> take n (overwrite xs 0 ys) = take n ys"
  by (simp add: overwrite_def)

lemma slice_overwrite_same:
  "off \<le> length xs \<Longrightarrow> slice (overwrite xs off ys) off (length ys) = ys"
  by (simp add: slice_def overwrite_def)

lemma slice_overwrite_before:
  assumes "o1 + n \<le> off" "off \<le> length xs"
  shows "slice (overwrite xs off ys) o1 n = slice xs o1 n"
proof -
  have "take (o1 + n) (overwrite xs off ys) = take (o1 + n) xs"
    using assms by (simp add: overwrite_def min_def)
  then have "drop o1 (take (o1 + n) (overwrite xs off ys)) = drop o1 (take (o1 + n) xs)"
    by simp
  then show ?thesis by (simp add: slice_def drop_take)
qed

lemma slice_overwrite_after:
  assumes "off + length ys \<le> o2" "off \<le> length xs"
  shows "slice (overwrite xs off ys) o2 n = slice xs o2 n"
proof -
  have "drop o2 (overwrite xs off ys) = drop o2 xs"
    using assms by (simp add: overwrite_def min_def add.commute)
  then show ?thesis by (simp add: slice_def)
qed

lemma slice_append_left: "off + n \<le> length xs \<Longrightarrow> slice (xs @ ys) off n = slice xs off n"
  by (simp add: slice_def)

lemma slice_append_right:
  "length xs \<le> off \<Longrightarrow> slice (xs @ ys) off n = slice ys (off - length xs) n"
  by (simp add: slice_def)


section \<open>Words byte by byte\<close>

text \<open>Two words agree when they agree on every bit of every byte.\<close>

lemma byte_index_cases:
  fixes n k :: nat
  assumes "n < 8 * k"
  obtains j i where "j < k" "i < 8" "n = 8 * j + i"
proof
  show "n div 8 < k" using assms by (simp add: less_mult_imp_div_less mult.commute)
  show "n mod 8 < 8" by simp
  show "n = 8 * (n div 8) + n mod 8" by simp
qed

lemma bit_byte_beyond [simp]: "\<not> bit (a :: byte) (8 + n)"
  by (auto dest: bit_imp_le_length)

lemma word16_byte_eqI:
  fixes x y :: u16
  assumes "\<And>i. i < 8 \<Longrightarrow> bit x i = bit y i" "\<And>i. i < 8 \<Longrightarrow> bit x (8 + i) = bit y (8 + i)"
  shows "x = y"
proof (rule bit_word_eqI)
  fix n :: nat assume "n < LENGTH(16)"
  then obtain j i where "j < 2" "i < 8" "n = 8 * j + i"
    using byte_index_cases [of n 2] by auto
  then show "bit x n = bit y n"
    using assms by (auto simp: less_2_cases_iff)
qed

lemma word32_byte_eqI:
  fixes x y :: u32
  assumes "\<And>i. i < 8 \<Longrightarrow> bit x i = bit y i" "\<And>i. i < 8 \<Longrightarrow> bit x (8 + i) = bit y (8 + i)"
    "\<And>i. i < 8 \<Longrightarrow> bit x (16 + i) = bit y (16 + i)" "\<And>i. i < 8 \<Longrightarrow> bit x (24 + i) = bit y (24 + i)"
  shows "x = y"
proof (rule bit_word_eqI)
  fix n :: nat assume "n < LENGTH(32)"
  then obtain j i where "j < 4" "i < 8" "n = 8 * j + i"
    using byte_index_cases [of n 4] by auto
  moreover from \<open>j < 4\<close> have "j = 0 \<or> j = 1 \<or> j = 2 \<or> j = 3" by auto
  ultimately show "bit x n = bit y n"
    using assms by auto
qed


text \<open>Words bit by bit, for fixed masks.\<close>

lemma byte_eq_bits:
  "(x :: byte) = y \<longleftrightarrow> (bit x 0 \<longleftrightarrow> bit y 0) \<and> (bit x 1 \<longleftrightarrow> bit y 1) \<and> (bit x 2 \<longleftrightarrow> bit y 2) \<and>
     (bit x 3 \<longleftrightarrow> bit y 3) \<and> (bit x 4 \<longleftrightarrow> bit y 4) \<and> (bit x 5 \<longleftrightarrow> bit y 5) \<and>
     (bit x 6 \<longleftrightarrow> bit y 6) \<and> (bit x 7 \<longleftrightarrow> bit y 7)" (is "_ \<longleftrightarrow> ?bits")
proof
  assume bits: ?bits
  show "x = y"
  proof (rule bit_word_eqI)
    fix n :: nat assume "n < LENGTH(8)"
    then have "n \<in> {0,1,2,3,4,5,6,7}" by (simp add: numeral_eq_Suc less_Suc_eq)
    then show "bit x n = bit y n" using bits by auto
  qed
qed simp

lemma word32_bits_eqI:
  fixes x y :: u32
  assumes
    "bit x 0 = bit y 0" "bit x 1 = bit y 1" "bit x 2 = bit y 2" "bit x 3 = bit y 3"
    "bit x 4 = bit y 4" "bit x 5 = bit y 5" "bit x 6 = bit y 6" "bit x 7 = bit y 7"
    "bit x 8 = bit y 8" "bit x 9 = bit y 9" "bit x 10 = bit y 10" "bit x 11 = bit y 11"
    "bit x 12 = bit y 12" "bit x 13 = bit y 13" "bit x 14 = bit y 14" "bit x 15 = bit y 15"
    "bit x 16 = bit y 16" "bit x 17 = bit y 17" "bit x 18 = bit y 18" "bit x 19 = bit y 19"
    "bit x 20 = bit y 20" "bit x 21 = bit y 21" "bit x 22 = bit y 22" "bit x 23 = bit y 23"
    "bit x 24 = bit y 24" "bit x 25 = bit y 25" "bit x 26 = bit y 26" "bit x 27 = bit y 27"
    "bit x 28 = bit y 28" "bit x 29 = bit y 29" "bit x 30 = bit y 30" "bit x 31 = bit y 31"
  shows "x = y"
proof (rule bit_word_eqI)
  fix n :: nat assume "n < LENGTH(32)"
  then have "n \<in> {0,1,2,3,4,5,6,7,8,9,10,11,12,13,14,15,
      16,17,18,19,20,21,22,23,24,25,26,27,28,29,30,31}"
    by (simp add: numeral_eq_Suc less_Suc_eq)
  then show "bit x n = bit y n" using assms by auto
qed

text \<open>Widening keeps the value, narrowing takes it modulo the width, complement mirrors it.\<close>

lemma unat_lt2p: "unat (x :: 'a::len word) < 2 ^ LENGTH('a)"
  by (fact unsigned_less)

lemma unat_ucast_up:
  fixes x :: "'a::len word"
  assumes "LENGTH('a) \<le> LENGTH('b::len)"
  shows "unat (ucast x :: 'b word) = unat x"
proof -
  have "unat x < 2 ^ LENGTH('b)"
    using unat_lt2p [of x] assms by (meson order_less_le_trans one_le_numeral power_increasing)
  then show ?thesis by (simp add: unsigned_ucast_eq take_bit_nat_eq_self)
qed

lemma unat_ucast_down: "unat (ucast (x :: 'a::len word) :: 'b::len word) = unat x mod 2 ^ LENGTH('b)"
  by (simp add: unsigned_ucast_eq take_bit_eq_mod)

lemma unat_not_u16: "unat (NOT (x :: u16)) = 65535 - unat x"
proof -
  have "NOT x = - 1 - x" by (simp add: not_eq_complement)
  moreover have "x \<le> - 1" by simp
  moreover have "unat (- 1 :: u16) = 65535"
    by (simp add: unsigned_minus_1_eq_mask mask_eq_exp_minus_1)
  ultimately show ?thesis by (simp add: unat_sub)
qed


section \<open>Exceptions with state\<close>

text \<open>
  The error codes of \<^verbatim>\<open>std::errc\<close> that the sources look at, and the exceptions they throw:
  \<^verbatim>\<open>FilesystemError\<close> carries a DOS error code, \<^verbatim>\<open>std::filesystem::filesystem_error\<close> carries an
  \<^verbatim>\<open>errc\<close>, every other \<^verbatim>\<open>std::runtime_error\<close> carries nothing the code reads. \<open>OutOfBounds\<close> is
  not an exception of C++: it marks a run that reads or writes outside an array, which the
  language leaves undefined. No handler catches it.
\<close>

datatype errc =
    directory_not_empty | file_exists | is_a_directory | io_error | no_such_file_or_directory
  | not_a_directory | permission_denied | read_only_file_system | no_space_on_device
  | too_many_symbolic_link_levels | invalid_argument | no_message_available | not_supported
  | other_errc

datatype exn = FilesystemError u16 | StdFilesystemError errc | RuntimeError | OutOfBounds

text \<open>A computation that may throw: the state it leaves is kept in both cases, as in C++.\<close>

type_synonym ('s, 'a) sx = "'s \<Rightarrow> (exn + 'a) \<times> 's"

definition sx_return :: "'a \<Rightarrow> ('s, 'a) sx" where
  "sx_return x s = (Inr x, s)"

definition sx_throw :: "exn \<Rightarrow> ('s, 'a) sx" where
  "sx_throw e s = (Inl e, s)"

definition sx_bind :: "('s, 'a) sx \<Rightarrow> ('a \<Rightarrow> ('s, 'b) sx) \<Rightarrow> ('s, 'b) sx" where
  "sx_bind m f s = (case m s of (Inl e, s') \<Rightarrow> (Inl e, s') | (Inr x, s') \<Rightarrow> f x s')"

text \<open>\<^verbatim>\<open>try { m } catch (const std::runtime_error & ex) { h }\<close>\<close>

definition sx_catch :: "('s, 'a) sx \<Rightarrow> (exn \<Rightarrow> ('s, 'a) sx) \<Rightarrow> ('s, 'a) sx" where
  "sx_catch m h s =
     (case m s of
        (Inl e, s') \<Rightarrow> if e = OutOfBounds then (Inl e, s') else h e s'
      | (Inr x, s') \<Rightarrow> (Inr x, s'))"

definition sx_get :: "('s, 's) sx" where
  "sx_get s = (Inr s, s)"

definition sx_modify :: "('s \<Rightarrow> 's) \<Rightarrow> ('s, unit) sx" where
  "sx_modify f s = (Inr (), f s)"

text \<open>A value that is already an error or a result.\<close>

definition sx_lift :: "exn + 'a \<Rightarrow> ('s, 'a) sx" where
  "sx_lift r s = (r, s)"

definition sx_guard :: "bool \<Rightarrow> exn \<Rightarrow> ('s, unit) sx" where
  "sx_guard b e s = (if b then (Inr (), s) else (Inl e, s))"

lemmas sx_defs = sx_return_def sx_throw_def sx_bind_def sx_catch_def sx_get_def sx_modify_def
  sx_lift_def sx_guard_def

text \<open>\<open>keeps P m\<close>: the state predicate survives the computation, also when it throws.\<close>

definition keeps :: "('s \<Rightarrow> bool) \<Rightarrow> ('s, 'a) sx \<Rightarrow> bool" where
  "keeps P m \<longleftrightarrow> (\<forall>s. P s \<longrightarrow> P (snd (m s)))"

lemma keepsD: "keeps P m \<Longrightarrow> P s \<Longrightarrow> P (snd (m s))"
  by (simp add: keeps_def)

lemma keeps_return [keeps_intros]: "keeps P (sx_return x)"
  by (simp add: keeps_def sx_return_def)

lemma keeps_throw [keeps_intros]: "keeps P (sx_throw e)"
  by (simp add: keeps_def sx_throw_def)

lemma keeps_get [keeps_intros]: "keeps P sx_get"
  by (simp add: keeps_def sx_get_def)

lemma keeps_lift [keeps_intros]: "keeps P (sx_lift r)"
  by (simp add: keeps_def sx_lift_def)

lemma keeps_guard [keeps_intros]: "keeps P (sx_guard b e)"
  by (simp add: keeps_def sx_guard_def)

lemma keeps_bind [keeps_intros]:
  "keeps P m \<Longrightarrow> (\<And>x. keeps P (f x)) \<Longrightarrow> keeps P (sx_bind m f)"
  unfolding keeps_def sx_bind_def
  by (auto split: prod.split sum.split; metis snd_conv)

lemma keeps_catch [keeps_intros]:
  "keeps P m \<Longrightarrow> (\<And>e. keeps P (h e)) \<Longrightarrow> keeps P (sx_catch m h)"
  unfolding keeps_def sx_catch_def
  by (auto split: prod.split sum.split; metis snd_conv)

lemma keeps_modify [keeps_intros]: "(\<And>s. P s \<Longrightarrow> P (f s)) \<Longrightarrow> keeps P (sx_modify f)"
  by (simp add: keeps_def sx_modify_def)

lemma keeps_if [keeps_intros]:
  "(b \<Longrightarrow> keeps P m) \<Longrightarrow> (\<not> b \<Longrightarrow> keeps P n) \<Longrightarrow> keeps P (if b then m else n)"
  by simp

lemma keeps_case_prod [keeps_intros]:
  "(\<And>a b. p = (a, b) \<Longrightarrow> keeps P (f a b)) \<Longrightarrow> keeps P (case p of (a, b) \<Rightarrow> f a b)"
  by (cases p) simp

lemma keeps_case_option [keeps_intros]:
  "(x = None \<Longrightarrow> keeps P m) \<Longrightarrow> (\<And>y. x = Some y \<Longrightarrow> keeps P (f y)) \<Longrightarrow>
   keeps P (case x of None \<Rightarrow> m | Some y \<Rightarrow> f y)"
  by (cases x) simp_all

lemma keeps_case_sum [keeps_intros]:
  "(\<And>e. x = Inl e \<Longrightarrow> keeps P (g e)) \<Longrightarrow> (\<And>y. x = Inr y \<Longrightarrow> keeps P (f y)) \<Longrightarrow>
   keeps P (case x of Inl e \<Rightarrow> g e | Inr y \<Rightarrow> f y)"
  by (cases x) simp_all

lemma keeps_conj: "keeps P m \<Longrightarrow> keeps Q m \<Longrightarrow> keeps (\<lambda>s. P s \<and> Q s) m"
  by (simp add: keeps_def)


section \<open>The codec contract\<close>

text \<open>
  Several components turn values into bytes and back (SLIP frames, packet headers, FAT time
  stamps, share options). They promise the same: what was encoded is decoded again.
\<close>

locale codec =
  fixes enc :: "'a \<Rightarrow> 'b" and dec :: "'b \<Rightarrow> 'a option" and valid :: "'a \<Rightarrow> bool"
  assumes dec_enc: "valid x \<Longrightarrow> dec (enc x) = Some x"
begin

lemma enc_inject: "valid x \<Longrightarrow> valid y \<Longrightarrow> enc x = enc y \<Longrightarrow> x = y"
  by (metis dec_enc option.inject)

lemma enc_eq_iff: "valid x \<Longrightarrow> valid y \<Longrightarrow> enc x = enc y \<longleftrightarrow> x = y"
  using enc_inject [of x y] by auto

end

end
