(* ===== verification/Utils.thy ===== *)
theory Utils
  imports Prelude
begin

text \<open>
  Model of \<^verbatim>\<open>netmount-server/utils.hpp\<close>: ASCII case mapping and the conversions between the
  byte order of the host and the little-endian or big-endian order on the wire. The byte order
  of the host (\<^verbatim>\<open>std::endian::native\<close>) is an argument, so that the model covers both kinds of
  machine the sources are written for.
\<close>

section \<open>ASCII case\<close>

definition ascii_to_upper :: "byte \<Rightarrow> byte" where
  "ascii_to_upper c = (if ch_a \<le> c \<and> c \<le> ch_z then c - (ch_a - ch_A) else c)"

definition ascii_to_lower :: "byte \<Rightarrow> byte" where
  "ascii_to_lower c = (if ch_A \<le> c \<and> c \<le> ch_Z then c + (ch_a - ch_A) else c)"

section \<open>Byte order\<close>

datatype endian = Little | Big

definition byte_swap16 :: "u16 \<Rightarrow> u16" where
  "byte_swap16 x = drop_bit 8 x OR push_bit 8 x"

definition byte_swap32 :: "u32 \<Rightarrow> u32" where
  "byte_swap32 x = drop_bit 24 x OR drop_bit 8 (x AND 0x00FF0000)
     OR push_bit 8 (x AND 0x0000FF00) OR push_bit 24 x"

definition to_little16 :: "endian \<Rightarrow> u16 \<Rightarrow> u16" where
  "to_little16 native host_value = (if native = Little then host_value else byte_swap16 host_value)"

definition to_little32 :: "endian \<Rightarrow> u32 \<Rightarrow> u32" where
  "to_little32 native host_value = (if native = Little then host_value else byte_swap32 host_value)"

definition from_little16 :: "endian \<Rightarrow> u16 \<Rightarrow> u16" where
  "from_little16 native little_value =
     (if native = Little then little_value else byte_swap16 little_value)"

definition from_little32 :: "endian \<Rightarrow> u32 \<Rightarrow> u32" where
  "from_little32 native little_value =
     (if native = Little then little_value else byte_swap32 little_value)"

definition to_big16 :: "endian \<Rightarrow> u16 \<Rightarrow> u16" where
  "to_big16 native host_value = (if native = Big then host_value else byte_swap16 host_value)"

definition to_big32 :: "endian \<Rightarrow> u32 \<Rightarrow> u32" where
  "to_big32 native host_value = (if native = Big then host_value else byte_swap32 host_value)"

definition from_big16 :: "endian \<Rightarrow> u16 \<Rightarrow> u16" where
  "from_big16 native big_value = (if native = Big then big_value else byte_swap16 big_value)"

definition from_big32 :: "endian \<Rightarrow> u32 \<Rightarrow> u32" where
  "from_big32 native big_value = (if native = Big then big_value else byte_swap32 big_value)"

text \<open>
  How the machine keeps an integer in memory: the bytes of a \<^verbatim>\<open>uint16_t\<close> or \<^verbatim>\<open>uint32_t\<close>
  member of a packed struct, and the value read back through such a member.
\<close>

definition store16 :: "endian \<Rightarrow> u16 \<Rightarrow> byte list" where
  "store16 native x =
     (let bs = [ucast x, ucast (drop_bit 8 x)] in if native = Little then bs else rev bs)"

definition store32 :: "endian \<Rightarrow> u32 \<Rightarrow> byte list" where
  "store32 native x =
     (let bs = [ucast x, ucast (drop_bit 8 x), ucast (drop_bit 16 x), ucast (drop_bit 24 x)]
      in if native = Little then bs else rev bs)"

fun load16 :: "endian \<Rightarrow> byte list \<Rightarrow> u16" where
  "load16 Little (a # b # _) = ucast a OR push_bit 8 (ucast b)"
| "load16 Big (a # b # _) = ucast b OR push_bit 8 (ucast a)"
| "load16 _ _ = 0"

fun load32 :: "endian \<Rightarrow> byte list \<Rightarrow> u32" where
  "load32 Little (a # b # c # d # _) =
     ucast a OR push_bit 8 (ucast b) OR push_bit 16 (ucast c) OR push_bit 24 (ucast d)"
| "load32 Big (a # b # c # d # _) =
     ucast d OR push_bit 8 (ucast c) OR push_bit 16 (ucast b) OR push_bit 24 (ucast a)"
| "load32 _ _ = 0"

text \<open>The accesses the packet code makes: a little-endian field of a request at an offset,
  and the bytes a reply field is given.\<close>

definition get16 :: "endian \<Rightarrow> byte list \<Rightarrow> nat \<Rightarrow> u16" where
  "get16 native bs off = from_little16 native (load16 native (slice bs off 2))"

definition get32 :: "endian \<Rightarrow> byte list \<Rightarrow> nat \<Rightarrow> u32" where
  "get32 native bs off = from_little32 native (load32 native (slice bs off 4))"

definition put16 :: "endian \<Rightarrow> u16 \<Rightarrow> byte list" where
  "put16 native v = store16 native (to_little16 native v)"

definition put32 :: "endian \<Rightarrow> u32 \<Rightarrow> byte list" where
  "put32 native v = store32 native (to_little32 native v)"


section \<open>Lemmas on case mapping\<close>

lemma ascii_to_upper_idem [simp]: "ascii_to_upper (ascii_to_upper c) = ascii_to_upper c"
  unfolding ascii_to_upper_def
  by (auto simp: word_le_nat_alt unat_word_ariths unat_sub_if' split: if_splits)

lemma ascii_to_upper_lower [simp]: "ascii_to_upper (ascii_to_lower c) = ascii_to_upper c"
  unfolding ascii_to_upper_def ascii_to_lower_def
  by (auto simp: word_le_nat_alt unat_word_ariths unat_sub_if' split: if_splits)

lemma ascii_to_upper_id: "\<not> (ch_a \<le> c \<and> c \<le> ch_z) \<Longrightarrow> ascii_to_upper c = c"
  by (simp add: ascii_to_upper_def)

lemma ascii_to_upper_not_lower: "\<not> (ch_a \<le> ascii_to_upper c \<and> ascii_to_upper c \<le> ch_z)"
  unfolding ascii_to_upper_def
  by (auto simp: word_le_nat_alt unat_word_ariths unat_sub_if' split: if_splits)

lemma ascii_to_upper_eq_iff:
  "ascii_to_upper c = d \<longleftrightarrow> c = d"
  if "\<not> (ch_A \<le> d \<and> d \<le> ch_Z)" "\<not> (ch_a \<le> d \<and> d \<le> ch_z)"
  using that unfolding ascii_to_upper_def
  by (auto simp: word_le_nat_alt unat_word_ariths unat_sub_if' split: if_splits)

lemma ascii_to_lower_eq_iff:
  "ascii_to_lower c = d \<longleftrightarrow> c = d"
  if "\<not> (ch_A \<le> d \<and> d \<le> ch_Z)" "\<not> (ch_a \<le> d \<and> d \<le> ch_z)"
  using that unfolding ascii_to_lower_def
  by (auto simp: word_le_nat_alt unat_word_ariths unat_sub_if' split: if_splits)

lemma ascii_case_dot [simp]:
  "ascii_to_upper c = ch_dot \<longleftrightarrow> c = ch_dot" "ascii_to_lower c = ch_dot \<longleftrightarrow> c = ch_dot"
  "ascii_to_upper ch_dot = ch_dot" "ascii_to_lower ch_dot = ch_dot"
  using ascii_to_upper_eq_iff [of ch_dot] ascii_to_lower_eq_iff [of ch_dot] by simp_all


section \<open>Lemmas on byte order\<close>

lemma length_store16 [simp, layout]: "length (store16 native x) = 2"
  by (simp add: store16_def Let_def)

lemma length_store32 [simp, layout]: "length (store32 native x) = 4"
  by (simp add: store32_def Let_def)

lemma length_put16 [simp, layout]: "length (put16 native x) = 2"
  by (simp add: put16_def)

lemma length_put32 [simp, layout]: "length (put32 native x) = 4"
  by (simp add: put32_def)

lemma swap_masks:
  "(0x00FF0000 :: u32) = push_bit 16 (mask 8)" "(0x0000FF00 :: u32) = push_bit 8 (mask 8)"
  by (simp_all add: mask_eq_exp_minus_1 push_bit_eq_mult)

lemma byte_swap16_swap [simp]: "byte_swap16 (byte_swap16 x) = x"
  unfolding byte_swap16_def
  by (rule word16_byte_eqI) (auto simp: bit_simps dest: bit_imp_le_length)

lemma byte_swap32_swap [simp]: "byte_swap32 (byte_swap32 x) = x"
  unfolding byte_swap32_def swap_masks
  by (rule word32_byte_eqI) (auto simp: bit_simps dest: bit_imp_le_length)

lemma load16_store16: "load16 native (store16 native x @ r) = x"
  by (cases native; rule word16_byte_eqI; auto simp: bit_simps store16_def)

lemma load32_store32: "load32 native (store32 native x @ r) = x"
  by (cases native; rule word32_byte_eqI; auto simp: bit_simps store32_def)

lemma store16_load16: "length bs = 2 \<Longrightarrow> store16 native (load16 native bs) = bs"
  by (cases native; cases bs; cases "tl bs")
    (auto simp: store16_def bit_simps intro!: bit_word_eqI)

lemma to_little16_wire: "put16 native x = put16 Little x"
proof (cases native)
  case Big
  have "ucast (byte_swap16 x) = (ucast (drop_bit 8 x) :: byte)"
    "ucast (drop_bit 8 (byte_swap16 x)) = (ucast x :: byte)"
    unfolding byte_swap16_def by (rule bit_word_eqI; auto simp: bit_simps)+
  with Big show ?thesis by (simp add: put16_def store16_def to_little16_def)
qed simp

lemma to_little32_wire: "put32 native x = put32 Little x"
proof (cases native)
  case Big
  have "ucast (byte_swap32 x) = (ucast (drop_bit 24 x) :: byte)"
    "ucast (drop_bit 8 (byte_swap32 x)) = (ucast (drop_bit 16 x) :: byte)"
    "ucast (drop_bit 16 (byte_swap32 x)) = (ucast (drop_bit 8 x) :: byte)"
    "ucast (drop_bit 24 (byte_swap32 x)) = (ucast x :: byte)"
    unfolding byte_swap32_def swap_masks by (rule bit_word_eqI; auto simp: bit_simps)+
  with Big show ?thesis by (simp add: put32_def store32_def to_little32_def)
qed simp

lemma get16_put16: "slice bs off 2 = put16 native x \<Longrightarrow> get16 native' bs off = x"
  unfolding get16_def
  by (simp only: to_little16_wire [of native] to_little16_wire [of native', symmetric])
    (simp add: put16_def to_little16_def from_little16_def load16_store16 [where r = "[]", simplified])

lemma get32_put32: "slice bs off 4 = put32 native x \<Longrightarrow> get32 native' bs off = x"
  unfolding get32_def
  by (simp only: to_little32_wire [of native] to_little32_wire [of native', symmetric])
    (simp add: put32_def to_little32_def from_little32_def load32_store32 [where r = "[]", simplified])

lemma from_big16_to_big16 [simp]: "from_big16 native (to_big16 native x) = x"
  by (simp add: from_big16_def to_big16_def)

lemma from_big32_to_big32 [simp]: "from_big32 native (to_big32 native x) = x"
  by (simp add: from_big32_def to_big32_def)

text \<open>Field accesses as codecs: what the server writes into a reply on a host of either byte
  order, a reader on a host of either byte order gets back.\<close>

interpretation wire16: codec "put16 native" "\<lambda>bs. Some (get16 native' bs 0)" "\<lambda>_. True"
  for native native'
  by unfold_locales (simp add: get16_put16 [where native = native] slice_def)

interpretation wire32: codec "put32 native" "\<lambda>bs. Some (get32 native' bs 0)" "\<lambda>_. True"
  for native native'
  by unfold_locales (simp add: get32_put32 [where native = native] slice_def)

end
