(* ===== verification/Translit.thy ===== *)
theory Translit
  imports Utils
begin

text \<open>
  Model of \<^verbatim>\<open>netmount-server/unicode_to_ascii.cpp\<close> (the POSIX build): the transliteration
  map read from \<^verbatim>\<open>netmount-u2a.map\<close> and the conversion of UTF-8 file names to ASCII. The
  global \<^verbatim>\<open>transliteration_map\<close> is an argument and result; reads outside a string, which C++
  leaves undefined, are the value \<open>None\<close>.
\<close>

section \<open>Definitions\<close>

type_synonym transliteration_map = "u32 \<rightharpoonup> byte list"

definition is_blank :: "byte \<Rightarrow> bool" where
  "is_blank c \<longleftrightarrow> c \<in> {ch_space, ch_tab, ch_cr, ch_lf}"

definition clean_token :: "byte list \<Rightarrow> byte list" where
  "clean_token token =
     (let t = rev (dropWhile is_blank (rev (dropWhile is_blank token)))
      in if 2 \<le> length t \<and> hd t = ch_quote \<and> last t = ch_quote then butlast (tl t) else t)"

text \<open>An empty \<^verbatim>\<open>string_view\<close> has no first byte to look at.\<close>

definition utf8_to_codepoint :: "byte list \<Rightarrow> (u32 \<times> bool) option" where
  "utf8_to_codepoint utf8_char =
     (let b = \<lambda>i. ucast (utf8_char ! i) :: u32; c = utf8_char ! 0; len = length utf8_char
      in if len = 0 then None
         else if len = 1 then Some (b 0, True)
         else if c AND 0xE0 = 0xC0 \<and> 2 \<le> len then
           Some (push_bit 6 (b 0 AND 0x1F) OR (b 1 AND 0x3F), True)
         else if c AND 0xF0 = 0xE0 \<and> 3 \<le> len then
           Some (push_bit 12 (b 0 AND 0x0F) OR push_bit 6 (b 1 AND 0x3F) OR (b 2 AND 0x3F), True)
         else if c AND 0xF8 = 0xF0 \<and> 4 \<le> len then
           Some (push_bit 18 (b 0 AND 0x07) OR push_bit 12 (b 1 AND 0x3F)
             OR push_bit 6 (b 2 AND 0x3F) OR (b 3 AND 0x3F), True)
         else Some (0xFFFD, False))"

definition is_combining_mark :: "u32 \<Rightarrow> bool" where
  "is_combining_mark cp \<longleftrightarrow>
     0x0300 \<le> cp \<and> cp \<le> 0x036F \<or> 0x1AB0 \<le> cp \<and> cp \<le> 0x1AFF \<or> 0x1DC0 \<le> cp \<and> cp \<le> 0x1DFF \<or>
     0x20D0 \<le> cp \<and> cp \<le> 0x20FF \<or> 0xFE20 \<le> cp \<and> cp \<le> 0xFE2F"

text \<open>
  \<^verbatim>\<open>std::getline\<close> until the end of the file: the lines, without their newline; a newline at
  the very end does not start another line.
\<close>

function getlines :: "byte list \<Rightarrow> byte list list" where
  "getlines [] = []"
| "getlines (c # cs) =
     takeWhile (\<lambda>x. x \<noteq> ch_lf) (c # cs) # getlines (tl (dropWhile (\<lambda>x. x \<noteq> ch_lf) (c # cs)))"
  by pat_completeness auto
termination
proof (relation "measure length", goal_cases)
  case (2 c cs)
  have "length (dropWhile (\<lambda>x. x \<noteq> ch_lf) (c # cs)) \<le> length (c # cs)"
    by (rule length_dropWhile_le)
  then show ?case by simp
qed simp

text \<open>
  One line of the map. A missing colon and an empty key are logged, but the line is processed
  all the same: without a colon the iterator \<^verbatim>\<open>line.begin() + npos\<close> is formed, and the empty
  key is decoded. Both are undefined (\<open>None\<close>). \<^verbatim>\<open>try_emplace\<close> keeps an entry that is there.
\<close>

definition load_line :: "transliteration_map \<Rightarrow> byte list \<Rightarrow> transliteration_map option" where
  "load_line tm line =
     (if line = [] \<or> hd line = ch_hash then Some tm
      else if ch_colon \<notin> set line then None
      else let key = clean_token (takeWhile (\<lambda>c. c \<noteq> ch_colon) line);
               val = clean_token (tl (dropWhile (\<lambda>c. c \<noteq> ch_colon) line))
           in case utf8_to_codepoint key of
                None \<Rightarrow> None
              | Some (cp, is_ok) \<Rightarrow> Some (if tm cp = None then tm(cp \<mapsto> val) else tm))"

fun load_lines :: "transliteration_map \<Rightarrow> byte list list \<Rightarrow> transliteration_map option" where
  "load_lines tm [] = Some tm"
| "load_lines tm (l # ls) = (case load_line tm l of None \<Rightarrow> None | Some tm' \<Rightarrow> load_lines tm' ls)"

text \<open>\<open>content\<close> is the file's content, or \<open>None\<close> when it cannot be opened; then the code throws.\<close>

definition load_transliteration_map ::
  "transliteration_map \<Rightarrow> byte list option \<Rightarrow> exn + transliteration_map option" where
  "load_transliteration_map tm content =
     (case content of None \<Rightarrow> Inl RuntimeError | Some bs \<Rightarrow> Inr (load_lines tm (getlines bs)))"

text \<open>What the conversion appends for a decoded character.\<close>

definition translit_codepoint :: "transliteration_map \<Rightarrow> u32 \<Rightarrow> byte list" where
  "translit_codepoint tm cp =
     (if is_combining_mark cp then []
      else case tm cp of Some s \<Rightarrow> s | None \<Rightarrow> [ch_underscore])"

text \<open>Length of a multi-byte sequence by its first byte, 0 when it starts none.\<close>

definition utf8_seq_len :: "byte \<Rightarrow> nat" where
  "utf8_seq_len c =
     (if c AND 0xE0 = 0xC0 then 2 else if c AND 0xF0 = 0xE0 then 3
      else if c AND 0xF8 = 0xF0 then 4 else 0)"

fun convert_utf8_to_ascii :: "transliteration_map \<Rightarrow> byte list \<Rightarrow> byte list" where
  "convert_utf8_to_ascii tm [] = []"
| "convert_utf8_to_ascii tm (c # cs) =
     (if c AND 0x80 = 0 then c # convert_utf8_to_ascii tm cs
      else let len = utf8_seq_len c
           in if len = 0 then ch_underscore # convert_utf8_to_ascii tm cs
              else if length (c # cs) < len then []
              else (case utf8_to_codepoint (take len (c # cs)) of
                      None \<Rightarrow> [] | Some (cp, _) \<Rightarrow> translit_codepoint tm cp)
                   @ convert_utf8_to_ascii tm (drop (len - 1) cs))"

text \<open>The reference encoder of RFC 3629.\<close>

definition utf8_encode :: "u32 \<Rightarrow> byte list" where
  "utf8_encode cp =
     (if cp < 0x80 then [ucast cp]
      else if cp < 0x800 then
        [0xC0 OR ucast (drop_bit 6 cp), 0x80 OR ucast (cp AND 0x3F)]
      else if cp < 0x10000 then
        [0xE0 OR ucast (drop_bit 12 cp), 0x80 OR ucast (drop_bit 6 cp AND 0x3F),
         0x80 OR ucast (cp AND 0x3F)]
      else
        [0xF0 OR ucast (drop_bit 18 cp), 0x80 OR ucast (drop_bit 12 cp AND 0x3F),
         0x80 OR ucast (drop_bit 6 cp AND 0x3F), 0x80 OR ucast (cp AND 0x3F)])"

text \<open>What the conversion means for one character of the name.\<close>

definition ascii_of_codepoint :: "transliteration_map \<Rightarrow> u32 \<Rightarrow> byte list" where
  "ascii_of_codepoint tm cp = (if cp < 0x80 then [ucast cp] else translit_codepoint tm cp)"

section \<open>Decoding what was encoded\<close>

lemma high_bits_zero: "cp < 2 ^ k \<Longrightarrow> k < 32 \<Longrightarrow> k \<le> n \<Longrightarrow> \<not> bit (cp :: u32) n"
  by (metis bit_take_bit_iff less_mask_eq take_bit_eq_mask len_num0 len_of_numeral_defs not_less)

lemma codepoint_high_bits: "cp < 0x110000 \<Longrightarrow> 21 \<le> n \<Longrightarrow> \<not> bit (cp :: u32) n"
  using high_bits_zero [of cp 21 n] order_less_trans [of cp "0x110000" "2 ^ 21"] by simp

lemma utf8_byte_class:
  fixes c :: byte
  shows "c AND 0x80 = 0 \<longleftrightarrow> \<not> bit c 7"
    and "c AND 0xE0 = 0xC0 \<longleftrightarrow> bit c 7 \<and> bit c 6 \<and> \<not> bit c 5"
    and "c AND 0xF0 = 0xE0 \<longleftrightarrow> bit c 7 \<and> bit c 6 \<and> bit c 5 \<and> \<not> bit c 4"
    and "c AND 0xF8 = 0xF0 \<longleftrightarrow> bit c 7 \<and> bit c 6 \<and> bit c 5 \<and> bit c 4 \<and> \<not> bit c 3"
  by (auto simp: byte_eq_bits bit_simps)

lemma utf8_decode_encode:
  assumes "cp < 0x110000"
  shows "utf8_to_codepoint (utf8_encode cp) = Some (cp, True)"
proof -
  consider "cp < 0x80" | "0x80 \<le> cp" "cp < 0x800" | "0x800 \<le> cp" "cp < 0x10000" | "0x10000 \<le> cp"
    by fastforce
  then show ?thesis
  proof cases
    case 1
    then have "ucast (ucast cp :: byte) = cp"
      using high_bits_zero [of cp 7] by (intro word32_bits_eqI) (simp_all add: bit_simps)
    with 1 show ?thesis by (simp add: utf8_encode_def utf8_to_codepoint_def)
  next
    case 2
    then have "push_bit 6 (ucast (0xC0 OR ucast (drop_bit 6 cp) :: byte) AND 0x1F)
        OR (ucast (0x80 OR ucast (cp AND 0x3F) :: byte) AND 0x3F) = cp"
      using high_bits_zero [of cp 11] by (intro word32_bits_eqI) (simp_all add: bit_simps)
    moreover have "(0xC0 OR ucast (drop_bit 6 cp)) AND 0xE0 = (0xC0 :: byte)"
      using 2 high_bits_zero [of cp 11] by (simp add: utf8_byte_class bit_simps)
    ultimately show ?thesis
      using 2 by (simp add: utf8_encode_def utf8_to_codepoint_def not_less [symmetric])
  next
    case 3
    then have "push_bit 12 (ucast (0xE0 OR ucast (drop_bit 12 cp) :: byte) AND 0x0F)
        OR push_bit 6 (ucast (0x80 OR ucast (drop_bit 6 cp AND 0x3F) :: byte) AND 0x3F)
        OR (ucast (0x80 OR ucast (cp AND 0x3F) :: byte) AND 0x3F) = cp"
      using high_bits_zero [of cp 16] by (intro word32_bits_eqI) (simp_all add: bit_simps)
    moreover have "(0xE0 OR ucast (drop_bit 12 cp)) AND 0xF0 = (0xE0 :: byte)"
      "(0xE0 OR ucast (drop_bit 12 cp)) AND 0xE0 \<noteq> (0xC0 :: byte)"
      using 3 high_bits_zero [of cp 16] by (simp_all add: utf8_byte_class bit_simps)
    moreover have "\<not> cp < 0x800" "\<not> cp < 0x80"
      using 3 order_trans [of "0x80" "0x800" cp] by (auto simp: not_less)
    ultimately show ?thesis
      using 3 by (simp add: utf8_encode_def utf8_to_codepoint_def)
  next
    case 4
    note high = codepoint_high_bits [OF assms]
    have "push_bit 18 (ucast (0xF0 OR ucast (drop_bit 18 cp) :: byte) AND 0x07)
        OR push_bit 12 (ucast (0x80 OR ucast (drop_bit 12 cp AND 0x3F) :: byte) AND 0x3F)
        OR push_bit 6 (ucast (0x80 OR ucast (drop_bit 6 cp AND 0x3F) :: byte) AND 0x3F)
        OR (ucast (0x80 OR ucast (cp AND 0x3F) :: byte) AND 0x3F) = cp"
      by (intro word32_bits_eqI) (simp_all add: bit_simps high)
    moreover have "(0xF0 OR ucast (drop_bit 18 cp)) AND 0xF8 = (0xF0 :: byte)"
      "(0xF0 OR ucast (drop_bit 18 cp)) AND 0xE0 \<noteq> (0xC0 :: byte)"
      "(0xF0 OR ucast (drop_bit 18 cp)) AND 0xF0 \<noteq> (0xE0 :: byte)"
      by (simp_all add: utf8_byte_class bit_simps high)
    moreover have "\<not> cp < 0x800" "\<not> cp < 0x80" "\<not> cp < 0x10000"
      using 4 order_trans [of "0x80" "0x10000" cp] order_trans [of "0x800" "0x10000" cp]
      by (auto simp: not_less)
    ultimately show ?thesis
      by (simp add: utf8_encode_def utf8_to_codepoint_def)
  qed
qed

lemma utf8_encode_shape:
  assumes "0x80 \<le> cp" "cp < 0x110000"
  shows "utf8_encode cp \<noteq> []" "bit (hd (utf8_encode cp)) 7"
    "utf8_seq_len (hd (utf8_encode cp)) = length (utf8_encode cp)"
proof -
  note high = codepoint_high_bits [OF assms(2)]
  have "\<not> cp < 0x80" using assms(1) by (simp add: not_less)
  then show "utf8_encode cp \<noteq> []" "bit (hd (utf8_encode cp)) 7"
    "utf8_seq_len (hd (utf8_encode cp)) = length (utf8_encode cp)"
    using high high_bits_zero [of cp 11] high_bits_zero [of cp 16]
    by (simp_all add: utf8_encode_def utf8_seq_len_def utf8_byte_class bit_simps)
qed

lemma convert_encoded_char:
  assumes "cp < 0x110000"
  shows "convert_utf8_to_ascii tm (utf8_encode cp @ rest) =
    ascii_of_codepoint tm cp @ convert_utf8_to_ascii tm rest"
proof (cases "cp < 0x80")
  case True
  then have "\<not> bit (ucast cp :: byte) 7"
    using high_bits_zero [of cp 7] by (simp add: bit_simps)
  with True show ?thesis
    by (simp add: utf8_encode_def ascii_of_codepoint_def utf8_byte_class)
next
  case False
  then have ge: "0x80 \<le> cp" by simp
  obtain c cs where enc: "utf8_encode cp = c # cs"
    using utf8_encode_shape(1) [OF ge assms] by (cases "utf8_encode cp") auto
  have "bit c 7" "utf8_seq_len c = Suc (length cs)"
    using utf8_encode_shape(2,3) [OF ge assms] enc by simp_all
  with enc False utf8_decode_encode [OF assms] show ?thesis
    by (simp add: ascii_of_codepoint_def utf8_byte_class)
qed

text \<open>The byte loop is the character-by-character translation of the name.\<close>

lemma convert_utf8_to_ascii_spec:
  assumes "\<forall>cp \<in> set cps. cp < 0x110000"
  shows "convert_utf8_to_ascii tm (concat (map utf8_encode cps)) =
    concat (map (ascii_of_codepoint tm) cps)"
  using assms by (induction cps) (simp_all add: convert_encoded_char)

lemma convert_utf8_to_ascii_ascii:
  assumes "\<And>cp s. tm cp = Some s \<Longrightarrow> \<forall>c \<in> set s. \<not> bit c 7"
  shows "\<forall>c \<in> set (convert_utf8_to_ascii tm name). \<not> bit c 7"
  using assms
proof (induction tm name rule: convert_utf8_to_ascii.induct)
  case (2 tm c cs)
  have "\<forall>x \<in> set (translit_codepoint tm cp). \<not> bit x 7" for cp
    using "2.prems" by (auto simp: translit_codepoint_def bit_simps split: option.splits)
  then have tr: "\<forall>x \<in> set (case r of None \<Rightarrow> [] | Some (cp, _) \<Rightarrow> translit_codepoint tm cp). \<not> bit x 7"
    for r :: "(u32 \<times> bool) option" by (cases r) auto
  consider "\<not> bit c 7" | "bit c 7" "utf8_seq_len c = 0"
    | "bit c 7" "utf8_seq_len c \<noteq> 0" "length (c # cs) < utf8_seq_len c"
    | "bit c 7" "utf8_seq_len c \<noteq> 0" "\<not> length (c # cs) < utf8_seq_len c" by blast
  then show ?case
  proof cases
    case 1
    with "2.IH"(1) "2.prems" show ?thesis by (simp add: utf8_byte_class)
  next
    case 2
    with "2.IH"(2) "2.prems" show ?thesis by (simp add: utf8_byte_class bit_simps)
  next
    case 3
    then show ?thesis by (simp add: utf8_byte_class)
  next
    case 4
    with "2.IH"(3) "2.prems"
    have "\<forall>x \<in> set (convert_utf8_to_ascii tm (drop (utf8_seq_len c - 1) cs)). \<not> bit x 7"
      by (simp add: utf8_byte_class)
    with 4 tr show ?thesis by (simp add: utf8_byte_class Let_def ball_Un)
  qed
qed simp

text \<open>UTF-8 as a codec: the server's decoder inverts the reference encoder.\<close>

interpretation utf8: codec utf8_encode "\<lambda>bs. map_option fst (utf8_to_codepoint bs)"
  "\<lambda>cp. cp < 0x110000"
  by unfold_locales (simp add: utf8_decode_encode)

end
