(* ===== verification/Fcb.thy ===== *)
theory Fcb
  imports Translit
begin

text \<open>
  File names in FCB form (\<^verbatim>\<open>struct fcb_file_name\<close> of \<^verbatim>\<open>shared/dos.h\<close>) and the functions of
  \<^verbatim>\<open>netmount-server/fs.cpp\<close> on them: comparison, conversion of a short name, matching against
  a mask, and the generation of an unused 8.3 name for a host file name. A
  \<^verbatim>\<open>std::set<fcb_file_name>\<close> is the list of its elements, with membership decided by the
  source's \<^verbatim>\<open>operator<=>\<close>.
\<close>

section \<open>Definitions\<close>

record fcb_file_name =
  name_blank_padded :: "byte list"
  ext_blank_padded :: "byte list"

definition wf_fcb :: "fcb_file_name \<Rightarrow> bool" where
  "wf_fcb f \<longleftrightarrow> length (name_blank_padded f) = 8 \<and> length (ext_blank_padded f) = 3"

definition fcb_bytes :: "fcb_file_name \<Rightarrow> byte list" where
  "fcb_bytes f = name_blank_padded f @ ext_blank_padded f"

definition fcb_of_bytes :: "byte list \<Rightarrow> fcb_file_name" where
  "fcb_of_bytes bs = \<lparr>name_blank_padded = slice bs 0 8, ext_blank_padded = slice bs 8 3\<rparr>"

text \<open>\<^verbatim>\<open>strncmp\<close> on two arrays of equal size: bytes are compared as unsigned values, a common
  NUL ends the comparison.\<close>

fun strncmp :: "byte list \<Rightarrow> byte list \<Rightarrow> int" where
  "strncmp (a # as) (b # bs) =
     (if a \<noteq> b then uint a - uint b else if a = ch_nul then 0 else strncmp as bs)"
| "strncmp _ _ = 0"

definition fcb_compare :: "fcb_file_name \<Rightarrow> fcb_file_name \<Rightarrow> int" where
  "fcb_compare lhs rhs =
     (let ret = strncmp (name_blank_padded lhs) (name_blank_padded rhs)
      in if ret = 0 then strncmp (ext_blank_padded lhs) (ext_blank_padded rhs) else ret)"

definition fcb_eq :: "fcb_file_name \<Rightarrow> fcb_file_name \<Rightarrow> bool" where
  "fcb_eq lhs rhs \<longleftrightarrow> fcb_compare lhs rhs = 0"

definition used_name :: "fcb_file_name \<Rightarrow> fcb_file_name list \<Rightarrow> bool" where
  "used_name f used_names \<longleftrightarrow> list_ex (fcb_eq f) used_names"

definition match_fcb_name_to_mask :: "fcb_file_name \<Rightarrow> fcb_file_name \<Rightarrow> bool" where
  "match_fcb_name_to_mask tmpl nm =
     (let ok = \<lambda>m n. \<not> (ascii_to_upper n \<noteq> ascii_to_upper m \<and> m \<noteq> ch_question)
      in list_all2 ok (name_blank_padded tmpl) (name_blank_padded nm) \<and>
         list_all2 ok (ext_blank_padded tmpl) (ext_blank_padded nm))"

definition pad_blank :: "nat \<Rightarrow> byte list \<Rightarrow> byte list" where
  "pad_blank n bs = bs @ replicate (n - length bs) ch_space"

text \<open>
  At most two leading dots are copied, then the base up to the next dot or eight characters;
  the rest up to the dot is skipped, the extension is cut at three characters or the next dot.
\<close>

definition short_name_to_fcb :: "byte list \<Rightarrow> fcb_file_name" where
  "short_name_to_fcb short_name =
     (let dots = takeWhile (\<lambda>c. c = ch_dot) (take 2 short_name);
          rest = drop (length dots) short_name;
          base = take (8 - length dots) (takeWhile (\<lambda>c. c \<noteq> ch_dot) rest);
          rest = dropWhile (\<lambda>c. c \<noteq> ch_dot) (drop (length base) rest);
          rest = (if rest = [] then [] else tl rest);
          ext = take 3 (takeWhile (\<lambda>c. c \<noteq> ch_dot) rest)
      in \<lparr>name_blank_padded = pad_blank 8 (dots @ map ascii_to_upper base),
          ext_blank_padded = pad_blank 3 (map ascii_to_upper ext)\<rparr>)"

text \<open>\<open>! # $ % & ' ( ) - @ ^ _ ` { } ~\<close>\<close>

definition allowed_special :: "byte list" where
  "allowed_special = [0x21, 0x23, 0x24, 0x25, 0x26, 0x27, 0x28, 0x29, 0x2D, 0x40, 0x5E, 0x5F,
     0x60, 0x7B, 0x7D, 0x7E]"

text \<open>\<open>last_non_space\<close> is \<^verbatim>\<open>find_last_not_of(' ')\<close>; \<open>None\<close> is \<^verbatim>\<open>npos\<close>, above every index.\<close>

definition sanitize_char :: "nat option \<Rightarrow> nat \<Rightarrow> byte \<Rightarrow> byte" where
  "sanitize_char last_non_space idx ch =
     (if ch_A \<le> ch \<and> ch \<le> ch_Z \<or> ch_0 \<le> ch \<and> ch \<le> ch_9 \<or> ch \<in> set allowed_special then ch
      else if ch_a \<le> ch \<and> ch \<le> ch_z then ch - ch_a + ch_A
      else if ch = ch_space \<and> (case last_non_space of None \<Rightarrow> True | Some l \<Rightarrow> idx < l) then ch
      else ch_underscore)"

text \<open>The result is the buffer, the number of characters put into it and whether the name was
  cut. The buffer holds \<open>buf_size\<close> bytes in both cases.\<close>

fun sanitize_loop ::
  "nat \<Rightarrow> nat option \<Rightarrow> nat \<Rightarrow> byte list \<Rightarrow> byte list \<Rightarrow> byte list \<times> nat \<times> bool" where
  "sanitize_loop buf_size lns idx [] out = (pad_blank buf_size out, length out, False)"
| "sanitize_loop buf_size lns idx (ch # chs) out =
     (if length out = buf_size then (out, length out, True)
      else sanitize_loop buf_size lns (Suc idx) chs (out @ [sanitize_char lns idx ch]))"

definition find_last_not_space :: "byte list \<Rightarrow> nat option" where
  "find_last_not_space bs =
     (let t = dropWhile (\<lambda>c. c = ch_space) (rev bs) in if t = [] then None else Some (length t - 1))"

definition sanitize_short_name :: "byte list \<Rightarrow> nat \<Rightarrow> byte list \<times> nat \<times> bool" where
  "sanitize_short_name inp buf_size = sanitize_loop buf_size (find_last_not_space inp) 0 inp []"

text \<open>\<^verbatim>\<open>std::to_chars\<close> of an unsigned value in base ten.\<close>

fun to_chars :: "nat \<Rightarrow> byte list" where
  "to_chars n = (if n < 10 then [ch_0 + of_nat n] else to_chars (n div 10) @ [ch_0 + of_nat (n mod 10)])"

declare to_chars.simps [simp del]

definition counter_len :: "nat \<Rightarrow> nat" where
  "counter_len counter = (if counter > 999 then 4 else if counter > 99 then 3 else if counter > 9 then 2 else 1)"

text \<open>One round of the suffix loop: the shortened base length and the name it tries.\<close>

definition suffix_base_len :: "nat \<Rightarrow> nat \<Rightarrow> nat" where
  "suffix_base_len base_len counter =
     (if base_len + counter_len counter > 8 - 1 then 8 - 1 - counter_len counter else base_len)"

definition suffix_name :: "nat \<Rightarrow> nat \<Rightarrow> byte list \<Rightarrow> byte list" where
  "suffix_name base_len counter nm = overwrite nm base_len (ch_tilde # to_chars counter)"

function suffix_loop ::
  "nat \<Rightarrow> nat \<Rightarrow> fcb_file_name \<Rightarrow> fcb_file_name list \<Rightarrow> bool \<times> fcb_file_name \<times> fcb_file_name list" where
  "suffix_loop counter base_len fcb used_names =
     (if counter < 9999 then
        let base_len = suffix_base_len base_len counter;
            fcb = fcb\<lparr>name_blank_padded := suffix_name base_len counter (name_blank_padded fcb)\<rparr>
        in if \<not> used_name fcb used_names then (True, fcb, fcb # used_names)
           else suffix_loop (Suc counter) base_len fcb used_names
      else (False, fcb, used_names))"
  by pat_completeness auto
termination
  by (relation "measure (\<lambda>(counter, _). 9999 - counter)") auto

declare suffix_loop.simps [simp del]

text \<open>Split at the last dot.\<close>

definition split_ext :: "byte list \<Rightarrow> byte list \<times> byte list" where
  "split_ext long_name =
     (if ch_dot \<in> set long_name then
        (rev (tl (dropWhile (\<lambda>c. c \<noteq> ch_dot) (rev long_name))),
         rev (takeWhile (\<lambda>c. c \<noteq> ch_dot) (rev long_name)))
      else (long_name, []))"

definition file_name_to_83 ::
  "transliteration_map \<Rightarrow> byte list \<Rightarrow> fcb_file_name list \<Rightarrow> bool \<times> fcb_file_name \<times> fcb_file_name list" where
  "file_name_to_83 tm orig_name used_names =
     (let (base, ext) = split_ext (convert_utf8_to_ascii tm orig_name);
          (name8, base_len, base_shortened) = sanitize_short_name base 8;
          (ext3, ext_len, ext_shortened) = sanitize_short_name ext 3;
          fcb = \<lparr>name_blank_padded = name8, ext_blank_padded = ext3\<rparr>
      in if \<not> base_shortened \<and> \<not> ext_shortened \<and> \<not> used_name fcb used_names
         then (True, fcb, fcb # used_names)
         else suffix_loop 1 base_len fcb used_names)"

section \<open>Names without NUL compare like bytes\<close>

lemma strncmp_eq_0:
  "length as = length bs \<Longrightarrow> ch_nul \<notin> set as \<Longrightarrow> strncmp as bs = 0 \<longleftrightarrow> as = bs"
  by (induction as bs rule: strncmp.induct) (auto simp: word_uint_eq_iff)

lemma strncmp_refl [simp]: "strncmp as as = 0"
  by (induction as) auto

lemma fcb_eq_refl [simp]: "fcb_eq f f"
  by (simp add: fcb_eq_def fcb_compare_def)

lemma fcb_eq_iff:
  assumes "wf_fcb f" "wf_fcb g" "ch_nul \<notin> set (fcb_bytes f)"
  shows "fcb_eq f g \<longleftrightarrow> f = g"
  using assms by (auto simp: fcb_eq_def fcb_compare_def wf_fcb_def fcb_bytes_def strncmp_eq_0 Let_def
      split: if_splits)


section \<open>Matching against a mask\<close>

lemma match_fcb_self: "match_fcb_name_to_mask f f"
  by (simp add: match_fcb_name_to_mask_def list_all2_refl)

lemma match_fcb_all:
  "wf_fcb f \<Longrightarrow>
   match_fcb_name_to_mask \<lparr>name_blank_padded = replicate 8 ch_question,
     ext_blank_padded = replicate 3 ch_question\<rparr> f"
  by (simp add: match_fcb_name_to_mask_def wf_fcb_def list_all2_conv_all_nth)

section \<open>Short names\<close>

lemma length_pad_blank [simp]: "length bs \<le> n \<Longrightarrow> length (pad_blank n bs) = n"
  by (simp add: pad_blank_def)

lemma set_pad_blank: "set (pad_blank n bs) \<subseteq> insert ch_space (set bs)"
  by (auto simp: pad_blank_def)

lemma length_takeWhile_take2: "length (takeWhile P (take 2 s)) \<le> 2"
  using length_takeWhile_le [of P "take 2 s"] by simp

lemma wf_short_name_to_fcb [simp]: "wf_fcb (short_name_to_fcb s)"
proof -
  define dots where "dots = takeWhile (\<lambda>c. c = ch_dot) (take 2 s)"
  have "length dots \<le> 2" unfolding dots_def by (rule length_takeWhile_take2)
  then have "length (dots @ map ascii_to_upper (take (8 - length dots) xs)) \<le> 8" for xs
    by (auto simp: min_def)
  then have "length (pad_blank 8 (dots @ map ascii_to_upper (take (8 - length dots) xs))) = 8" for xs
    by (rule length_pad_blank)
  moreover have "length (pad_blank 3 (map ascii_to_upper (take 3 xs))) = 3" for xs
    by simp
  ultimately show ?thesis
    unfolding short_name_to_fcb_def dots_def [symmetric] Let_def wf_fcb_def
    by (simp only: fcb_file_name.simps simp_thms)
qed


section \<open>Characters of generated names\<close>

definition legal_char :: "byte \<Rightarrow> bool" where
  "legal_char c \<longleftrightarrow> ch_A \<le> c \<and> c \<le> ch_Z \<or> ch_0 \<le> c \<and> c \<le> ch_9 \<or> c \<in> set allowed_special \<or> c = ch_space"

definition legal_fcb :: "fcb_file_name \<Rightarrow> bool" where
  "legal_fcb f \<longleftrightarrow> wf_fcb f \<and> (\<forall>c \<in> set (fcb_bytes f). legal_char c)"

lemma legal_sanitize_char: "legal_char (sanitize_char lns idx ch)"
proof (cases "ch_a \<le> ch \<and> ch \<le> ch_z")
  case True
  then have "ch_A \<le> ch - ch_a + ch_A \<and> ch - ch_a + ch_A \<le> ch_Z"
    by (auto simp: word_le_nat_alt unat_word_ariths unat_sub_if')
  with True show ?thesis by (auto simp: sanitize_char_def legal_char_def allowed_special_def)
next
  case False
  then show ?thesis by (auto simp: sanitize_char_def legal_char_def allowed_special_def)
qed

lemma legal_char_facts:
  assumes "legal_char c"
  shows "c \<noteq> ch_nul" "c \<noteq> ch_dot" "ascii_to_upper c = c" "c \<noteq> ch_slash"
proof -
  have "unat c \<in> {32, 33, 35, 36, 37, 38, 39, 40, 41, 45, 64, 94, 95, 96, 123, 125, 126} \<or>
    65 \<le> unat c \<and> unat c \<le> 90 \<or> 48 \<le> unat c \<and> unat c \<le> 57"
    using assms by (auto simp: legal_char_def allowed_special_def word_le_nat_alt)
  then show "c \<noteq> ch_nul" "c \<noteq> ch_dot" "ascii_to_upper c = c" "c \<noteq> ch_slash"
    by (auto simp: ascii_to_upper_def word_le_nat_alt)
qed

lemma legal_char_space [simp]: "legal_char ch_space"
  by (simp add: legal_char_def)

lemma legal_char_tilde [simp]: "legal_char ch_tilde"
  by (simp add: legal_char_def allowed_special_def)

lemma sanitize_loop_result:
  assumes "sanitize_loop n lns idx chs out = (buf, len, short)" "length out \<le> n"
    "\<forall>c \<in> set out. legal_char c"
  shows "length buf = n \<and> len \<le> n \<and> buf = pad_blank n (take len buf) \<and> (\<forall>c \<in> set buf. legal_char c)"
  using assms
proof (induction n lns idx chs out rule: sanitize_loop.induct)
  case (1 n lns idx out)
  then show ?case by (auto simp: pad_blank_def)
next
  case (2 n lns idx ch chs out)
  then show ?case
    by (auto simp: pad_blank_def legal_sanitize_char split: if_splits)
qed

lemma sanitize_short_name_result:
  assumes "sanitize_short_name inp n = (buf, len, short)"
  shows "length buf = n" "len \<le> n" "buf = pad_blank n (take len buf)" "\<forall>c \<in> set buf. legal_char c"
  using sanitize_loop_result [OF assms [unfolded sanitize_short_name_def]] by simp_all


section \<open>Decimal suffixes\<close>

lemma unat_digit: "k < 10 \<Longrightarrow> unat (ch_0 + of_nat k :: byte) = 48 + k"
  by (simp add: unat_word_ariths unat_of_nat)

definition digit :: "byte \<Rightarrow> bool" where
  "digit c \<longleftrightarrow> ch_0 \<le> c \<and> c \<le> ch_9"

lemma digit_plus: "k < 10 \<Longrightarrow> digit (ch_0 + of_nat k)"
  by (simp add: digit_def word_le_nat_alt unat_digit)

lemma digit_facts: "digit c \<Longrightarrow> legal_char c" "digit c \<Longrightarrow> c \<noteq> ch_tilde" "digit c \<Longrightarrow> c \<noteq> ch_space"
  by (auto simp: digit_def legal_char_def)

lemma to_chars_digits: "\<forall>c \<in> set (to_chars n). digit c"
proof (induction n rule: to_chars.induct)
  case (1 n)
  then show ?case by (subst to_chars.simps) (auto simp: digit_plus)
qed

fun decimal_value :: "byte list \<Rightarrow> nat \<Rightarrow> nat" where
  "decimal_value [] acc = acc"
| "decimal_value (c # cs) acc = decimal_value cs (10 * acc + (unat c - 48))"

lemma decimal_value_append:
  "decimal_value (xs @ ys) acc = decimal_value ys (decimal_value xs acc)"
  by (induction xs acc rule: decimal_value.induct) auto

lemma decimal_value_to_chars: "decimal_value (to_chars n) 0 = n"
proof (induction n rule: to_chars.induct)
  case (1 n)
  then show ?case
    by (subst to_chars.simps) (auto simp: decimal_value_append unat_digit)
qed

interpretation decimal: codec to_chars "\<lambda>bs. Some (decimal_value bs 0)" "\<lambda>_. True"
  by unfold_locales (simp add: decimal_value_to_chars)

lemma length_to_chars: "n < 10000 \<Longrightarrow> length (to_chars n) = counter_len n"
proof -
  assume n: "n < 10000"
  have d: "n div 10 div 10 = n div 100" "n div 10 div 10 div 10 = n div 1000"
    by (simp_all flip: div_mult2_eq)
  consider "n < 10" | "10 \<le> n" "n < 100" | "100 \<le> n" "n < 1000" | "1000 \<le> n" by linarith
  then show ?thesis
  proof cases
    case 1
    then show ?thesis by (simp add: to_chars.simps counter_len_def)
  next
    case 2
    then have "n div 10 < 10" by linarith
    with 2 show ?thesis by (simp add: to_chars.simps [of n] to_chars.simps [of "n div 10"] counter_len_def)
  next
    case 3
    then have "\<not> n div 10 < 10" "n div 100 < 10" by linarith+
    with 3 d show ?thesis
      by (simp add: to_chars.simps [of n] to_chars.simps [of "n div 10"]
          to_chars.simps [of "n div 100"] counter_len_def)
  next
    case 4
    then have "\<not> n div 10 < 10" "\<not> n div 100 < 10" "n div 1000 < 10" using n by linarith+
    moreover have "n div 100 div 10 = n div 1000" by (simp flip: div_mult2_eq)
    ultimately show ?thesis using 4 d
      by (simp add: to_chars.simps [of n] to_chars.simps [of "n div 10"]
          to_chars.simps [of "n div 100"] to_chars.simps [of "n div 1000"] counter_len_def)
  qed
qed


section \<open>The suffix loop tries the names base~1, base~2, ...\<close>

text \<open>The name tried in round \<open>c\<close>, from the sanitized base \<open>B\<close> and its length \<open>b\<close>; the loop edits
  the buffer of the previous round in place instead.\<close>

definition suffix_try :: "byte list \<Rightarrow> nat \<Rightarrow> nat \<Rightarrow> byte list" where
  "suffix_try B b c =
     (let b' = min b (7 - counter_len c)
      in take b' B @ ch_tilde # to_chars c @ replicate (7 - b' - counter_len c) ch_space)"

definition base_buffer :: "byte list \<Rightarrow> nat \<Rightarrow> bool" where
  "base_buffer B b \<longleftrightarrow> length B = 8 \<and> b \<le> 8 \<and> B = pad_blank 8 (take b B)"

lemma counter_len_mono: "c \<le> d \<Longrightarrow> counter_len c \<le> counter_len d"
  by (auto simp: counter_len_def)

lemma counter_len_bounds: "1 \<le> counter_len c" "counter_len c \<le> 4"
  by (auto simp: counter_len_def)

lemma length_suffix_try: "base_buffer B b \<Longrightarrow> c < 10000 \<Longrightarrow> length (suffix_try B b c) = 8"
  using counter_len_bounds [of c]
  by (auto simp: suffix_try_def base_buffer_def Let_def length_to_chars min_def)

lemma suffix_name_eq:
  assumes "length nm = 8" "b' = min b (7 - counter_len c)" "c < 10000" "take b' nm = take b' B"
    and "drop (b' + 1 + counter_len c) nm = replicate (7 - b' - counter_len c) ch_space"
  shows "suffix_name b' c nm = suffix_try B b c"
  using assms by (simp add: suffix_name_def overwrite_def suffix_try_def Let_def length_to_chars)

lemma drop_pad_blank:
  "length xs \<le> k \<Longrightarrow> drop k (pad_blank n xs) = replicate (n - k) ch_space"
  by (simp add: pad_blank_def)

lemma suffix_round_first:
  assumes "base_buffer B b" "c < 10000"
  shows "suffix_base_len b c = min b (7 - counter_len c)"
    and "suffix_name (min b (7 - counter_len c)) c B = suffix_try B b c"
proof -
  show "suffix_base_len b c = min b (7 - counter_len c)"
    using counter_len_bounds [of c] by (auto simp: suffix_base_len_def min_def)
  let ?b = "min b (7 - counter_len c)"
  have "drop (?b + 1 + counter_len c) B = replicate (7 - ?b - counter_len c) ch_space"
  proof (cases "b \<le> 7 - counter_len c")
    case True
    have "drop (?b + 1 + counter_len c) (pad_blank 8 (take b B)) = replicate (8 - (?b + 1 + counter_len c)) ch_space"
      using True by (intro drop_pad_blank) simp
    with assms(1) show ?thesis by (simp add: base_buffer_def)
  next
    case False
    with assms(1) counter_len_bounds [of c] show ?thesis by (simp add: base_buffer_def min_def)
  qed
  then show "suffix_name ?b c B = suffix_try B b c"
    using assms by (intro suffix_name_eq) (simp_all add: base_buffer_def)
qed

lemma suffix_round_next:
  assumes "base_buffer B b" "Suc c < 10000"
  shows "suffix_base_len (min b (7 - counter_len c)) (Suc c) = min b (7 - counter_len (Suc c))"
    and "suffix_name (min b (7 - counter_len (Suc c))) (Suc c) (suffix_try B b c) = suffix_try B b (Suc c)"
proof -
  note len = counter_len_bounds [of c] counter_len_bounds [of "Suc c"] counter_len_mono [of c "Suc c"]
  show "suffix_base_len (min b (7 - counter_len c)) (Suc c) = min b (7 - counter_len (Suc c))"
    using len by (auto simp: suffix_base_len_def min_def)
  let ?b = "min b (7 - counter_len (Suc c))" and ?d = "min b (7 - counter_len c)"
  have le: "?b \<le> ?d" using len by auto
  have "take ?b (suffix_try B b c) = take ?b B"
    using le assms(1) by (simp add: suffix_try_def Let_def base_buffer_def min_absorb1)
  moreover have "drop (?b + 1 + counter_len (Suc c)) (suffix_try B b c) =
      replicate (7 - ?b - counter_len (Suc c)) ch_space"
  proof (cases "b \<le> 7 - counter_len (Suc c)")
    case True
    with len assms show ?thesis
      by (auto simp: suffix_try_def Let_def base_buffer_def length_to_chars min_def)
  next
    case False
    with length_suffix_try [OF assms(1), of c] assms(2) len show ?thesis
      by (simp add: min_def)
  qed
  ultimately show "suffix_name ?b (Suc c) (suffix_try B b c) = suffix_try B b (Suc c)"
    using assms by (intro suffix_name_eq) (simp_all add: length_suffix_try)
qed

text \<open>The loop finds the first unused name of the sequence; it gives up after 9998 names.\<close>

lemma suffix_loop_from:
  assumes "base_buffer B b" "1 \<le> c" "c < 9999"
    and "suffix_base_len bl c = min b (7 - counter_len c)"
    and "suffix_name (min b (7 - counter_len c)) c (name_blank_padded fcb) = suffix_try B b c"
    and F: "\<And>k. F k = fcb\<lparr>name_blank_padded := suffix_try B b k\<rparr>"
  shows "suffix_loop c bl fcb used =
    (case find (\<lambda>k. \<not> used_name (F k) used) [c..<9999] of
       Some k \<Rightarrow> (True, F k, F k # used) | None \<Rightarrow> (False, F 9998, used))"
  using assms
proof (induction "9998 - c" arbitrary: c bl fcb)
  case 0
  then have c: "c = 9998" by simp
  with 0 show ?case
    by (subst suffix_loop.simps) (simp add: suffix_loop.simps [of 9999] F Let_def)
next
  case (Suc d)
  have upt: "[c..<9999] = c # [Suc c..<9999]" using Suc.prems by (simp add: upt_conv_Cons)
  show ?case
  proof (cases "used_name (F c) used")
    case False
    with Suc.prems upt show ?thesis by (subst suffix_loop.simps) (simp add: Let_def)
  next
    case True
    have "suffix_loop c bl fcb used = suffix_loop (Suc c) (min b (7 - counter_len c)) (F c) used"
      using Suc.prems True by (subst suffix_loop.simps) (simp add: Let_def)
    also have "\<dots> = (case find (\<lambda>k. \<not> used_name (F k) used) [Suc c..<9999] of
       Some k \<Rightarrow> (True, F k, F k # used) | None \<Rightarrow> (False, F 9998, used))"
      using Suc.prems Suc.hyps(2) suffix_round_next [of B b c]
      by (intro Suc.hyps(1)) simp_all
    finally show ?thesis using True upt by simp
  qed
qed


lemma suffix_try_nth:
  assumes "base_buffer B b" "c < 10000"
  defines "b' \<equiv> min b (7 - counter_len c)"
  shows "suffix_try B b c ! b' = ch_tilde"
    and "i < counter_len c \<Longrightarrow> suffix_try B b c ! (b' + 1 + i) = to_chars c ! i"
    and "b' + 1 + counter_len c \<le> j \<Longrightarrow> j < 8 \<Longrightarrow> suffix_try B b c ! j = ch_space"
proof -
  have len: "length (take b' B) = b'"
    using assms by (simp add: base_buffer_def)
  have eq: "suffix_try B b c = take b' B @ ch_tilde # to_chars c @ replicate (7 - b' - counter_len c) ch_space"
    by (simp add: suffix_try_def Let_def b'_def)
  show "suffix_try B b c ! b' = ch_tilde"
    using len by (simp add: eq nth_append)
  show "i < counter_len c \<Longrightarrow> suffix_try B b c ! (b' + 1 + i) = to_chars c ! i"
    using len assms(2) by (simp add: eq nth_append length_to_chars)
  show "b' + 1 + counter_len c \<le> j \<Longrightarrow> j < 8 \<Longrightarrow> suffix_try B b c ! j = ch_space"
    using len assms(2) by (auto simp: eq nth_append nth_Cons' length_to_chars)
qed

lemma suffix_try_less:
  assumes B: "base_buffer B b" and "c < d" "d < 10000"
  shows "suffix_try B b c \<noteq> suffix_try B b d"
proof
  assume eq: "suffix_try B b c = suffix_try B b d"
  let ?b = "min b (7 - counter_len c)" and ?e = "min b (7 - counter_len d)"
  note len = counter_len_bounds [of c] counter_len_bounds [of d] counter_len_mono [of c d]
  note c = suffix_try_nth [OF B, of c] and d = suffix_try_nth [OF B, of d]
  have dig: "digit (to_chars d ! i)" if "i < counter_len d" for i
    using that to_chars_digits [of d] length_to_chars [of d] assms by (simp add: nth_mem)
  show False
  proof (cases "?e < ?b")
    case True
    then have "?b = ?e + 1 + (?b - ?e - 1)" "?b - ?e - 1 < counter_len d" using len assms by auto
    then have "suffix_try B b d ! ?b = to_chars d ! (?b - ?e - 1)"
      using d(2) [of "?b - ?e - 1"] assms by simp
    moreover have "suffix_try B b c ! ?b = ch_tilde" using c(1) assms by simp
    ultimately have "to_chars d ! (?b - ?e - 1) = ch_tilde" using eq by simp
    then show False
      using dig [of "?b - ?e - 1"] \<open>?b - ?e - 1 < counter_len d\<close> by (simp add: digit_def)
  next
    case False
    then have be: "?e = ?b" using len assms by auto
    show False
    proof (cases "counter_len c = counter_len d")
      case True
      have "to_chars c = to_chars d"
      proof (rule nth_equalityI)
        show "length (to_chars c) = length (to_chars d)"
          using True assms by (simp add: length_to_chars)
        fix i assume "i < length (to_chars c)"
        then have i: "i < counter_len c" using assms by (simp add: length_to_chars)
        have "suffix_try B b c ! (?b + 1 + i) = to_chars c ! i"
          using i assms by (intro c(2)) simp_all
        moreover have "suffix_try B b d ! (?e + 1 + i) = to_chars d ! i"
          using i True assms by (intro d(2)) simp_all
        ultimately show "to_chars c ! i = to_chars d ! i" by (simp only: eq be)
      qed
      then show False using decimal.enc_inject [of c d] assms by simp
    next
      case lt: False
      let ?j = "?b + 1 + counter_len c"
      have "?j < 8" "counter_len c < counter_len d" using lt len be assms by auto
      moreover have "suffix_try B b c ! ?j = ch_space" using c(3) [of ?j] assms calculation by simp
      moreover have "suffix_try B b d ! ?j = to_chars d ! counter_len c"
        using d(2) [of "counter_len c"] be assms calculation by simp
      ultimately have "to_chars d ! counter_len c = ch_space" using eq by simp
      then show False
        using dig [of "counter_len c"] \<open>counter_len c < counter_len d\<close> by (simp add: digit_def)
    qed
  qed
qed

lemma suffix_try_inj: "base_buffer B b \<Longrightarrow> inj_on (suffix_try B b) {..<10000}"
  by (rule linorder_inj_onI) (auto dest: suffix_try_less)

lemma suffix_try_legal:
  "\<forall>x \<in> set B. legal_char x \<Longrightarrow> \<forall>x \<in> set (suffix_try B b c). legal_char x"
  using to_chars_digits [of c] digit_facts(1)
  by (auto simp: suffix_try_def Let_def dest: in_set_takeD)


section \<open>The generated 8.3 name\<close>

text \<open>The sanitized parts of a host name, as the code computes them.\<close>

lemma file_name_to_83_cases:
  obtains (direct) fcb where "file_name_to_83 tm n used = (True, fcb, fcb # used)" "legal_fcb fcb"
      "\<not> used_name fcb used"
    | (suffixed) B b e where "base_buffer B b" "\<forall>x \<in> set (B @ e). legal_char x" "length e = 3"
      "file_name_to_83 tm n used =
        (let F = \<lambda>k. \<lparr>name_blank_padded = suffix_try B b k, ext_blank_padded = e\<rparr>
         in case find (\<lambda>k. \<not> used_name (F k) used) [1..<9999] of
              Some k \<Rightarrow> (True, F k, F k # used) | None \<Rightarrow> (False, F 9998, used))"
proof -
  obtain base ext where split: "split_ext (convert_utf8_to_ascii tm n) = (base, ext)" by fastforce
  obtain B b sb where B: "sanitize_short_name base 8 = (B, b, sb)" by (cases "sanitize_short_name base 8")
  obtain e el se where e: "sanitize_short_name ext 3 = (e, el, se)" by (cases "sanitize_short_name ext 3")
  note rB = sanitize_short_name_result [OF B] and re = sanitize_short_name_result [OF e]
  let ?fcb = "\<lparr>name_blank_padded = B, ext_blank_padded = e\<rparr>"
  let ?F = "\<lambda>k. \<lparr>name_blank_padded = suffix_try B b k, ext_blank_padded = e\<rparr>"
  have legal: "legal_fcb ?fcb"
    using rB re by (auto simp: legal_fcb_def wf_fcb_def fcb_bytes_def)
  have buf: "base_buffer B b" using rB by (simp add: base_buffer_def)
  have res: "file_name_to_83 tm n used =
      (if \<not> sb \<and> \<not> se \<and> \<not> used_name ?fcb used then (True, ?fcb, ?fcb # used)
       else suffix_loop 1 b ?fcb used)"
    by (simp add: file_name_to_83_def split B e Let_def)
  show thesis
  proof (cases "\<not> sb \<and> \<not> se \<and> \<not> used_name ?fcb used")
    case True
    with res legal show thesis by (intro direct) auto
  next
    case False
    have "suffix_loop 1 b ?fcb used =
      (case find (\<lambda>k. \<not> used_name (?F k) used) [1..<9999] of
         Some k \<Rightarrow> (True, ?F k, ?F k # used) | None \<Rightarrow> (False, ?F 9998, used))"
      using buf suffix_round_first [OF buf, of 1] by (intro suffix_loop_from) simp_all
    with False res buf rB re show thesis by (intro suffixed [of B b e]) auto
  qed
qed

lemma legal_suffix_fcb:
  assumes "base_buffer B b" "\<forall>x \<in> set (B @ e). legal_char x" "length e = 3" "k < 10000"
  shows "legal_fcb \<lparr>name_blank_padded = suffix_try B b k, ext_blank_padded = e\<rparr>"
  using assms suffix_try_legal [of B b k]
  by (auto simp: legal_fcb_def wf_fcb_def fcb_bytes_def length_suffix_try)

lemma find_Some_upt: "find P [a..<c] = Some k \<Longrightarrow> P k \<and> k < c"
  by (auto simp: find_Some_iff)

theorem file_name_to_83_fresh:
  assumes "file_name_to_83 tm n used = (True, fcb, used')"
  shows "\<not> used_name fcb used" "used' = fcb # used" "legal_fcb fcb"
proof -
  have "\<not> used_name fcb used \<and> used' = fcb # used \<and> legal_fcb fcb"
  proof (rule file_name_to_83_cases [of tm n used])
    fix B b e
    assume *: "base_buffer B b" "\<forall>x \<in> set (B @ e). legal_char x" "length e = 3"
      "file_name_to_83 tm n used =
        (let F = \<lambda>k. \<lparr>name_blank_padded = suffix_try B b k, ext_blank_padded = e\<rparr>
         in case find (\<lambda>k. \<not> used_name (F k) used) [1..<9999] of
              Some k \<Rightarrow> (True, F k, F k # used) | None \<Rightarrow> (False, F 9998, used))"
    with assms show ?thesis
      by (auto simp: Let_def legal_suffix_fcb dest!: find_Some_upt split: option.splits)
  qed (use assms in auto)
  then show "\<not> used_name fcb used" "used' = fcb # used" "legal_fcb fcb" by auto
qed

lemma file_name_to_83_legal: "file_name_to_83 tm n used = (ok, fcb, used') \<Longrightarrow> legal_fcb fcb"
  by (rule file_name_to_83_cases [of tm n used])
    (auto simp: Let_def legal_suffix_fcb dest!: find_Some_upt split: option.splits)

text \<open>The generator gives up only when 9998 names are taken.\<close>

lemma used_name_iff: "\<forall>g \<in> set used. legal_fcb g \<Longrightarrow> legal_fcb f \<Longrightarrow> used_name f used \<longleftrightarrow> f \<in> set used"
proof -
  assume used: "\<forall>g \<in> set used. legal_fcb g" and f: "legal_fcb f"
  have "ch_nul \<notin> set (fcb_bytes f)"
    using f legal_char_facts(1) by (auto simp: legal_fcb_def)
  then have "fcb_eq f g \<longleftrightarrow> f = g" if "g \<in> set used" for g
    using that used f by (simp add: legal_fcb_def fcb_eq_iff)
  then show ?thesis by (auto simp: used_name_def list_ex_iff)
qed

theorem file_name_to_83_total:
  assumes "\<forall>g \<in> set used. legal_fcb g" "file_name_to_83 tm n used = (False, fcb, used')"
  shows "9998 \<le> length used"
proof (rule file_name_to_83_cases [of tm n used])
  fix B b e
  let ?F = "\<lambda>k. \<lparr>name_blank_padded = suffix_try B b k, ext_blank_padded = e\<rparr>"
  assume *: "base_buffer B b" "\<forall>x \<in> set (B @ e). legal_char x" "length e = 3"
    "file_name_to_83 tm n used =
      (let F = ?F in case find (\<lambda>k. \<not> used_name (F k) used) [1..<9999] of
            Some k \<Rightarrow> (True, F k, F k # used) | None \<Rightarrow> (False, F 9998, used))"
  with assms(2) have "find (\<lambda>k. \<not> used_name (?F k) used) [1..<9999] = None"
    by (auto simp: Let_def split: option.splits)
  then have "?F ` {1..<9999} \<subseteq> set used"
    using used_name_iff [OF assms(1) legal_suffix_fcb [OF *(1-3)]] by (auto simp: find_None_iff)
  moreover have "inj_on ?F {1..<9999}"
    using suffix_try_inj [OF *(1)] by (auto simp: inj_on_def)
  then have "card (?F ` {1..<9999}) = 9998" by (simp add: card_image)
  ultimately show ?thesis
    by (metis card_length card_mono List.finite_set order_trans)
qed (use assms in auto)


section \<open>Names as the client sends them back\<close>

text \<open>How DOS writes an FCB name: trailing blanks dropped, a dot before a non-empty extension.\<close>

definition rstrip :: "byte list \<Rightarrow> byte list" where
  "rstrip bs = rev (dropWhile (\<lambda>c. c = ch_space) (rev bs))"

definition dos_display :: "fcb_file_name \<Rightarrow> byte list" where
  "dos_display f =
     rstrip (name_blank_padded f) @
     (if rstrip (ext_blank_padded f) = [] then [] else ch_dot # rstrip (ext_blank_padded f))"

lemma pad_blank_rstrip: "length bs = n \<Longrightarrow> pad_blank n (rstrip bs) = bs"
proof -
  assume n: "length bs = n"
  have "rev bs = takeWhile (\<lambda>c. c = ch_space) (rev bs) @ dropWhile (\<lambda>c. c = ch_space) (rev bs)"
    by simp
  moreover have "takeWhile (\<lambda>c. c = ch_space) xs = replicate (length (takeWhile (\<lambda>c. c = ch_space) xs)) ch_space"
    for xs by (induction xs) auto
  ultimately have "rev bs = replicate (length (takeWhile (\<lambda>c. c = ch_space) (rev bs))) ch_space
      @ dropWhile (\<lambda>c. c = ch_space) (rev bs)" by metis
  then obtain k where k: "rev bs = replicate k ch_space @ dropWhile (\<lambda>c. c = ch_space) (rev bs)" by metis
  then have "rev (rev bs) = rstrip bs @ replicate k ch_space"
    unfolding rstrip_def by (metis rev_append rev_replicate)
  then have bs: "bs = rstrip bs @ replicate k ch_space" by simp
  then have "length bs = length (rstrip bs) + k" by (metis length_append length_replicate)
  with n have "n - length (rstrip bs) = k" by simp
  with bs show ?thesis by (simp add: pad_blank_def)
qed

lemma set_rstrip: "set (rstrip bs) \<subseteq> set bs"
  by (auto simp: rstrip_def dest: set_dropWhileD)

lemma length_rstrip: "length (rstrip bs) \<le> length bs"
  using length_dropWhile_le [of _ "rev bs"] by (simp add: rstrip_def)

lemma short_name_to_fcb_split:
  assumes base: "base \<noteq> []" "ch_dot \<notin> set base" "length base \<le> 8"
    and ext: "ch_dot \<notin> set ext" "length ext \<le> 3"
    and s: "s = base @ (if ext = [] then [] else ch_dot # ext)"
  shows "short_name_to_fcb s =
    \<lparr>name_blank_padded = pad_blank 8 (map ascii_to_upper base),
     ext_blank_padded = pad_blank 3 (map ascii_to_upper ext)\<rparr>"
proof -
  have d: "takeWhile (\<lambda>c. c = ch_dot) (take 2 s) = []"
    using base s by (cases base) auto
  have b: "takeWhile (\<lambda>c. c \<noteq> ch_dot) s = base"
  proof -
    have "\<And>x. x \<in> set base \<Longrightarrow> x \<noteq> ch_dot" using base by auto
    then show ?thesis unfolding s by (subst takeWhile_append2) auto
  qed
  have r: "dropWhile (\<lambda>c. c \<noteq> ch_dot) (drop (length base) s) = (if ext = [] then [] else ch_dot # ext)"
    by (simp add: s)
  have e: "takeWhile (\<lambda>c. c \<noteq> ch_dot) ext = ext"
    using ext by (auto simp: takeWhile_eq_all_conv)
  have t: "take 8 base = base" "take 3 ext = ext" using base ext by simp_all
  have tl: "(if (if ext = [] then [] else ch_dot # ext) = [] then [] else tl (if ext = [] then [] else ch_dot # ext)) = ext"
    by simp
  show ?thesis
    unfolding short_name_to_fcb_def Let_def d list.size drop_0 diff_zero b t r tl e append_Nil ..
qed

theorem short_name_to_fcb_display:
  assumes "legal_fcb f" "rstrip (name_blank_padded f) \<noteq> []"
  shows "short_name_to_fcb (map ascii_to_lower (dos_display f)) = f"
proof -
  let ?b = "rstrip (name_blank_padded f)" and ?e = "rstrip (ext_blank_padded f)"
  have legal: "\<forall>c \<in> set ?b \<union> set ?e. legal_char c"
    using assms(1) set_rstrip by (fastforce simp: legal_fcb_def fcb_bytes_def)
  have len: "length (name_blank_padded f) = 8" "length (ext_blank_padded f) = 3"
    using assms(1) by (simp_all add: legal_fcb_def wf_fcb_def)
  have up: "map ascii_to_upper (map ascii_to_lower ?b) = ?b"
    "map ascii_to_upper (map ascii_to_lower ?e) = ?e"
    using legal legal_char_facts(3) by (auto simp: map_idI)
  have "short_name_to_fcb (map ascii_to_lower (dos_display f)) =
    \<lparr>name_blank_padded = pad_blank 8 (map ascii_to_upper (map ascii_to_lower ?b)),
     ext_blank_padded = pad_blank 3 (map ascii_to_upper (map ascii_to_lower ?e))\<rparr>"
  proof (rule short_name_to_fcb_split)
    show "map ascii_to_lower ?b \<noteq> []" using assms(2) by simp
    have "\<not> legal_char ch_dot" using legal_char_facts(2) by blast
    then show "ch_dot \<notin> set (map ascii_to_lower ?b)" "ch_dot \<notin> set (map ascii_to_lower ?e)"
      using legal by (auto simp: ascii_case_dot(2) eq_commute [of ch_dot])
    show "length (map ascii_to_lower ?b) \<le> 8" "length (map ascii_to_lower ?e) \<le> 3"
      using length_rstrip [of "name_blank_padded f"] length_rstrip [of "ext_blank_padded f"] len by simp_all
    show "map ascii_to_lower (dos_display f) =
        map ascii_to_lower ?b @ (if map ascii_to_lower ?e = [] then [] else ch_dot # map ascii_to_lower ?e)"
      by (simp add: dos_display_def)
  qed
  also have "\<dots> = f" using len by (simp only: up pad_blank_rstrip) simp
  finally show ?thesis .
qed

text \<open>
  A name whose base is empty is not found again: the host file \<^verbatim>\<open>.a\<close> is listed with a blank base
  and the extension \<open>A\<close>, but the name \<^verbatim>\<open>.a\<close> that a client sends is read as a base that
  starts with a dot.
\<close>

lemma dot_file_not_found_again:
  "file_name_to_83 Map.empty [ch_dot, ch_a] [] =
     (True, \<lparr>name_blank_padded = replicate 8 ch_space, ext_blank_padded = [ch_A, ch_space, ch_space]\<rparr>,
      [\<lparr>name_blank_padded = replicate 8 ch_space, ext_blank_padded = [ch_A, ch_space, ch_space]\<rparr>])"
  "short_name_to_fcb (dos_display
     \<lparr>name_blank_padded = replicate 8 ch_space, ext_blank_padded = [ch_A, ch_space, ch_space]\<rparr>) \<noteq>
   \<lparr>name_blank_padded = replicate 8 ch_space, ext_blank_padded = [ch_A, ch_space, ch_space]\<rparr>"
  by code_simp+

end
