(* ===== verification/HostFs.thy ===== *)
theory HostFs
  imports Fcb
begin

text \<open>
  The part of the C++ standard library and of the POSIX system calls below it that the server
  uses: \<^verbatim>\<open>std::filesystem::path\<close>, the file system operations, \<^verbatim>\<open>stdio\<close> on regular files, the FAT
  attribute \<^verbatim>\<open>ioctl\<close> and extended attributes. The host file system is an explicit store from
  locations (the names on the way from the root directory) to nodes. Every call may also fail
  with an arbitrary error code of the environment (permissions, input/output errors): the field
  \<open>h_faults\<close> says which call on which location does. Not modelled: hard links, the time stamps of
  directories, limits on the length of names.
\<close>

section \<open>Paths\<close>

text \<open>
  A path is known by its elements, as the iterator of \<^verbatim>\<open>std::filesystem::path\<close> gives them: the
  root directory (here a flag) and the names; a trailing separator gives an empty last name.
  Equality of paths is equality of the elements.
\<close>

record path =
  p_abs :: bool
  p_elems :: "byte list list"

definition empty_path :: path where
  "empty_path = \<lparr>p_abs = False, p_elems = []\<rparr>"

text \<open>Splitting at separators; runs of separators count as one.\<close>

fun split_slash :: "byte list \<Rightarrow> byte list \<Rightarrow> byte list list" where
  "split_slash acc [] = [acc]"
| "split_slash acc (c # cs) =
     (if c = ch_slash then acc # split_slash [] cs else split_slash (acc @ [c]) cs)"

definition path_of_string :: "byte list \<Rightarrow> path" where
  "path_of_string s =
     (let names = filter (\<lambda>e. e \<noteq> []) (split_slash [] s)
      in \<lparr>p_abs = (s \<noteq> [] \<and> hd s = ch_slash),
          p_elems = (if names \<noteq> [] \<and> last s = ch_slash then names @ [[]] else names)\<rparr>)"

fun join_slash :: "byte list list \<Rightarrow> byte list" where
  "join_slash [] = []"
| "join_slash [e] = e"
| "join_slash (e # es) = e @ [ch_slash] @ join_slash es"

definition path_string :: "path \<Rightarrow> byte list" where
  "path_string p = (if p_abs p then [ch_slash] else []) @ join_slash (p_elems p)"

definition relative_path :: "path \<Rightarrow> path" where
  "relative_path p = \<lparr>p_abs = False, p_elems = p_elems p\<rparr>"

definition drop_trailing :: "byte list list \<Rightarrow> byte list list" where
  "drop_trailing es = (if es \<noteq> [] \<and> last es = [] then butlast es else es)"

text \<open>\<^verbatim>\<open>operator/\<close>\<close>

definition path_append :: "path \<Rightarrow> path \<Rightarrow> path" where
  "path_append p q =
     (if p_abs q then q
      else let es = drop_trailing (p_elems p)
           in \<lparr>p_abs = p_abs p,
               p_elems = (if p_elems q = [] then (if es = [] then [] else es @ [[]])
                          else es @ p_elems q)\<rparr>)"

definition name_path :: "byte list \<Rightarrow> path" where
  "name_path nm = \<lparr>p_abs = False, p_elems = (if nm = [] then [] else [nm])\<rparr>"

definition append_name :: "path \<Rightarrow> byte list \<Rightarrow> path" where
  "append_name p nm = path_append p (name_path nm)"

definition parent_path :: "path \<Rightarrow> path" where
  "parent_path p = p\<lparr>p_elems := butlast (p_elems p)\<rparr>"

definition filename :: "path \<Rightarrow> byte list" where
  "filename p = (if p_elems p = [] then [] else last (p_elems p))"

definition path_is_empty :: "path \<Rightarrow> bool" where
  "path_is_empty p \<longleftrightarrow> \<not> p_abs p \<and> p_elems p = []"

text \<open>The elements in the order of iteration, the root directory included.\<close>

definition path_parts :: "path \<Rightarrow> byte list list" where
  "path_parts p = (if p_abs p then [[ch_slash]] else []) @ p_elems p"

abbreviation dot :: "byte list" where "dot \<equiv> [ch_dot]"
abbreviation dotdot :: "byte list" where "dotdot \<equiv> [ch_dot, ch_dot]"


section \<open>The host\<close>

type_synonym loc = "byte list list"

datatype inode = File "byte list" | Dir | Symlink path

record node =
  n_kind :: inode
  n_mtime :: int
  n_fat :: u32
  n_xattr :: "byte list option"

type_synonym tree = "(loc \<times> node) list"

datatype sysop =
    SysStat | SysOpen | SysSeek | SysRead | SysFlush | SysMkdir | SysRemove | SysRename
  | SysReaddir | SysChdir | SysUtime | SysTruncate | SysSpace | SysIoctl | SysXattr

record host =
  h_tree :: tree
  h_cwd :: loc
  h_clock :: int
  h_faults :: "sysop \<Rightarrow> loc \<Rightarrow> errc option"
  h_space :: "loc \<Rightarrow> u64 \<times> u64"
  h_fat_fs :: bool
  h_xattr_fs :: bool

text \<open>A path given to the system ends at its first NUL byte, because it is passed as a C string.\<close>

fun os_elems :: "byte list list \<Rightarrow> byte list list" where
  "os_elems [] = []"
| "os_elems (e # es) =
     (if ch_nul \<in> set e then [takeWhile (\<lambda>c. c \<noteq> ch_nul) e] else e # os_elems es)"

text \<open>
  Path resolution. Each name is looked up in the directory reached so far; symbolic links are
  followed (the last one only if asked for), at most \<open>n\<close> of them. The result is a location that
  exists, or that does not exist in a directory that does.
\<close>

function walk :: "tree \<Rightarrow> bool \<Rightarrow> nat \<Rightarrow> loc \<Rightarrow> byte list list \<Rightarrow> errc + loc" where
  "walk t follow n cur [] = Inr cur"
| "walk t follow n cur (c # cs) =
     (case map_of t cur of
        None \<Rightarrow> Inl no_such_file_or_directory
      | Some nd \<Rightarrow>
          if n_kind nd \<noteq> Dir then Inl not_a_directory
          else if c = [] \<or> c = dot then walk t follow n cur cs
          else if c = dotdot then walk t follow n (butlast cur) cs
          else (case map_of t (cur @ [c]) of
              None \<Rightarrow> if cs = [] then Inr (cur @ [c]) else Inl no_such_file_or_directory
            | Some nd' \<Rightarrow>
                (case n_kind nd' of
                   Symlink target \<Rightarrow>
                     if cs = [] \<and> \<not> follow then Inr (cur @ [c])
                     else if n = 0 then Inl too_many_symbolic_link_levels
                     else walk t follow (n - 1) (if p_abs target then [] else cur)
                            (p_elems target @ cs)
                 | _ \<Rightarrow> walk t follow n (cur @ [c]) cs)))"
  by pat_completeness auto
termination
  by (relation "measures [\<lambda>(t, follow, n, cur, cs). n, \<lambda>(t, follow, n, cur, cs). length cs]") auto

definition resolve :: "bool \<Rightarrow> host \<Rightarrow> path \<Rightarrow> errc + loc" where
  "resolve follow h p =
     (let es = os_elems (p_elems p)
      in if \<not> p_abs p \<and> (es = [] \<or> es = [[]]) then Inl no_such_file_or_directory
         else walk (h_tree h) follow 40 (if p_abs p then [] else h_cwd h) es)"

text \<open>A call on a path: resolution, then the fault the environment has for it.\<close>

definition access :: "sysop \<Rightarrow> bool \<Rightarrow> host \<Rightarrow> path \<Rightarrow> errc + loc" where
  "access op follow h p =
     (case resolve follow h p of
        Inl e \<Rightarrow> Inl e
      | Inr loc \<Rightarrow> (case h_faults h op loc of Some e \<Rightarrow> Inl e | None \<Rightarrow> Inr loc))"

definition access_node :: "sysop \<Rightarrow> bool \<Rightarrow> host \<Rightarrow> path \<Rightarrow> errc + (loc \<times> node)" where
  "access_node op follow h p =
     (case access op follow h p of
        Inl e \<Rightarrow> Inl e
      | Inr loc \<Rightarrow> (case map_of (h_tree h) loc of
          None \<Rightarrow> Inl no_such_file_or_directory
        | Some nd \<Rightarrow> Inr (loc, nd)))"


section \<open>Queries\<close>

text \<open>\<^verbatim>\<open>status\<close> and \<^verbatim>\<open>symlink_status\<close>: a missing file is not an error, \<open>None\<close>.\<close>

definition fs_status :: "bool \<Rightarrow> host \<Rightarrow> path \<Rightarrow> errc + node option" where
  "fs_status follow h p =
     (case access_node SysStat follow h p of
        Inr (_, nd) \<Rightarrow> Inr (Some nd)
      | Inl e \<Rightarrow> if e = no_such_file_or_directory \<or> e = not_a_directory then Inr None else Inl e)"

definition exists :: "host \<Rightarrow> path \<Rightarrow> errc + bool" where
  "exists h p = map_sum id (\<lambda>st. st \<noteq> None) (fs_status True h p)"

definition is_directory :: "host \<Rightarrow> path \<Rightarrow> errc + bool" where
  "is_directory h p =
     map_sum id (\<lambda>st. case st of Some nd \<Rightarrow> n_kind nd = Dir | None \<Rightarrow> False) (fs_status True h p)"

definition is_symlink :: "host \<Rightarrow> path \<Rightarrow> errc + bool" where
  "is_symlink h p =
     map_sum id (\<lambda>st. case st of Some nd \<Rightarrow> (case n_kind nd of Symlink _ \<Rightarrow> True | _ \<Rightarrow> False)
       | None \<Rightarrow> False) (fs_status False h p)"

text \<open>The overloads with \<^verbatim>\<open>std::error_code\<close> return \<open>False\<close> on an error.\<close>

definition no_throw :: "errc + bool \<Rightarrow> bool" where
  "no_throw r = (case r of Inl _ \<Rightarrow> False | Inr b \<Rightarrow> b)"

definition equivalent :: "host \<Rightarrow> path \<Rightarrow> path \<Rightarrow> errc + bool" where
  "equivalent h p q =
     (case access_node SysStat True h p of
        Inl e \<Rightarrow> Inl e
      | Inr (l1, _) \<Rightarrow> (case access_node SysStat True h q of
          Inl e \<Rightarrow> Inl e
        | Inr (l2, _) \<Rightarrow> Inr (l1 = l2)))"

text \<open>The names in a directory, in the order in which the host returns them.\<close>

definition children :: "tree \<Rightarrow> loc \<Rightarrow> byte list list" where
  "children t loc = map (last \<circ> fst) (filter (\<lambda>(l, _). l \<noteq> [] \<and> butlast l = loc) t)"

definition directory_entries :: "host \<Rightarrow> path \<Rightarrow> errc + byte list list" where
  "directory_entries h p =
     (case access_node SysReaddir True h p of
        Inl e \<Rightarrow> Inl e
      | Inr (loc, nd) \<Rightarrow> if n_kind nd = Dir then Inr (children (h_tree h) loc) else Inl not_a_directory)"

definition last_write_time :: "host \<Rightarrow> path \<Rightarrow> errc + int" where
  "last_write_time h p = map_sum id (\<lambda>(_, nd). n_mtime nd) (access_node SysStat True h p)"

definition file_size :: "host \<Rightarrow> path \<Rightarrow> errc + nat" where
  "file_size h p =
     (case access_node SysStat True h p of
        Inl e \<Rightarrow> Inl e
      | Inr (_, nd) \<Rightarrow> (case n_kind nd of
          File bs \<Rightarrow> Inr (length bs)
        | Dir \<Rightarrow> Inl is_a_directory
        | Symlink _ \<Rightarrow> Inl not_supported))"

definition fs_space :: "host \<Rightarrow> path \<Rightarrow> errc + (u64 \<times> u64)" where
  "fs_space h p = map_sum id (\<lambda>(loc, _). h_space h loc) (access_node SysSpace True h p)"

text \<open>\<^verbatim>\<open>fopen(p, "rb")\<close>, \<^verbatim>\<open>fseek\<close> and \<^verbatim>\<open>fread\<close>: a directory can be opened, reading from it gives
  nothing. The first component tells which of the calls failed.\<close>

datatype 'a io_result = OpenFailed | SeekFailed | Done 'a

definition read_at :: "host \<Rightarrow> path \<Rightarrow> nat \<Rightarrow> nat \<Rightarrow> byte list io_result" where
  "read_at h p off len =
     (case access_node SysOpen True h p of
        Inl e \<Rightarrow> OpenFailed
      | Inr (loc, nd) \<Rightarrow>
          if h_faults h SysSeek loc \<noteq> None then SeekFailed
          else if h_faults h SysRead loc \<noteq> None then Done []
          else (case n_kind nd of File bs \<Rightarrow> Done (slice bs off len) | _ \<Rightarrow> Done []))"

definition open_for_read :: "host \<Rightarrow> path \<Rightarrow> bool" where
  "open_for_read h p \<longleftrightarrow> (case access_node SysOpen True h p of Inl _ \<Rightarrow> False | Inr _ \<Rightarrow> True)"

definition open_for_update :: "host \<Rightarrow> path \<Rightarrow> bool" where
  "open_for_update h p \<longleftrightarrow>
     (case access_node SysOpen True h p of Inl _ \<Rightarrow> False | Inr (_, nd) \<Rightarrow> n_kind nd \<noteq> Dir)"


section \<open>Changes\<close>

definition tree_put :: "loc \<Rightarrow> node \<Rightarrow> tree \<Rightarrow> tree" where
  "tree_put loc nd t = (if loc \<in> fst ` set t then map (\<lambda>(l, x). (l, if l = loc then nd else x)) t
                        else t @ [(loc, nd)])"

definition tree_del :: "loc \<Rightarrow> tree \<Rightarrow> tree" where
  "tree_del loc t = filter (\<lambda>(l, _). l \<noteq> loc) t"

text \<open>Moving everything at or below one location to another one.\<close>

definition tree_move :: "loc \<Rightarrow> loc \<Rightarrow> tree \<Rightarrow> tree" where
  "tree_move old new t =
     map (\<lambda>(l, x). (if take (length old) l = old then new @ drop (length old) l else l, x)) t"

definition fresh_node :: "host \<Rightarrow> inode \<Rightarrow> node" where
  "fresh_node h k = \<lparr>n_kind = k, n_mtime = h_clock h, n_fat = 0x20, n_xattr = None\<rparr>"

definition set_node :: "loc \<Rightarrow> node \<Rightarrow> host \<Rightarrow> host" where
  "set_node loc nd h = h\<lparr>h_tree := tree_put loc nd (h_tree h)\<rparr>"

text \<open>A store of bytes at an offset of a file; a gap is filled with zeros.\<close>

definition write_bytes_at :: "byte list \<Rightarrow> nat \<Rightarrow> byte list \<Rightarrow> byte list" where
  "write_bytes_at bs off data =
     take off (bs @ replicate (off - length bs) 0) @ data @ drop (off + length data) bs"

definition resize_bytes :: "byte list \<Rightarrow> nat \<Rightarrow> byte list" where
  "resize_bytes bs n = take n bs @ replicate (n - length bs) 0"

text \<open>\<^verbatim>\<open>fopen(p, "r+b")\<close>, \<^verbatim>\<open>fseek\<close>, \<^verbatim>\<open>fwrite\<close> and \<^verbatim>\<open>fclose\<close>: a request is smaller than the buffer of the
  stream, so \<^verbatim>\<open>fwrite\<close> accepts it and the bytes reach the file in \<^verbatim>\<open>fclose\<close>, which may fail.\<close>

definition write_at :: "path \<Rightarrow> nat \<Rightarrow> byte list \<Rightarrow> host \<Rightarrow> nat io_result \<times> host" where
  "write_at p off data h =
     (case access_node SysOpen True h p of
        Inl e \<Rightarrow> (OpenFailed, h)
      | Inr (loc, nd) \<Rightarrow> (case n_kind nd of
          File bs \<Rightarrow>
            if h_faults h SysSeek loc \<noteq> None then (SeekFailed, h)
            else if h_faults h SysFlush loc \<noteq> None then (Done (length data), h)
            else (Done (length data),
                  set_node loc (nd\<lparr>n_kind := File (write_bytes_at bs off data), n_mtime := h_clock h\<rparr>) h)
        | _ \<Rightarrow> (OpenFailed, h)))"

text \<open>\<^verbatim>\<open>fopen(p, "wb")\<close> and \<^verbatim>\<open>fclose\<close>\<close>

definition create_or_truncate :: "path \<Rightarrow> host \<Rightarrow> bool \<times> host" where
  "create_or_truncate p h =
     (case access SysOpen True h p of
        Inl e \<Rightarrow> (False, h)
      | Inr loc \<Rightarrow> (case map_of (h_tree h) loc of
          None \<Rightarrow> (True, set_node loc (fresh_node h (File [])) h)
        | Some nd \<Rightarrow> (case n_kind nd of
            File _ \<Rightarrow> (True, set_node loc (nd\<lparr>n_kind := File [], n_mtime := h_clock h\<rparr>) h)
          | _ \<Rightarrow> (False, h))))"

definition posix_truncate :: "path \<Rightarrow> nat \<Rightarrow> host \<Rightarrow> bool \<times> host" where
  "posix_truncate p n h =
     (case access_node SysTruncate True h p of
        Inl e \<Rightarrow> (False, h)
      | Inr (loc, nd) \<Rightarrow> (case n_kind nd of
          File bs \<Rightarrow> (True, set_node loc (nd\<lparr>n_kind := File (resize_bytes bs n), n_mtime := h_clock h\<rparr>) h)
        | _ \<Rightarrow> (False, h)))"

definition create_directory :: "path \<Rightarrow> host \<Rightarrow> (errc + bool) \<times> host" where
  "create_directory p h =
     (let q = p\<lparr>p_elems := drop_trailing (p_elems p)\<rparr>
      in case access SysMkdir False h q of
           Inl e \<Rightarrow> (Inl e, h)
         | Inr loc \<Rightarrow> (case map_of (h_tree h) loc of
             None \<Rightarrow> (Inr True, set_node loc (fresh_node h Dir) h)
           | Some nd \<Rightarrow>
               (if no_throw (is_directory h p) then Inr False else Inl file_exists, h)))"

definition remove :: "path \<Rightarrow> host \<Rightarrow> (errc + bool) \<times> host" where
  "remove p h =
     (case access_node SysRemove False h p of
        Inl e \<Rightarrow> (if e = no_such_file_or_directory then Inr False else Inl e, h)
      | Inr (loc, nd) \<Rightarrow>
          if n_kind nd = Dir then
            let final = filename \<lparr>p_abs = True, p_elems = drop_trailing (os_elems (p_elems p))\<rparr>
            in if loc = [] then (Inl other_errc, h)
               else if final = dot then (Inl invalid_argument, h)
               else if final = dotdot \<or> children (h_tree h) loc \<noteq> [] then (Inl directory_not_empty, h)
               else (Inr True, h\<lparr>h_tree := tree_del loc (h_tree h)\<rparr>)
          else (Inr True, h\<lparr>h_tree := tree_del loc (h_tree h)\<rparr>))"

definition fs_rename :: "path \<Rightarrow> path \<Rightarrow> host \<Rightarrow> (errc + unit) \<times> host" where
  "fs_rename old new h =
     (case (access_node SysRename False h old, access SysRename False h new) of
        (Inl e, _) \<Rightarrow> (Inl e, h)
      | (_, Inl e) \<Rightarrow> (Inl e, h)
      | (Inr (l1, n1), Inr l2) \<Rightarrow>
          let special = \<lambda>p. filename \<lparr>p_abs = True, p_elems = drop_trailing (os_elems (p_elems p))\<rparr>
                              \<in> {dot, dotdot};
              moved = h\<lparr>h_tree := tree_move l1 l2 (tree_del l2 (h_tree h))\<rparr>
          in if l1 = [] \<or> l2 = [] \<or> special old \<or> special new then (Inl other_errc, h)
             else if l1 = l2 then (Inr (), h)
             else if take (length l1) l2 = l1 then (Inl invalid_argument, h)
             else (case map_of (h_tree h) l2 of
                 None \<Rightarrow> (Inr (), moved)
               | Some n2 \<Rightarrow>
                   if n_kind n2 = Dir then
                     (if n_kind n1 \<noteq> Dir then (Inl is_a_directory, h)
                      else if children (h_tree h) l2 \<noteq> [] then (Inl directory_not_empty, h)
                      else (Inr (), moved))
                   else if n_kind n1 = Dir then (Inl not_a_directory, h)
                   else (Inr (), moved)))"

definition set_last_write_time :: "path \<Rightarrow> int \<Rightarrow> host \<Rightarrow> (errc + unit) \<times> host" where
  "set_last_write_time p t h =
     (case access_node SysUtime True h p of
        Inl e \<Rightarrow> (Inl e, h)
      | Inr (loc, nd) \<Rightarrow> (Inr (), set_node loc (nd\<lparr>n_mtime := t\<rparr>) h))"

definition set_current_path :: "path \<Rightarrow> host \<Rightarrow> (errc + unit) \<times> host" where
  "set_current_path p h =
     (case access_node SysChdir True h p of
        Inl e \<Rightarrow> (Inl e, h)
      | Inr (loc, nd) \<Rightarrow>
          if n_kind nd = Dir then (Inr (), h\<lparr>h_cwd := loc\<rparr>) else (Inl not_a_directory, h))"

text \<open>\<^verbatim>\<open>open(p, O_RDONLY)\<close> with \<^verbatim>\<open>FAT_IOCTL_GET_ATTRIBUTES\<close> and \<^verbatim>\<open>FAT_IOCTL_SET_ATTRIBUTES\<close>\<close>

definition fat_ioctl_get :: "host \<Rightarrow> path \<Rightarrow> errc + u32" where
  "fat_ioctl_get h p =
     (case access_node SysOpen True h p of
        Inl e \<Rightarrow> Inl e
      | Inr (loc, nd) \<Rightarrow>
          if \<not> h_fat_fs h then Inl not_supported
          else (case h_faults h SysIoctl loc of Some e \<Rightarrow> Inl e | None \<Rightarrow> Inr (n_fat nd)))"

definition fat_ioctl_set :: "path \<Rightarrow> u32 \<Rightarrow> host \<Rightarrow> (errc + unit) \<times> host" where
  "fat_ioctl_set p a h =
     (case access_node SysOpen True h p of
        Inl e \<Rightarrow> (Inl e, h)
      | Inr (loc, nd) \<Rightarrow>
          if \<not> h_fat_fs h then (Inl not_supported, h)
          else (case h_faults h SysIoctl loc of
              Some e \<Rightarrow> (Inl e, h)
            | None \<Rightarrow> (Inr (), set_node loc (nd\<lparr>n_fat := a\<rparr>) h)))"

text \<open>\<^verbatim>\<open>getxattr\<close> into a buffer of \<open>bufsize\<close> bytes (0 asks for the length), \<^verbatim>\<open>setxattr\<close>, \<^verbatim>\<open>removexattr\<close>\<close>

definition getxattr :: "host \<Rightarrow> path \<Rightarrow> nat \<Rightarrow> errc + byte list" where
  "getxattr h p bufsize =
     (case access_node SysXattr True h p of
        Inl e \<Rightarrow> Inl e
      | Inr (loc, nd) \<Rightarrow>
          if \<not> h_xattr_fs h then Inl not_supported
          else (case n_xattr nd of
              None \<Rightarrow> Inl no_message_available
            | Some v \<Rightarrow> if bufsize \<noteq> 0 \<and> length v > bufsize then Inl other_errc else Inr v))"

definition setxattr :: "path \<Rightarrow> byte list \<Rightarrow> host \<Rightarrow> (errc + unit) \<times> host" where
  "setxattr p v h =
     (case access_node SysXattr True h p of
        Inl e \<Rightarrow> (Inl e, h)
      | Inr (loc, nd) \<Rightarrow>
          if \<not> h_xattr_fs h then (Inl not_supported, h)
          else (Inr (), set_node loc (nd\<lparr>n_xattr := Some v\<rparr>) h))"

definition removexattr :: "path \<Rightarrow> host \<Rightarrow> (errc + unit) \<times> host" where
  "removexattr p h =
     (case access_node SysXattr True h p of
        Inl e \<Rightarrow> (Inl e, h)
      | Inr (loc, nd) \<Rightarrow>
          if \<not> h_xattr_fs h then (Inl not_supported, h)
          else (case n_xattr nd of
              None \<Rightarrow> (Inl no_message_available, h)
            | Some _ \<Rightarrow> (Inr (), set_node loc (nd\<lparr>n_xattr := None\<rparr>) h)))"


section \<open>Calls that throw\<close>

text \<open>The overloads without \<^verbatim>\<open>std::error_code\<close> throw \<^verbatim>\<open>filesystem_error\<close>.\<close>

definition fs_query :: "(host \<Rightarrow> errc + 'a) \<Rightarrow> (host, 'a) sx" where
  "fs_query f h = (map_sum StdFilesystemError id (f h), h)"

definition fs_call :: "(host \<Rightarrow> (errc + 'a) \<times> host) \<Rightarrow> (host, 'a) sx" where
  "fs_call f h = (case f h of (r, h') \<Rightarrow> (map_sum StdFilesystemError id r, h'))"

text \<open>A call that cannot throw.\<close>

definition fs_do :: "(host \<Rightarrow> 'a \<times> host) \<Rightarrow> (host, 'a) sx" where
  "fs_do f h = (case f h of (r, h') \<Rightarrow> (Inr r, h'))"

definition fs_gets :: "(host \<Rightarrow> 'a) \<Rightarrow> (host, 'a) sx" where
  "fs_gets f h = (Inr (f h), h)"

lemmas fs_defs = fs_query_def fs_call_def fs_do_def fs_gets_def

lemma keeps_fs_query [keeps_intros]: "keeps P (fs_query f)"
  by (simp add: keeps_def fs_query_def)

lemma keeps_fs_gets [keeps_intros]: "keeps P (fs_gets f)"
  by (simp add: keeps_def fs_gets_def)

lemma keeps_fs_call: "(\<And>h. P h \<Longrightarrow> P (snd (f h))) \<Longrightarrow> keeps P (fs_call f)"
  by (auto simp: keeps_def fs_call_def split: prod.splits) (metis snd_conv)

lemma keeps_fs_do: "(\<And>h. P h \<Longrightarrow> P (snd (f h))) \<Longrightarrow> keeps P (fs_do f)"
  by (auto simp: keeps_def fs_do_def split: prod.splits) (metis snd_conv)

end
