(* ===== verification/FatTime.thy ===== *)
theory FatTime
  imports Utils
begin

text \<open>
  FAT time stamps, from \<^verbatim>\<open>time_to_fat\<close> and \<^verbatim>\<open>fat_to_time\<close> of \<^verbatim>\<open>netmount-server/fs.cpp\<close>.
  The time zone rules are those of the host: the C functions \<^verbatim>\<open>localtime\<close> and \<^verbatim>\<open>mktime\<close>
  are arguments of the definitions.
\<close>

section \<open>Definitions\<close>

record tm =
  tm_sec :: int
  tm_min :: int
  tm_hour :: int
  tm_mday :: int
  tm_mon :: int
  tm_year :: int
  tm_isdst :: int

text \<open>The conversion of a broken-down time; \<open>time_to_fat\<close> applies it to the local time.\<close>

definition tm_to_fat :: "tm \<Rightarrow> u32" where
  "tm_to_fat ltime =
     (if tm_year ltime < 80 then push_bit 16 (push_bit 5 1 + 1)
      else if tm_year ltime > 207 then
        push_bit 16 (push_bit 9 0x7F + push_bit 5 12 + 31) + push_bit 11 23 + push_bit 5 59 + drop_bit 1 58
      else
        let res = word_of_int (tm_year ltime - 80);
            res = push_bit 4 res OR word_of_int (tm_mon ltime + 1);
            res = push_bit 5 res OR word_of_int (tm_mday ltime);
            res = push_bit 5 res OR word_of_int (tm_hour ltime);
            res = push_bit 6 res OR word_of_int (tm_min ltime)
        in push_bit 5 res OR word_of_int (tm_sec ltime div 2))"

definition time_to_fat :: "(int \<Rightarrow> tm) \<Rightarrow> int \<Rightarrow> u32" where
  "time_to_fat localtime t = tm_to_fat (localtime t)"

definition fat_to_tm :: "u32 \<Rightarrow> tm" where
  "fat_to_tm date_time =
     (let sec = uint (date_time AND 0x1F) * 2; date_time = drop_bit 5 date_time;
          mi = uint (date_time AND 0x3F); date_time = drop_bit 6 date_time;
          hour = uint (date_time AND 0x1F); date_time = drop_bit 5 date_time;
          mday = uint (date_time AND 0x1F); date_time = drop_bit 5 date_time;
          mon = uint (date_time AND 0x0F) - 1; date_time = drop_bit 4 date_time
      in \<lparr>tm_sec = sec, tm_min = mi, tm_hour = hour, tm_mday = mday, tm_mon = mon,
          tm_year = uint date_time + 80, tm_isdst = -1\<rparr>)"

definition fat_to_time :: "(tm \<Rightarrow> int) \<Rightarrow> u32 \<Rightarrow> int" where
  "fat_to_time mktime date_time = mktime (fat_to_tm date_time)"

text \<open>A broken-down time that the C library produces, in the range of FAT years.\<close>

definition valid_tm :: "tm \<Rightarrow> bool" where
  "valid_tm t \<longleftrightarrow> 80 \<le> tm_year t \<and> tm_year t \<le> 207 \<and> 0 \<le> tm_mon t \<and> tm_mon t \<le> 11 \<and>
     1 \<le> tm_mday t \<and> tm_mday t \<le> 31 \<and> 0 \<le> tm_hour t \<and> tm_hour t \<le> 23 \<and>
     0 \<le> tm_min t \<and> tm_min t \<le> 59 \<and> 0 \<le> tm_sec t \<and> tm_sec t \<le> 60"


section \<open>Packed bit fields\<close>

lemma below_high_bits:
  "uint (b :: u32) < 2 ^ k \<Longrightarrow> k \<le> 32 \<Longrightarrow> take_bit k b = b"
  by (metis take_bit_int_eq_self unsigned_take_bit_eq uint_ge_0 word_uint_eq_iff)

lemma pack_low: "uint (b :: u32) < 2 ^ k \<Longrightarrow> k \<le> 32 \<Longrightarrow> take_bit k (push_bit k a OR b) = b"
  by (simp add: below_high_bits take_bit_push_bit)

lemma pack_high:
  fixes a b :: u32
  assumes "uint b < 2 ^ k" "k \<le> 32" "uint a < 2 ^ (32 - k)"
  shows "drop_bit k (push_bit k a OR b) = a"
proof (rule bit_word_eqI)
  fix n :: nat assume n: "n < LENGTH(32)"
  have b: "\<not> bit b (k + n)"
    using below_high_bits [OF assms(1,2)] by (metis bit_take_bit_iff not_add_less1)
  have a: "bit a n \<Longrightarrow> n < 32 - k"
    using below_high_bits [of a "32 - k"] assms(3) by (metis bit_take_bit_iff diff_le_self)
  then show "bit (drop_bit k (push_bit k a OR b)) n = bit a n"
    using b n by (auto simp: bit_simps)
qed

lemma pack_bound:
  fixes a b :: u32
  assumes "uint b < 2 ^ k" "uint a < 2 ^ n" "n + k \<le> 32"
  shows "uint (push_bit k a OR b) < 2 ^ (n + k)"
proof -
  have "take_bit (n + k) (push_bit k a OR b) = push_bit k a OR b"
  proof (rule bit_word_eqI)
    fix i :: nat assume i: "i < LENGTH(32)"
    have b: "bit b i \<Longrightarrow> i < k"
      using below_high_bits [OF assms(1)] assms(3) by (metis bit_take_bit_iff add_leD2)
    have a: "bit a (i - k) \<Longrightarrow> i - k < n"
      using below_high_bits [OF assms(2)] assms(3) by (metis bit_take_bit_iff add_leD1)
    then show "bit (take_bit (n + k) (push_bit k a OR b)) i = bit (push_bit k a OR b) i"
      using b i by (auto simp: bit_simps)
  qed
  then have "uint (push_bit k a OR b) = take_bit (n + k) (uint (push_bit k a OR b))"
    by (metis unsigned_take_bit_eq)
  then show ?thesis by (metis take_bit_int_less_exp)
qed

lemma uint_field: "0 \<le> x \<Longrightarrow> x < 2 ^ 32 \<Longrightarrow> uint (word_of_int x :: u32) = x"
  by (simp add: uint_word_of_int)

lemma field_masks:
  "(0x1F :: u32) = mask 5" "(0x3F :: u32) = mask 6" "(0x0F :: u32) = mask 4"
  by (simp_all add: mask_eq_exp_minus_1)


section \<open>Round trip\<close>

theorem fat_to_tm_to_fat:
  assumes "valid_tm t"
  shows "fat_to_tm (tm_to_fat t) = t\<lparr>tm_sec := 2 * (tm_sec t div 2), tm_isdst := -1\<rparr>"
proof -
  let ?y = "word_of_int (tm_year t - 80) :: u32" and ?mo = "word_of_int (tm_mon t + 1) :: u32"
  let ?d = "word_of_int (tm_mday t) :: u32" and ?h = "word_of_int (tm_hour t) :: u32"
  let ?mi = "word_of_int (tm_min t) :: u32" and ?s = "word_of_int (tm_sec t div 2) :: u32"
  have u: "uint ?y = tm_year t - 80" "uint ?mo = tm_mon t + 1" "uint ?d = tm_mday t"
    "uint ?h = tm_hour t" "uint ?mi = tm_min t" "uint ?s = tm_sec t div 2"
    by (rule uint_field; use assms in \<open>(simp add: valid_tm_def; linarith)\<close>)+
  have b: "uint ?y < 2 ^ 7" "uint ?mo < 2 ^ 4" "uint ?d < 2 ^ 5" "uint ?h < 2 ^ 5"
    "uint ?mi < 2 ^ 6" "uint ?s < 2 ^ 5"
    using assms unfolding u by (auto simp: valid_tm_def)
  let ?r1 = "push_bit 4 ?y OR ?mo"
  let ?r2 = "push_bit 5 ?r1 OR ?d"
  let ?r3 = "push_bit 5 ?r2 OR ?h"
  let ?r4 = "push_bit 6 ?r3 OR ?mi"
  let ?r5 = "push_bit 5 ?r4 OR ?s"
  have r: "uint ?r1 < 2 ^ (7 + 4)" "uint ?r2 < 2 ^ (7 + 4 + 5)" "uint ?r3 < 2 ^ (7 + 4 + 5 + 5)"
    "uint ?r4 < 2 ^ (7 + 4 + 5 + 5 + 6)"
    by (intro pack_bound b; simp)+
  have eq: "tm_to_fat t = ?r5"
    using assms by (simp add: tm_to_fat_def valid_tm_def Let_def)
  have low: "take_bit 5 ?r5 = ?s" "take_bit 6 ?r4 = ?mi" "take_bit 5 ?r3 = ?h" "take_bit 5 ?r2 = ?d"
    "take_bit 4 ?r1 = ?mo"
    by (intro pack_low b; simp)+
  have high: "drop_bit 5 ?r5 = ?r4" "drop_bit 6 ?r4 = ?r3" "drop_bit 5 ?r3 = ?r2" "drop_bit 5 ?r2 = ?r1"
    "drop_bit 4 ?r1 = ?y"
    using b r by (intro pack_high; simp)+
  have "fat_to_tm ?r5 = \<lparr>tm_sec = uint ?s * 2, tm_min = uint ?mi, tm_hour = uint ?h,
      tm_mday = uint ?d, tm_mon = uint ?mo - 1, tm_year = uint ?y + 80, tm_isdst = -1\<rparr>"
    unfolding fat_to_tm_def Let_def field_masks take_bit_eq_mask [symmetric] high low ..
  then show ?thesis unfolding eq u by (cases t) simp
qed

interpretation fat_stamp: codec tm_to_fat "\<lambda>w. Some (fat_to_tm w)"
  "\<lambda>t. valid_tm t \<and> even (tm_sec t) \<and> tm_isdst t = -1"
  by unfold_locales (auto simp: fat_to_tm_to_fat)

text \<open>Out of range years become the first and the last FAT time stamp.\<close>

lemma time_to_fat_clamped:
  "tm_year (localtime t) < 80 \<Longrightarrow> fat_to_tm (time_to_fat localtime t) =
     \<lparr>tm_sec = 0, tm_min = 0, tm_hour = 0, tm_mday = 1, tm_mon = 0, tm_year = 80, tm_isdst = -1\<rparr>"
  "207 < tm_year (localtime t) \<Longrightarrow> fat_to_tm (time_to_fat localtime t) =
     \<lparr>tm_sec = 58, tm_min = 59, tm_hour = 23, tm_mday = 31, tm_mon = 11, tm_year = 207, tm_isdst = -1\<rparr>"
  by (simp_all add: time_to_fat_def tm_to_fat_def fat_to_tm_def push_bit_eq_mult drop_bit_eq_div Let_def)

end
