(* ===== verification/FsOps.thy ===== *)
theory FsOps
  imports HostFs FatTime
begin

text \<open>
  The helper functions in the anonymous namespace of \<^verbatim>\<open>netmount-server/fs.cpp\<close> that act on host
  paths, and the storage of DOS attributes of \<^verbatim>\<open>fs_linux.cpp\<close> (native FAT attributes or the
  extended attribute \<^verbatim>\<open>user.NetMountAttrs\<close>). The build is the one for Linux with both storage
  methods. Each function is a computation on the host that may throw.
\<close>

section \<open>Constants and data\<close>

definition FAT_NONE :: u8 where "FAT_NONE = 0x00"
definition FAT_RO :: u8 where "FAT_RO = 0x01"
definition FAT_HIDDEN :: u8 where "FAT_HIDDEN = 0x02"
definition FAT_SYSTEM :: u8 where "FAT_SYSTEM = 0x04"
definition FAT_VOLUME :: u8 where "FAT_VOLUME = 0x08"
definition FAT_DIRECTORY :: u8 where "FAT_DIRECTORY = 0x10"
definition FAT_ARCHIVE :: u8 where "FAT_ARCHIVE = 0x20"
definition FAT_ERROR_ATTR :: u8 where "FAT_ERROR_ATTR = 0xFF"

lemmas fat_consts = FAT_NONE_def FAT_RO_def FAT_HIDDEN_def FAT_SYSTEM_def FAT_VOLUME_def
  FAT_DIRECTORY_def FAT_ARCHIVE_def FAT_ERROR_ATTR_def

definition OPEN_MODE_RDONLY :: u8 where "OPEN_MODE_RDONLY = 0x00"
definition OPEN_MODE_WRONLY :: u8 where "OPEN_MODE_WRONLY = 0x01"
definition OPEN_MODE_RDWR :: u8 where "OPEN_MODE_RDWR = 0x02"

lemmas open_mode_consts = OPEN_MODE_RDONLY_def OPEN_MODE_WRONLY_def OPEN_MODE_RDWR_def

definition DOS_EXTERR_NO_ERROR :: u16 where "DOS_EXTERR_NO_ERROR = 0"
definition DOS_EXTERR_FUNC_NUM_INVALID :: u16 where "DOS_EXTERR_FUNC_NUM_INVALID = 1"
definition DOS_EXTERR_FILE_NOT_FOUND :: u16 where "DOS_EXTERR_FILE_NOT_FOUND = 2"
definition DOS_EXTERR_PATH_NOT_FOUND :: u16 where "DOS_EXTERR_PATH_NOT_FOUND = 3"
definition DOS_EXTERR_TOO_MANY_OPEN_FILES :: u16 where "DOS_EXTERR_TOO_MANY_OPEN_FILES = 4"
definition DOS_EXTERR_ACCESS_DENIED :: u16 where "DOS_EXTERR_ACCESS_DENIED = 5"
definition DOS_EXTERR_INVALID_HANDLE :: u16 where "DOS_EXTERR_INVALID_HANDLE = 6"
definition DOS_EXTERR_NO_MORE_FILES :: u16 where "DOS_EXTERR_NO_MORE_FILES = 18"
definition DOS_EXTERR_DISK_WRITE_PROTECTED :: u16 where "DOS_EXTERR_DISK_WRITE_PROTECTED = 19"
definition DOS_EXTERR_SEEK_ERROR :: u16 where "DOS_EXTERR_SEEK_ERROR = 25"
definition DOS_EXTERR_FILE_ALREADY_EXISTS :: u16 where "DOS_EXTERR_FILE_ALREADY_EXISTS = 80"

lemmas exterr_consts = DOS_EXTERR_NO_ERROR_def DOS_EXTERR_FUNC_NUM_INVALID_def
  DOS_EXTERR_FILE_NOT_FOUND_def DOS_EXTERR_PATH_NOT_FOUND_def DOS_EXTERR_TOO_MANY_OPEN_FILES_def
  DOS_EXTERR_ACCESS_DENIED_def DOS_EXTERR_INVALID_HANDLE_def DOS_EXTERR_NO_MORE_FILES_def
  DOS_EXTERR_DISK_WRITE_PROTECTED_def DOS_EXTERR_SEEK_ERROR_def DOS_EXTERR_FILE_ALREADY_EXISTS_def

datatype attrs_mode = AUTO | IGNORE | NATIVE | IN_EXTENDED

record dos_file_properties =
  dp_fcb_name :: fcb_file_name
  dp_size :: u32
  dp_time_date :: u32
  dp_attrs :: u32
  dp_server_name :: "byte list"

text \<open>What the server gets from its environment at start: the byte order of the machine, the
  conversions of the C library between time stamps and broken-down local time, and the
  transliteration map.\<close>

record env =
  e_native :: endian
  e_localtime :: "int \<Rightarrow> tm"
  e_mktime :: "tm \<Rightarrow> int"
  e_translit :: transliteration_map


section \<open>Storage of DOS attributes\<close>

definition is_dos_attrs_native_supported :: "host \<Rightarrow> path \<Rightarrow> bool" where
  "is_dos_attrs_native_supported h path = (case fat_ioctl_get h path of Inl _ \<Rightarrow> False | Inr _ \<Rightarrow> True)"

text \<open>The bits of \<^verbatim>\<open>linux/msdos_fs.h\<close> (\<^verbatim>\<open>ATTR_RO\<close> 1, \<^verbatim>\<open>ATTR_HIDDEN\<close> 2, \<^verbatim>\<open>ATTR_SYS\<close> 4, \<^verbatim>\<open>ATTR_ARCH\<close> 32).\<close>

definition get_dos_attrs_native :: "path \<Rightarrow> (host, u8) sx" where
  "get_dos_attrs_native path h =
     (case fat_ioctl_get h path of
        Inl _ \<Rightarrow> (Inl RuntimeError, h)
      | Inr fat_attrs \<Rightarrow>
          (Inr ((if fat_attrs AND 1 \<noteq> 0 then FAT_RO else 0)
             OR (if fat_attrs AND 2 \<noteq> 0 then FAT_HIDDEN else 0)
             OR (if fat_attrs AND 4 \<noteq> 0 then FAT_SYSTEM else 0)
             OR (if fat_attrs AND 32 \<noteq> 0 then FAT_ARCHIVE else 0)), h))"

definition set_dos_attrs_native :: "path \<Rightarrow> u8 \<Rightarrow> (host, unit) sx" where
  "set_dos_attrs_native path attrs h =
     (let fat_attrs = (if attrs AND FAT_RO \<noteq> 0 then 1 else 0)
            OR (if attrs AND FAT_HIDDEN \<noteq> 0 then 2 else 0)
            OR (if attrs AND FAT_SYSTEM \<noteq> 0 then 4 else 0)
            OR (if attrs AND FAT_ARCHIVE \<noteq> 0 then 32 else 0)
      in case fat_ioctl_set path fat_attrs h of
           (Inl _, h') \<Rightarrow> (Inl RuntimeError, h')
         | (Inr _, h') \<Rightarrow> (Inr (), h'))"

definition is_dos_attrs_in_extended_supported :: "host \<Rightarrow> path \<Rightarrow> bool" where
  "is_dos_attrs_in_extended_supported h path \<longleftrightarrow> getxattr h path 0 \<noteq> Inl not_supported"

definition ext_mask :: u8 where
  "ext_mask = FAT_ARCHIVE OR FAT_HIDDEN OR FAT_RO OR FAT_SYSTEM"

definition get_dos_attrs_from_extended :: "path \<Rightarrow> (host, u8) sx" where
  "get_dos_attrs_from_extended path h =
     (case getxattr h path 8 of
        Inr v \<Rightarrow> (Inr ((case v of [] \<Rightarrow> 0 | a # _ \<Rightarrow> a) AND ext_mask), h)
      | Inl e \<Rightarrow>
          if e = no_message_available then
            sx_bind (fs_query (\<lambda>h. is_directory h path))
              (\<lambda>d. sx_return (if d then FAT_NONE else FAT_ARCHIVE)) h
          else (Inl RuntimeError, h))"

definition set_dos_attrs_to_extended :: "path \<Rightarrow> u8 \<Rightarrow> (host, unit) sx" where
  "set_dos_attrs_to_extended path attrs =
     (let attrs = attrs AND ext_mask in
      sx_bind (if attrs = FAT_NONE then fs_query (\<lambda>h. is_directory h path)
               else if attrs = FAT_ARCHIVE then
                 sx_bind (fs_query (\<lambda>h. is_directory h path)) (\<lambda>d. sx_return (\<not> d))
               else sx_return False) (\<lambda>default_attrs.
      if default_attrs then
        sx_bind (fs_do (removexattr path)) (\<lambda>r.
          case r of
            Inl e \<Rightarrow> if e = no_message_available then sx_return () else sx_throw RuntimeError
          | Inr _ \<Rightarrow> sx_return ())
      else
        sx_bind (fs_do (setxattr path [attrs])) (\<lambda>r.
          case r of Inl _ \<Rightarrow> sx_throw RuntimeError | Inr _ \<Rightarrow> sx_return ())))"


section \<open>Functions on host paths\<close>

definition is_dangling_symlink :: "host \<Rightarrow> path \<Rightarrow> bool" where
  "is_dangling_symlink h p \<longleftrightarrow> no_throw (is_symlink h p) \<and> \<not> no_throw (exists h p)"

text \<open>\<open>None\<close> stands for -1.\<close>

fun path_depth :: "nat \<Rightarrow> byte list list \<Rightarrow> nat option" where
  "path_depth depth [] = Some depth"
| "path_depth depth (part # parts) =
     (if part = [] \<or> part = dot \<or> part = [ch_slash] then path_depth depth parts
      else if part = dotdot then (if depth = 0 then None else path_depth (depth - 1) parts)
      else path_depth (Suc depth) parts)"

definition check_path_depth :: "path \<Rightarrow> nat option" where
  "check_path_depth p = path_depth 0 (path_parts p)"

definition set_item_attrs :: "path \<Rightarrow> u8 \<Rightarrow> attrs_mode \<Rightarrow> (host, unit) sx" where
  "set_item_attrs path attrs mode =
     sx_bind (fs_gets (\<lambda>h. is_dangling_symlink h path)) (\<lambda>dangling.
     if dangling then sx_throw (FilesystemError DOS_EXTERR_ACCESS_DENIED)
     else if mode = NATIVE then set_dos_attrs_native path attrs
     else if mode = IN_EXTENDED then set_dos_attrs_to_extended path attrs
     else sx_return ())"

definition get_item_attrs :: "path \<Rightarrow> attrs_mode \<Rightarrow> (host, u8) sx" where
  "get_item_attrs path mode =
     sx_bind (fs_gets (\<lambda>h. is_dangling_symlink h path)) (\<lambda>dangling.
     if dangling then sx_return 0
     else if mode = NATIVE then get_dos_attrs_native path
     else if mode = IN_EXTENDED then get_dos_attrs_from_extended path
     else sx_bind (fs_query (\<lambda>h. is_directory h path))
            (\<lambda>d. sx_return (if d then 0 else FAT_ARCHIVE)))"

text \<open>The last part of a path that is not empty, else its first one.\<close>

fun last_part :: "byte list list \<Rightarrow> byte list" where
  "last_part [] = []"
| "last_part [e] = e"
| "last_part (e # es) = (let r = last_part es in if r = [] then e else r)"

text \<open>The properties that do not depend on the stored attributes.\<close>

definition basic_properties :: "env \<Rightarrow> host \<Rightarrow> path \<Rightarrow> u8 \<Rightarrow> dos_file_properties" where
  "basic_properties env h path attrs =
     (let seconds = (case last_write_time h path of Inl _ \<Rightarrow> 0 | Inr t \<Rightarrow> t)
      in \<lparr>dp_fcb_name = short_name_to_fcb (last_part (path_parts path)),
          dp_size = (if attrs = FAT_DIRECTORY then 0
                     else case file_size h path of Inl _ \<Rightarrow> 0 | Inr n \<Rightarrow> of_nat n),
          dp_time_date = time_to_fat (e_localtime env) seconds,
          dp_attrs = ucast attrs,
          dp_server_name = []\<rparr>)"

definition get_path_dos_properties ::
  "env \<Rightarrow> path \<Rightarrow> attrs_mode \<Rightarrow> (host, u8 \<times> dos_file_properties) sx" where
  "get_path_dos_properties env path mode =
     sx_bind sx_get (\<lambda>h.
     let attrs = (if no_throw (is_directory h path) then FAT_DIRECTORY else 0);
         properties = basic_properties env h path attrs
     in sx_catch
          (sx_bind (get_item_attrs path mode) (\<lambda>a.
             sx_return (attrs OR a, properties\<lparr>dp_attrs := ucast (attrs OR a)\<rparr>)))
          (\<lambda>_. sx_return (FAT_ERROR_ATTR, properties)))"

definition make_dir :: "path \<Rightarrow> (host, unit) sx" where
  "make_dir dir =
     sx_bind (fs_gets (\<lambda>h. is_dangling_symlink h dir)) (\<lambda>dangling.
     if dangling then sx_throw (FilesystemError DOS_EXTERR_ACCESS_DENIED)
     else sx_bind (fs_call (create_directory dir)) (\<lambda>created.
          if created then sx_return () else sx_throw (FilesystemError DOS_EXTERR_ACCESS_DENIED)))"

definition delete_dir :: "path \<Rightarrow> (host, unit) sx" where
  "delete_dir dir =
     sx_bind (fs_gets (\<lambda>h. is_dangling_symlink h dir)) (\<lambda>dangling.
     if dangling then sx_throw (FilesystemError DOS_EXTERR_ACCESS_DENIED)
     else sx_bind (fs_query (\<lambda>h. exists h dir)) (\<lambda>e.
          if \<not> e then sx_throw (FilesystemError DOS_EXTERR_PATH_NOT_FOUND)
          else sx_bind (fs_query (\<lambda>h. is_directory h dir)) (\<lambda>d.
               if \<not> d then sx_throw (FilesystemError DOS_EXTERR_ACCESS_DENIED)
               else sx_bind (fs_call (remove dir)) (\<lambda>_. sx_return ()))))"

definition change_dir :: "path \<Rightarrow> (host, unit) sx" where
  "change_dir dir =
     sx_bind (fs_gets (\<lambda>h. is_dangling_symlink h dir)) (\<lambda>dangling.
     if dangling then sx_throw (FilesystemError DOS_EXTERR_PATH_NOT_FOUND)
     else fs_call (set_current_path dir))"

definition create_or_truncate_file ::
  "env \<Rightarrow> path \<Rightarrow> u8 \<Rightarrow> attrs_mode \<Rightarrow> (host, dos_file_properties) sx" where
  "create_or_truncate_file env path attrs mode =
     sx_bind (fs_gets (\<lambda>h. is_dangling_symlink h path)) (\<lambda>dangling.
     if dangling then sx_throw (FilesystemError DOS_EXTERR_ACCESS_DENIED)
     else sx_bind (fs_do (create_or_truncate path)) (\<lambda>opened.
          if \<not> opened then sx_throw (FilesystemError DOS_EXTERR_ACCESS_DENIED)
          else
            sx_bind (if mode \<noteq> IGNORE then sx_catch (set_item_attrs path attrs mode) (\<lambda>_. sx_return ())
                     else sx_return ()) (\<lambda>_.
            sx_bind (get_path_dos_properties env path mode) (\<lambda>(_, properties).
            sx_return properties))))"

definition try_open_file :: "path \<Rightarrow> u8 \<Rightarrow> (host, unit) sx" where
  "try_open_file path open_mode =
     sx_bind (fs_gets (\<lambda>h. is_dangling_symlink h path)) (\<lambda>dangling.
     if dangling then sx_throw (FilesystemError DOS_EXTERR_ACCESS_DENIED)
     else let m = open_mode AND 0x03 in
       if m = OPEN_MODE_RDONLY then
         sx_bind (fs_gets (\<lambda>h. open_for_read h path)) (\<lambda>is_open.
           sx_guard is_open (FilesystemError DOS_EXTERR_ACCESS_DENIED))
       else if m = OPEN_MODE_WRONLY \<or> m = OPEN_MODE_RDWR then
         sx_bind (fs_gets (\<lambda>h. open_for_update h path)) (\<lambda>is_open.
           sx_guard is_open (FilesystemError DOS_EXTERR_ACCESS_DENIED))
       else sx_throw (FilesystemError DOS_EXTERR_FUNC_NUM_INVALID))"

definition resize_file :: "path \<Rightarrow> u32 \<Rightarrow> (host, unit) sx" where
  "resize_file path new_size =
     sx_bind (fs_do (posix_truncate path (unat new_size))) (\<lambda>ok.
       sx_guard ok (FilesystemError DOS_EXTERR_ACCESS_DENIED))"

definition delete_file :: "path \<Rightarrow> (host, unit) sx" where
  "delete_file file =
     sx_bind (fs_query (\<lambda>h. exists h file)) (\<lambda>e.
     sx_bind (if e then sx_return True else fs_query (\<lambda>h. is_symlink h file)) (\<lambda>present.
     if \<not> present then sx_throw (FilesystemError DOS_EXTERR_FILE_NOT_FOUND)
     else sx_bind (fs_query (\<lambda>h. is_directory h file)) (\<lambda>d.
          if d then sx_throw (FilesystemError DOS_EXTERR_ACCESS_DENIED)
          else sx_bind (fs_call (remove file)) (\<lambda>_. sx_return ()))))"

definition rename_file :: "path \<Rightarrow> path \<Rightarrow> (host, unit) sx" where
  "rename_file old_name new_name = fs_call (fs_rename old_name new_name)"

definition fs_space_info :: "path \<Rightarrow> (host, u64 \<times> u64) sx" where
  "fs_space_info path = fs_query (\<lambda>h. fs_space h path)"

end
