(* ===== verification/Drive.thy ===== *)
theory Drive
  imports FsOps
begin

text \<open>
  Model of the class \<^verbatim>\<open>Drive\<close> of \<^verbatim>\<open>netmount-server/fs.hpp\<close> and \<^verbatim>\<open>fs.cpp\<close>: one shared directory
  with its options, the table of handles (\<^verbatim>\<open>items\<close>) with the cached directory listings, and every
  operation that the request handler calls. A method is a computation on the drive and the host
  that may throw; a reference to an item is its handle.
\<close>

section \<open>State\<close>

datatype file_name_conversion = OFF | RAM

record item =
  i_path :: path
  i_last_used_time :: int
  i_directory_list :: "dos_file_properties list"
  i_fcb_names :: "fcb_file_name list"

record drive =
  d_used :: bool
  d_root :: path
  d_read_only :: bool
  d_use_client_timestamp :: bool
  d_volume_label :: fcb_file_name
  d_has_volume_label :: bool
  d_attrs_mode :: attrs_mode
  d_name_conversion :: file_name_conversion
  d_items :: "item list"

definition MAX_HANDLE_COUNT :: nat where "MAX_HANDLE_COUNT = 0xFFFF"

definition empty_item :: item where
  "empty_item = \<lparr>i_path = empty_path, i_last_used_time = 0, i_directory_list = [], i_fcb_names = []\<rparr>"

definition default_drive :: drive where
  "default_drive = \<lparr>d_used = False, d_root = empty_path, d_read_only = False,
     d_use_client_timestamp = True,
     d_volume_label = \<lparr>name_blank_padded = replicate 8 0, ext_blank_padded = replicate 3 0\<rparr>,
     d_has_volume_label = False, d_attrs_mode = AUTO, d_name_conversion = RAM, d_items = []\<rparr>"

record dstate =
  s_drive :: drive
  s_host :: host

definition on_host :: "(host, 'a) sx \<Rightarrow> (dstate, 'a) sx" where
  "on_host m s = (case m (s_host s) of (r, h) \<Rightarrow> (r, s\<lparr>s_host := h\<rparr>))"

definition gets_drive :: "(drive \<Rightarrow> 'a) \<Rightarrow> (dstate, 'a) sx" where
  "gets_drive f s = (Inr (f (s_drive s)), s)"

definition set_items :: "item list \<Rightarrow> dstate \<Rightarrow> dstate" where
  "set_items is s = s\<lparr>s_drive := (s_drive s)\<lparr>d_items := is\<rparr>\<rparr>"

text \<open>\<open>update_item h f\<close> changes the item that the handle denotes.\<close>

definition update_item :: "u16 \<Rightarrow> (item \<Rightarrow> item) \<Rightarrow> (dstate, unit) sx" where
  "update_item handle f s =
     (let is = d_items (s_drive s)
      in (Inr (), set_items (is[unat handle := f (is ! unat handle)]) s))"

definition update_last_used_timestamp :: "u16 \<Rightarrow> (dstate, unit) sx" where
  "update_last_used_timestamp handle s =
     update_item handle (\<lambda>it. it\<lparr>i_last_used_time := h_clock (s_host s)\<rparr>) s"


section \<open>Configuration\<close>

definition set_root :: "path \<Rightarrow> drive \<Rightarrow> exn + drive" where
  "set_root root d = (if d_used d then Inl RuntimeError else Inr (d\<lparr>d_root := root, d_used := True\<rparr>))"

definition set_volume_label :: "byte list \<Rightarrow> drive \<Rightarrow> drive" where
  "set_volume_label label d =
     (if label = [] then d\<lparr>d_has_volume_label := False\<rparr>
      else d\<lparr>d_volume_label :=
               \<lparr>name_blank_padded = pad_blank 8 (take 8 label),
                ext_blank_padded = pad_blank 3 (take 3 (drop 8 label))\<rparr>,
             d_has_volume_label := True\<rparr>)"


section \<open>Handles\<close>

text \<open>The loop of \<^verbatim>\<open>get_handle\<close>: \<open>Inr\<close> is the handle of an item with the path, \<open>Inl\<close> the first free
  slot (the number of items if there is none) and the least recently used item.\<close>

function get_handle_loop ::
  "path \<Rightarrow> int \<Rightarrow> nat \<Rightarrow> nat \<Rightarrow> nat \<Rightarrow> item list \<Rightarrow> (nat \<times> nat + nat) \<times> item list" where
  "get_handle_loop server_path now handle first_free oldest items =
     (if handle < length items then
        let cur_item = items ! handle in
        if i_path cur_item = server_path then
          (Inr handle, items[handle := cur_item\<lparr>i_last_used_time := now\<rparr>])
        else
          let items = items[handle :=
                (if now - i_last_used_time cur_item > 3600 then cur_item\<lparr>i_directory_list := []\<rparr>
                 else cur_item)];
              (first_free, oldest) =
                (if first_free = length items then
                   (if path_is_empty (i_path cur_item) then (handle, oldest)
                    else if i_last_used_time (items ! oldest) > i_last_used_time cur_item
                    then (first_free, handle)
                    else (first_free, oldest))
                 else (first_free, oldest))
          in get_handle_loop server_path now (Suc handle) first_free oldest items
      else (Inl (first_free, oldest), items))"
  by pat_completeness auto
termination
  by (relation "measure (\<lambda>(_, _, handle, _, _, items). length items - handle)") auto

declare get_handle_loop.simps [simp del]

definition get_handle :: "path \<Rightarrow> (dstate, u16) sx" where
  "get_handle server_path s =
     (let items = d_items (s_drive s); now = h_clock (s_host s)
      in case get_handle_loop server_path now 0 (length items) 0 items of
           (Inr handle, items) \<Rightarrow> (Inr (of_nat handle), set_items items s)
         | (Inl (first_free, oldest), items) \<Rightarrow>
             let (slot, items) =
                   (if first_free = length items then
                      (if first_free < MAX_HANDLE_COUNT then (first_free, items @ [empty_item])
                       else (oldest, items[oldest := (items ! oldest)
                               \<lparr>i_path := empty_path, i_directory_list := []\<rparr>]))
                    else (first_free, items))
             in (Inr (of_nat slot),
                 set_items (items[slot := (items ! slot)
                   \<lparr>i_path := server_path, i_last_used_time := now\<rparr>]) s))"

definition get_item :: "u16 \<Rightarrow> (dstate, item) sx" where
  "get_item handle s =
     (let items = d_items (s_drive s)
      in if unat handle \<ge> length items then (Inl (FilesystemError DOS_EXTERR_INVALID_HANDLE), s)
         else if path_is_empty (i_path (items ! unat handle))
         then (Inl (FilesystemError DOS_EXTERR_INVALID_HANDLE), s)
         else (Inr (items ! unat handle), s))"

definition get_handle_path :: "u16 \<Rightarrow> (dstate, path) sx" where
  "get_handle_path handle =
     sx_bind (get_item handle) (\<lambda>item.
     sx_bind (update_last_used_timestamp handle) (\<lambda>_.
     sx_return (i_path item)))"


section \<open>Files\<close>

definition read_file :: "u16 \<Rightarrow> u32 \<Rightarrow> u16 \<Rightarrow> (dstate, byte list) sx" where
  "read_file handle offset len =
     sx_bind (get_item handle) (\<lambda>item. let fname = i_path item in
     sx_bind (update_last_used_timestamp handle) (\<lambda>_.
     sx_bind (on_host (fs_gets (\<lambda>h. is_dangling_symlink h fname))) (\<lambda>dangling.
     if dangling then sx_throw (FilesystemError DOS_EXTERR_ACCESS_DENIED)
     else sx_bind (on_host (fs_gets (\<lambda>h. read_at h fname (unat offset) (unat len)))) (\<lambda>r.
       case r of
         OpenFailed \<Rightarrow> sx_throw (FilesystemError DOS_EXTERR_ACCESS_DENIED)
       | SeekFailed \<Rightarrow> sx_throw (FilesystemError DOS_EXTERR_SEEK_ERROR)
       | Done bs \<Rightarrow> sx_return bs))))"

definition write_file :: "byte list \<Rightarrow> u16 \<Rightarrow> u32 \<Rightarrow> (dstate, nat) sx" where
  "write_file buffer handle offset =
     sx_bind (gets_drive d_read_only) (\<lambda>ro.
     if ro then sx_throw (FilesystemError DOS_EXTERR_DISK_WRITE_PROTECTED)
     else sx_bind (get_item handle) (\<lambda>item. let fname = i_path item in
     sx_bind (update_last_used_timestamp handle) (\<lambda>_.
     sx_bind (on_host (fs_gets (\<lambda>h. is_dangling_symlink h fname))) (\<lambda>dangling.
     if dangling then sx_throw (FilesystemError DOS_EXTERR_ACCESS_DENIED)
     else if buffer = [] then sx_bind (on_host (resize_file fname offset)) (\<lambda>_. sx_return 0)
     else sx_bind (on_host (fs_do (write_at fname (unat offset) buffer))) (\<lambda>r.
       case r of
         OpenFailed \<Rightarrow> sx_throw (FilesystemError DOS_EXTERR_ACCESS_DENIED)
       | SeekFailed \<Rightarrow> sx_throw (FilesystemError DOS_EXTERR_SEEK_ERROR)
       | Done n \<Rightarrow> sx_return n)))))"

text \<open>The bits of an \<^verbatim>\<open>int32_t\<close>: the size is an unsigned 32-bit value.\<close>

definition get_file_size :: "env \<Rightarrow> u16 \<Rightarrow> (dstate, u32) sx" where
  "get_file_size env handle =
     sx_bind (get_item handle) (\<lambda>item.
     sx_bind (on_host (get_path_dos_properties env (i_path item) IGNORE)) (\<lambda>(attrs, fprops).
     if attrs = FAT_ERROR_ATTR then sx_return (- 1)
     else sx_bind (update_last_used_timestamp handle) (\<lambda>_. sx_return (dp_size fprops))))"

definition set_file_date_time :: "env \<Rightarrow> u16 \<Rightarrow> u32 \<Rightarrow> (dstate, bool) sx" where
  "set_file_date_time env handle date_time =
     sx_bind (get_item handle) (\<lambda>item.
     sx_bind (gets_drive id) (\<lambda>d.
     if d_read_only d then sx_return False
     else if \<not> d_use_client_timestamp d then sx_return False
     else
       sx_bind (on_host (fs_call (set_last_write_time (i_path item)
         (fat_to_time (e_mktime env) date_time)))) (\<lambda>_.
       sx_bind (update_last_used_timestamp handle) (\<lambda>_. sx_return True))))"


section \<open>Directory listings\<close>

datatype list_step = ListFailed | ListFull | ListEntries "dos_file_properties list"

definition volume_properties :: "drive \<Rightarrow> dos_file_properties" where
  "volume_properties d = \<lparr>dp_fcb_name = d_volume_label d, dp_size = 0, dp_time_date = 0,
     dp_attrs = ucast FAT_VOLUME, dp_server_name = []\<rparr>"

definition dot_entry :: "env \<Rightarrow> drive \<Rightarrow> path \<Rightarrow> byte list \<Rightarrow> (host, dos_file_properties) sx" where
  "dot_entry env d path nm =
     sx_bind (get_path_dos_properties env (append_name path nm) (d_attrs_mode d)) (\<lambda>(_, fprops).
     sx_return (fprops\<lparr>dp_fcb_name := short_name_to_fcb nm,
       dp_server_name := (if d_name_conversion d \<noteq> OFF then nm else [])\<rparr>))"

text \<open>What is put in front of the first entry of the directory.\<close>

definition first_entries :: "env \<Rightarrow> drive \<Rightarrow> path \<Rightarrow> (host, list_step) sx" where
  "first_entries env d path =
     sx_bind sx_get (\<lambda>h.
     case equivalent h path (d_root d) of
       Inl _ \<Rightarrow> sx_return ListFailed
     | Inr is_root_dir \<Rightarrow>
         if is_root_dir then
           sx_return (ListEntries (if d_has_volume_label d then [volume_properties d] else []))
         else
           sx_bind (dot_entry env d path dot) (\<lambda>e1.
           sx_bind (dot_entry env d path dotdot) (\<lambda>e2.
           sx_return (ListEntries [e1, e2]))))"

fun directory_list_loop ::
  "env \<Rightarrow> drive \<Rightarrow> path \<Rightarrow> byte list list \<Rightarrow> dos_file_properties list \<Rightarrow> fcb_file_name list \<Rightarrow>
   (host, bool \<times> dos_file_properties list \<times> fcb_file_name list) sx" where
  "directory_list_loop env d path [] directory_list fcb_names =
     sx_return (True, directory_list, fcb_names)"
| "directory_list_loop env d path (fname # fnames) directory_list fcb_names =
     sx_bind (if directory_list = [] then first_entries env d path
              else if length directory_list = 0xFFFF then sx_return ListFull
              else sx_return (ListEntries [])) (\<lambda>step.
     case step of
       ListFailed \<Rightarrow> sx_return (False, directory_list, fcb_names)
     | ListFull \<Rightarrow> sx_return (True, directory_list, fcb_names)
     | ListEntries es \<Rightarrow>
         let directory_list = directory_list @ es in
         sx_bind (get_path_dos_properties env (append_name path fname) (d_attrs_mode d)) (\<lambda>(_, fprops).
         let (fprops, fcb_names) =
               (if d_name_conversion d \<noteq> OFF then
                  case file_name_to_83 (e_translit env) fname fcb_names of
                    (_, fcb, fcb_names) \<Rightarrow>
                      (fprops\<lparr>dp_fcb_name := fcb, dp_server_name := fname\<rparr>, fcb_names)
                else (fprops, fcb_names))
         in directory_list_loop env d path fnames (directory_list @ [fprops]) fcb_names))"

text \<open>\<open>None\<close> is the result -1. The entries of the host directory are read at once: that reading fails behind the
  first entries is not modelled.\<close>

definition create_directory_list :: "env \<Rightarrow> u16 \<Rightarrow> (dstate, nat option) sx" where
  "create_directory_list env handle =
     sx_bind (gets_drive (\<lambda>d. (d, i_path (d_items d ! unat handle)))) (\<lambda>(d, path).
     sx_bind (sx_catch
       (on_host (sx_bind (fs_query (\<lambda>h. directory_entries h path)) (\<lambda>fnames.
          directory_list_loop env d path fnames [] [])))
       (\<lambda>_. sx_return (False, [], []))) (\<lambda>(ok, dl, names).
     sx_bind (update_item handle (\<lambda>it. it\<lparr>i_directory_list := dl, i_fcb_names := names\<rparr>)) (\<lambda>_.
     if \<not> ok then sx_return None
     else sx_bind (update_last_used_timestamp handle) (\<lambda>_. sx_return (Some (length dl))))))"

text \<open>The loop of \<^verbatim>\<open>find_file\<close> from position \<open>n\<close> on.\<close>

definition attr_accepted :: "u8 \<Rightarrow> dos_file_properties \<Rightarrow> bool" where
  "attr_accepted attr p \<longleftrightarrow>
     (ucast attr OR (dp_attrs p AND
        ucast (FAT_HIDDEN OR FAT_SYSTEM OR FAT_VOLUME OR FAT_DIRECTORY))) = (ucast attr :: u32)"

fun find_from ::
  "fcb_file_name \<Rightarrow> u8 \<Rightarrow> nat \<Rightarrow> dos_file_properties list \<Rightarrow> (dos_file_properties \<times> nat) option" where
  "find_from tmpl attr n [] = None"
| "find_from tmpl attr n (p # ps) =
     (if \<not> match_fcb_name_to_mask tmpl (dp_fcb_name p) then find_from tmpl attr (Suc n) ps
      else if \<not> attr_accepted attr p then find_from tmpl attr (Suc n) ps
      else Some (p, n))"

definition find_file ::
  "env \<Rightarrow> u16 \<Rightarrow> fcb_file_name \<Rightarrow> u8 \<Rightarrow> u16 \<Rightarrow> (dstate, (dos_file_properties \<times> u16) option) sx" where
  "find_file env handle tmpl attr pos =
     (if attr = FAT_VOLUME then
        sx_bind (gets_drive id) (\<lambda>d.
        if pos = 0 then
          (if \<not> d_has_volume_label d then sx_return None
           else if \<not> match_fcb_name_to_mask tmpl (d_volume_label d) then sx_return None
           else sx_return (Some (volume_properties d, 1)))
        else sx_return None)
      else
        sx_bind (get_item handle) (\<lambda>item.
        sx_bind (if pos = 0 \<or> i_directory_list item = [] then create_directory_list env handle
                 else sx_return (Some 0)) (\<lambda>count.
        if count = None then sx_return None
        else
          sx_bind (gets_drive (\<lambda>d. i_directory_list (d_items d ! unat handle))) (\<lambda>dir_list.
          case find_from tmpl attr (unat pos) (drop (unat pos) dir_list) of
            None \<Rightarrow> sx_return None
          | Some (p, n) \<Rightarrow> sx_return (Some (p, of_nat n + 1))))))"


section \<open>Paths\<close>

fun find_name :: "fcb_file_name \<Rightarrow> nat \<Rightarrow> dos_file_properties list \<Rightarrow> nat option" where
  "find_name fcb i [] = None"
| "find_name fcb i (p # ps) =
     (if dp_attrs p \<noteq> ucast FAT_VOLUME \<and> fcb_eq (dp_fcb_name p) fcb then Some i
      else find_name fcb (Suc i) ps)"

text \<open>The result is empty when there is no such name.\<close>

definition get_server_name :: "env \<Rightarrow> u16 \<Rightarrow> fcb_file_name \<Rightarrow> bool \<Rightarrow> (dstate, byte list) sx" where
  "get_server_name env handle fcb create_list =
     sx_bind (gets_drive (\<lambda>d. d_items d ! unat handle)) (\<lambda>item.
     sx_bind (if create_list \<or> i_directory_list item = []
              then sx_bind (create_directory_list env handle) (\<lambda>_. sx_return ())
              else sx_return ()) (\<lambda>_.
     sx_bind (gets_drive (\<lambda>d. d_items d ! unat handle)) (\<lambda>item.
     let directory_list = i_directory_list item in
     case find_name fcb 0 directory_list of
       None \<Rightarrow> sx_return []
     | Some i \<Rightarrow>
         let server_name = dp_server_name (directory_list ! i);
             server_path = append_name (i_path item) server_name
         in sx_bind (on_host (fs_query (\<lambda>h. exists h server_path))) (\<lambda>e.
            sx_bind (if e then sx_return True else on_host (fs_query (\<lambda>h. is_symlink h server_path)))
              (\<lambda>present.
            if \<not> present then
              sx_bind (update_item handle (\<lambda>it. it
                \<lparr>i_directory_list := take i directory_list @ drop (Suc i) directory_list,
                 i_fcb_names := filter (\<lambda>n. \<not> fcb_eq n fcb) (i_fcb_names it)\<rparr>))
                (\<lambda>_. sx_return [])
            else sx_return server_name)))))"

fun server_path_loop :: "env \<Rightarrow> bool \<Rightarrow> path \<Rightarrow> byte list list \<Rightarrow> (dstate, path \<times> bool) sx" where
  "server_path_loop env create_list server_path [] = sx_return (server_path, True)"
| "server_path_loop env create_list server_path (part # parts) =
     sx_bind (get_handle server_path) (\<lambda>handle.
     sx_bind (get_server_name env handle (short_name_to_fcb part) create_list) (\<lambda>server_name.
     if server_name = [] then
       (if parts = [] then sx_return (append_name server_path part, False)
        else sx_throw (FilesystemError DOS_EXTERR_PATH_NOT_FOUND))
     else
       let server_path = append_name server_path server_name in
       if parts = [] then sx_return (server_path, True)
       else server_path_loop env create_list server_path parts))"

definition create_server_path :: "env \<Rightarrow> path \<Rightarrow> bool \<Rightarrow> (dstate, path \<times> bool) sx" where
  "create_server_path env client_path create_list =
     sx_bind (gets_drive id) (\<lambda>d. let root = d_root d in
     if path_is_empty client_path then sx_return (root, True)
     else case check_path_depth client_path of
       None \<Rightarrow> sx_throw (FilesystemError DOS_EXTERR_PATH_NOT_FOUND)
     | Some depth \<Rightarrow>
         if depth = 0 then sx_return (root, True)
         else if d_name_conversion d = OFF then
           let server_path = path_append root client_path in
           sx_bind (on_host (fs_query (\<lambda>h. exists h (parent_path server_path)))) (\<lambda>e.
           if \<not> e then sx_throw (FilesystemError DOS_EXTERR_PATH_NOT_FOUND)
           else
             sx_bind (on_host (fs_query (\<lambda>h. exists h server_path))) (\<lambda>e.
             sx_bind (if e then sx_return True else on_host (fs_query (\<lambda>h. is_symlink h server_path)))
               (\<lambda>present. sx_return (server_path, present))))
         else server_path_loop env create_list root (path_parts client_path))"


section \<open>Operations on client paths\<close>

definition forget :: "(dstate, 'a) sx \<Rightarrow> (dstate, unit) sx" where
  "forget m = sx_bind m (\<lambda>_. sx_return ())"

definition ro_guard :: "(dstate, unit) sx" where
  "ro_guard = sx_bind (gets_drive d_read_only) (\<lambda>ro.
     sx_guard (\<not> ro) (FilesystemError DOS_EXTERR_DISK_WRITE_PROTECTED))"

text \<open>\<^verbatim>\<open>if (server_path == get_root()) throw\<close>\<close>

definition not_root_guard :: "path \<Rightarrow> (dstate, unit) sx" where
  "not_root_guard server_path = sx_bind (gets_drive d_root) (\<lambda>root.
     sx_guard (server_path \<noteq> root) (FilesystemError DOS_EXTERR_ACCESS_DENIED))"

definition drive_make_dir :: "env \<Rightarrow> path \<Rightarrow> (dstate, unit) sx" where
  "drive_make_dir env client_path =
     sx_bind ro_guard (\<lambda>_.
     sx_bind (create_server_path env client_path False) (\<lambda>(server_path, exist).
     sx_bind (not_root_guard server_path) (\<lambda>_.
     sx_bind (sx_guard (\<not> exist) (FilesystemError DOS_EXTERR_ACCESS_DENIED)) (\<lambda>_.
     sx_bind (on_host (make_dir server_path)) (\<lambda>_.
     forget (create_server_path env client_path True))))))"

definition drive_delete_dir :: "env \<Rightarrow> path \<Rightarrow> (dstate, unit) sx" where
  "drive_delete_dir env client_path =
     sx_bind ro_guard (\<lambda>_.
     sx_bind (create_server_path env client_path False) (\<lambda>(server_path, exist).
     sx_bind (not_root_guard server_path) (\<lambda>_.
     sx_bind (sx_guard exist (FilesystemError DOS_EXTERR_PATH_NOT_FOUND)) (\<lambda>_.
     sx_bind (on_host (delete_dir server_path)) (\<lambda>_.
     forget (create_server_path env client_path True))))))"

definition drive_change_dir :: "env \<Rightarrow> path \<Rightarrow> (dstate, unit) sx" where
  "drive_change_dir env client_path =
     sx_bind (create_server_path env client_path False) (\<lambda>(server_path, exist).
     sx_bind (sx_guard exist (FilesystemError DOS_EXTERR_PATH_NOT_FOUND)) (\<lambda>_.
     on_host (change_dir server_path)))"

definition drive_set_item_attrs :: "env \<Rightarrow> path \<Rightarrow> u8 \<Rightarrow> (dstate, unit) sx" where
  "drive_set_item_attrs env client_path attrs =
     sx_bind ro_guard (\<lambda>_.
     sx_bind (gets_drive d_attrs_mode) (\<lambda>mode.
     if mode \<noteq> IGNORE then
       sx_bind (create_server_path env client_path False) (\<lambda>(server_path, exist).
       sx_bind (not_root_guard server_path) (\<lambda>_.
       sx_bind (on_host (set_item_attrs server_path attrs mode)) (\<lambda>_.
       forget (create_server_path env client_path True))))
     else sx_return ()))"

definition get_server_path_attrs :: "path \<Rightarrow> (dstate, u8) sx" where
  "get_server_path_attrs server_path =
     sx_bind (gets_drive d_attrs_mode) (\<lambda>mode. on_host (get_item_attrs server_path mode))"

definition get_server_path_dos_properties ::
  "env \<Rightarrow> path \<Rightarrow> (dstate, u8 \<times> dos_file_properties) sx" where
  "get_server_path_dos_properties env server_path =
     sx_bind (gets_drive d_attrs_mode) (\<lambda>mode. on_host (get_path_dos_properties env server_path mode))"

definition get_dos_properties :: "env \<Rightarrow> path \<Rightarrow> (dstate, u8 \<times> dos_file_properties) sx" where
  "get_dos_properties env client_path =
     sx_bind (create_server_path env client_path False) (\<lambda>(server_path, exist).
     sx_bind (not_root_guard server_path) (\<lambda>_.
     sx_bind (sx_guard exist (FilesystemError DOS_EXTERR_FILE_NOT_FOUND)) (\<lambda>_.
     sx_bind (get_server_path_dos_properties env server_path) (\<lambda>(attrs, properties).
     sx_bind (sx_guard (attrs \<noteq> FAT_ERROR_ATTR) (FilesystemError DOS_EXTERR_FILE_NOT_FOUND)) (\<lambda>_.
     sx_return (attrs, properties))))))"

definition drive_rename_file :: "env \<Rightarrow> path \<Rightarrow> path \<Rightarrow> (dstate, unit) sx" where
  "drive_rename_file env old_client_path new_client_path =
     sx_bind ro_guard (\<lambda>_.
     sx_bind (create_server_path env old_client_path False) (\<lambda>(old_server_path, exist1).
     sx_bind (not_root_guard old_server_path) (\<lambda>_.
     sx_bind (sx_catch (create_server_path env new_client_path False) (\<lambda>e.
        if e = FilesystemError DOS_EXTERR_PATH_NOT_FOUND
        then sx_throw (FilesystemError DOS_EXTERR_FILE_NOT_FOUND)
        else sx_throw e)) (\<lambda>(new_server_path, exist2).
     sx_bind (not_root_guard new_server_path) (\<lambda>_.
     sx_bind (sx_guard (\<not> exist2) (FilesystemError DOS_EXTERR_ACCESS_DENIED)) (\<lambda>_.
     sx_bind (on_host (rename_file old_server_path new_server_path)) (\<lambda>_.
     forget (create_server_path env new_client_path True))))))))"

text \<open>\<^verbatim>\<open>try { attrs = get_server_path_attrs(path); } catch (...) {}\<close>\<close>

definition attrs_or_none :: "path \<Rightarrow> (dstate, u8) sx" where
  "attrs_or_none path = sx_catch (get_server_path_attrs path) (\<lambda>_. sx_return 0)"

text \<open>The two loops of \<^verbatim>\<open>delete_files\<close>: over the entries of the directory on the host, and over the
  cached directory list.\<close>

fun delete_host_entries :: "path \<Rightarrow> fcb_file_name \<Rightarrow> byte list list \<Rightarrow> (dstate, unit) sx" where
  "delete_host_entries directory filfcb [] = sx_return ()"
| "delete_host_entries directory filfcb (fname # fnames) =
     (let path = append_name directory fname in
      sx_bind (on_host (fs_query (\<lambda>h. is_directory h path))) (\<lambda>d.
      if d \<or> \<not> match_fcb_name_to_mask filfcb (short_name_to_fcb (path_string path))
      then delete_host_entries directory filfcb fnames
      else
        sx_bind (attrs_or_none path) (\<lambda>attrs.
        if attrs AND FAT_RO \<noteq> 0 then delete_host_entries directory filfcb fnames
        else
          sx_bind (on_host (fs_do (remove path))) (\<lambda>_.
          delete_host_entries directory filfcb fnames))))"

fun delete_listed :: "path \<Rightarrow> fcb_file_name \<Rightarrow> dos_file_properties list \<Rightarrow> (dstate, unit) sx" where
  "delete_listed directory filfcb [] = sx_return ()"
| "delete_listed directory filfcb (p # ps) =
     (if dp_attrs p AND ucast FAT_DIRECTORY \<noteq> 0 then delete_listed directory filfcb ps
      else if match_fcb_name_to_mask filfcb (dp_fcb_name p) then
        let path = append_name directory (dp_server_name p) in
        sx_bind (attrs_or_none path) (\<lambda>attrs.
        if attrs AND FAT_RO \<noteq> 0 then delete_listed directory filfcb ps
        else
          sx_bind (sx_catch (on_host (delete_file path)) (\<lambda>_. sx_return ())) (\<lambda>_.
          delete_listed directory filfcb ps))
      else delete_listed directory filfcb ps)"

definition delete_files :: "env \<Rightarrow> path \<Rightarrow> (dstate, unit) sx" where
  "delete_files env client_pattern =
     sx_bind ro_guard (\<lambda>_.
     sx_bind (create_server_path env client_pattern False) (\<lambda>(server_path, exist).
     sx_bind (not_root_guard server_path) (\<lambda>_.
     if exist then
       sx_bind (attrs_or_none server_path) (\<lambda>attrs.
       if attrs AND FAT_RO \<noteq> 0 then sx_throw (FilesystemError DOS_EXTERR_ACCESS_DENIED)
       else on_host (delete_file server_path))
     else if ch_question \<notin> set (path_string server_path) then
       sx_throw (FilesystemError DOS_EXTERR_FILE_NOT_FOUND)
     else
       let directory = parent_path server_path;
           filfcb = short_name_to_fcb (filename client_pattern)
       in sx_bind (gets_drive d_name_conversion) (\<lambda>conv.
          if conv = OFF then
            sx_bind (on_host (fs_query (\<lambda>h. directory_entries h directory))) (\<lambda>fnames.
            delete_host_entries directory filfcb fnames)
          else
            sx_bind (get_handle directory) (\<lambda>handle.
            sx_bind (gets_drive (\<lambda>d. i_directory_list (d_items d ! unat handle))) (\<lambda>dl.
            delete_listed directory filfcb dl))))))"

definition drive_create_or_truncate_file ::
  "env \<Rightarrow> path \<Rightarrow> u8 \<Rightarrow> u8 \<Rightarrow> (dstate, dos_file_properties) sx" where
  "drive_create_or_truncate_file env server_path requested_attrs current_attrs =
     sx_bind ro_guard (\<lambda>_.
     sx_bind (sx_guard (\<not> (current_attrs \<noteq> FAT_ERROR_ATTR \<and>
                 (current_attrs AND (FAT_VOLUME OR FAT_DIRECTORY) \<noteq> 0 \<or>
                  current_attrs AND FAT_RO \<noteq> 0 \<or>
                  current_attrs AND FAT_SYSTEM \<noteq> 0 \<and> requested_attrs AND FAT_SYSTEM = 0)))
                (FilesystemError DOS_EXTERR_ACCESS_DENIED)) (\<lambda>_.
     sx_bind (gets_drive d_attrs_mode) (\<lambda>mode.
     on_host (create_or_truncate_file env server_path requested_attrs mode))))"

definition drive_try_open_file :: "path \<Rightarrow> u8 \<Rightarrow> u8 \<Rightarrow> (dstate, unit) sx" where
  "drive_try_open_file server_path open_mode current_attrs =
     (let for_write = (open_mode AND (OPEN_MODE_WRONLY OR OPEN_MODE_RDWR) \<noteq> 0) in
      sx_bind (gets_drive d_read_only) (\<lambda>ro.
      if ro \<and> for_write then sx_throw (FilesystemError DOS_EXTERR_DISK_WRITE_PROTECTED)
      else if current_attrs AND (FAT_VOLUME OR FAT_DIRECTORY) \<noteq> 0
      then sx_throw (FilesystemError DOS_EXTERR_ACCESS_DENIED)
      else if current_attrs AND FAT_RO \<noteq> 0 \<and> for_write
      then sx_throw (FilesystemError DOS_EXTERR_ACCESS_DENIED)
      else on_host (try_open_file server_path open_mode)))"

definition space_info :: "(dstate, u64 \<times> u64) sx" where
  "space_info =
     sx_bind (gets_drive d_root) (\<lambda>root.
     if path_is_empty root then sx_throw RuntimeError else on_host (fs_space_info root))"

end
