(* ===== verification/Options.thy ===== *)
theory Options
  imports Drive
begin

text \<open>
  Start of the server (\<^verbatim>\<open>netmount-server/netmount-server.cpp\<close>): tokens with escapes, the share
  definitions on the command line, the other options of \<^verbatim>\<open>main\<close>, the choice of the storage for DOS
  attributes, and the filter of the logger (\<^verbatim>\<open>logger.hpp\<close>). Messages are left out; a return of
  \<^verbatim>\<open>main\<close> or \<^verbatim>\<open>parse_share_definition\<close> is its exit code.
\<close>

section \<open>Log levels\<close>

datatype log_level = CRITICAL | ERROR | WARNING | NOTICE | INFO | DEBUG | TRACE

fun level_value :: "log_level \<Rightarrow> int" where
  "level_value CRITICAL = 0"
| "level_value ERROR = 1"
| "level_value WARNING = 2"
| "level_value NOTICE = 3"
| "level_value INFO = 4"
| "level_value DEBUG = 5"
| "level_value TRACE = 6"

instantiation log_level :: linorder
begin

definition less_eq_log_level :: "log_level \<Rightarrow> log_level \<Rightarrow> bool" where
  "less_eq_log_level a b \<longleftrightarrow> level_value a \<le> level_value b"

definition less_log_level :: "log_level \<Rightarrow> log_level \<Rightarrow> bool" where
  "less_log_level a b \<longleftrightarrow> level_value a < level_value b"

instance
proof
  fix a b c :: log_level
  show "a < b \<longleftrightarrow> a \<le> b \<and> \<not> b \<le> a" by (auto simp: less_eq_log_level_def less_log_level_def)
  show "a \<le> a" by (simp add: less_eq_log_level_def)
  show "a \<le> b \<Longrightarrow> b \<le> c \<Longrightarrow> a \<le> c" by (simp add: less_eq_log_level_def)
  show "a \<le> b \<or> b \<le> a" by (auto simp: less_eq_log_level_def)
  show "a \<le> b \<Longrightarrow> b \<le> a \<Longrightarrow> a = b"
    by (cases a; cases b) (simp_all add: less_eq_log_level_def)
qed

end

text \<open>The global level is the option minus one; -1 is no level of the enumeration and turns the
  log off.\<close>

definition log_enabled :: "int \<Rightarrow> log_level \<Rightarrow> bool" where
  "log_enabled global_log_level level \<longleftrightarrow> level_value level \<le> global_log_level"


section \<open>Tokens\<close>

text \<open>The loop of \<^verbatim>\<open>get_token\<close> over the rest of the input: the token and the number of characters
  passed (the delimiter is not passed).\<close>

fun token_loop :: "byte \<Rightarrow> bool \<Rightarrow> byte list \<Rightarrow> byte list \<times> nat" where
  "token_loop delimiter escape [] = ([], 0)"
| "token_loop delimiter escape (ch # rest) =
     (if escape then
        (case token_loop delimiter False rest of (ret, n) \<Rightarrow> (ch # ret, Suc n))
      else if ch = ch_backslash then
        (case token_loop delimiter True rest of (ret, n) \<Rightarrow> (ret, Suc n))
      else if ch = delimiter then ([], 0)
      else (case token_loop delimiter False rest of (ret, n) \<Rightarrow> (ch # ret, Suc n)))"

definition get_token :: "byte list \<Rightarrow> byte \<Rightarrow> nat \<Rightarrow> byte list \<times> nat" where
  "get_token input delimiter offset =
     (case token_loop delimiter False (drop offset input) of (ret, n) \<Rightarrow> (ret, offset + n))"

text \<open>How a user writes a value that contains delimiters.\<close>

definition escape_token :: "byte \<Rightarrow> byte list \<Rightarrow> byte list" where
  "escape_token delimiter s =
     concat (map (\<lambda>c. if c = delimiter \<or> c = ch_backslash then [ch_backslash, c] else [c]) s)"

definition string_ascii_to_upper :: "byte list \<Rightarrow> byte list" where
  "string_ascii_to_upper input = map ascii_to_upper input"


section \<open>Share definitions\<close>

definition canonical :: "host \<Rightarrow> path \<Rightarrow> errc + path" where
  "canonical h p =
     map_sum id (\<lambda>(loc, _). \<lparr>p_abs = True, p_elems = loc\<rparr>) (access_node SysStat True h p)"

definition DEFAULT_VOLUME_LABEL :: "byte list" where
  "DEFAULT_VOLUME_LABEL = bytes_of ''NETMOUNT''"

text \<open>One option of a share: \<open>Inl\<close> is the exit code, \<open>Inr\<close> the drive and whether a label was
  given.\<close>

definition share_option :: "host \<Rightarrow> byte list \<Rightarrow> byte list \<Rightarrow> drive \<Rightarrow> bool \<Rightarrow> int + (drive \<times> bool)" where
  "share_option h option_name val d labelled =
     (let upper_value = string_ascii_to_upper val in
      if option_name = bytes_of ''attrs'' then
        (if upper_value = bytes_of ''AUTO'' then Inr (d\<lparr>d_attrs_mode := AUTO\<rparr>, labelled)
         else if upper_value = bytes_of ''IGNORE'' then Inr (d\<lparr>d_attrs_mode := IGNORE\<rparr>, labelled)
         else if upper_value = bytes_of ''NATIVE'' then
           (if \<not> is_dos_attrs_native_supported h (d_root d) then Inl (- 1)
            else Inr (d\<lparr>d_attrs_mode := NATIVE\<rparr>, labelled))
         else if upper_value = bytes_of ''EXTENDED'' then
           (if \<not> is_dos_attrs_in_extended_supported h (d_root d) then Inl (- 1)
            else Inr (d\<lparr>d_attrs_mode := IN_EXTENDED\<rparr>, labelled))
         else Inl (- 1))
      else if option_name = bytes_of ''label'' then
        Inr (if val = [] then d else set_volume_label val d, True)
      else if option_name = bytes_of ''name_conversion'' then
        (if upper_value = bytes_of ''OFF'' then Inr (d\<lparr>d_name_conversion := OFF\<rparr>, labelled)
         else if upper_value = bytes_of ''RAM'' then Inr (d\<lparr>d_name_conversion := RAM\<rparr>, labelled)
         else Inl (- 1))
      else if option_name = bytes_of ''readonly'' then
        (if val = bytes_of ''0'' then Inr (d\<lparr>d_read_only := False\<rparr>, labelled)
         else if val = bytes_of ''1'' then Inr (d\<lparr>d_read_only := True\<rparr>, labelled)
         else Inl (- 1))
      else if option_name = bytes_of ''client_timestamp'' then
        (if val = bytes_of ''0'' then Inr (d\<lparr>d_use_client_timestamp := False\<rparr>, labelled)
         else if val = bytes_of ''1'' then Inr (d\<lparr>d_use_client_timestamp := True\<rparr>, labelled)
         else Inl (- 1))
      else Inl (- 1))"

lemma get_token_offset: "offset \<le> snd (get_token input delimiter offset)"
  by (simp add: get_token_def split: prod.split)

text \<open>The loop \<^verbatim>\<open>while (++offset < share.length())\<close>. An unknown option is refused before its value is
  read, with the same exit code.\<close>

function share_options :: "host \<Rightarrow> byte list \<Rightarrow> nat \<Rightarrow> drive \<Rightarrow> bool \<Rightarrow> int \<times> drive \<times> bool" where
  "share_options h share offset d labelled =
     (let offset = Suc offset in
      if offset < length share then
        let (option_name, offset) = get_token share ch_equals offset;
            (val, offset) = get_token share ch_comma (Suc offset)
        in case share_option h option_name val d labelled of
             Inl code \<Rightarrow> (code, d, labelled)
           | Inr (d, labelled) \<Rightarrow> share_options h share offset d labelled
      else (0, d, labelled))"
  by pat_completeness auto
termination
proof (relation "measure (\<lambda>(h, share, offset, d, labelled). length share - offset)", goal_cases)
  case (2 h share offset)
  then show ?case
    using get_token_offset [of "Suc offset" share ch_equals]
      get_token_offset [of "Suc (snd (get_token share ch_equals (Suc offset)))" share ch_comma]
    by (auto simp: prod_eq_iff)
qed simp

declare share_options.simps [simp del]

definition parse_share_definition :: "host \<Rightarrow> byte list \<Rightarrow> drive list \<Rightarrow> int \<times> drive list" where
  "parse_share_definition h share drives =
     (let drive_char = ascii_to_upper (share ! 0) in
      if drive_char < ch_C \<or> drive_char > ch_Z then (- 1, drives)
      else
        let n = unat (drive_char - ch_A); d = drives ! n in
        if d_used d then (- 1, drives)
        else
          let (root_path, offset) = get_token share ch_comma 2 in
          case canonical h (path_of_string root_path) of
            Inl _ \<Rightarrow> (1, drives)
          | Inr rpath \<Rightarrow>
              (case is_directory h rpath of
                 Inl _ \<Rightarrow> (1, drives)
               | Inr is_dir \<Rightarrow>
                   if \<not> is_dir then (1, drives)
                   else (case set_root rpath d of
                       Inl _ \<Rightarrow> (1, drives)
                     | Inr d \<Rightarrow>
                         (case share_options h share offset d False of
                            (code, d, labelled) \<Rightarrow>
                              (code, drives[n := (if code = 0 \<and> \<not> labelled
                                 then set_volume_label DEFAULT_VOLUME_LABEL d else d)])))))"


section \<open>The command line\<close>

text \<open>\<^verbatim>\<open>strtol\<close> in base ten: blanks, a sign, digits; the value and what follows them (everything
  when there is no digit). Values outside of \<^verbatim>\<open>long\<close> are clipped.\<close>

fun digits_value :: "int \<Rightarrow> byte list \<Rightarrow> int \<times> byte list" where
  "digits_value v [] = (v, [])"
| "digits_value v (c # cs) =
     (if ch_0 \<le> c \<and> c \<le> ch_9 then digits_value (v * 10 + (uint c - 48)) cs else (v, c # cs))"

definition strtol :: "byte list \<Rightarrow> int \<times> byte list" where
  "strtol s =
     (let t = dropWhile (\<lambda>c. c = ch_space \<or> (ch_tab \<le> c \<and> c \<le> ch_cr)) s;
          (neg, u) = (case t of c # cs \<Rightarrow> if c = 0x2D then (True, cs) else if c = 0x2B then (False, cs)
                        else (False, t) | [] \<Rightarrow> (False, []));
          (v, rest) = digits_value 0 u
      in if u = [] \<or> rest = u then (0, s)
         else (max (- (2 ^ 63)) (min (2 ^ 63 - 1) (if neg then - v else v)), rest))"

record options =
  o_bind_addr :: "byte list"
  o_bind_port :: u16
  o_slip_dev :: "byte list"
  o_slip_speed :: u32
  o_slip_hw_flow_control :: bool
  o_translit_map_path :: "byte list"
  o_global_log_level :: int

definition default_options :: options where
  "default_options = \<lparr>o_bind_addr = [], o_bind_port = 12200, o_slip_dev = [], o_slip_speed = 0,
     o_slip_hw_flow_control = False, o_translit_map_path = bytes_of ''netmount-u2a.map'',
     o_global_log_level = 2\<rparr>"

definition starts_with :: "byte list \<Rightarrow> string \<Rightarrow> bool" where
  "starts_with arg prefix \<longleftrightarrow> take (length prefix) arg = bytes_of prefix"

text \<open>One argument: \<open>Inl\<close> is the exit code. The byte behind the end of an argument is NUL.\<close>

definition parse_argument ::
  "host \<Rightarrow> byte list \<Rightarrow> options \<times> drive list \<Rightarrow> int + (options \<times> drive list)" where
  "parse_argument h arg st =
     (case st of (opts, drives) \<Rightarrow>
      if length arg < 3 then Inl (- 1)
      else if arg = bytes_of ''--help'' then Inl 0
      else if starts_with arg ''--bind-addr='' then Inr (opts\<lparr>o_bind_addr := drop 12 arg\<rparr>, drives)
      else if starts_with arg ''--bind-port='' then
        (case strtol (drop 12 arg) of (port, rest) \<Rightarrow>
           if port \<le> 0 \<or> port > 0xFFFF \<or> rest \<noteq> [] then Inl (- 1)
           else Inr (opts\<lparr>o_bind_port := word_of_int port\<rparr>, drives))
      else if starts_with arg ''--slip-dev='' then Inr (opts\<lparr>o_slip_dev := drop 11 arg\<rparr>, drives)
      else if starts_with arg ''--slip-speed='' then
        (case strtol (drop 13 arg) of (speed, rest) \<Rightarrow>
           if speed < 1200 \<or> speed > 230400 \<or> rest \<noteq> [] then Inl (- 1)
           else Inr (opts\<lparr>o_slip_speed := word_of_int speed\<rparr>, drives))
      else if starts_with arg ''--slip-rts-cts='' then
        (case drop 15 arg of
           c # _ \<Rightarrow> if c = ch_1 then Inr (opts\<lparr>o_slip_hw_flow_control := True\<rparr>, drives)
                    else if c = ch_0 then Inr (opts\<lparr>o_slip_hw_flow_control := False\<rparr>, drives)
                    else Inl (- 1)
         | [] \<Rightarrow> Inl (- 1))
      else if starts_with arg ''--log-level='' then
        (case strtol (drop 12 arg) of (v, rest) \<Rightarrow>
           let log_level = v - 1 in
           if log_level < - 1 \<or> log_level > level_value TRACE \<or> rest \<noteq> [] then Inl (- 1)
           else Inr (opts\<lparr>o_global_log_level := log_level\<rparr>, drives))
      else if starts_with arg ''--translit-map-path='' then
        Inr (opts\<lparr>o_translit_map_path := drop 20 arg\<rparr>, drives)
      else if arg ! 1 = ch_equals then
        (case parse_share_definition h arg drives of
           (ret, drives) \<Rightarrow> if ret \<noteq> 0 then Inl ret else Inr (opts, drives))
      else Inl (- 1))"

fun parse_arguments ::
  "host \<Rightarrow> byte list list \<Rightarrow> options \<times> drive list \<Rightarrow> int + (options \<times> drive list)" where
  "parse_arguments h [] st = Inr st"
| "parse_arguments h (arg # args) st =
     (case parse_argument h arg st of Inl code \<Rightarrow> Inl code | Inr st' \<Rightarrow> parse_arguments h args st')"

text \<open>The storage method that replaces AUTO.\<close>

definition resolve_attrs_mode :: "host \<Rightarrow> drive \<Rightarrow> drive" where
  "resolve_attrs_mode h d =
     (if d_used d \<and> d_attrs_mode d = AUTO then
        d\<lparr>d_attrs_mode :=
          (if is_dos_attrs_native_supported h (d_root d) then NATIVE
           else if is_dos_attrs_in_extended_supported h (d_root d) then IN_EXTENDED
           else IGNORE)\<rparr>
      else d)"

definition MAX_DRIVES_COUNT :: nat where "MAX_DRIVES_COUNT = 26"

text \<open>From the arguments of \<^verbatim>\<open>main\<close> to the options and drives with which the main loop starts.\<close>

definition configure :: "host \<Rightarrow> byte list list \<Rightarrow> int + (options \<times> drive list)" where
  "configure h args =
     (case parse_arguments h args (default_options, replicate MAX_DRIVES_COUNT default_drive) of
        Inl code \<Rightarrow> Inl code
      | Inr (opts, drives) \<Rightarrow>
          if o_slip_dev opts \<noteq> [] \<and> o_slip_speed opts = 0 then Inl (- 1)
          else if o_slip_dev opts \<noteq> [] \<and> o_bind_addr opts \<noteq> [] then Inl (- 1)
          else if \<not> list_ex d_used drives then Inl (- 1)
          else Inr (opts, map (resolve_attrs_mode h) drives))"

end
