(* ===== verification/Handles.thy ===== *)
theory Handles
  imports Drive
begin

text \<open>
  The handle table of a drive: \<open>get_handle\<close> gives the handle of a path, reusing the handle the path
  already has, and replaces the least recently used item only when all 65535 handles are in use;
  \<open>get_item\<close> finds the item again. The contract is the locale \<open>handle_table\<close>, interpreted on the
  two operations.
\<close>

section \<open>The search\<close>

text \<open>What one turn of the loop does to an item that is not the one searched, and to the two
  candidates for the slot.\<close>

definition aged :: "int \<Rightarrow> item \<Rightarrow> item" where
  "aged now it = (if now - i_last_used_time it > 3600 then it\<lparr>i_directory_list := []\<rparr> else it)"

definition candidates :: "nat \<Rightarrow> nat \<Rightarrow> nat \<Rightarrow> item list \<Rightarrow> nat \<times> nat" where
  "candidates k ff old items =
     (if ff = length items then
        (if path_is_empty (i_path (items ! k)) then (k, old)
         else if i_last_used_time (items ! old) > i_last_used_time (items ! k) then (ff, k)
         else (ff, old))
      else (ff, old))"

lemma aged_simps [simp]:
  "i_path (aged now it) = i_path it" "i_last_used_time (aged now it) = i_last_used_time it"
  by (simp_all add: aged_def)

lemma get_handle_loop_found:
  "k < length items \<Longrightarrow> i_path (items ! k) = p \<Longrightarrow>
   get_handle_loop p now k ff old items =
     (Inr k, items[k := (items ! k)\<lparr>i_last_used_time := now\<rparr>])"
  by (subst get_handle_loop.simps) (simp add: Let_def)

lemma get_handle_loop_step:
  assumes "k < length items" "i_path (items ! k) \<noteq> p"
  shows "get_handle_loop p now k ff old items =
    (case candidates k ff old items of (ff', old') \<Rightarrow>
       get_handle_loop p now (Suc k) ff' old' (items[k := aged now (items ! k)]))"
proof -
  let ?it = "if now - i_last_used_time (items ! k) > 3600 then (items ! k)\<lparr>i_directory_list := []\<rparr> else items ! k"
  have "i_last_used_time (items[k := ?it] ! old) = i_last_used_time (items ! old)"
    by (cases "old = k") (use assms in auto)
  with assms show ?thesis
    by (subst get_handle_loop.simps) (simp add: Let_def candidates_def aged_def)
qed

lemma get_handle_loop_end:
  "length items \<le> k \<Longrightarrow> get_handle_loop p now k ff old items = (Inl (ff, old), items)"
  by (subst get_handle_loop.simps) simp

lemma map_aged [simp]:
  "k < length items \<Longrightarrow> map i_path (items[k := aged now (items ! k)]) = map i_path items"
  "k < length items \<Longrightarrow>
     map i_last_used_time (items[k := aged now (items ! k)]) = map i_last_used_time items"
  by (simp_all add: map_update list_update_same_conv)

text \<open>An unsuccessful search from position \<open>k\<close> on, over the paths and times of the table: no item
  has the path, the free slot is empty, and without a free slot the other candidate is the least
  recently used item.\<close>

definition search_failed ::
  "path \<Rightarrow> nat \<Rightarrow> nat \<Rightarrow> nat \<Rightarrow> nat \<Rightarrow> nat \<Rightarrow> path list \<Rightarrow> int list \<Rightarrow> bool" where
  "search_failed p k ff old ff' old' ps ts \<longleftrightarrow>
     (\<forall>j. k \<le> j \<and> j < length ps \<longrightarrow> ps ! j \<noteq> p) \<and>
     (ff' = ff \<or> ff = length ps \<and> ff' < length ps \<and> path_is_empty (ps ! ff')) \<and>
     (old' = old \<or> old' < length ps) \<and>
     (ff' = length ps \<longrightarrow> old < length ps \<longrightarrow> (\<forall>j < k. ts ! old \<le> ts ! j) \<longrightarrow>
        (\<forall>j < length ps. ts ! old' \<le> ts ! j))"

lemma search_failed_step:
  assumes "search_failed p (Suc k) ff1 old1 ff' old' ps ts" "ps ! k \<noteq> p" "k < length ps"
    "(ff1, old1) = (if ff = length ps then
        (if path_is_empty (ps ! k) then (k, old) else if ts ! old > ts ! k then (ff, k) else (ff, old))
      else (ff, old))"
  shows "search_failed p k ff old ff' old' ps ts"
  unfolding search_failed_def
proof (intro conjI allI impI)
  fix j assume "k \<le> j \<and> j < length ps"
  then show "ps ! j \<noteq> p"
    using assms(1,2) by (cases "j = k") (auto simp: search_failed_def)
next
  show "ff' = ff \<or> ff = length ps \<and> ff' < length ps \<and> path_is_empty (ps ! ff')"
    "old' = old \<or> old' < length ps"
    using assms by (auto simp: search_failed_def split: if_splits)
next
  fix j assume *: "ff' = length ps" "old < length ps" "\<forall>j < k. ts ! old \<le> ts ! j" "j < length ps"
  have "ff1 = length ps" using assms(1,3,4) *(1) by (auto simp: search_failed_def split: if_splits)
  then have "old1 < length ps \<and> (\<forall>j < Suc k. ts ! old1 \<le> ts ! j)"
    using assms(3,4) *(2,3) by (auto simp: less_Suc_eq not_less split: if_splits dest: order_trans)
  then show "ts ! old' \<le> ts ! j"
    using assms(1) * by (auto simp: search_failed_def)
qed

lemma get_handle_loop_spec:
  assumes "k \<le> length items" "items \<noteq> [] \<Longrightarrow> old < length items"
    "get_handle_loop p now k ff old items = (r, items')"
  shows "map i_path items' = map i_path items"
    and "r = Inr h \<Longrightarrow> h < length items \<and> i_path (items ! h) = p \<and> i_last_used_time (items' ! h) = now"
    and "r = Inl (ff', old') \<Longrightarrow>
      search_failed p k ff old ff' old' (map i_path items) (map i_last_used_time items) \<and>
      map i_last_used_time items' = map i_last_used_time items"
proof -
  have "map i_path items' = map i_path items \<and>
     (\<forall>h. r = Inr h \<longrightarrow> h < length items \<and> i_path (items ! h) = p \<and> i_last_used_time (items' ! h) = now) \<and>
     (\<forall>ff' old'. r = Inl (ff', old') \<longrightarrow>
       search_failed p k ff old ff' old' (map i_path items) (map i_last_used_time items) \<and>
       map i_last_used_time items' = map i_last_used_time items)"
    using assms
  proof (induction "length items - k" arbitrary: k ff old items)
    case 0
    then show ?case by (auto simp: get_handle_loop_end search_failed_def)
  next
    case (Suc n)
    then have k: "k < length items" by simp
    show ?case
    proof (cases "i_path (items ! k) = p")
      case True
      with k Suc.prems(3) show ?thesis
        by (auto simp: get_handle_loop_found map_update list_update_same_conv)
    next
      case False
      obtain ff1 old1 where c: "candidates k ff old items = (ff1, old1)" by fastforce
      let ?items = "items[k := aged now (items ! k)]"
      have "get_handle_loop p now (Suc k) ff1 old1 ?items = (r, items')"
        using get_handle_loop_step [OF k False, of now ff old] c Suc.prems(3) by simp
      moreover have old: "old < length items" "old1 < length items"
        using Suc.prems(2) k c by (cases "items = []"; auto simp: candidates_def split: if_splits)+
      ultimately have IH: "map i_path items' = map i_path items"
        "\<And>h. r = Inr h \<Longrightarrow> h < length items \<and> i_path (?items ! h) = p \<and> i_last_used_time (items' ! h) = now"
        "\<And>ff' old'. r = Inl (ff', old') \<Longrightarrow>
           search_failed p (Suc k) ff1 old1 ff' old' (map i_path items) (map i_last_used_time items) \<and>
           map i_last_used_time items' = map i_last_used_time items"
        using Suc.hyps(1) [of ?items "Suc k" old1 ff1] k Suc.hyps(2) by auto
      have "i_path (?items ! h) = i_path (items ! h)" for h
        using k by (cases "h = k") auto
      moreover have "(ff1, old1) = (if ff = length items then
          (if path_is_empty (i_path (items ! k)) then (k, old)
           else if i_last_used_time (items ! old) > i_last_used_time (items ! k) then (ff, k) else (ff, old))
          else (ff, old))"
        using c by (simp add: candidates_def)
      ultimately show ?thesis
        using IH k old False search_failed_step [of p k ff1 old1 _ _ "map i_path items"
            "map i_last_used_time items" ff old]
        by auto
    qed
  qed
  then show "map i_path items' = map i_path items"
    and "r = Inr h \<Longrightarrow> h < length items \<and> i_path (items ! h) = p \<and> i_last_used_time (items' ! h) = now"
    and "r = Inl (ff', old') \<Longrightarrow>
      search_failed p k ff old ff' old' (map i_path items) (map i_last_used_time items) \<and>
      map i_last_used_time items' = map i_last_used_time items"
    by blast+
qed


section \<open>The table\<close>

text \<open>At most 65535 items, and no path has two handles.\<close>

definition wf_table :: "item list \<Rightarrow> bool" where
  "wf_table items \<longleftrightarrow> length items \<le> MAX_HANDLE_COUNT \<and>
     (\<forall>i < length items. \<forall>j < length items.
        i_path (items ! i) = i_path (items ! j) \<longrightarrow> \<not> path_is_empty (i_path (items ! i)) \<longrightarrow> i = j)"

text \<open>The new table after \<open>get_handle\<close> gave out the slot \<open>i\<close>.\<close>

definition handed_out :: "path \<Rightarrow> int \<Rightarrow> nat \<Rightarrow> item list \<Rightarrow> item list \<Rightarrow> bool" where
  "handed_out p now i items items' \<longleftrightarrow>
     i < length items' \<and> i < MAX_HANDLE_COUNT \<and> length items \<le> length items' \<and>
     i \<le> length items \<and> length items' \<le> max (length items) (Suc i) \<and>
     i_path (items' ! i) = p \<and> i_last_used_time (items' ! i) = now \<and>
     (\<forall>j < length items. j \<noteq> i \<longrightarrow> i_path (items' ! j) = i_path (items ! j)) \<and>
     ((\<exists>j < length items. i_path (items ! j) = p) \<longrightarrow> i < length items \<and> i_path (items ! i) = p)"

definition lru_victim :: "path \<Rightarrow> nat \<Rightarrow> item list \<Rightarrow> bool" where
  "lru_victim p i items \<longleftrightarrow>
     (\<forall>j < length items. i_path (items ! j) \<noteq> p) \<longrightarrow>
     i < length items \<and> \<not> path_is_empty (i_path (items ! i)) \<longrightarrow>
     length items = MAX_HANDLE_COUNT \<and>
     (\<forall>j < length items. i_last_used_time (items ! i) \<le> i_last_used_time (items ! j))"

lemma get_handle_spec:
  assumes "length (d_items (s_drive s)) \<le> MAX_HANDLE_COUNT"
  obtains i items' where "get_handle p s = (Inr (of_nat i), set_items items' s)"
    "handed_out p (h_clock (s_host s)) i (d_items (s_drive s)) items'"
    "lru_victim p i (d_items (s_drive s))"
proof -
  let ?items = "d_items (s_drive s)" and ?now = "h_clock (s_host s)"
  obtain r items1 where loop: "get_handle_loop p ?now 0 (length ?items) 0 ?items = (r, items1)"
    by fastforce
  note spec = get_handle_loop_spec [OF _ _ loop]
  have paths: "map i_path items1 = map i_path ?items" using spec(1) by simp
  then have len: "length items1 = length ?items" by (metis length_map)
  have path: "i_path (items1 ! j) = i_path (?items ! j)" if "j < length ?items" for j
    using paths that len by (metis nth_map)
  show thesis
  proof (cases r)
    case (Inr h)
    then have h: "h < length ?items" "i_path (?items ! h) = p" "i_last_used_time (items1 ! h) = ?now"
      using spec(2) [of h] by auto
    show thesis
    proof (rule that [of h items1])
      show "get_handle p s = (Inr (of_nat h), set_items items1 s)"
        using loop Inr by (simp add: get_handle_def)
      show "handed_out p ?now h ?items items1"
        using h len path assms by (auto simp: handed_out_def)
      show "lru_victim p h ?items" using h by (auto simp: lru_victim_def)
    qed
  next
    case (Inl c)
    obtain ff old where c: "c = (ff, old)" by fastforce
    have fail: "search_failed p 0 (length ?items) 0 ff old (map i_path ?items) (map i_last_used_time ?items)"
      using spec(3) [of ff old] Inl c by simp
    let ?full = "ff = length ?items \<and> \<not> ff < MAX_HANDLE_COUNT"
    let ?slot = "if ?full then old else ff"
    let ?new = "if ff = length items1 then (if ff < MAX_HANDLE_COUNT then items1 @ [empty_item]
       else items1[old := (items1 ! old)\<lparr>i_path := empty_path, i_directory_list := []\<rparr>]) else items1"
    let ?items' = "?new[?slot := (?new ! ?slot)\<lparr>i_path := p, i_last_used_time := ?now\<rparr>]"
    have none: "\<forall>j < length ?items. i_path (?items ! j) \<noteq> p"
      and free: "ff < length ?items \<Longrightarrow> path_is_empty (i_path (?items ! ff))"
      and ff: "ff \<le> length ?items"
      using fail by (auto simp: search_failed_def)
    have old: "?full \<Longrightarrow> old < length ?items \<and>
        (\<forall>j < length ?items. i_last_used_time (?items ! old) \<le> i_last_used_time (?items ! j))"
      using fail assms by (auto simp: search_failed_def MAX_HANDLE_COUNT_def)
    show thesis
    proof (rule that [of ?slot ?items'])
      show "get_handle p s = (Inr (of_nat ?slot), set_items ?items' s)"
        using loop Inl c len by (simp add: get_handle_def Let_def)
      show "handed_out p ?now ?slot ?items ?items'"
        using none ff old len path assms
        by (auto simp: handed_out_def nth_append nth_list_update)
      show "lru_victim p ?slot ?items"
        using free ff old assms by (auto simp: lru_victim_def)
    qed
  qed
qed


lemma handed_out_wf:
  assumes "wf_table items" "handed_out p now i items items'"
  shows "wf_table items'"
  unfolding wf_table_def
proof (intro conjI allI impI)
  show "length items' \<le> MAX_HANDLE_COUNT"
    using assms by (auto simp: wf_table_def handed_out_def)
  fix j k assume *: "j < length items'" "k < length items'"
    "i_path (items' ! j) = i_path (items' ! k)" "\<not> path_is_empty (i_path (items' ! j))"
  have old: "j < length items \<or> j = i" "k < length items \<or> k = i"
    using * assms(2) by (auto simp: handed_out_def)
  have new: "n = i" if "n < length items" "i_path (items ! n) = p" "\<not> path_is_empty p" for n
    using that assms by (auto simp: wf_table_def handed_out_def)
  have pi: "i_path (items' ! i) = p"
    and other: "\<And>n. n < length items \<Longrightarrow> n \<noteq> i \<Longrightarrow> i_path (items' ! n) = i_path (items ! n)"
    using assms(2) by (auto simp: handed_out_def)
  show "j = k"
  proof (cases "j = i \<or> k = i")
    case True
    then show ?thesis
      using * old new pi other by metis
  next
    case False
    with * old assms show ?thesis by (auto simp: wf_table_def handed_out_def)
  qed
qed

section \<open>The contract\<close>

text \<open>
  A table that gives out handles for paths. A handle that was just given out denotes its path;
  no other handle changes; a path that has a handle gets the same one again.
\<close>

locale handle_table =
  fixes get :: "path \<Rightarrow> 's \<Rightarrow> 'h \<times> 's" and lookup :: "'h \<Rightarrow> 's \<Rightarrow> path option" and wf :: "'s \<Rightarrow> bool"
  assumes wf_get: "wf s \<Longrightarrow> get p s = (h, s') \<Longrightarrow> wf s'"
    and lookup_get: "wf s \<Longrightarrow> \<not> path_is_empty p \<Longrightarrow> get p s = (h, s') \<Longrightarrow> lookup h s' = Some p"
    and lookup_other: "wf s \<Longrightarrow> get p s = (h, s') \<Longrightarrow> h' \<noteq> h \<Longrightarrow> lookup h' s' = lookup h' s"
    and lookup_inject: "wf s \<Longrightarrow> lookup h s = Some p \<Longrightarrow> lookup h' s = Some p \<Longrightarrow> h = h'"
    and get_known: "wf s \<Longrightarrow> lookup h0 s = Some p \<Longrightarrow> get p s = (h, s') \<Longrightarrow> lookup h s = Some p"
begin

lemma get_stable: "wf s \<Longrightarrow> lookup h s = Some p \<Longrightarrow> fst (get p s) = h"
  by (metis get_known lookup_inject prod.collapse)

lemma get_again: "wf s \<Longrightarrow> \<not> path_is_empty p \<Longrightarrow> get p s = (h, s') \<Longrightarrow> fst (get p s') = h"
  by (metis get_stable lookup_get wf_get)

end

definition handle_of :: "path \<Rightarrow> dstate \<Rightarrow> u16 \<times> dstate" where
  "handle_of p s = (case get_handle p s of (Inr h, s') \<Rightarrow> (h, s') | (Inl _, s') \<Rightarrow> (0, s'))"

definition path_of_handle :: "u16 \<Rightarrow> dstate \<Rightarrow> path option" where
  "path_of_handle h s = (case get_item h s of (Inr it, _) \<Rightarrow> Some (i_path it) | (Inl _, _) \<Rightarrow> None)"

definition wf_handles :: "dstate \<Rightarrow> bool" where
  "wf_handles s \<longleftrightarrow> wf_table (d_items (s_drive s))"

lemma path_of_handle_eq:
  "path_of_handle h s = Some p \<longleftrightarrow>
     unat h < length (d_items (s_drive s)) \<and> i_path (d_items (s_drive s) ! unat h) = p \<and> \<not> path_is_empty p"
  by (auto simp: path_of_handle_def get_item_def Let_def)

lemma items_set_items [simp]:
  "d_items (s_drive (set_items is s)) = is" "s_host (set_items is s) = s_host s"
  by (simp_all add: set_items_def)

lemma unat_of_handle: "i < MAX_HANDLE_COUNT \<Longrightarrow> unat (of_nat i :: u16) = i"
  by (simp add: MAX_HANDLE_COUNT_def unat_of_nat take_bit_eq_mod)

lemma handle_of_spec:
  assumes "wf_handles s" "handle_of p s = (h, s')"
  obtains items' where "s' = set_items items' s"
    "handed_out p (h_clock (s_host s)) (unat h) (d_items (s_drive s)) items'"
    "get_handle p s = (Inr h, s')" "lru_victim p (unat h) (d_items (s_drive s))"
proof -
  obtain i items' where g: "get_handle p s = (Inr (of_nat i), set_items items' s)"
    and *: "handed_out p (h_clock (s_host s)) i (d_items (s_drive s)) items'"
      "lru_victim p i (d_items (s_drive s))"
    using get_handle_spec [of s p] assms(1) unfolding wf_handles_def wf_table_def by metis
  have "i < MAX_HANDLE_COUNT" using * by (simp add: handed_out_def)
  with g * assms(2) show thesis
    by (intro that [of items']) (auto simp: handle_of_def unat_of_handle)
qed

interpretation handles: handle_table handle_of path_of_handle wf_handles
proof unfold_locales
  fix s s' p h assume *: "wf_handles s" "handle_of p s = (h, s')"
  obtain items' where s': "s' = set_items items' s"
    and out: "handed_out p (h_clock (s_host s)) (unat h) (d_items (s_drive s)) items'"
    using handle_of_spec [OF *] by metis
  show "wf_handles s'"
    using handed_out_wf [OF _ out] * s' by (simp add: wf_handles_def)
  show "path_of_handle h s' = Some p" if "\<not> path_is_empty p"
    using out s' that by (simp add: path_of_handle_eq handed_out_def)
  show "path_of_handle h' s' = path_of_handle h' s" if "h' \<noteq> h" for h'
  proof -
    have "unat h' \<noteq> unat h" using that by (metis word_unat_eq_iff)
    then have "path_of_handle h' s' = Some q \<longleftrightarrow> path_of_handle h' s = Some q" for q
      using out s' by (auto simp: path_of_handle_eq handed_out_def)
    then show ?thesis by (metis not_Some_eq)
  qed
  show "path_of_handle h s = Some p" if "path_of_handle h0 s = Some p" for h0
    using out s' that by (auto simp: path_of_handle_eq handed_out_def)
next
  fix s p h h' assume *: "wf_handles s" "path_of_handle h s = Some p" "path_of_handle h' s = Some p"
  then have "unat h = unat h'"
    by (auto simp: wf_handles_def wf_table_def path_of_handle_eq)
  then show "h = h'" by (simp add: word_unat_eq_iff)
qed

lemma get_handle_total:
  assumes "wf_handles s"
  obtains h where "get_handle p s = (Inr h, snd (handle_of p s))" "fst (handle_of p s) = h" "h \<noteq> 0xFFFF"
proof -
  obtain h s' where hs: "handle_of p s = (h, s')" by fastforce
  obtain items' where "get_handle p s = (Inr h, s')"
    "handed_out p (h_clock (s_host s)) (unat h) (d_items (s_drive s)) items'"
    using handle_of_spec [OF assms hs] by metis
  moreover from this have "h \<noteq> 0xFFFF"
    by (auto simp: handed_out_def MAX_HANDLE_COUNT_def)
  ultimately show thesis using that hs by simp
qed


section \<open>Properties\<close>

text \<open>C12: The handle table works as a table: \<open>get_handle\<close> never fails and never gives out the
  reserved number 0xFFFF; the handle it returns denotes the path; every other handle denotes what
  it denoted before; asking for the same path again gives the same handle; and the table stays
  well-formed (at most 65535 items, no path with two handles).\<close>

theorem get_handle_correct:
  assumes "wf_handles s" "\<not> path_is_empty p"
  shows "\<exists>h s'. get_handle p s = (Inr h, s') \<and> h \<noteq> 0xFFFF \<and> wf_handles s' \<and>
    path_of_handle h s' = Some p \<and>
    (\<forall>h'. h' \<noteq> h \<longrightarrow> path_of_handle h' s' = path_of_handle h' s) \<and>
    (\<forall>h'. path_of_handle h' s = Some p \<longrightarrow> h' = h) \<and>
    fst (get_handle p s') = Inr h"
proof -
  obtain h where h: "get_handle p s = (Inr h, snd (handle_of p s))" "fst (handle_of p s) = h" "h \<noteq> 0xFFFF"
    using get_handle_total [OF assms(1)] .
  define s' where "s' = snd (handle_of p s)"
  have hs: "handle_of p s = (h, s')" using h(2) by (simp add: s'_def prod_eq_iff)
  have wf: "wf_handles s'" using handles.wf_get [OF assms(1) hs] .
  moreover obtain h2 where "get_handle p s' = (Inr h2, snd (handle_of p s'))" "fst (handle_of p s') = h2"
    using get_handle_total [OF wf] .
  moreover have "fst (handle_of p s') = h" using handles.get_again [OF assms hs] .
  moreover have "h' = h" if "path_of_handle h' s = Some p" for h'
    using handles.get_stable [OF assms(1) that] hs by simp
  ultimately show ?thesis
    using h(1,3) handles.lookup_get [OF assms hs] handles.lookup_other [OF assms(1) hs]
    unfolding s'_def [symmetric] by (intro exI [of _ h] exI [of _ s']) auto
qed

definition host_demo :: host where
  "host_demo = \<lparr>h_tree = [([], \<lparr>n_kind = Dir, n_mtime = 0, n_fat = 0, n_xattr = None\<rparr>)],
     h_cwd = [], h_clock = 1000, h_faults = (\<lambda>_ _. None), h_space = (\<lambda>_. (0, 0)),
     h_fat_fs = False, h_xattr_fs = False\<rparr>"

definition dstate_demo :: dstate where
  "dstate_demo = \<lparr>s_drive = default_drive\<lparr>d_used := True, d_root := \<lparr>p_abs = True, p_elems = []\<rparr>\<rparr>,
     s_host = host_demo\<rparr>"

theorem get_handle_correct_witness:
  "\<exists>h s'. get_handle \<lparr>p_abs = True, p_elems = [[ch_a]]\<rparr> dstate_demo = (Inr h, s') \<and> h \<noteq> 0xFFFF \<and>
     path_of_handle h s' = Some \<lparr>p_abs = True, p_elems = [[ch_a]]\<rparr>"
proof -
  have "wf_handles dstate_demo" by (simp add: wf_handles_def wf_table_def dstate_demo_def default_drive_def)
  moreover have "\<not> path_is_empty \<lparr>p_abs = True, p_elems = [[ch_a]]\<rparr>" by (simp add: path_is_empty_def)
  ultimately show ?thesis using get_handle_correct by blast
qed

text \<open>C20: A handle is taken away from another path only when all 65535 handles are in use, and then
  it is the least recently used one.\<close>

theorem get_handle_evicts_oldest:
  assumes "wf_handles s" "get_handle p s = (Inr h, s')"
    "path_of_handle h s = Some q" "q \<noteq> p"
  shows "length (d_items (s_drive s)) = MAX_HANDLE_COUNT \<and>
    (\<forall>j < MAX_HANDLE_COUNT.
       i_last_used_time (d_items (s_drive s) ! unat h) \<le> i_last_used_time (d_items (s_drive s) ! j))"
proof -
  let ?items = "d_items (s_drive s)"
  have "handle_of p s = (h, s')" using assms(2) by (simp add: handle_of_def)
  then obtain items' where out: "handed_out p (h_clock (s_host s)) (unat h) ?items items'"
    and lru: "lru_victim p (unat h) ?items"
    using handle_of_spec [OF assms(1)] by metis
  have q: "unat h < length ?items" "i_path (?items ! unat h) = q" "\<not> path_is_empty q"
    using assms(3) by (simp_all add: path_of_handle_eq)
  then have "\<forall>j < length ?items. i_path (?items ! j) \<noteq> p"
    using out assms(4) by (auto simp: handed_out_def)
  with lru q show ?thesis by (auto simp: lru_victim_def)
qed

text \<open>A table in which every handle is taken; the handle 7 was used longest ago.\<close>

definition full_items :: "item list" where
  "full_items = map (\<lambda>n. \<lparr>i_path = \<lparr>p_abs = True, p_elems = [replicate n ch_a]\<rparr>,
     i_last_used_time = (if n = 7 then 5 else 10), i_directory_list = [], i_fcb_names = []\<rparr>)
     [0..<MAX_HANDLE_COUNT]"

theorem get_handle_evicts_oldest_witness:
  "let s = set_items full_items dstate_demo; p = \<lparr>p_abs = True, p_elems = [[ch_z]]\<rparr> in
   \<exists>h. fst (get_handle p s) = Inr h \<and>
     (\<forall>j < MAX_HANDLE_COUNT. i_last_used_time (full_items ! unat h) \<le> i_last_used_time (full_items ! j))"
proof -
  let ?s = "set_items full_items dstate_demo" and ?p = "\<lparr>p_abs = True, p_elems = [[ch_z]]\<rparr>"
  have len: "length full_items = MAX_HANDLE_COUNT" by (simp add: full_items_def)
  have path: "i_path (full_items ! j) = \<lparr>p_abs = True, p_elems = [replicate j ch_a]\<rparr>"
    if "j < MAX_HANDLE_COUNT" for j using that by (simp add: full_items_def)
  have wf: "wf_handles ?s"
    unfolding wf_handles_def wf_table_def items_set_items len
    using path by (metis length_replicate list.inject order_refl path.select_convs(2))
  obtain h where h: "get_handle ?p ?s = (Inr h, snd (handle_of ?p ?s))" "h \<noteq> 0xFFFF"
    using get_handle_total [OF wf] by metis
  then have u: "unat h < MAX_HANDLE_COUNT"
    using unat_lt2p [of h] by (auto simp: MAX_HANDLE_COUNT_def word_unat_eq_iff)
  have q: "path_of_handle h ?s = Some (i_path (full_items ! unat h))"
    using u len path by (simp add: path_of_handle_eq path_is_empty_def)
  have "i_path (full_items ! unat h) \<noteq> ?p"
    using path [OF u] by (auto simp: list_eq_iff_nth_eq nth_Cons' split: if_splits)
  from get_handle_evicts_oldest [OF wf h(1) q this] h(1) show ?thesis by (simp add: Let_def)
qed

end
