(* ===== verification/Checksums.thy ===== *)
theory Checksums
  imports Utils
begin

text \<open>
  The two checksums of the sources. \<open>bsd_checksum\<close> (\<^verbatim>\<open>netmount-server.cpp\<close>) protects the
  NetMount packets; the DOS client computes it with its own assembler routine
  (\<^verbatim>\<open>netmount.c\<close>), modelled as \<open>bsd_checksum_client\<close>. \<open>internet_checksum\<close>
  (\<^verbatim>\<open>slip_udp_serial.cpp\<close>) protects the IPv4 header.
\<close>

section \<open>The BSD checksum\<close>

fun bsd_checksum_loop :: "u16 \<Rightarrow> byte list \<Rightarrow> u16" where
  "bsd_checksum_loop res [] = res"
| "bsd_checksum_loop res (b # bs) =
     bsd_checksum_loop ((push_bit 15 res OR drop_bit 1 res) + ucast b) bs"

definition bsd_checksum :: "byte list \<Rightarrow> u16" where
  "bsd_checksum bs = bsd_checksum_loop 0 bs"

text \<open>The client's routine: \<open>ax\<close>, \<open>cx\<close> and \<open>dx\<close> are registers, \<open>dh\<close> is zero, the loop
  instruction decrements \<open>cx\<close> and jumps while it is not zero; \<open>bx\<close> walks over the memory,
  here the list of the bytes that are left.\<close>

function bsd_checksum_next :: "u16 \<Rightarrow> u16 \<Rightarrow> byte list \<Rightarrow> u16" where
  "bsd_checksum_next ax cx bx =
     (let ax = word_rotr 1 ax;
          dx = (case bx of [] \<Rightarrow> 0 | dl # _ \<Rightarrow> ucast dl);
          ax = ax + dx;
          cx = cx - 1
      in if cx \<noteq> 0 then bsd_checksum_next ax cx (tl bx) else ax)"
  by pat_completeness auto
termination
proof (relation "measure (\<lambda>(ax, cx, bx). unat (cx - 1))", goal_cases)
  case 1
  show ?case by simp
next
  case (2 ax cx bx x xa xb xc)
  then have "cx - 1 \<noteq> 0" by simp
  with measure_unat [of "cx - 1"] 2 show ?case by simp
qed

declare bsd_checksum_next.simps [simp del]

definition bsd_checksum_client :: "byte list \<Rightarrow> u16 \<Rightarrow> u16" where
  "bsd_checksum_client addr len = (if len = 0 then 0 else bsd_checksum_next 0 len addr)"

section \<open>The Internet checksum\<close>

text \<open>The 16-bit words of the buffer are read in the byte order of the host; a left-over byte
  is added as it is.\<close>

fun internet_sum :: "endian \<Rightarrow> u32 \<Rightarrow> byte list \<Rightarrow> u32" where
  "internet_sum native s (a # b # bs) = internet_sum native (s + ucast (load16 native [a, b])) bs"
| "internet_sum native s [a] = s + ucast a"
| "internet_sum native s [] = s"

lemma fold_sum_decreases:
  assumes "drop_bit 16 s \<noteq> (0 :: u32)"
  shows "unat ((s AND 0xFFFF) + drop_bit 16 s) = unat s mod 65536 + unat s div 65536"
    and "unat s mod 65536 + unat s div 65536 < unat s"
proof -
  have lo: "unat (s AND 0xFFFF) = unat s mod 65536"
  proof -
    have "s AND 0xFFFF = take_bit 16 s" by (simp add: take_bit_eq_mask mask_eq_exp_minus_1)
    then show ?thesis by (simp only: unsigned_take_bit_eq) (simp add: take_bit_eq_mod)
  qed
  have hi: "unat (drop_bit 16 s) = unat s div 65536"
    by (simp only: unat_drop_bit_eq) (simp add: drop_bit_eq_div)
  have split: "unat s = 65536 * (unat s div 65536) + unat s mod 65536" by simp
  have "unat s < 4294967296" using unat_lt2p [of s] by simp
  then have "unat s mod 65536 + unat s div 65536 < 4294967296" using split by linarith
  then show "unat ((s AND 0xFFFF) + drop_bit 16 s) = unat s mod 65536 + unat s div 65536"
    by (simp add: unat_word_ariths lo hi)
  have "unat (drop_bit 16 s) \<noteq> 0" using assms by (metis unat_eq_zero)
  then have "unat s div 65536 > 0" using hi by simp
  then show "unat s mod 65536 + unat s div 65536 < unat s"
    using split by linarith
qed

function internet_fold :: "u32 \<Rightarrow> u32" where
  "internet_fold s =
     (if drop_bit 16 s \<noteq> 0 then internet_fold ((s AND 0xFFFF) + drop_bit 16 s) else s)"
  by pat_completeness auto
termination
  by (relation "measure unat") (auto simp: fold_sum_decreases)

declare internet_fold.simps [simp del]

definition internet_checksum :: "endian \<Rightarrow> byte list \<Rightarrow> u16" where
  "internet_checksum native bs = ucast (NOT (internet_fold (internet_sum native 0 bs)))"


section \<open>Lemmas on the BSD checksum\<close>

lemma rotate_right_1: "push_bit 15 (x :: u16) OR drop_bit 1 x = word_rotr 1 x"
proof (rule bit_word_eqI)
  fix n :: nat assume n: "n < LENGTH(16)"
  show "bit (push_bit 15 x OR drop_bit 1 x) n = bit (word_rotr 1 x) n"
  proof (cases "n = 15")
    case True
    then show ?thesis by (auto simp: bit_simps bit_word_rotr_iff dest: bit_imp_le_length)
  next
    case False
    with n show ?thesis by (auto simp: bit_simps bit_word_rotr_iff)
  qed
qed

lemma bsd_checksum_loop_append:
  "bsd_checksum_loop r (xs @ ys) = bsd_checksum_loop (bsd_checksum_loop r xs) ys"
  by (induction r xs rule: bsd_checksum_loop.induct) auto

lemma bsd_checksum_loop_inject: "bsd_checksum_loop r bs = bsd_checksum_loop s bs \<longleftrightarrow> r = s"
proof (induction bs arbitrary: r s)
  case (Cons b bs)
  have "word_rotr 1 r = word_rotr 1 s \<longleftrightarrow> r = s"
    by (metis word_rot_gal)
  with Cons.IH show ?case by (simp only: bsd_checksum_loop.simps rotate_right_1 add_right_cancel)
qed simp

lemma ucast_byte_u16_inject: "(ucast (a :: byte) :: u16) = ucast b \<longleftrightarrow> a = b"
proof -
  have "ucast (ucast x :: u16) = x" for x :: byte
    by (rule bit_word_eqI) (simp add: bit_simps)
  then show ?thesis by metis
qed

lemma bsd_checksum_next_eq:
  assumes "0 < length bs" "length bs < 65536"
  shows "bsd_checksum_next ax (of_nat (length bs)) bs = bsd_checksum_loop ax bs"
  using assms
proof (induction bs arbitrary: ax)
  case (Cons b bs)
  have len: "of_nat (length (b # bs)) - 1 = (of_nat (length bs) :: u16)" by simp
  have zero: "(of_nat (length bs) :: u16) = 0 \<longleftrightarrow> bs = []"
    using Cons.prems by (auto simp: word_of_nat_eq_0_iff dest: dvd_imp_le)
  show ?case
    using Cons zero
    by (subst bsd_checksum_next.simps)
      (auto simp: Let_def rotate_right_1 [unfolded One_nat_def])
qed simp

text \<open>Server and client agree on the checksum of every packet.\<close>

lemma bsd_checksum_client_eq:
  "length bs < 65536 \<Longrightarrow> bsd_checksum_client bs (of_nat (length bs)) = bsd_checksum bs"
  by (cases "bs = []")
    (auto simp: bsd_checksum_client_def bsd_checksum_def bsd_checksum_next_eq word_of_nat_eq_0_iff
      dest: dvd_imp_le)

text \<open>A packet in which one byte was damaged has another checksum.\<close>

lemma bsd_checksum_one_byte:
  "bsd_checksum (xs @ a # ys) = bsd_checksum (xs @ b # ys) \<longleftrightarrow> a = b"
  by (simp add: bsd_checksum_def bsd_checksum_loop_append bsd_checksum_loop_inject
      ucast_byte_u16_inject)


section \<open>Lemmas on the Internet checksum\<close>

lemma internet_fold_spec:
  "unat (internet_fold s) < 65536" (is ?bound)
  "unat (internet_fold s) mod 65535 = unat s mod 65535" (is ?cong)
  "internet_fold s = 0 \<longleftrightarrow> s = 0" (is ?zero)
proof -
  have "?bound \<and> ?cong \<and> ?zero"
  proof (induction s rule: internet_fold.induct)
    case (1 s)
    show ?case
    proof (cases "drop_bit 16 s = 0")
      case True
      then have "unat s div 65536 = 0"
        using unat_drop_bit_eq [of 16 s] by (simp add: drop_bit_eq_div)
      then have "unat s < 65536" by (simp add: div_eq_0_iff)
      with True show ?thesis by (simp add: internet_fold.simps [of s])
    next
      case False
      let ?t = "(s AND 0xFFFF) + drop_bit 16 s"
      have t: "unat ?t = unat s mod 65536 + unat s div 65536"
        using fold_sum_decreases(1) [OF False] .
      have split: "unat s = unat ?t + 65535 * (unat s div 65536)"
        unfolding t using mult_div_mod_eq [of 65536 "unat s"] by linarith
      then have "unat ?t mod 65535 = unat s mod 65535" by (metis mod_mult_self2)
      moreover have "unat ?t = 0 \<longleftrightarrow> unat s = 0" using split t by auto
      then have "?t = 0 \<longleftrightarrow> s = 0" by (simp only: unat_eq_zero)
      moreover have "internet_fold s = internet_fold ?t"
        using False by (simp add: internet_fold.simps [of s])
      ultimately show ?thesis using 1 [OF False] by metis
    qed
  qed
  then show ?bound ?cong ?zero by auto
qed

lemma internet_sum_acc: "internet_sum native (s + t) bs = internet_sum native s bs + t"
  by (induction native s bs rule: internet_sum.induct) (simp_all add: ac_simps)

lemma internet_sum_append:
  "even (length xs) \<Longrightarrow>
   internet_sum native s (xs @ ys) = internet_sum native (internet_sum native s xs) ys"
  by (induction native s xs rule: internet_sum.induct) simp_all

lemma internet_sum_store16:
  "internet_sum native s (store16 native v @ ys) = internet_sum native s ys + ucast v"
proof -
  obtain a b where ab: "store16 native v = [a, b]"
    by (cases native) (simp_all add: store16_def)
  then have "load16 native [a, b] = v"
    using load16_store16 [of native v "[]"] by simp
  with ab show ?thesis by (simp add: internet_sum_acc)
qed

lemma internet_sum_bound:
  "unat s + 32768 * length bs * 2 < 2 ^ 32 \<Longrightarrow>
   unat (internet_sum native s bs) \<le> unat s + 32768 * length bs * 2"
proof (induction native s bs rule: internet_sum.induct)
  case (1 native s a b bs)
  let ?w = "ucast (load16 native [a, b]) :: u32"
  have w: "unat ?w < 65536"
    using unat_lt2p [of "load16 native [a, b]"] by (simp add: unat_ucast_up)
  have "unat (s + ?w) = unat s + unat ?w"
    using w "1.prems" by (simp add: unat_word_ariths)
  with w 1 show ?case by simp
next
  case (2 native s a)
  have "unat (ucast a :: u32) < 256"
    using unat_lt2p [of a] by (simp add: unat_ucast_up)
  with 2 show ?case by (simp add: unat_word_ariths)
qed simp

lemma internet_checksum_unat:
  "unat (internet_checksum native bs) = 65535 - unat (internet_fold (internet_sum native 0 bs))"
proof -
  let ?f = "internet_fold (internet_sum native 0 bs)"
  have "ucast (NOT ?f) = NOT (ucast ?f :: u16)"
    by (rule bit_word_eqI) (simp add: bit_simps)
  moreover have "unat (ucast ?f :: u16) = unat ?f"
    using internet_fold_spec(1) [of "internet_sum native 0 bs"] by (simp add: unat_ucast_down)
  ultimately show ?thesis by (simp add: internet_checksum_def unat_not_u16)
qed

lemma internet_fold_complement:
  assumes "unat t = unat s + (65535 - unat (internet_fold s))"
  shows "internet_fold t = 65535"
proof -
  let ?f = "unat (internet_fold s)" and ?g = "unat (internet_fold t)"
  have f: "?f \<le> 65535" "?f mod 65535 = unat s mod 65535" "?f = 0 \<longleftrightarrow> unat s = 0"
    using internet_fold_spec [of s] by (simp_all add: unat_eq_zero)
  have "unat t mod 65535 = (unat s mod 65535 + (65535 - ?f)) mod 65535"
    using assms by (simp add: mod_add_left_eq)
  also have "\<dots> = (?f + (65535 - ?f)) mod 65535"
    by (simp only: f(2) [symmetric] mod_add_left_eq)
  finally have "unat t mod 65535 = 0" using f(1) by simp
  moreover have "unat t \<noteq> 0" using assms f by (cases "unat s = 0") auto
  then have "t \<noteq> 0" by auto
  ultimately have "?g mod 65535 = 0" "?g \<noteq> 0" "?g < 65536"
    using internet_fold_spec [of t] by (simp_all add: unat_eq_zero)
  then obtain k where "?g = 65535 * k" by (auto elim!: dvdE simp: mod_eq_0_iff_dvd)
  with \<open>?g \<noteq> 0\<close> \<open>?g < 65536\<close> have "?g = 65535" by (cases k) auto
  then have "unat (internet_fold t) = unat (65535 :: u32)" by simp
  then show ?thesis by (simp only: word_unat_eq_iff)
qed

text \<open>
  The law of RFC 1071 that sender and receiver rely on: the checksum computed over a buffer
  whose checksum field is zero, stored into that field, makes the checksum of the whole
  buffer zero.
\<close>

theorem internet_checksum_verifies:
  assumes "even (length xs)" "length xs + length ys < 65000"
    and c: "c = internet_checksum native (xs @ store16 native 0 @ ys)"
  shows "internet_checksum native (xs @ store16 native c @ ys) = 0"
proof -
  let ?s = "internet_sum native 0 (xs @ store16 native 0 @ ys)"
  have sum: "internet_sum native 0 (xs @ store16 native v @ ys) =
      internet_sum native (internet_sum native 0 xs) ys + ucast v" for v
    using assms(1) by (simp add: internet_sum_append internet_sum_store16)
  have "unat (internet_sum native 0 (xs @ store16 native c @ ys)) = unat ?s + unat c"
  proof -
    have "unat ?s \<le> 65536 * 65002"
      using internet_sum_bound [of 0 "xs @ store16 native 0 @ ys" native] assms(2) by simp
    moreover have "unat (ucast c :: u32) = unat c" by (rule unat_ucast_up) simp
    ultimately show ?thesis
      using unat_lt2p [of c] sum [of c] sum [of 0] by (simp add: unat_word_ariths)
  qed
  moreover have "unat c = 65535 - unat (internet_fold ?s)"
    using c internet_checksum_unat by simp
  ultimately have
    "unat (internet_sum native 0 (xs @ store16 native c @ ys)) = unat ?s + (65535 - unat (internet_fold ?s))"
    by simp
  then have "internet_fold (internet_sum native 0 (xs @ store16 native c @ ys)) = 65535"
    by (rule internet_fold_complement)
  then show ?thesis
    using internet_checksum_unat [of native "xs @ store16 native c @ ys"]
    by (simp add: unat_eq_zero)
qed

end
