(* ===== verification/Protocol.thy ===== *)
theory Protocol
  imports FsOps Checksums
begin

text \<open>
  The wire format of \<^verbatim>\<open>shared/drvproto.h\<close>: the packet header, the requests and the replies. A
  request is read through the packed structs, a reply is the bytes of such a struct; all fields
  are little-endian on the wire, the byte order of the machine is the argument \<open>native\<close>.
\<close>

section \<open>Constants\<close>

definition DRIVE_PROTO_VERSION :: u8 where "DRIVE_PROTO_VERSION = 1"
definition DRIVE_PROTO_MAGIC :: u16 where "DRIVE_PROTO_MAGIC = 0x9524"
definition DRIVE_PROTO_UDP_PORT :: u16 where "DRIVE_PROTO_UDP_PORT = 12200"
definition DRIVE_PROTO_FLAG_CHECKSUM_USED :: u16 where "DRIVE_PROTO_FLAG_CHECKSUM_USED = 0x8000"
definition DRIVE_PROTO_FLAG_RO_SHARE :: u16 where "DRIVE_PROTO_FLAG_RO_SHARE = 0x4000"
definition DRIVE_PROTO_FLAG_EXTENDED_FEATURES :: u16 where
  "DRIVE_PROTO_FLAG_EXTENDED_FEATURES = 0x2000"

lemmas proto_consts = DRIVE_PROTO_VERSION_def DRIVE_PROTO_MAGIC_def
  DRIVE_PROTO_FLAG_CHECKSUM_USED_def DRIVE_PROTO_FLAG_RO_SHARE_def
  DRIVE_PROTO_FLAG_EXTENDED_FEATURES_def

text \<open>The functions of the DOS redirector interface (\<^verbatim>\<open>shared/dos.h\<close>).\<close>

datatype int2f =
    INT2F_REMOVE_DIR | INT2F_MAKE_DIR | INT2F_CHANGE_DIR | INT2F_CLOSE_FILE | INT2F_READ_FILE
  | INT2F_WRITE_FILE | INT2F_LOCK_UNLOCK_FILE | INT2F_UNLOCK_FILE | INT2F_DISK_INFO
  | INT2F_SET_ATTRS | INT2F_GET_ATTRS | INT2F_RENAME_FILE | INT2F_DELETE_FILE | INT2F_OPEN_FILE
  | INT2F_CREATE_FILE | INT2F_FIND_FIRST | INT2F_FIND_NEXT | INT2F_SEEK_FROM_END
  | INT2F_EXTENDED_OPEN_CREATE_FILE | INT2F_DISK_INFO_LARGE | INT2F_NETMOUNT_FEATURE_QUERY

text \<open>The values the switch of the server knows; every other function is unknown to it.\<close>

fun int2f_code :: "int2f \<Rightarrow> u8" where
  "int2f_code INT2F_REMOVE_DIR = 0x01"
| "int2f_code INT2F_MAKE_DIR = 0x03"
| "int2f_code INT2F_CHANGE_DIR = 0x05"
| "int2f_code INT2F_CLOSE_FILE = 0x06"
| "int2f_code INT2F_READ_FILE = 0x08"
| "int2f_code INT2F_WRITE_FILE = 0x09"
| "int2f_code INT2F_LOCK_UNLOCK_FILE = 0x0A"
| "int2f_code INT2F_UNLOCK_FILE = 0x0B"
| "int2f_code INT2F_DISK_INFO = 0x0C"
| "int2f_code INT2F_SET_ATTRS = 0x0E"
| "int2f_code INT2F_GET_ATTRS = 0x0F"
| "int2f_code INT2F_RENAME_FILE = 0x11"
| "int2f_code INT2F_DELETE_FILE = 0x13"
| "int2f_code INT2F_OPEN_FILE = 0x16"
| "int2f_code INT2F_CREATE_FILE = 0x17"
| "int2f_code INT2F_FIND_FIRST = 0x1B"
| "int2f_code INT2F_FIND_NEXT = 0x1C"
| "int2f_code INT2F_SEEK_FROM_END = 0x21"
| "int2f_code INT2F_EXTENDED_OPEN_CREATE_FILE = 0x2E"
| "int2f_code INT2F_DISK_INFO_LARGE = 0xA3"
| "int2f_code INT2F_NETMOUNT_FEATURE_QUERY = 0xFE"

definition int2f_codes :: "(u8 \<times> int2f) list" where
  "int2f_codes =
     map (\<lambda>f. (int2f_code f, f))
       [INT2F_REMOVE_DIR,
        INT2F_MAKE_DIR,
        INT2F_CHANGE_DIR,
        INT2F_CLOSE_FILE,
        INT2F_READ_FILE,
        INT2F_WRITE_FILE,
        INT2F_LOCK_UNLOCK_FILE,
        INT2F_UNLOCK_FILE,
        INT2F_DISK_INFO,
        INT2F_SET_ATTRS,
        INT2F_GET_ATTRS,
        INT2F_RENAME_FILE,
        INT2F_DELETE_FILE,
        INT2F_OPEN_FILE,
        INT2F_CREATE_FILE,
        INT2F_FIND_FIRST,
        INT2F_FIND_NEXT,
        INT2F_SEEK_FROM_END,
        INT2F_EXTENDED_OPEN_CREATE_FILE,
        INT2F_DISK_INFO_LARGE,
        INT2F_NETMOUNT_FEATURE_QUERY]"

definition int2f_of :: "u8 \<Rightarrow> int2f option" where
  "int2f_of al = map_of int2f_codes al"

lemma int2f_of_code [simp]: "int2f_of (int2f_code f) = Some f"
  by (cases f) (simp_all add: int2f_of_def int2f_codes_def)

interpretation function_number: codec int2f_code int2f_of "\<lambda>_. True"
  by unfold_locales simp

section \<open>The header\<close>

text \<open>\<^verbatim>\<open>struct drive_proto_hdr\<close>: version at 0, length and flags at 1, checksum at 3, sequence at 5,
  then drive and function of a request or the register AX of a reply at 6.\<close>

definition hdr_size :: nat where "hdr_size = 8"

definition hdr_version :: "byte list \<Rightarrow> u8" where "hdr_version p = p ! 0"
definition hdr_length_flags :: "endian \<Rightarrow> byte list \<Rightarrow> u16" where
  "hdr_length_flags native p = get16 native p 1"
definition hdr_checksum :: "endian \<Rightarrow> byte list \<Rightarrow> u16" where
  "hdr_checksum native p = get16 native p 3"
definition hdr_sequence :: "byte list \<Rightarrow> u8" where "hdr_sequence p = p ! 5"
definition hdr_drive :: "byte list \<Rightarrow> u8" where "hdr_drive p = p ! 6"
definition hdr_function :: "byte list \<Rightarrow> u8" where "hdr_function p = p ! 7"
definition hdr_ax :: "endian \<Rightarrow> byte list \<Rightarrow> u16" where "hdr_ax native p = get16 native p 6"


section \<open>Requests\<close>

record drive_proto_closef_ext =
  cf_start_cluster :: u16
  cf_date_time :: u32

definition closef_ext_of :: "endian \<Rightarrow> byte list \<Rightarrow> drive_proto_closef_ext" where
  "closef_ext_of native d = \<lparr>cf_start_cluster = get16 native d 0, cf_date_time = get32 native d 2\<rparr>"

definition closef_start_cluster :: "endian \<Rightarrow> byte list \<Rightarrow> u16" where
  "closef_start_cluster native d = get16 native d 0"

record drive_proto_readf =
  rf_offset :: u32
  rf_start_cluster :: u16
  rf_length :: u16

definition readf_of :: "endian \<Rightarrow> byte list \<Rightarrow> drive_proto_readf" where
  "readf_of native d =
     \<lparr>rf_offset = get32 native d 0, rf_start_cluster = get16 native d 4, rf_length = get16 native d 6\<rparr>"

record drive_proto_writef =
  wr_offset :: u32
  wr_start_cluster :: u16

definition writef_of :: "endian \<Rightarrow> byte list \<Rightarrow> drive_proto_writef" where
  "writef_of native d = \<lparr>wr_offset = get32 native d 0, wr_start_cluster = get16 native d 4\<rparr>"

definition lockf_start_cluster :: "endian \<Rightarrow> byte list \<Rightarrow> u16" where
  "lockf_start_cluster native d = get16 native d 2"

record drive_proto_open_create =
  oc_attrs :: u16
  oc_action :: u16
  oc_mode :: u16

definition open_create_of :: "endian \<Rightarrow> byte list \<Rightarrow> drive_proto_open_create" where
  "open_create_of native d =
     \<lparr>oc_attrs = get16 native d 0, oc_action = get16 native d 2, oc_mode = get16 native d 4\<rparr>"

record drive_proto_find_next =
  fn_cluster :: u16
  fn_dir_entry :: u16
  fn_attrs :: u8
  fn_search_template :: fcb_file_name

definition find_next_of :: "endian \<Rightarrow> byte list \<Rightarrow> drive_proto_find_next" where
  "find_next_of native d =
     \<lparr>fn_cluster = get16 native d 0, fn_dir_entry = get16 native d 2, fn_attrs = d ! 4,
      fn_search_template = fcb_of_bytes (slice d 5 11)\<rparr>"

record drive_proto_seek_from_end =
  sk_offset_from_end_lo :: u16
  sk_offset_from_end_hi :: u16
  sk_start_cluster :: u16

definition seek_from_end_of :: "endian \<Rightarrow> byte list \<Rightarrow> drive_proto_seek_from_end" where
  "seek_from_end_of native d =
     \<lparr>sk_offset_from_end_lo = get16 native d 0, sk_offset_from_end_hi = get16 native d 2,
      sk_start_cluster = get16 native d 4\<rparr>"


section \<open>Replies\<close>

definition writef_reply :: "endian \<Rightarrow> u16 \<Rightarrow> byte list" where
  "writef_reply native written = put16 native written"

definition disk_info_reply :: "endian \<Rightarrow> u16 \<Rightarrow> u16 \<Rightarrow> u16 \<Rightarrow> byte list" where
  "disk_info_reply native total_clusters bytes_per_sector available_clusters =
     put16 native total_clusters @ put16 native bytes_per_sector @ put16 native available_clusters"

definition disk_info_large_reply :: "endian \<Rightarrow> u32 \<Rightarrow> u16 \<Rightarrow> u32 \<Rightarrow> byte list" where
  "disk_info_large_reply native total_clusters bytes_per_sector available_clusters =
     put32 native total_clusters @ put16 native bytes_per_sector @ put32 native available_clusters"

definition get_attrs_reply :: "endian \<Rightarrow> dos_file_properties \<Rightarrow> byte list" where
  "get_attrs_reply native p =
     put16 native (ucast (dp_time_date p)) @ put16 native (ucast (drop_bit 16 (dp_time_date p)))
     @ put16 native (ucast (dp_size p)) @ put16 native (ucast (drop_bit 16 (dp_size p)))
     @ [ucast (dp_attrs p)]"

definition open_create_reply ::
  "endian \<Rightarrow> dos_file_properties \<Rightarrow> fcb_file_name \<Rightarrow> u16 \<Rightarrow> u16 \<Rightarrow> u8 \<Rightarrow> byte list" where
  "open_create_reply native p fcb_name start_cluster result_code mode =
     [ucast (dp_attrs p)] @ fcb_bytes fcb_name @ put32 native (dp_time_date p)
     @ put32 native (dp_size p) @ put16 native start_cluster @ put16 native result_code @ [mode]"

definition find_reply :: "endian \<Rightarrow> dos_file_properties \<Rightarrow> u16 \<Rightarrow> u16 \<Rightarrow> byte list" where
  "find_reply native p start_cluster dir_entry =
     [ucast (dp_attrs p)] @ fcb_bytes (dp_fcb_name p)
     @ put16 native (ucast (dp_time_date p)) @ put16 native (ucast (drop_bit 16 (dp_time_date p)))
     @ put32 native (dp_size p) @ put16 native start_cluster @ put16 native dir_entry"

definition seek_from_end_reply :: "endian \<Rightarrow> u16 \<Rightarrow> u16 \<Rightarrow> byte list" where
  "seek_from_end_reply native position_lo position_hi = put16 native position_lo @ put16 native position_hi"

end
