(* ===== verification/ReplyCache.thy ===== *)
theory ReplyCache
  imports Prelude
begin

text \<open>
  Model of the class \<^verbatim>\<open>ReplyCache\<close> of \<^verbatim>\<open>netmount-server/netmount-server.cpp\<close>: the last reply sent to
  each of up to sixteen clients. A client is known by its IPv4 address and UDP port; when all
  entries are taken, the entry with the oldest time stamp is reused.
\<close>

definition REPLY_CACHE_SIZE :: nat where "REPLY_CACHE_SIZE = 16"

definition PACKET_SIZE :: nat where "PACKET_SIZE = 1500"

record reply_info =
  ri_recv_packet :: "byte list"
  ri_send_packet :: "byte list"
  ri_recv_len :: nat
  ri_send_len :: nat
  ri_ipv4_addr :: u32
  ri_udp_port :: u16
  ri_timestamp :: int

text \<open>The cache is a global object, so its members are zero at start.\<close>

definition empty_reply_info :: reply_info where
  "empty_reply_info = \<lparr>ri_recv_packet = replicate PACKET_SIZE 0,
     ri_send_packet = replicate PACKET_SIZE 0, ri_recv_len = 0, ri_send_len = 0,
     ri_ipv4_addr = 0, ri_udp_port = 0, ri_timestamp = 0\<rparr>"

definition empty_cache :: "reply_info list" where
  "empty_cache = replicate REPLY_CACHE_SIZE empty_reply_info"

definition owned_by :: "u32 \<Rightarrow> u16 \<Rightarrow> reply_info \<Rightarrow> bool" where
  "owned_by ip port it \<longleftrightarrow> ri_ipv4_addr it = ip \<and> ri_udp_port it = port"

text \<open>The loop over the items from position \<open>i\<close> on: \<open>Inr\<close> is the position of the entry of the
  client, \<open>Inl\<close> the position of the oldest entry.\<close>

fun reply_info_loop :: "u32 \<Rightarrow> u16 \<Rightarrow> reply_info list \<Rightarrow> nat \<Rightarrow> nat \<Rightarrow> reply_info list \<Rightarrow> nat + nat" where
  "reply_info_loop ip port items oldest i [] = Inl oldest"
| "reply_info_loop ip port items oldest i (it # its) =
     (if ri_ipv4_addr it = ip \<and> ri_udp_port it = port then Inr i
      else reply_info_loop ip port items
             (if ri_timestamp it < ri_timestamp (items ! oldest) then i else oldest) (Suc i) its)"

text \<open>The position of the entry for the client, and the cache with that entry prepared.\<close>

definition get_reply_info :: "u32 \<Rightarrow> u16 \<Rightarrow> reply_info list \<Rightarrow> nat \<times> reply_info list" where
  "get_reply_info ip port items =
     (case reply_info_loop ip port items 0 0 items of
        Inr i \<Rightarrow> (i, items)
      | Inl oldest \<Rightarrow>
          (oldest, items[oldest := (items ! oldest)\<lparr>ri_recv_len := 0, ri_send_len := 0,
             ri_ipv4_addr := ip, ri_udp_port := port\<rparr>]))"

definition wf_reply_info :: "reply_info \<Rightarrow> bool" where
  "wf_reply_info it \<longleftrightarrow>
     length (ri_recv_packet it) = PACKET_SIZE \<and> length (ri_send_packet it) = PACKET_SIZE \<and>
     ri_recv_len it \<le> PACKET_SIZE \<and> ri_send_len it \<le> PACKET_SIZE"

definition wf_cache :: "reply_info list \<Rightarrow> bool" where
  "wf_cache items \<longleftrightarrow> length items = REPLY_CACHE_SIZE \<and> list_all wf_reply_info items"

lemma wf_empty_cache: "wf_cache empty_cache"
  by (simp add: wf_cache_def empty_cache_def REPLY_CACHE_SIZE_def wf_reply_info_def
      empty_reply_info_def list_all_iff)

lemma reply_info_loop_found:
  assumes "reply_info_loop ip port items oldest i its = Inr j"
  shows "i \<le> j \<and> j < i + length its \<and> owned_by ip port (its ! (j - i)) \<and>
    (\<forall>k < j - i. \<not> owned_by ip port (its ! k))"
  using assms
proof (induction its arbitrary: oldest i)
  case (Cons it its)
  show ?case
  proof (cases "owned_by ip port it")
    case True
    then show ?thesis using Cons.prems by (simp add: owned_by_def)
  next
    case False
    then have r: "i < j" "j < Suc i + length its" "owned_by ip port (its ! (j - Suc i))"
        "\<forall>k < j - Suc i. \<not> owned_by ip port (its ! k)"
      using Cons by (fastforce simp: owned_by_def split: if_splits)+
    then have "j - i = Suc (j - Suc i)" by simp
    with r False show ?thesis by (auto simp: nth_Cons less_Suc_eq_0_disj split: nat.split)
  qed
qed simp

lemma reply_info_loop_owned:
  "(\<exists>j < length its. owned_by ip port (its ! j)) \<longleftrightarrow>
   (\<exists>k. reply_info_loop ip port items oldest i its = Inr k)"
  by (induction its arbitrary: oldest i) (auto simp: owned_by_def nth_Cons' less_Suc_eq_0_disj)

lemma reply_info_loop_oldest:
  assumes "reply_info_loop ip port items oldest i its = Inl m" "items = pre @ its" "length pre = i"
    "oldest < length items" "\<forall>it \<in> set pre. ri_timestamp (items ! oldest) \<le> ri_timestamp it"
  shows "m < length items \<and> (\<forall>it \<in> set items. ri_timestamp (items ! m) \<le> ri_timestamp it)"
  using assms
proof (induction its arbitrary: oldest i pre)
  case (Cons it its)
  let ?o = "if ri_timestamp it < ri_timestamp (items ! oldest) then i else oldest"
  have "items ! i = it" "i < length items" using Cons.prems(2,3) by (auto simp: nth_append)
  moreover have "reply_info_loop ip port items ?o (Suc i) its = Inl m"
    using Cons.prems(1) by (auto split: if_splits)
  ultimately show ?case
    using Cons.prems by (intro Cons.IH [of ?o "Suc i" "pre @ [it]"]) (auto split: if_splits)
qed auto

text \<open>The entry handed out belongs to the client and is the only one that changed; if the client
  had an entry, nothing changed at all.\<close>

lemma get_reply_info_spec:
  assumes "get_reply_info ip port items = (i, items')" "items \<noteq> []"
  shows "i < length items \<and> length items' = length items \<and> owned_by ip port (items' ! i) \<and>
    (\<forall>j < length items. j \<noteq> i \<longrightarrow> items' ! j = items ! j) \<and>
    ((\<exists>j < length items. owned_by ip port (items ! j)) \<longrightarrow> items' = items) \<and>
    (\<not> (\<exists>j < length items. owned_by ip port (items ! j)) \<longrightarrow>
       ri_recv_len (items' ! i) = 0 \<and> ri_send_len (items' ! i) = 0 \<and>
       (\<forall>it \<in> set items. ri_timestamp (items ! i) \<le> ri_timestamp it))"
proof (cases "reply_info_loop ip port items 0 0 items")
  case (Inr j)
  with assms have "j = i" "items' = items" by (simp_all add: get_reply_info_def)
  with reply_info_loop_found [OF Inr] show ?thesis by auto
next
  case (Inl m)
  then have none: "\<not> (\<exists>j < length items. owned_by ip port (items ! j))"
    using reply_info_loop_owned [of items ip port items 0 0] by auto
  have m: "m < length items" "\<forall>it \<in> set items. ri_timestamp (items ! m) \<le> ri_timestamp it"
    using reply_info_loop_oldest [OF Inl, of "[]"] assms(2) by auto
  from Inl assms(1) have "i = m"
    "items' = items[m := (items ! m)\<lparr>ri_recv_len := 0, ri_send_len := 0, ri_ipv4_addr := ip, ri_udp_port := port\<rparr>]"
    by (auto simp: get_reply_info_def)
  with m none show ?thesis by (auto simp: owned_by_def)
qed

lemma get_reply_info_wf:
  assumes "get_reply_info ip port items = (i, items')" "wf_cache items"
  shows "wf_cache items' \<and> i < REPLY_CACHE_SIZE \<and> wf_reply_info (items' ! i)"
proof -
  have len: "length items = REPLY_CACHE_SIZE" and "items \<noteq> []"
    using assms(2) by (auto simp: wf_cache_def REPLY_CACHE_SIZE_def)
  then have i: "i < length items"
    using get_reply_info_spec [OF assms(1)] by blast
  have "\<forall>it \<in> set items'. wf_reply_info it"
    using assms by (auto simp: get_reply_info_def wf_cache_def list_all_iff wf_reply_info_def
        split: sum.splits dest!: set_update_subset_insert [THEN subsetD])
      (metis (no_types, lifting) i nth_mem)+
  moreover have "length items' = length items"
    using assms(1) by (auto simp: get_reply_info_def split: sum.splits)
  ultimately show ?thesis using i len by (simp add: wf_cache_def list_all_iff)
qed

end
