(* ===== verification/Request.thy ===== *)
theory Request
  imports Drive Protocol ReplyCache
begin

text \<open>
  Model of \<^verbatim>\<open>process_request\<close> of \<^verbatim>\<open>netmount-server/netmount-server.cpp\<close>: one definition per case of
  its switch, and the function itself with the look-up in the reply cache, the checks of the
  drive number and the reply header. A case returns \<open>None\<close> where the code returns -1 (the request
  is ignored), else the return code and the bytes written behind the reply header. Log output is
  left out.
\<close>

section \<open>Helpers\<close>

definition create_relative_path :: "byte list \<Rightarrow> path" where
  "create_relative_path buff =
     relative_path (path_of_string
       (map (\<lambda>c. if c = ch_backslash then ch_slash else c) (map ascii_to_lower buff)))"

definition get_dos_err_code :: "exn \<Rightarrow> u16 \<Rightarrow> u16" where
  "get_dos_err_code ex default_dos_err_code =
     (case ex of
        FilesystemError code \<Rightarrow> code
      | StdFilesystemError e \<Rightarrow>
          (case e of
             directory_not_empty \<Rightarrow> DOS_EXTERR_ACCESS_DENIED
           | file_exists \<Rightarrow> DOS_EXTERR_ACCESS_DENIED
           | is_a_directory \<Rightarrow> DOS_EXTERR_ACCESS_DENIED
           | io_error \<Rightarrow> DOS_EXTERR_ACCESS_DENIED
           | no_such_file_or_directory \<Rightarrow> DOS_EXTERR_FILE_NOT_FOUND
           | not_a_directory \<Rightarrow> DOS_EXTERR_ACCESS_DENIED
           | permission_denied \<Rightarrow> DOS_EXTERR_ACCESS_DENIED
           | read_only_file_system \<Rightarrow> DOS_EXTERR_ACCESS_DENIED
           | _ \<Rightarrow> default_dos_err_code)
      | _ \<Rightarrow> default_dos_err_code)"

type_synonym answer = "(u16 \<times> byte list) option"

text \<open>\<^verbatim>\<open>try { ... } catch (const std::runtime_error & ex) { return_code = ...; }\<close>\<close>

definition answer_errors :: "u16 \<Rightarrow> (dstate, answer) sx \<Rightarrow> (dstate, answer) sx" where
  "answer_errors default_code m =
     sx_catch m (\<lambda>ex. sx_return (Some (get_dos_err_code ex default_code, [])))"

text \<open>Success without reply data.\<close>

definition done_ok :: "(dstate, answer) sx" where
  "done_ok = sx_return (Some (DOS_EXTERR_NO_ERROR, []))"


section \<open>The cases\<close>

definition req_make_remove_dir :: "env \<Rightarrow> int2f \<Rightarrow> byte list \<Rightarrow> (dstate, answer) sx" where
  "req_make_remove_dir env f data =
     (if length data < 1 then sx_return None
      else let rel_path = create_relative_path data in
        answer_errors DOS_EXTERR_PATH_NOT_FOUND
          (sx_bind (if f = INT2F_MAKE_DIR then drive_make_dir env rel_path
                    else drive_delete_dir env rel_path) (\<lambda>_. done_ok)))"

definition req_change_dir :: "env \<Rightarrow> byte list \<Rightarrow> (dstate, answer) sx" where
  "req_change_dir env data =
     (if length data < 1 then sx_return None
      else answer_errors DOS_EXTERR_PATH_NOT_FOUND
        (sx_bind (drive_change_dir env (create_relative_path data)) (\<lambda>_. done_ok)))"

definition req_close_file :: "env \<Rightarrow> bool \<Rightarrow> byte list \<Rightarrow> (dstate, answer) sx" where
  "req_close_file env extended_request data =
     answer_errors DOS_EXTERR_NO_ERROR
       (if extended_request then
          (if length data \<noteq> 6 then sx_return None
           else let request = closef_ext_of (e_native env) data in
             sx_bind (set_file_date_time env (cf_start_cluster request) (cf_date_time request))
               (\<lambda>_. done_ok))
        else
          (if length data \<noteq> 2 then sx_return None
           else sx_bind (get_handle_path (closef_start_cluster (e_native env) data)) (\<lambda>_. done_ok)))"

text \<open>The data of a reply lies behind the eight bytes of the header in an array of 1500 bytes;
  \<^verbatim>\<open>fread\<close> does not know about its end.\<close>

definition REPLY_DATA_SIZE :: nat where "REPLY_DATA_SIZE = 1492"

definition req_read_file :: "env \<Rightarrow> byte list \<Rightarrow> (dstate, answer) sx" where
  "req_read_file env data =
     (if length data \<noteq> 8 then sx_return None
      else let request = readf_of (e_native env) data in
        answer_errors DOS_EXTERR_ACCESS_DENIED
          (sx_bind (read_file (rf_start_cluster request) (rf_offset request) (rf_length request)) (\<lambda>bs.
             if length bs > REPLY_DATA_SIZE then sx_throw OutOfBounds
             else sx_return (Some (DOS_EXTERR_NO_ERROR, bs)))))"

definition req_write_file :: "env \<Rightarrow> byte list \<Rightarrow> (dstate, answer) sx" where
  "req_write_file env data =
     (if length data < 6 then sx_return None
      else let request = writef_of (e_native env) data in
        answer_errors DOS_EXTERR_ACCESS_DENIED
          (sx_bind (write_file (drop 6 data) (wr_start_cluster request) (wr_offset request)) (\<lambda>n.
             sx_return (Some (DOS_EXTERR_NO_ERROR, writef_reply (e_native env) (of_nat n))))))"

definition req_lock_file :: "env \<Rightarrow> byte list \<Rightarrow> (dstate, answer) sx" where
  "req_lock_file env data =
     (if length data < 4 then sx_return None
      else answer_errors DOS_EXTERR_NO_ERROR
        (sx_bind (get_handle_path (lockf_start_cluster (e_native env) data)) (\<lambda>_. done_ok)))"

definition req_unlock_file :: "env \<Rightarrow> byte list \<Rightarrow> (dstate, answer) sx" where
  "req_unlock_file env data =
     (if length data < 4 then sx_return None
      else answer_errors DOS_EXTERR_NO_ERROR
        (sx_bind (get_handle_path (lockf_start_cluster (e_native env) data)) (\<lambda>_. done_ok)))"

text \<open>The loops that double the sector size until the number of sectors fits.\<close>

lemma half_decreases: "(n :: 'a::len word) < t \<Longrightarrow> 2 < LENGTH('a) \<Longrightarrow> unat (t div 2) < unat t"
proof -
  assume *: "n < t" "2 < LENGTH('a)"
  then have "(2 :: nat) < 2 ^ LENGTH('a)"
    by (meson less_exp less_trans)
  then have "unat (2 :: 'a word) = 2" using *(2) by (simp add: unsigned_numeral take_bit_nat_eq_self)
  moreover have "0 < unat t"
    using *(1) by (simp add: word_less_nat_alt)
  ultimately show ?thesis by (simp add: unat_div)
qed

function scale_sectors :: "u16 \<Rightarrow> u32 \<Rightarrow> u32 \<Rightarrow> u16 \<times> u32 \<times> u32" where
  "scale_sectors bytes_per_sector total_sectors free_sectors =
     (if total_sectors > 0xFFFF
      then scale_sectors (bytes_per_sector * 2) (total_sectors div 2) (free_sectors div 2)
      else (bytes_per_sector, total_sectors, free_sectors))"
  by pat_completeness auto
termination
  by (relation "measure (\<lambda>(_, t, _). unat t)") (auto intro: half_decreases)

text \<open>The constants with the suffix \<^verbatim>\<open>UL\<close> have 64 bits where \<^verbatim>\<open>unsigned long\<close> has, as on 64-bit Linux, FreeBSD and macOS.\<close>

function scale_sectors_large :: "u16 \<Rightarrow> u64 \<Rightarrow> u64 \<Rightarrow> u16 \<times> u64 \<times> u64" where
  "scale_sectors_large bytes_per_sector total_sectors free_sectors =
     (if total_sectors > 0xFFFFFFFF
      then scale_sectors_large (bytes_per_sector * 2) (total_sectors div 2) (free_sectors div 2)
      else (bytes_per_sector, total_sectors, free_sectors))"
  by pat_completeness auto
termination
  by (relation "measure (\<lambda>(_, t, _). unat t)") (auto intro: half_decreases)

declare scale_sectors.simps [simp del] scale_sectors_large.simps [simp del]

definition req_disk_info :: "env \<Rightarrow> byte list \<Rightarrow> (dstate, answer) sx" where
  "req_disk_info env data =
     (if length data \<noteq> 0 then sx_return None
      else sx_catch
        (sx_bind space_info (\<lambda>(fs_size, free_space).
         let fs_size = (if fs_size > 0x7FFFFFFF then 0x7FFFFFFF else fs_size);
             free_space = (if free_space > 0x7FFFFFFF then 0x7FFFFFFF else free_space);
             (bytes_per_sector, total_sectors, free_sectors) =
               scale_sectors 512 (ucast (fs_size div 512)) (ucast (free_space div 512))
         in sx_return (Some (1, disk_info_reply (e_native env) (ucast total_sectors)
              bytes_per_sector (ucast free_sectors)))))
        (\<lambda>_. sx_return (Some (DOS_EXTERR_ACCESS_DENIED, []))))"

definition req_disk_info_large :: "env \<Rightarrow> byte list \<Rightarrow> (dstate, answer) sx" where
  "req_disk_info_large env data =
     (if length data \<noteq> 0 then sx_return None
      else sx_catch
        (sx_bind space_info (\<lambda>(fs_size, free_space).
         let limit = 0xFFFFFFFF * 0xFFFF;
             fs_size = (if fs_size > limit then limit else fs_size);
             free_space = (if free_space > limit then limit else free_space);
             (bytes_per_sector, total_sectors, free_sectors) =
               scale_sectors_large 512 (fs_size div 512) (free_space div 512)
         in sx_return (Some (DOS_EXTERR_NO_ERROR, disk_info_large_reply (e_native env)
              (ucast total_sectors) bytes_per_sector (ucast free_sectors)))))
        (\<lambda>_. sx_return (Some (DOS_EXTERR_ACCESS_DENIED, []))))"

definition req_set_attrs :: "env \<Rightarrow> byte list \<Rightarrow> (dstate, answer) sx" where
  "req_set_attrs env data =
     (if length data \<le> 1 then sx_return None
      else answer_errors DOS_EXTERR_FILE_NOT_FOUND
        (sx_bind (drive_set_item_attrs env (create_relative_path (drop 1 data)) (data ! 0))
          (\<lambda>_. done_ok)))"

definition req_get_attrs :: "env \<Rightarrow> byte list \<Rightarrow> (dstate, answer) sx" where
  "req_get_attrs env data =
     (if length data < 1 then sx_return None
      else answer_errors DOS_EXTERR_FILE_NOT_FOUND
        (sx_bind (get_dos_properties env (create_relative_path data)) (\<lambda>(_, properties).
          sx_return (Some (DOS_EXTERR_NO_ERROR, get_attrs_reply (e_native env) properties)))))"

definition req_rename_file :: "env \<Rightarrow> byte list \<Rightarrow> (dstate, answer) sx" where
  "req_rename_file env data =
     (if length data < 3 then sx_return None
      else let path1_len = unat (data ! 0) in
        if length data \<le> path1_len + 1 then sx_return None
        else
          let old_relative_path = create_relative_path (slice data 1 path1_len);
              new_relative_path = create_relative_path (drop (1 + path1_len) data)
          in answer_errors DOS_EXTERR_ACCESS_DENIED
               (sx_bind (drive_rename_file env old_relative_path new_relative_path) (\<lambda>_. done_ok)))"

definition req_delete_file :: "env \<Rightarrow> byte list \<Rightarrow> (dstate, answer) sx" where
  "req_delete_file env data =
     (if length data < 1 then sx_return None
      else answer_errors DOS_EXTERR_FILE_NOT_FOUND
        (sx_bind (delete_files env (create_relative_path data)) (\<lambda>_. done_ok)))"

definition req_find_first :: "env \<Rightarrow> byte list \<Rightarrow> (dstate, answer) sx" where
  "req_find_first env data =
     (if length data \<le> 1 then sx_return None
      else
        let fattr = data ! 0;
            search_template = create_relative_path (drop 1 data);
            filemaskfcb = short_name_to_fcb (filename search_template)
        in sx_bind (sx_catch
             (sx_bind (create_server_path env search_template False) (\<lambda>(server_path, exist).
              sx_bind (get_handle (parent_path server_path)) (\<lambda>handle. sx_return (Inr handle))))
             (\<lambda>ex. sx_return (Inl (get_dos_err_code ex DOS_EXTERR_NO_MORE_FILES)))) (\<lambda>r.
           case r of
             Inl code \<Rightarrow> sx_return (Some (code, []))
           | Inr handle \<Rightarrow>
               sx_bind (if handle = 0xFFFF then sx_return None
                        else find_file env handle filemaskfcb fattr 0) (\<lambda>found.
               case found of
                 None \<Rightarrow> sx_return (Some (DOS_EXTERR_NO_MORE_FILES, []))
               | Some (properties, fpos) \<Rightarrow>
                   sx_return (Some (DOS_EXTERR_NO_ERROR, find_reply (e_native env) properties handle fpos)))))"

definition req_find_next :: "env \<Rightarrow> byte list \<Rightarrow> (dstate, answer) sx" where
  "req_find_next env data =
     (if length data \<noteq> 16 then sx_return None
      else let request = find_next_of (e_native env) data in
        sx_catch
          (sx_bind (find_file env (fn_cluster request) (fn_search_template request)
             (fn_attrs request) (fn_dir_entry request)) (\<lambda>found.
           case found of
             None \<Rightarrow> sx_return (Some (DOS_EXTERR_NO_MORE_FILES, []))
           | Some (properties, fpos) \<Rightarrow>
               sx_return (Some (DOS_EXTERR_NO_ERROR,
                 find_reply (e_native env) properties (fn_cluster request) fpos))))
          (\<lambda>_. sx_return (Some (DOS_EXTERR_NO_MORE_FILES, []))))"

text \<open>\<open>offset\<close> and \<open>fsize\<close> are the bits of an \<^verbatim>\<open>int32_t\<close>; the two halves of the offset form a signed value, and the
  result is sent back in halves.\<close>

definition req_seek_from_end :: "env \<Rightarrow> byte list \<Rightarrow> (dstate, answer) sx" where
  "req_seek_from_end env data =
     (if length data \<noteq> 6 then sx_return None
      else
        let request = seek_from_end_of (e_native env) data;
            offset = push_bit 16 (ucast (sk_offset_from_end_hi request)) + (ucast (sk_offset_from_end_lo request) :: u32);
            offset = (if sint offset > 0 then 0 else offset)
        in sx_bind (sx_catch (get_file_size env (sk_start_cluster request)) (\<lambda>_. sx_return (- 1))) (\<lambda>fsize.
           if sint fsize < 0 then sx_return (Some (DOS_EXTERR_FILE_NOT_FOUND, []))
           else
             let offset = offset + fsize;
                 offset = (if sint offset < 0 then 0 else offset)
             in sx_return (Some (DOS_EXTERR_NO_ERROR,
                  seek_from_end_reply (e_native env) (ucast offset) (ucast (drop_bit 16 offset))))))"


text \<open>The values of the action codes (\<^verbatim>\<open>fs.hpp\<close>) and of the results of the extended open
  (\<^verbatim>\<open>dos.h\<close>).\<close>

definition IF_EXIST_MASK :: u16 where "IF_EXIST_MASK = 0x0F"
definition ACTION_CODE_OPEN_IF_EXIST :: u16 where "ACTION_CODE_OPEN_IF_EXIST = 0x01"
definition ACTION_CODE_REPLACE_IF_EXIST :: u16 where "ACTION_CODE_REPLACE_IF_EXIST = 0x02"
definition IF_NOT_EXIST_MASK :: u16 where "IF_NOT_EXIST_MASK = 0xF0"
definition ACTION_CODE_CREATE_IF_NOT_EXIST :: u16 where "ACTION_CODE_CREATE_IF_NOT_EXIST = 0x10"
definition DOS_EXT_OPEN_FILE_RESULT_CODE_OPENED :: u16 where
  "DOS_EXT_OPEN_FILE_RESULT_CODE_OPENED = 1"
definition DOS_EXT_OPEN_FILE_RESULT_CODE_CREATED :: u16 where
  "DOS_EXT_OPEN_FILE_RESULT_CODE_CREATED = 2"
definition DOS_EXT_OPEN_FILE_RESULT_CODE_TRUNCATED :: u16 where
  "DOS_EXT_OPEN_FILE_RESULT_CODE_TRUNCATED = 3"

lemmas action_consts = IF_EXIST_MASK_def ACTION_CODE_OPEN_IF_EXIST_def
  ACTION_CODE_REPLACE_IF_EXIST_def IF_NOT_EXIST_MASK_def ACTION_CODE_CREATE_IF_NOT_EXIST_def
  DOS_EXT_OPEN_FILE_RESULT_CODE_OPENED_def DOS_EXT_OPEN_FILE_RESULT_CODE_CREATED_def
  DOS_EXT_OPEN_FILE_RESULT_CODE_TRUNCATED_def

text \<open>The three branches of the open and create case: each gives the properties of the file, the
  open mode and the result code of the reply.\<close>

definition do_open_file ::
  "env \<Rightarrow> path \<Rightarrow> u16 \<Rightarrow> (dstate, dos_file_properties \<times> u8 \<times> u16) sx" where
  "do_open_file env server_path stack_attr =
     (let result_open_mode = ucast stack_attr in
      sx_bind (get_server_path_dos_properties env server_path) (\<lambda>(attr, properties).
      sx_bind (sx_guard (attr \<noteq> FAT_ERROR_ATTR) (FilesystemError DOS_EXTERR_FILE_NOT_FOUND)) (\<lambda>_.
      sx_bind (drive_try_open_file server_path result_open_mode attr) (\<lambda>_.
      sx_return (properties, result_open_mode, 0)))))"

definition do_create_file ::
  "env \<Rightarrow> path \<Rightarrow> path \<Rightarrow> u16 \<Rightarrow> (dstate, dos_file_properties \<times> u8 \<times> u16) sx" where
  "do_create_file env server_path rel_path stack_attr =
     sx_bind (on_host (fs_query (\<lambda>h. exists h server_path))) (\<lambda>present.
     sx_bind (if present then get_server_path_attrs server_path else sx_return FAT_ERROR_ATTR) (\<lambda>attr.
     sx_bind (drive_create_or_truncate_file env server_path (ucast stack_attr) attr) (\<lambda>properties.
     sx_bind (if \<not> present then forget (create_server_path env rel_path True)
              else sx_return ()) (\<lambda>_.
     sx_return (properties, OPEN_MODE_RDWR, 0)))))"

definition do_extended_open_create ::
  "env \<Rightarrow> path \<Rightarrow> path \<Rightarrow> drive_proto_open_create \<Rightarrow> (dstate, dos_file_properties \<times> u8 \<times> u16) sx" where
  "do_extended_open_create env server_path rel_path request =
     (let stack_attr = oc_attrs request; action_code = oc_action request;
          result_open_mode = ucast (oc_mode request) AND 0x7f in
      sx_bind (get_server_path_dos_properties env server_path) (\<lambda>(attr, properties).
      if attr = FAT_ERROR_ATTR then
        (if action_code AND IF_NOT_EXIST_MASK = ACTION_CODE_CREATE_IF_NOT_EXIST then
           sx_bind (drive_create_or_truncate_file env server_path (ucast stack_attr) attr) (\<lambda>properties.
           sx_bind (forget (create_server_path env rel_path True)) (\<lambda>_.
           sx_return (properties, result_open_mode, DOS_EXT_OPEN_FILE_RESULT_CODE_CREATED)))
         else sx_throw (FilesystemError DOS_EXTERR_FILE_NOT_FOUND))
      else if action_code AND IF_EXIST_MASK = ACTION_CODE_OPEN_IF_EXIST then
        sx_bind (drive_try_open_file server_path result_open_mode attr) (\<lambda>_.
        sx_return (properties, result_open_mode, DOS_EXT_OPEN_FILE_RESULT_CODE_OPENED))
      else if action_code AND IF_EXIST_MASK = ACTION_CODE_REPLACE_IF_EXIST then
        sx_bind (drive_create_or_truncate_file env server_path (ucast stack_attr) attr) (\<lambda>properties.
        sx_return (properties, result_open_mode, DOS_EXT_OPEN_FILE_RESULT_CODE_TRUNCATED))
      else sx_throw (FilesystemError DOS_EXTERR_FILE_ALREADY_EXISTS)))"

definition req_open_create :: "env \<Rightarrow> int2f \<Rightarrow> byte list \<Rightarrow> (dstate, answer) sx" where
  "req_open_create env f data =
     (if length data \<le> 6 then sx_return None
      else
        let request = open_create_of (e_native env) data;
            rel_path = create_relative_path (drop 6 data)
        in answer_errors DOS_EXTERR_FILE_NOT_FOUND
          (sx_bind (create_server_path env rel_path False) (\<lambda>(server_path, exist).
           sx_bind (not_root_guard server_path) (\<lambda>_.
           sx_bind (on_host (fs_query (\<lambda>h. is_directory h (parent_path server_path)))) (\<lambda>parent_ok.
           if \<not> parent_ok then sx_return (Some (DOS_EXTERR_PATH_NOT_FOUND, []))
           else
             sx_bind (if f = INT2F_OPEN_FILE then do_open_file env server_path (oc_attrs request)
                      else if f = INT2F_CREATE_FILE
                      then do_create_file env server_path rel_path (oc_attrs request)
                      else do_extended_open_create env server_path rel_path request)
               (\<lambda>(properties, result_open_mode, result_code).
             sx_bind (get_handle server_path) (\<lambda>handle.
             if handle = 0xFFFF then sx_throw (FilesystemError DOS_EXTERR_TOO_MANY_OPEN_FILES)
             else
               sx_return (Some (DOS_EXTERR_NO_ERROR,
                 open_create_reply (e_native env) properties
                   (short_name_to_fcb (filename rel_path)) handle result_code result_open_mode)))))))))"

definition req_feature_query :: "byte list \<Rightarrow> (dstate, answer) sx" where
  "req_feature_query data = (if length data \<noteq> 2 then sx_return None else done_ok)"


section \<open>The switch\<close>

fun handle_function :: "env \<Rightarrow> bool \<Rightarrow> int2f \<Rightarrow> byte list \<Rightarrow> (dstate, answer) sx" where
  "handle_function env ext INT2F_REMOVE_DIR data = req_make_remove_dir env INT2F_REMOVE_DIR data"
| "handle_function env ext INT2F_MAKE_DIR data = req_make_remove_dir env INT2F_MAKE_DIR data"
| "handle_function env ext INT2F_CHANGE_DIR data = req_change_dir env data"
| "handle_function env ext INT2F_CLOSE_FILE data = req_close_file env ext data"
| "handle_function env ext INT2F_READ_FILE data = req_read_file env data"
| "handle_function env ext INT2F_WRITE_FILE data = req_write_file env data"
| "handle_function env ext INT2F_LOCK_UNLOCK_FILE data = req_lock_file env data"
| "handle_function env ext INT2F_UNLOCK_FILE data = req_unlock_file env data"
| "handle_function env ext INT2F_DISK_INFO data = req_disk_info env data"
| "handle_function env ext INT2F_DISK_INFO_LARGE data = req_disk_info_large env data"
| "handle_function env ext INT2F_SET_ATTRS data = req_set_attrs env data"
| "handle_function env ext INT2F_GET_ATTRS data = req_get_attrs env data"
| "handle_function env ext INT2F_RENAME_FILE data = req_rename_file env data"
| "handle_function env ext INT2F_DELETE_FILE data = req_delete_file env data"
| "handle_function env ext INT2F_FIND_FIRST data = req_find_first env data"
| "handle_function env ext INT2F_FIND_NEXT data = req_find_next env data"
| "handle_function env ext INT2F_SEEK_FROM_END data = req_seek_from_end env data"
| "handle_function env ext INT2F_OPEN_FILE data = req_open_create env INT2F_OPEN_FILE data"
| "handle_function env ext INT2F_CREATE_FILE data = req_open_create env INT2F_CREATE_FILE data"
| "handle_function env ext INT2F_EXTENDED_OPEN_CREATE_FILE data =
     req_open_create env INT2F_EXTENDED_OPEN_CREATE_FILE data"
| "handle_function env ext INT2F_NETMOUNT_FEATURE_QUERY data = req_feature_query data"

record pstate =
  ps_info :: reply_info
  ps_drives :: "drive list"
  ps_host :: host

definition with_drive :: "nat \<Rightarrow> (dstate, 'a) sx \<Rightarrow> (pstate, 'a) sx" where
  "with_drive n m s =
     (case m \<lparr>s_drive = ps_drives s ! n, s_host = ps_host s\<rparr> of
        (r, t) \<Rightarrow> (r, s\<lparr>ps_drives := (ps_drives s)[n := s_drive t], ps_host := s_host t\<rparr>))"

definition put_send_packet :: "nat \<Rightarrow> byte list \<Rightarrow> (pstate, unit) sx" where
  "put_send_packet off bs =
     sx_modify (\<lambda>s. s\<lparr>ps_info := (ps_info s)
       \<lparr>ri_send_packet := overwrite (ri_send_packet (ps_info s)) off bs\<rparr>\<rparr>)"

text \<open>The result is the length of the reply packet, \<open>None\<close> for -1. The extended features flag is
  stored as it is, without conversion to little-endian order.\<close>

definition process_request :: "env \<Rightarrow> byte list \<Rightarrow> (pstate, nat option) sx" where
  "process_request env request_packet =
     (if length request_packet < hdr_size then sx_return None
      else
        sx_bind sx_get (\<lambda>s. let info = ps_info s in
        if ri_recv_len info > 0 \<and> hdr_sequence (ri_recv_packet info) = hdr_sequence request_packet \<and>
           ri_recv_len info = length request_packet \<and>
           take (length request_packet) (ri_recv_packet info) = request_packet
        then sx_return (if ri_send_len info > 0 then Some (ri_send_len info) else None)
        else
          sx_bind (put_send_packet 0 (take hdr_size request_packet)) (\<lambda>_.
          let extended_request = (hdr_length_flags (e_native env) request_packet
                AND DRIVE_PROTO_FLAG_EXTENDED_FEATURES \<noteq> 0);
              request_data = drop hdr_size request_packet;
              reqdrv = unat (hdr_drive request_packet AND 0x1F)
          in if reqdrv < 2 \<or> reqdrv \<ge> length (ps_drives s) then sx_return None
             else if \<not> d_used (ps_drives s ! reqdrv) then sx_return None
             else case int2f_of (hdr_function request_packet) of
               None \<Rightarrow> sx_return None
             | Some f \<Rightarrow>
                 sx_bind (with_drive reqdrv (handle_function env extended_request f request_data)) (\<lambda>ans.
                 case ans of
                   None \<Rightarrow> sx_return None
                 | Some (return_code, reply_data) \<Rightarrow>
                     let extended_flag = (f \<noteq> INT2F_CLOSE_FILE \<or>
                           d_use_client_timestamp (ps_drives s ! reqdrv))
                     in sx_bind (put_send_packet hdr_size reply_data) (\<lambda>_.
                        sx_bind (put_send_packet 1 (store16 (e_native env)
                          (if extended_flag then DRIVE_PROTO_FLAG_EXTENDED_FEATURES else 0))) (\<lambda>_.
                        sx_bind (put_send_packet 6 (put16 (e_native env) return_code)) (\<lambda>_.
                        sx_return (Some (length reply_data + hdr_size)))))))))"

end
