(* ===== verification/Slip.thy ===== *)
theory Slip
  imports Checksums Fcb
begin

text \<open>
  Model of \<^verbatim>\<open>netmount-server/slip_udp_serial.cpp\<close>, the transport over a serial line: UDP in
  IPv4 in SLIP frames. The serial port (\<^verbatim>\<open>serial_port.cpp\<close>) is the list of the answers that
  \<^verbatim>\<open>read()\<close> will give, the bytes written so far and the number of bytes one \<^verbatim>\<open>write()\<close> takes
  (\<open>None\<close> when it fails). The theorems show that a frame is decoded to what was encoded, that
  headers built by \<open>build_headers\<close> are accepted by \<open>parse_udp_packet\<close>, and for which lengths
  the transmit buffer is large enough.
\<close>

section \<open>Constants and headers\<close>

definition MTU :: nat where "MTU = 1500"

definition SLIP_END :: byte where "SLIP_END = 0xC0"
definition SLIP_ESC :: byte where "SLIP_ESC = 0xDB"
definition SLIP_ESC_END :: byte where "SLIP_ESC_END = 0xDC"
definition SLIP_ESC_ESC :: byte where "SLIP_ESC_ESC = 0xDD"

definition IPV4_PROTOCOL_UDP :: u8 where "IPV4_PROTOCOL_UDP = 17"

lemmas slip_consts = SLIP_END_def SLIP_ESC_def SLIP_ESC_END_def SLIP_ESC_ESC_def

record ipv4_hdr =
  ip_version_ihl :: u8
  ip_tos :: u8
  ip_total_len :: u16
  ip_id :: u16
  ip_flags_frag_offset :: u16
  ip_ttl :: u8
  ip_protocol :: u8
  ip_hdr_csum :: u16
  ip_src_addr :: u32
  ip_dst_addr :: u32

record udp_hdr =
  udp_src_port :: u16
  udp_dst_port :: u16
  udp_length :: u16
  udp_checksum :: u16

record net_headers =
  hdr_ipv4 :: ipv4_hdr
  hdr_udp :: udp_hdr

text \<open>The packed structs in memory; an integer member lies there in the byte order of the host.\<close>

definition ipv4_bytes :: "endian \<Rightarrow> ipv4_hdr \<Rightarrow> byte list" where
  "ipv4_bytes native h =
     [ip_version_ihl h, ip_tos h] @ store16 native (ip_total_len h) @ store16 native (ip_id h)
     @ store16 native (ip_flags_frag_offset h) @ [ip_ttl h, ip_protocol h]
     @ store16 native (ip_hdr_csum h) @ store32 native (ip_src_addr h)
     @ store32 native (ip_dst_addr h)"

definition udp_bytes :: "endian \<Rightarrow> udp_hdr \<Rightarrow> byte list" where
  "udp_bytes native h =
     store16 native (udp_src_port h) @ store16 native (udp_dst_port h)
     @ store16 native (udp_length h) @ store16 native (udp_checksum h)"

definition headers_bytes :: "endian \<Rightarrow> net_headers \<Rightarrow> byte list" where
  "headers_bytes native h = ipv4_bytes native (hdr_ipv4 h) @ udp_bytes native (hdr_udp h)"

text \<open>\<^verbatim>\<open>reinterpret_cast<const net_headers *>\<close> of a buffer of at least 28 bytes.\<close>

definition headers_of_bytes :: "endian \<Rightarrow> byte list \<Rightarrow> net_headers" where
  "headers_of_bytes native bs =
     \<lparr>hdr_ipv4 = \<lparr>ip_version_ihl = bs ! 0, ip_tos = bs ! 1,
        ip_total_len = load16 native (drop 2 bs), ip_id = load16 native (drop 4 bs),
        ip_flags_frag_offset = load16 native (drop 6 bs), ip_ttl = bs ! 8, ip_protocol = bs ! 9,
        ip_hdr_csum = load16 native (drop 10 bs), ip_src_addr = load32 native (drop 12 bs),
        ip_dst_addr = load32 native (drop 16 bs)\<rparr>,
      hdr_udp = \<lparr>udp_src_port = load16 native (drop 20 bs), udp_dst_port = load16 native (drop 22 bs),
        udp_length = load16 native (drop 24 bs), udp_checksum = load16 native (drop 26 bs)\<rparr>\<rparr>"

definition build_headers ::
  "endian \<Rightarrow> u16 \<Rightarrow> u32 \<Rightarrow> u32 \<Rightarrow> u16 \<Rightarrow> u16 \<Rightarrow> nat \<Rightarrow> net_headers \<times> u16" where
  "build_headers native last_sent_packet_id src_ip dst_ip src_port dst_port len =
     (let last_sent_packet_id = last_sent_packet_id + 1;
          ipv4 = \<lparr>ip_version_ihl = push_bit 4 4 OR 5, ip_tos = 0,
            ip_total_len = to_big16 native (of_nat (28 + len)),
            ip_id = to_big16 native last_sent_packet_id,
            ip_flags_frag_offset = to_big16 native (push_bit 13 2),
            ip_ttl = 64, ip_protocol = IPV4_PROTOCOL_UDP, ip_hdr_csum = 0,
            ip_src_addr = to_big32 native src_ip, ip_dst_addr = to_big32 native dst_ip\<rparr>;
          ipv4 = ipv4\<lparr>ip_hdr_csum := internet_checksum native (ipv4_bytes native ipv4)\<rparr>;
          udp = \<lparr>udp_src_port = to_big16 native src_port, udp_dst_port = to_big16 native dst_port,
            udp_length = to_big16 native (of_nat (8 + len)), udp_checksum = 0\<rparr>
      in (\<lparr>hdr_ipv4 = ipv4, hdr_udp = udp\<rparr>, last_sent_packet_id))"


section \<open>Encoding\<close>

fun encode_slip_block :: "byte list \<Rightarrow> byte list" where
  "encode_slip_block [] = []"
| "encode_slip_block (data_byte # data) =
     (if data_byte = SLIP_END then SLIP_ESC # SLIP_ESC_END # encode_slip_block data
      else if data_byte = SLIP_ESC then SLIP_ESC # SLIP_ESC_ESC # encode_slip_block data
      else data_byte # encode_slip_block data)"

definition encode_slip :: "byte list \<Rightarrow> byte list \<Rightarrow> byte list" where
  "encode_slip headers data =
     [SLIP_END] @ encode_slip_block headers @ encode_slip_block data @ [SLIP_END]"


section \<open>The serial port and the state\<close>

datatype read_result = Got byte | Timeout | ReadError

record serial_port =
  serial_in :: "read_result list"
  serial_out :: "byte list"
  serial_room :: "nat option"

definition read_byte :: "serial_port \<Rightarrow> (exn + byte option) \<times> serial_port" where
  "read_byte p =
     (case serial_in p of
        [] \<Rightarrow> (Inr None, p)
      | Got b # xs \<Rightarrow> (Inr (Some b), p\<lparr>serial_in := xs\<rparr>)
      | Timeout # xs \<Rightarrow> (Inr None, p\<lparr>serial_in := xs\<rparr>)
      | ReadError # xs \<Rightarrow> (Inl RuntimeError, p\<lparr>serial_in := xs\<rparr>))"

definition write_bytes :: "byte list \<Rightarrow> serial_port \<Rightarrow> (exn + nat) \<times> serial_port" where
  "write_bytes data p =
     (case serial_room p of
        None \<Rightarrow> (Inl RuntimeError, p)
      | Some n \<Rightarrow> (Inr (min n (length data)), p\<lparr>serial_out := serial_out p @ take n data\<rparr>))"

record slip_udp_serial =
  su_serial :: serial_port
  su_rx_buffer :: "byte list"
  su_tx_buffer :: "byte list"
  su_last_udp_data_len :: u16
  su_last_rx_udp_data :: "nat option"
  su_last_remote_ip :: u32
  su_last_remote_port :: u16
  su_last_remote_ip_str :: "byte list"
  su_last_dst_ip :: u32
  su_last_dst_port :: u16
  su_last_dst_ip_str :: "byte list"
  su_last_sent_packet_id :: u16

text \<open>Both buffers have the sizes the constructor gives them.\<close>

definition wf_slip :: "slip_udp_serial \<Rightarrow> bool" where
  "wf_slip s \<longleftrightarrow> length (su_rx_buffer s) = MTU \<and> length (su_tx_buffer s) = MTU * 2"


section \<open>Sending\<close>

definition send ::
  "endian \<Rightarrow> u32 \<Rightarrow> u32 \<Rightarrow> u16 \<Rightarrow> u16 \<Rightarrow> byte list \<Rightarrow> (slip_udp_serial, unit) sx" where
  "send native src_ip dst_ip src_port dst_port data s =
     (if length data > MTU then (Inl RuntimeError, s)
      else
        let (headers, packet_id) = build_headers native (su_last_sent_packet_id s) src_ip dst_ip
              src_port dst_port (length data);
            frame = encode_slip (headers_bytes native headers) data;
            s = s\<lparr>su_last_sent_packet_id := packet_id\<rparr>
        in if length frame > length (su_tx_buffer s) then (Inl OutOfBounds, s)
           else
             let s = s\<lparr>su_tx_buffer := overwrite (su_tx_buffer s) 0 frame\<rparr>
             in (case write_bytes (take (length frame) (su_tx_buffer s)) (su_serial s) of
                   (Inl e, p) \<Rightarrow> (Inl e, s\<lparr>su_serial := p\<rparr>)
                 | (Inr written, p) \<Rightarrow>
                     (if written \<noteq> length frame then Inl RuntimeError else Inr (),
                      s\<lparr>su_serial := p\<rparr>)))"

definition send_reply :: "endian \<Rightarrow> byte list \<Rightarrow> (slip_udp_serial, unit) sx" where
  "send_reply native data s =
     send native (su_last_dst_ip s) (su_last_remote_ip s) (su_last_dst_port s)
       (su_last_remote_port s) data s"


section \<open>Receiving\<close>

text \<open>\<^verbatim>\<open>rx_buffer[len] = b\<close>; \<open>None\<close> is a store outside of the buffer.\<close>

definition store_rx :: "byte list \<Rightarrow> nat \<Rightarrow> byte \<Rightarrow> byte list option" where
  "store_rx rx len b = (if len < length rx then Some (rx[len := b]) else None)"

text \<open>The loop of \<^verbatim>\<open>recv_decode_slip\<close>: the flag \<^verbatim>\<open>started\<close>, the receive buffer, \<^verbatim>\<open>len\<close> and the
  answers of \<^verbatim>\<open>read()\<close> that are left. An escape consumes two of them.\<close>

fun recv_decode_loop ::
  "bool \<Rightarrow> byte list \<Rightarrow> nat \<Rightarrow> read_result list \<Rightarrow> (exn + nat) \<times> byte list \<times> read_result list" where
  "recv_decode_loop started rx len [] = (Inr len, rx, [])"
| "recv_decode_loop started rx len (Timeout # xs) = (Inr len, rx, xs)"
| "recv_decode_loop started rx len (ReadError # xs) = (Inl RuntimeError, rx, xs)"
| "recv_decode_loop started rx len (Got rcv_byte # xs) =
     (if rcv_byte = SLIP_END then
        (if started \<and> len > 0 then (Inr len, rx, xs) else recv_decode_loop True rx len xs)
      else if \<not> started then recv_decode_loop started rx len xs
      else if len = length rx then (Inr 0, rx, xs)
      else if rcv_byte = SLIP_ESC then
        (case xs of
           [] \<Rightarrow> (Inr len, rx, [])
         | Timeout # ys \<Rightarrow> (Inr len, rx, ys)
         | ReadError # ys \<Rightarrow> (Inl RuntimeError, rx, ys)
         | Got escaped # ys \<Rightarrow>
             if escaped = SLIP_ESC_END then
               (case store_rx rx len SLIP_END of
                  None \<Rightarrow> (Inl OutOfBounds, rx, ys)
                | Some rx \<Rightarrow> recv_decode_loop started rx (Suc len) ys)
             else if escaped = SLIP_ESC_ESC then
               (case store_rx rx len SLIP_ESC of
                  None \<Rightarrow> (Inl OutOfBounds, rx, ys)
                | Some rx \<Rightarrow> recv_decode_loop started rx (Suc len) ys)
             else recv_decode_loop started rx len ys)
      else case store_rx rx len rcv_byte of
        None \<Rightarrow> (Inl OutOfBounds, rx, xs)
      | Some rx \<Rightarrow> recv_decode_loop started rx (Suc len) xs)"

definition recv_decode_slip :: "(slip_udp_serial, nat) sx" where
  "recv_decode_slip s =
     (case recv_decode_loop False (su_rx_buffer s) 0 (serial_in (su_serial s)) of
        (r, rx, xs) \<Rightarrow> (r, s\<lparr>su_rx_buffer := rx, su_serial := (su_serial s)\<lparr>serial_in := xs\<rparr>\<rparr>))"

definition dotted_quad :: "byte list \<Rightarrow> byte list" where
  "dotted_quad bs =
     to_chars (unat (bs ! 0)) @ [ch_dot] @ to_chars (unat (bs ! 1)) @ [ch_dot]
     @ to_chars (unat (bs ! 2)) @ [ch_dot] @ to_chars (unat (bs ! 3))"

definition parse_udp_packet :: "endian \<Rightarrow> nat \<Rightarrow> slip_udp_serial \<Rightarrow> nat \<times> slip_udp_serial" where
  "parse_udp_packet native rx_packet_len s =
     (let rx = su_rx_buffer s; h = headers_of_bytes native rx; ipv4 = hdr_ipv4 h; udp = hdr_udp h in
      if rx_packet_len < 28 then (0, s)
      else if ip_version_ihl ipv4 AND 0xF0 \<noteq> push_bit 4 4 then (0, s)
      else if ip_version_ihl ipv4 AND 0x0F \<noteq> 5 then (0, s)
      else if internet_checksum native (take 20 rx) \<noteq> 0 then (0, s)
      else if ip_protocol ipv4 \<noteq> IPV4_PROTOCOL_UDP then (0, s)
      else if rx_packet_len < unat (from_big16 native (ip_total_len ipv4)) then (0, s)
      else
        let s = s\<lparr>su_last_remote_ip := from_big32 native (ip_src_addr ipv4),
                   su_last_dst_ip := from_big32 native (ip_dst_addr ipv4),
                   su_last_remote_port := from_big16 native (udp_src_port udp),
                   su_last_dst_port := from_big16 native (udp_dst_port udp)\<rparr>;
            udp_len = from_big16 native (udp_length udp)
        in if udp_len < 8 then (0, s)
           else if rx_packet_len < 20 + unat udp_len then (0, s)
           else
             let data_len = udp_len - 8
             in (unat data_len,
                 s\<lparr>su_last_remote_ip_str := dotted_quad (slice rx 12 4),
                   su_last_dst_ip_str := dotted_quad (slice rx 16 4),
                   su_last_rx_udp_data := Some 28,
                   su_last_udp_data_len := data_len\<rparr>))"

definition receive :: "endian \<Rightarrow> (slip_udp_serial, nat) sx" where
  "receive native s =
     (case recv_decode_slip s of
        (Inl e, s) \<Rightarrow> (Inl e, s)
      | (Inr rx_length, s) \<Rightarrow>
          if rx_length = 0 then (Inr 0, s)
          else (case parse_udp_packet native rx_length s of (n, s) \<Rightarrow> (Inr n, s)))"

text \<open>What \<^verbatim>\<open>get_last_rx_data\<close> and \<^verbatim>\<open>get_last_rx_data_len\<close> give the caller.\<close>

definition get_last_rx_data :: "slip_udp_serial \<Rightarrow> byte list" where
  "get_last_rx_data s =
     (case su_last_rx_udp_data s of
        None \<Rightarrow> []
      | Some off \<Rightarrow> slice (su_rx_buffer s) off (unat (su_last_udp_data_len s)))"


section \<open>Frames\<close>

lemma length_headers_bytes [simp, layout]:
  "length (ipv4_bytes native h) = 20" "length (headers_bytes native hs) = 28"
  by (simp_all add: ipv4_bytes_def udp_bytes_def headers_bytes_def)

lemma encode_slip_block_append:
  "encode_slip_block (xs @ ys) = encode_slip_block xs @ encode_slip_block ys"
  by (induction xs) auto

lemma length_encode_slip_block:
  "length (encode_slip_block xs) = length xs + length (filter (\<lambda>b. b = SLIP_END \<or> b = SLIP_ESC) xs)"
  by (induction xs) auto

lemma length_encode_slip:
  "length (encode_slip hs data) \<le> 2 + 2 * (length hs + length data)"
proof -
  have "length (encode_slip_block xs) \<le> 2 * length xs" for xs
    by (induction xs) auto
  from this [of hs] this [of data] show ?thesis by (simp add: encode_slip_def)
qed

text \<open>Only the two ends of a frame carry the byte END, so a receiver that lost its place finds
  the next frame.\<close>

lemma SLIP_END_not_in_block: "SLIP_END \<notin> set (encode_slip_block xs)"
  by (induction xs) (auto simp: slip_consts)

lemma overwrite_Cons:
  "len < length rx \<Longrightarrow> len + Suc (length bs) \<le> length rx \<Longrightarrow>
   overwrite (rx[len := b]) (Suc len) bs = overwrite rx len (b # bs)"
  by (simp add: overwrite_def take_Suc_conv_app_nth)

lemma decode_block:
  assumes "len + length data \<le> length rx"
  shows "recv_decode_loop True rx len (map Got (encode_slip_block data) @ rest) =
    recv_decode_loop True (overwrite rx len data) (len + length data) rest"
  using assms
proof (induction data arbitrary: rx len)
  case Nil
  then show ?case by (simp add: overwrite_def)
next
  case (Cons b data)
  then show ?case
    by (cases "b = SLIP_END"; cases "b = SLIP_ESC")
      (simp_all add: store_rx_def overwrite_Cons, simp_all add: slip_consts overwrite_Cons)
qed

lemma decode_noise:
  "SLIP_END \<notin> set noise \<Longrightarrow>
   recv_decode_loop False rx len (map Got noise @ rest) = recv_decode_loop False rx len rest"
  by (induction noise) auto

lemma decode_frame:
  assumes "0 < length bs" "length bs \<le> length rx" "SLIP_END \<notin> set noise"
  shows "recv_decode_loop False rx 0
      (map Got (noise @ [SLIP_END] @ encode_slip_block bs @ [SLIP_END]) @ rest) =
    (Inr (length bs), overwrite rx 0 bs, rest)"
  using assms by (simp add: decode_noise decode_block)

interpretation slip: codec
  "\<lambda>bs. [SLIP_END] @ encode_slip_block bs @ [SLIP_END]"
  "\<lambda>frame. case recv_decode_loop False (replicate MTU 0) 0 (map Got frame) of
     (Inr n, rx, _) \<Rightarrow> Some (take n rx) | _ \<Rightarrow> None"
  "\<lambda>bs. 0 < length bs \<and> length bs \<le> MTU"
proof unfold_locales
  fix bs :: "byte list" assume "0 < length bs \<and> length bs \<le> MTU"
  then show "(case recv_decode_loop False (replicate MTU 0) 0
      (map Got ([SLIP_END] @ encode_slip_block bs @ [SLIP_END])) of
      (Inr n, rx, _) \<Rightarrow> Some (take n rx) | _ \<Rightarrow> None) = Some bs"
    using decode_frame [where noise = "[]" and rest = "[]" and bs = bs and rx = "replicate MTU 0"]
    by (simp add: take_overwrite_0)
qed


section \<open>Headers\<close>

lemma headers_of_bytes_bytes: "headers_of_bytes native (headers_bytes native h @ rest) = h"
proof -
  have d16: "drop n (store16 native x @ r) = drop (n - 2) r" if "2 \<le> n" for n x r
    using that by simp
  have d32: "drop n (store32 native x @ r) = drop (n - 4) r" if "4 \<le> n" for n x r
    using that by simp
  have n16: "(store16 native x @ r) ! n = r ! (n - 2)" if "2 \<le> n" for n x r
    using that by (simp add: nth_append)
  show ?thesis
    by (cases h; cases "hdr_ipv4 h"; cases "hdr_udp h")
      (simp add: headers_of_bytes_def headers_bytes_def ipv4_bytes_def udp_bytes_def d16 d32 n16
        load16_store16 load32_store32)
qed

lemma build_headers_checksum:
  "internet_checksum native
     (ipv4_bytes native (hdr_ipv4 (fst (build_headers native pid si di sp dp n)))) = 0"
proof -
  obtain xs ys where sp: "\<And>h c. h = hdr_ipv4 (fst (build_headers native pid si di sp dp n)) \<Longrightarrow>
      ipv4_bytes native (h\<lparr>ip_hdr_csum := c\<rparr>) = xs @ store16 native c @ ys"
    "length xs = 10" "length ys = 8"
  proof -
    let ?h = "hdr_ipv4 (fst (build_headers native pid si di sp dp n))"
    show ?thesis
      by (rule that [of "[ip_version_ihl ?h, ip_tos ?h] @ store16 native (ip_total_len ?h)
            @ store16 native (ip_id ?h) @ store16 native (ip_flags_frag_offset ?h)
            @ [ip_ttl ?h, ip_protocol ?h]"
          "store32 native (ip_src_addr ?h) @ store32 native (ip_dst_addr ?h)"])
        (simp_all add: ipv4_bytes_def)
  qed
  let ?h = "hdr_ipv4 (fst (build_headers native pid si di sp dp n))"
  have c: "ip_hdr_csum ?h = internet_checksum native (ipv4_bytes native (?h\<lparr>ip_hdr_csum := 0\<rparr>))"
    by (simp add: build_headers_def Let_def)
  have "ipv4_bytes native ?h = xs @ store16 native (ip_hdr_csum ?h) @ ys"
    using sp(1) [OF refl, of "ip_hdr_csum ?h"] by simp
  moreover have "ip_hdr_csum ?h = internet_checksum native (xs @ store16 native 0 @ ys)"
    using c sp(1) [OF refl, of 0] by simp
  ultimately show ?thesis
    using internet_checksum_verifies [of xs ys] sp(2,3) by simp
qed

lemma store32_to_big32: "store32 native (to_big32 native x) = store32 Big x"
proof -
  have "rev (store32 Big x) = store32 Little x" by (simp add: store32_def Let_def)
  moreover have "store32 Big (byte_swap32 x) = store32 Little x"
    using to_little32_wire [of Big x] by (simp add: put32_def to_little32_def)
  ultimately show ?thesis
    by (cases native) (simp_all add: to_big32_def store32_def Let_def)
qed

text \<open>What \<open>parse_udp_packet\<close> leaves in the state after the datagram of a peer.\<close>

definition datagram_from :: "u32 \<Rightarrow> u32 \<Rightarrow> u16 \<Rightarrow> u16 \<Rightarrow> byte list \<Rightarrow> slip_udp_serial \<Rightarrow> bool" where
  "datagram_from src_ip dst_ip src_port dst_port data s \<longleftrightarrow>
     su_last_remote_ip s = src_ip \<and> su_last_dst_ip s = dst_ip \<and>
     su_last_remote_port s = src_port \<and> su_last_dst_port s = dst_port \<and>
     su_last_remote_ip_str s = dotted_quad (store32 Big src_ip) \<and>
     su_last_dst_ip_str s = dotted_quad (store32 Big dst_ip) \<and>
     get_last_rx_data s = data"

lemma parse_built_headers:
  assumes "take (28 + length data) (su_rx_buffer s) =
      headers_bytes native (fst (build_headers native pid si di sp dp (length data))) @ data"
    and "28 + length data \<le> MTU"
  shows "fst (parse_udp_packet native (28 + length data) s) = length data \<and>
    datagram_from si di sp dp data (snd (parse_udp_packet native (28 + length data) s))"
proof -
  let ?h = "fst (build_headers native pid si di sp dp (length data))"
  let ?rx = "su_rx_buffer s"
  obtain rest where rx: "?rx = headers_bytes native ?h @ data @ rest"
    using assms(1) append_take_drop_id [of "28 + length data" ?rx] by (metis append_assoc)
  have h: "headers_of_bytes native ?rx = ?h"
    unfolding rx by (rule headers_of_bytes_bytes)
  have "take 20 ?rx = ipv4_bytes native (hdr_ipv4 ?h)"
    unfolding rx by (simp add: headers_bytes_def)
  then have c: "internet_checksum native (take 20 ?rx) = 0"
    using build_headers_checksum by simp
  have total: "unat (of_nat (28 + length data) :: u16) = 28 + length data"
    and len: "unat (of_nat (8 + length data) :: u16) = 8 + length data"
    using assms(2) by (simp_all only: unat_of_nat take_bit_eq_mod MTU_def) simp_all
  have ge: "\<not> (of_nat (8 + length data) :: u16) < 8"
    using len by (simp add: word_less_nat_alt del: of_nat_add)
  have sub: "(of_nat (8 + length data) :: u16) - 8 = of_nat (length data)" by simp
  have data: "unat (of_nat (length data) :: u16) = length data"
    using assms(2) by (simp add: unat_of_nat take_bit_eq_mod MTU_def)
  have "slice ?rx 12 4 = store32 Big si" "slice ?rx 16 4 = store32 Big di"
    unfolding rx
    by (simp_all add: headers_bytes_def ipv4_bytes_def build_headers_def Let_def slice_def
        store32_to_big32)
  moreover have "slice ?rx 28 (length data) = data"
    unfolding rx by (simp add: slice_def)
  ultimately show ?thesis
    using c h total len ge data
    by (simp add: parse_udp_packet_def datagram_from_def get_last_rx_data_def Let_def
        build_headers_def IPV4_PROTOCOL_UDP_def sub del: of_nat_add)
qed


section \<open>Sending and receiving\<close>

lemma send_ok:
  assumes "wf_slip a" "length data \<le> 1471" "serial_room (su_serial a) = Some room" "3000 \<le> room"
  shows "\<exists>a'. send native si di sp dp data a = (Inr (), a') \<and> wf_slip a' \<and>
    serial_out (su_serial a') = serial_out (su_serial a) @ [SLIP_END] @ encode_slip_block
      (headers_bytes native
        (fst (build_headers native (su_last_sent_packet_id a) si di sp dp (length data))) @ data)
      @ [SLIP_END]"
proof -
  obtain h pid where h:
    "build_headers native (su_last_sent_packet_id a) si di sp dp (length data) = (h, pid)"
    by fastforce
  let ?f = "encode_slip (headers_bytes native h) data"
  have f: "length ?f \<le> 3000"
    using length_encode_slip [of "headers_bytes native h" data] assms(2) by simp
  have tx: "take (length ?f) (overwrite (su_tx_buffer a) 0 ?f) = ?f"
    by (simp add: take_overwrite_0)
  have "length (overwrite (su_tx_buffer a) 0 ?f) = MTU * 2"
    using f assms(1) by (subst length_overwrite) (simp_all add: wf_slip_def MTU_def)
  with f tx show ?thesis
    using assms h
    by (simp add: send_def wf_slip_def MTU_def write_bytes_def)
      (simp add: encode_slip_def encode_slip_block_append Let_def)
qed

lemma receive_frame:
  assumes "wf_slip b" "28 + length data \<le> MTU" "SLIP_END \<notin> set noise"
    and "serial_in (su_serial b) = map Got (noise @ [SLIP_END] @ encode_slip_block
      (headers_bytes native (fst (build_headers native pid si di sp dp (length data))) @ data)
      @ [SLIP_END]) @ rest"
  shows "\<exists>b'. receive native b = (Inr (length data), b') \<and>
    datagram_from si di sp dp data b' \<and> serial_in (su_serial b') = rest \<and>
    su_last_sent_packet_id b' = su_last_sent_packet_id b \<and>
    serial_out (su_serial b') = serial_out (su_serial b) \<and>
    serial_room (su_serial b') = serial_room (su_serial b) \<and> wf_slip b'"
proof -
  let ?bs = "headers_bytes native (fst (build_headers native pid si di sp dp (length data))) @ data"
  have len: "length ?bs = 28 + length data" by simp
  have "recv_decode_loop False (su_rx_buffer b) 0 (serial_in (su_serial b)) =
      (Inr (length ?bs), overwrite (su_rx_buffer b) 0 ?bs, rest)"
    unfolding assms(4) using assms(1-3) by (intro decode_frame) (auto simp: wf_slip_def)
  then obtain s where s: "recv_decode_slip b = (Inr (28 + length data), s)"
    "su_rx_buffer s = overwrite (su_rx_buffer b) 0 ?bs" "serial_in (su_serial s) = rest"
    "su_last_sent_packet_id s = su_last_sent_packet_id b"
    "serial_out (su_serial s) = serial_out (su_serial b)"
    "serial_room (su_serial s) = serial_room (su_serial b)"
    "su_tx_buffer s = su_tx_buffer b"
    unfolding recv_decode_slip_def len by auto
  have "take (28 + length data) (su_rx_buffer s) = ?bs"
    unfolding s(2) using len by (metis order_refl take_all take_overwrite_0)
  from parse_built_headers [OF this assms(2)]
  have "fst (parse_udp_packet native (28 + length data) s) = length data"
    "datagram_from si di sp dp data (snd (parse_udp_packet native (28 + length data) s))"
    by auto
  moreover have "length (overwrite (su_rx_buffer b) 0 ?bs) = MTU"
    using assms(1,2) by (subst length_overwrite) (simp_all add: wf_slip_def)
  moreover have
    "su_serial (snd (parse_udp_packet native n s)) = su_serial s"
    "su_last_sent_packet_id (snd (parse_udp_packet native n s)) = su_last_sent_packet_id s"
    "su_rx_buffer (snd (parse_udp_packet native n s)) = su_rx_buffer s"
    "su_tx_buffer (snd (parse_udp_packet native n s)) = su_tx_buffer s" for n
    by (simp_all add: parse_udp_packet_def Let_def)
  ultimately show ?thesis
    using s assms(1)
    by (intro exI [of _ "snd (parse_udp_packet native (28 + length data) s)"])
      (simp add: receive_def wf_slip_def case_prod_unfold)
qed

lemma recv_decode_loop_bounds:
  assumes "len \<le> length rx"
  shows "length (fst (snd (recv_decode_loop started rx len xs))) = length rx \<and>
    (\<forall>n. fst (recv_decode_loop started rx len xs) = Inr n \<longrightarrow> n \<le> length rx) \<and>
    fst (recv_decode_loop started rx len xs) \<noteq> Inl OutOfBounds"
proof -
  define ok where "ok = (\<lambda>k (r :: exn + nat, rx :: byte list, ys :: read_result list).
    length rx = k \<and> (\<forall>n. r = Inr n \<longrightarrow> n \<le> k) \<and> r \<noteq> Inl OutOfBounds)"
  have result: "ok k (Inl e, rx, ys) = (length rx = k \<and> e \<noteq> OutOfBounds)"
    "ok k (Inr n, rx, ys) = (length rx = k \<and> n \<le> k)" for k e n rx ys
    by (auto simp: ok_def)
  have branch: "(b \<Longrightarrow> ok k x) \<Longrightarrow> (\<not> b \<Longrightarrow> ok k y) \<Longrightarrow> ok k (if b then x else y)" for b k x y
    by simp
  have escape: "ok k (case ys of [] \<Rightarrow> x | Timeout # zs \<Rightarrow> y zs | ReadError # zs \<Rightarrow> z zs | Got e # zs \<Rightarrow> w e zs)"
    if "ok k x" "\<And>zs. length zs < length ys \<Longrightarrow> ok k (y zs)" "\<And>zs. length zs < length ys \<Longrightarrow> ok k (z zs)"
      "\<And>e zs. length zs < length ys \<Longrightarrow> ok k (w e zs)" for k ys x y z w
    using that by (cases ys; cases "hd ys") auto
  have "ok (length rx) (recv_decode_loop started rx len xs)" using assms
  proof (induction xs arbitrary: started rx len rule: length_induct)
    case (1 xs)
    have IH: "ok k (recv_decode_loop started rx len ys)"
      if "length ys < length xs" "len \<le> k" "length rx = k" for started rx len ys k
      using 1 that by blast
    have stored: "ok k (case store_rx rx len b of None \<Rightarrow> (Inl OutOfBounds, rx, ys) | Some rx \<Rightarrow> recv_decode_loop started rx (Suc len) ys)"
      if "length ys < length xs" "len < k" "length rx = k" for started rx len ys k b
      using IH [of ys "Suc len" k "rx[len := b]" started] that by (simp add: store_rx_def)
    show ?case
    proof (cases xs)
      case (Cons r ys)
      show ?thesis
      proof (cases r)
        case (Got b)
        show ?thesis
          unfolding Cons Got recv_decode_loop.simps(4)
          using "1.prems"
          by (intro branch escape stored IH; simp add: Cons result)
      qed (simp_all add: Cons result "1.prems")
    qed (simp add: result "1.prems")
  qed
  then show ?thesis by (auto simp: ok_def split: prod.splits)
qed

lemma parse_udp_packet_bounds:
  assumes "parse_udp_packet native len s = (n, s')" "len \<le> MTU" "n \<noteq> 0"
  shows "28 + n \<le> MTU \<and> su_last_rx_udp_data s' = Some 28 \<and> unat (su_last_udp_data_len s') = n"
proof -
  let ?u = "from_big16 native (udp_length (hdr_udp (headers_of_bytes native (su_rx_buffer s))))"
  have "8 \<le> ?u \<and> 20 + unat ?u \<le> len \<and> n = unat (?u - 8) \<and>
      su_last_rx_udp_data s' = Some 28 \<and> su_last_udp_data_len s' = ?u - 8"
    using assms by (auto simp: parse_udp_packet_def Let_def not_less split: if_splits)
  moreover from this have "unat (?u - 8) = unat ?u - 8" "8 \<le> unat ?u"
    by (simp_all add: unat_sub word_le_nat_alt)
  ultimately show ?thesis using assms(2) by auto
qed


section \<open>Properties\<close>

text \<open>C13: A datagram that one side sends over the serial line (payload of at most 1471 bytes)
  is received by the other side whatever noise without an END byte precedes it: \<open>send\<close> returns
  normally, \<open>receive\<close> returns the length of the payload, the payload and the addresses and ports
  are the ones that were sent, and only the bytes of this frame are taken from the line.\<close>

theorem slip_send_receive:
  assumes "wf_slip a" "serial_out (su_serial a) = []" "serial_room (su_serial a) = Some room"
    "3000 \<le> room" "length data \<le> 1471"
    and "wf_slip b" "SLIP_END \<notin> set noise"
    and "send native si di sp dp data a = (r, a')"
    and "serial_in (su_serial b) = map Got (noise @ serial_out (su_serial a')) @ rest"
    and "receive native b = (r', b')"
  shows "r = Inr () \<and> r' = Inr (length data) \<and> datagram_from si di sp dp data b' \<and>
    serial_in (su_serial b') = rest"
proof -
  let ?frame = "[SLIP_END] @ encode_slip_block (headers_bytes native
    (fst (build_headers native (su_last_sent_packet_id a) si di sp dp (length data))) @ data) @ [SLIP_END]"
  have "r = Inr ()" "serial_out (su_serial a') = ?frame"
    using send_ok [OF assms(1,5,3,4), of native si di sp dp] assms(2,8) by auto
  moreover from this have "serial_in (su_serial b) = map Got (noise @ ?frame) @ rest"
    using assms(9) by simp
  with assms(5) have "\<exists>b'. receive native b = (Inr (length data), b') \<and>
      datagram_from si di sp dp data b' \<and> serial_in (su_serial b') = rest"
    using receive_frame [OF assms(6) _ assms(7), of data native _ si di sp dp rest]
    by (auto simp: MTU_def simp del: append.simps)
  ultimately show ?thesis using assms(10) by auto
qed

definition slip_demo :: "slip_udp_serial" where
  "slip_demo = \<lparr>su_serial = \<lparr>serial_in = [], serial_out = [], serial_room = Some 4000\<rparr>,
     su_rx_buffer = replicate MTU 0, su_tx_buffer = replicate (MTU * 2) 0,
     su_last_udp_data_len = 0, su_last_rx_udp_data = None, su_last_remote_ip = 0,
     su_last_remote_port = 0, su_last_remote_ip_str = [], su_last_dst_ip = 0,
     su_last_dst_port = 0, su_last_dst_ip_str = [], su_last_sent_packet_id = 0\<rparr>"

theorem slip_send_receive_witness:
  "\<exists>a' b b'. send Little 0x0A000001 0x0A000002 100 200 [SLIP_END, 1] slip_demo = (Inr (), a') \<and>
     serial_in (su_serial b) = map Got ([7] @ serial_out (su_serial a')) \<and>
     receive Little b = (Inr 2, b') \<and>
     datagram_from 0x0A000001 0x0A000002 100 200 [SLIP_END, 1] b'"
proof -
  obtain r a' where a: "send Little 0x0A000001 0x0A000002 100 200 [SLIP_END, 1] slip_demo = (r, a')"
    by fastforce
  let ?b = "slip_demo\<lparr>su_serial := (su_serial slip_demo)\<lparr>serial_in :=
    map Got ([7] @ serial_out (su_serial a')) @ []\<rparr>\<rparr>"
  obtain r' b' where b: "receive Little ?b = (r', b')" by fastforce
  have wf: "wf_slip slip_demo" "wf_slip ?b" by (simp_all add: wf_slip_def slip_demo_def)
  have "r = Inr () \<and> r' = Inr (length [SLIP_END, 1]) \<and>
      datagram_from 0x0A000001 0x0A000002 100 200 [SLIP_END, 1] b' \<and> serial_in (su_serial b') = []"
    by (rule slip_send_receive [OF wf(1) _ _ _ _ wf(2) _ a _ b, where room = 4000 and noise = "[7]"])
      (simp_all add: slip_demo_def SLIP_END_def)
  with a b show ?thesis by (intro exI [of _ a'] exI [of _ ?b] exI [of _ b']) simp
qed

text \<open>C22: \<open>receive\<close> never stores outside of its 1500-byte receive buffer, whatever bytes arrive on the line and
  however long a frame is: it keeps the buffers, and a payload that it reports lies completely inside the
  receive buffer.\<close>

theorem receive_in_bounds:
  assumes "wf_slip s" "receive native s = (r, s')"
  shows "r \<noteq> Inl OutOfBounds \<and> wf_slip s' \<and> (\<forall>n. r = Inr n \<longrightarrow> n \<noteq> 0 \<longrightarrow> 28 + n \<le> MTU \<and> length (get_last_rx_data s') = n)"
proof (intro conjI allI impI)
  obtain q rx xs where loop:
    "recv_decode_loop False (su_rx_buffer s) 0 (serial_in (su_serial s)) = (q, rx, xs)"
    by (metis prod_cases3)
  have len: "length rx = MTU" "\<And>m. q = Inr m \<Longrightarrow> m \<le> MTU" "q \<noteq> Inl OutOfBounds"
    using recv_decode_loop_bounds [of 0 "su_rx_buffer s" False "serial_in (su_serial s)"] loop assms(1)
    by (auto simp: wf_slip_def)
  define t where "t = s\<lparr>su_rx_buffer := rx, su_serial := (su_serial s)\<lparr>serial_in := xs\<rparr>\<rparr>"
  have t: "recv_decode_slip s = (q, t)" "wf_slip t"
    using loop len assms(1) by (simp_all add: recv_decode_slip_def t_def wf_slip_def)
  show "r \<noteq> Inl OutOfBounds"
    using assms(2) t(1) len(3) by (auto simp: receive_def split: sum.splits if_splits prod.splits)
  have p: "su_rx_buffer (snd (parse_udp_packet native m t)) = su_rx_buffer t"
    "su_tx_buffer (snd (parse_udp_packet native m t)) = su_tx_buffer t" for m
    by (simp_all add: parse_udp_packet_def Let_def)
  show "wf_slip s'"
    using assms(2) t p by (auto simp: receive_def wf_slip_def split: sum.splits if_splits prod.splits)
      (metis snd_conv)+
  fix n assume r: "r = Inr n" "n \<noteq> 0"
  then obtain m where m: "q = Inr m" "parse_udp_packet native m t = (n, s')"
    using assms(2) t(1) by (auto simp: receive_def split: sum.splits if_splits prod.splits)
  have "su_rx_buffer s' = su_rx_buffer t" using p(1) [of m] m(2) by simp
  then show "28 + n \<le> MTU" "length (get_last_rx_data s') = n"
    using parse_udp_packet_bounds [OF m(2) len(2) [OF m(1)] r(2)] len(1)
    by (auto simp: get_last_rx_data_def t_def)
qed

text \<open>A frame of 2000 bytes.\<close>

theorem receive_in_bounds_witness:
  "fst (receive Little (slip_demo\<lparr>su_serial := (su_serial slip_demo)\<lparr>serial_in := Got SLIP_END # replicate 2000 (Got 7)\<rparr>\<rparr>)) \<noteq> Inl OutOfBounds \<and>
   wf_slip (snd (receive Little (slip_demo\<lparr>su_serial := (su_serial slip_demo)\<lparr>serial_in := Got SLIP_END # replicate 2000 (Got 7)\<rparr>\<rparr>)))"
proof -
  let ?s = "slip_demo\<lparr>su_serial := (su_serial slip_demo)\<lparr>serial_in := Got SLIP_END # replicate 2000 (Got 7)\<rparr>\<rparr>"
  obtain r s where e: "receive Little ?s = (r, s)" by fastforce
  have "wf_slip ?s" by (simp add: wf_slip_def slip_demo_def)
  from receive_in_bounds [OF this e] show ?thesis unfolding e by simp
qed

text \<open>C23: The transmit buffer of twice the MTU is large enough for every payload of at most
  1471 bytes, whatever bytes have to be escaped; a payload that the length check still lets
  through overruns it (1500 bytes END need 3000 bytes for the payload alone).\<close>

theorem send_tx_buffer:
  assumes "wf_slip s"
  shows "(\<forall>data. length data \<le> 1471 \<longrightarrow> fst (send native si di sp dp data s) \<noteq> Inl OutOfBounds) \<and>
    fst (send native si di sp dp (replicate 1500 SLIP_END) s) = Inl OutOfBounds"
proof (intro conjI allI impI)
  obtain h pid where h: "\<And>n. build_headers native (su_last_sent_packet_id s) si di sp dp n = (h n, pid n)"
    by (rule that [of "\<lambda>n. fst (build_headers native (su_last_sent_packet_id s) si di sp dp n)"
          "\<lambda>n. snd (build_headers native (su_last_sent_packet_id s) si di sp dp n)"]) simp
  show "fst (send native si di sp dp data s) \<noteq> Inl OutOfBounds" if "length data \<le> 1471" for data
  proof -
    have "length (encode_slip (headers_bytes native (h (length data))) data) \<le> length (su_tx_buffer s)"
      using length_encode_slip [of "headers_bytes native (h (length data))" data] that assms
      by (simp add: wf_slip_def MTU_def)
    then show ?thesis
      using h by (auto simp: send_def write_bytes_def Let_def split: option.splits)
  qed
  have "length (encode_slip (headers_bytes native (h 1500)) (replicate 1500 SLIP_END)) > MTU * 2"
    by (simp add: encode_slip_def length_encode_slip_block MTU_def)
  then show "fst (send native si di sp dp (replicate 1500 SLIP_END) s) = Inl OutOfBounds"
    using assms h by (simp add: send_def wf_slip_def Let_def MTU_def)
qed

theorem send_tx_buffer_witness:
  "fst (send Little 1 2 3 4 [SLIP_ESC] slip_demo) \<noteq> Inl OutOfBounds \<and>
   fst (send Little 1 2 3 4 (replicate 1500 SLIP_END) slip_demo) = Inl OutOfBounds"
proof -
  have wf: "wf_slip slip_demo" by (simp add: wf_slip_def slip_demo_def)
  show ?thesis using send_tx_buffer [OF wf] by simp
qed

end
