(* ===== verification/Server.thy ===== *)
theory Server
  imports Request Slip
begin

text \<open>
  Model of one turn of the main loop of \<^verbatim>\<open>netmount-server/netmount-server.cpp\<close>: the checks of a
  received packet, the reply cache around \<open>process_request\<close>, the completion of the reply header,
  and the two transports. A UDP datagram is given by its bytes and its sender; over a serial line
  the packet comes from \<open>Slip\<close>.
\<close>

section \<open>The reply header\<close>

text \<open>\<^verbatim>\<open>header->length_flags |= to_little16(v)\<close> and \<^verbatim>\<open>&= to_little16(v)\<close>\<close>

definition or_length_flags :: "endian \<Rightarrow> u16 \<Rightarrow> byte list \<Rightarrow> byte list" where
  "or_length_flags native v p =
     overwrite p 1 (store16 native (load16 native (slice p 1 2) OR to_little16 native v))"

definition and_length_flags :: "endian \<Rightarrow> u16 \<Rightarrow> byte list \<Rightarrow> byte list" where
  "and_length_flags native v p =
     overwrite p 1 (store16 native (load16 native (slice p 1 2) AND to_little16 native v))"

definition seal_reply :: "endian \<Rightarrow> bool \<Rightarrow> bool \<Rightarrow> nat \<Rightarrow> byte list \<Rightarrow> byte list" where
  "seal_reply native checksum_present read_only send_msg_len p =
     (let p = or_length_flags native (of_nat send_msg_len) p;
          p = (if read_only then or_length_flags native DRIVE_PROTO_FLAG_RO_SHARE p else p)
      in if checksum_present then
           or_length_flags native DRIVE_PROTO_FLAG_CHECKSUM_USED
             (overwrite p 3 (put16 native (bsd_checksum (slice p 5 (send_msg_len - 5)))))
         else
           and_length_flags native 0x7FFF (overwrite p 3 (put16 native DRIVE_PROTO_MAGIC)))"


section \<open>One packet\<close>

record server =
  sv_cache :: "reply_info list"
  sv_drives :: "drive list"
  sv_host :: host

text \<open>The checks before the request is processed: the request that is left, \<open>None\<close> when the packet
  is ignored.\<close>

definition checksum_flag :: "endian \<Rightarrow> byte list \<Rightarrow> bool" where
  "checksum_flag native packet \<longleftrightarrow>
     hdr_length_flags native packet AND DRIVE_PROTO_FLAG_CHECKSUM_USED \<noteq> 0"

definition accept_packet :: "endian \<Rightarrow> byte list \<Rightarrow> byte list option" where
  "accept_packet native packet =
     (if length packet < hdr_size then None
      else if hdr_version packet \<noteq> DRIVE_PROTO_VERSION then None
      else
        let length_from_header = unat (hdr_length_flags native packet AND 0x7FF) in
        if length_from_header < hdr_size then None
        else if length_from_header > length packet then None
        else
          let request = take length_from_header packet in
          if checksum_flag native packet then
            (if bsd_checksum (drop 5 request) \<noteq> hdr_checksum native packet then None else Some request)
          else if hdr_checksum native packet \<noteq> DRIVE_PROTO_MAGIC then None
          else Some request)"

definition run_request :: "env \<Rightarrow> nat \<Rightarrow> byte list \<Rightarrow> (server, nat option) sx" where
  "run_request env i request s =
     (case process_request env request
        \<lparr>ps_info = sv_cache s ! i, ps_drives = sv_drives s, ps_host = sv_host s\<rparr> of
        (r, t) \<Rightarrow> (r, s\<lparr>sv_cache := (sv_cache s)[i := ps_info t], sv_drives := ps_drives t,
                      sv_host := ps_host t\<rparr>))"

definition update_cache :: "nat \<Rightarrow> (reply_info \<Rightarrow> reply_info) \<Rightarrow> (server, unit) sx" where
  "update_cache i f = sx_modify (\<lambda>s. s\<lparr>sv_cache := (sv_cache s)[i := f (sv_cache s ! i)]\<rparr>)"

text \<open>The result is the packet that is sent back, if any.\<close>

definition serve_packet :: "env \<Rightarrow> byte list \<Rightarrow> u32 \<Rightarrow> u16 \<Rightarrow> (server, byte list option) sx" where
  "serve_packet env packet remote_ip remote_port =
     (case accept_packet (e_native env) packet of
        None \<Rightarrow> sx_return None
      | Some request \<Rightarrow>
          sx_bind sx_get (\<lambda>s.
          let (i, cache) = get_reply_info remote_ip remote_port (sv_cache s) in
          sx_bind (sx_modify (\<lambda>s. s\<lparr>sv_cache := cache\<rparr>)) (\<lambda>_.
          sx_bind (run_request env i request) (\<lambda>send_msg_len.
          if length request > PACKET_SIZE then sx_throw OutOfBounds
          else
            sx_bind (update_cache i (\<lambda>info. info
              \<lparr>ri_recv_packet := overwrite (ri_recv_packet info) 0 request,
               ri_recv_len := length request,
               ri_send_len := (case send_msg_len of None \<Rightarrow> 0 | Some n \<Rightarrow> n),
               ri_timestamp := h_clock (sv_host s)\<rparr>)) (\<lambda>_.
            case send_msg_len of
              None \<Rightarrow> sx_return None
            | Some n \<Rightarrow>
                sx_bind sx_get (\<lambda>s.
                let reqdrv = unat (hdr_drive request AND 0x1F);
                    sealed = seal_reply (e_native env) (checksum_flag (e_native env) packet)
                      (d_read_only (sv_drives s ! reqdrv)) n (ri_send_packet (sv_cache s ! i))
                in sx_bind (update_cache i (\<lambda>info. info\<lparr>ri_send_packet := sealed\<rparr>)) (\<lambda>_.
                   sx_return (Some (take n sealed)))))))))"

text \<open>Over the serial line: a packet for another port is ignored, a failure to send the reply is
  only logged.\<close>

record slip_server =
  ss_server :: server
  ss_slip :: slip_udp_serial

definition slip_turn :: "env \<Rightarrow> u16 \<Rightarrow> (slip_server, unit) sx" where
  "slip_turn env bind_port s =
     (case receive (e_native env) (ss_slip s) of
        (Inl e, slip) \<Rightarrow> (Inl e, s\<lparr>ss_slip := slip\<rparr>)
      | (Inr n, slip) \<Rightarrow>
          if n = 0 then (Inr (), s\<lparr>ss_slip := slip\<rparr>)
          else if su_last_dst_port slip \<noteq> bind_port then (Inr (), s\<lparr>ss_slip := slip\<rparr>)
          else (case serve_packet env (get_last_rx_data slip) (su_last_remote_ip slip)
                       (su_last_remote_port slip) (ss_server s) of
              (Inl e, srv) \<Rightarrow> (Inl e, \<lparr>ss_server = srv, ss_slip = slip\<rparr>)
            | (Inr None, srv) \<Rightarrow> (Inr (), \<lparr>ss_server = srv, ss_slip = slip\<rparr>)
            | (Inr (Some reply), srv) \<Rightarrow>
                (case send_reply (e_native env) reply slip of
                   (Inl e, slip) \<Rightarrow>
                     (if e = OutOfBounds then Inl e else Inr (), \<lparr>ss_server = srv, ss_slip = slip\<rparr>)
                 | (Inr _, slip) \<Rightarrow> (Inr (), \<lparr>ss_server = srv, ss_slip = slip\<rparr>))))"

end
