(* ===== verification/Samples.thy ===== *)
theory Samples
  imports Server
begin

text \<open>
  A small server for concrete runs: drive C: shares the directory \<^verbatim>\<open>/s\<close>, which holds the file
  \<^verbatim>\<open>a.txt\<close>, the directory \<^verbatim>\<open>d\<close> with the file \<^verbatim>\<open>b\<close>, and nothing else; \<open>make_request\<close> builds a request
  packet without checksum as the client does.
\<close>

definition sample_node :: "inode \<Rightarrow> node" where
  "sample_node k = \<lparr>n_kind = k, n_mtime = 0, n_fat = 0, n_xattr = None\<rparr>"

definition sample_tree :: tree where
  "sample_tree =
     [([], sample_node Dir), ([bytes_of ''s''], sample_node Dir),
      ([bytes_of ''s'', bytes_of ''a.txt''], sample_node (File (bytes_of ''hello''))),
      ([bytes_of ''s'', bytes_of ''d''], sample_node Dir),
      ([bytes_of ''s'', bytes_of ''d'', bytes_of ''b''], sample_node (File []))]"

definition sample_host :: host where
  "sample_host = \<lparr>h_tree = sample_tree, h_cwd = [], h_clock = 1000000, h_faults = (\<lambda>_ _. None),
     h_space = (\<lambda>_. (0x10000000, 0x8000000)), h_fat_fs = False, h_xattr_fs = True\<rparr>"

definition sample_root :: path where
  "sample_root = \<lparr>p_abs = True, p_elems = [bytes_of ''s'']\<rparr>"

definition sample_drive :: drive where
  "sample_drive = default_drive\<lparr>d_used := True, d_root := sample_root, d_attrs_mode := IN_EXTENDED\<rparr>"

definition sample_dstate :: dstate where
  "sample_dstate = \<lparr>s_drive = sample_drive, s_host = sample_host\<rparr>"

definition sample_server :: "drive \<Rightarrow> server" where
  "sample_server d = \<lparr>sv_cache = empty_cache, sv_drives = (replicate 26 default_drive)[2 := d],
     sv_host = sample_host\<rparr>"

definition sample_tm :: tm where
  "sample_tm = \<lparr>tm_sec = 0, tm_min = 0, tm_hour = 0, tm_mday = 1, tm_mon = 0, tm_year = 100, tm_isdst = -1\<rparr>"

definition sample_env :: env where
  "sample_env = \<lparr>e_native = Little, e_localtime = (\<lambda>_. sample_tm), e_mktime = (\<lambda>_. 0),
     e_translit = (\<lambda>_. None)\<rparr>"

definition make_request :: "u8 \<Rightarrow> u8 \<Rightarrow> int2f \<Rightarrow> byte list \<Rightarrow> byte list" where
  "make_request seq drv f data =
     [DRIVE_PROTO_VERSION] @ put16 Little (of_nat (8 + length data)) @ put16 Little DRIVE_PROTO_MAGIC
     @ [seq, drv, int2f_code f] @ data"


section \<open>A request that is answered\<close>

definition sample_query :: "byte list" where
  "sample_query = make_request 7 2 INT2F_NETMOUNT_FEATURE_QUERY [0, 0]"

lemma sample_query_accepted: "accept_packet Little sample_query = Some sample_query"
  by code_simp

lemma sample_reply_info: "get_reply_info 1 2 empty_cache =
  (0, empty_cache[0 := empty_reply_info\<lparr>ri_ipv4_addr := 1, ri_udp_port := 2\<rparr>])"
proof -
  have "reply_info_loop 1 2 items 0 i (replicate n empty_reply_info) = Inl 0"
    if "items ! 0 = empty_reply_info" for i n items
    using that by (induction n arbitrary: i) (auto simp: empty_reply_info_def)
  then show ?thesis by (simp add: get_reply_info_def empty_cache_def REPLY_CACHE_SIZE_def empty_reply_info_def)
qed

lemma serve_packet_replies:
  assumes "accept_packet (e_native env) packet = Some request" "length request \<le> PACKET_SIZE"
    "get_reply_info ip port (sv_cache s) = (i, cache)"
    "run_request env i request (s\<lparr>sv_cache := cache\<rparr>) = (Inr (Some n), s')"
  shows "\<exists>reply s1. serve_packet env packet ip port s = (Inr (Some reply), s1) \<and> length reply \<le> n"
  using assms by (simp add: serve_packet_def sx_defs Let_def update_cache_def)

lemma sample_query_run:
  "\<exists>s'. run_request sample_env 0 sample_query ((sample_server sample_drive)\<lparr>sv_cache :=
     empty_cache[0 := empty_reply_info\<lparr>ri_ipv4_addr := 1, ri_udp_port := 2\<rparr>]\<rparr>) = (Inr (Some 8), s')"
proof -
  have f: "int2f_of (hdr_function sample_query) = Some INT2F_NETMOUNT_FEATURE_QUERY"
    "hdr_drive sample_query = 2" "length sample_query = 10" by code_simp+
  have "req_feature_query (drop 8 sample_query) = done_ok" by (simp add: req_feature_query_def f)
  then show ?thesis
    by (simp add: run_request_def process_request_def sx_defs hdr_size_def Let_def put_send_packet_def f
        sample_server_def empty_cache_def REPLY_CACHE_SIZE_def empty_reply_info_def with_drive_def
        done_ok_def sample_drive_def)
qed

lemma sample_query_served:
  "\<exists>reply s. serve_packet sample_env sample_query 1 2 (sample_server sample_drive) = (Inr (Some reply), s) \<and>
     length reply \<le> 8"
proof -
  obtain s' where "run_request sample_env 0 sample_query ((sample_server sample_drive)\<lparr>sv_cache :=
     empty_cache[0 := empty_reply_info\<lparr>ri_ipv4_addr := 1, ri_udp_port := 2\<rparr>]\<rparr>) = (Inr (Some 8), s')"
    using sample_query_run by blast
  moreover have "length sample_query = 10" by code_simp
  ultimately show ?thesis
    by (intro serve_packet_replies [where request = sample_query and i = 0 and n = 8 and s' = s'])
      (simp_all add: sample_env_def sample_query_accepted PACKET_SIZE_def sample_server_def sample_reply_info)
qed

end
