(* ===== verification/Invariants.thy ===== *)
theory Invariants
  imports Samples
begin

text \<open>
  Invariants of the server. The changes that requests can make to the host are a step relation;
  two locales state what an invariant of a drive has to keep (the table of handles, the cached
  listings, the steps of the host), and give in return that every operation of the drive, every
  request and every packet keeps it. The theories \<open>ReadOnly\<close> and \<open>Containment\<close> interpret them.
\<close>

section \<open>Changes of the host\<close>

inductive host_write :: "host \<Rightarrow> host \<Rightarrow> bool" where
  host_put: "\<lbrakk>access op follow h p = Inr loc;
     (\<exists>nd0. map_of (h_tree h) loc = Some nd0 \<and> n_kind nd = n_kind nd0) \<or> (\<forall>q. n_kind nd \<noteq> Symlink q)\<rbrakk> \<Longrightarrow>
   host_write h (set_node loc nd h)"
| host_del: "host_write h (h\<lparr>h_tree := tree_del loc (h_tree h)\<rparr>)"
| host_move: "\<lbrakk>access op1 f1 h p1 = Inr l1; access op2 f2 h p2 = Inr l2\<rbrakk> \<Longrightarrow>
   host_write h (h\<lparr>h_tree := tree_move l1 l2 (tree_del l2 (h_tree h))\<rparr>)"

inductive host_step :: "host \<Rightarrow> host \<Rightarrow> bool" where
  step_write: "host_write h h' \<Longrightarrow> host_step h h'"
| step_chdir: "access op follow h p = Inr loc \<Longrightarrow> host_step h (h\<lparr>h_cwd := loc\<rparr>)"

abbreviation written :: "host \<Rightarrow> host \<Rightarrow> bool" where
  "written \<equiv> host_write\<^sup>*\<^sup>*"

lemma access_node_access: "access_node op follow h p = Inr (loc, nd) \<Longrightarrow>
    access op follow h p = Inr loc \<and> map_of (h_tree h) loc = Some nd"
  by (auto simp: access_node_def split: sum.splits option.splits)

lemma written_put:
  assumes "written h0 h" "access_node op follow h p = Inr (loc, nd)"
    "n_kind nd' = n_kind nd \<or> (\<forall>q. n_kind nd' \<noteq> Symlink q)"
  shows "written h0 (set_node loc nd' h)"
  using assms(1) host_put [of op follow h p loc nd'] access_node_access [OF assms(2)] assms(3)
  by (metis rtranclp.rtrancl_into_rtrancl)

lemma written_put_new:
  assumes "written h0 h" "access op follow h p = Inr loc" "\<forall>q. n_kind nd' \<noteq> Symlink q"
  shows "written h0 (set_node loc nd' h)"
  using assms host_put [of op follow h p loc nd'] by (metis rtranclp.rtrancl_into_rtrancl)

lemma written_del: "written h0 h \<Longrightarrow> written h0 (h\<lparr>h_tree := tree_del loc (h_tree h)\<rparr>)"
  using host_del by (metis rtranclp.rtrancl_into_rtrancl)

text \<open>Each primitive change is a sequence of such steps.\<close>

lemma keeps_create_directory [keeps_intros]: "keeps (written h0) (fs_call (create_directory p))"
  by (intro keeps_fs_call)
    (auto simp: create_directory_def Let_def fresh_node_def intro: written_put_new split: sum.split option.split)

lemma keeps_remove:
  "written h0 h \<Longrightarrow> written h0 (snd (remove p h))"
  by (auto simp: remove_def Let_def intro: written_del split: sum.split)

lemma keeps_fs_rename [keeps_intros]: "keeps (written h0) (fs_call (fs_rename p q))"
proof (intro keeps_fs_call)
  fix h assume h: "written h0 h"
  have "written h0 (h\<lparr>h_tree := tree_move l1 l2 (tree_del l2 (h_tree h))\<rparr>)"
    if "access_node SysRename False h p = Inr (l1, n1)" "access SysRename False h q = Inr l2" for l1 n1 l2
    using h host_move access_node_access [OF that(1)] that(2) by (metis rtranclp.rtrancl_into_rtrancl)
  then show "written h0 (snd (fs_rename p q h))"
    using h by (auto simp: fs_rename_def Let_def split: sum.split option.split)
qed

lemma keeps_write_at [keeps_intros]: "keeps (written h0) (fs_do (write_at p off bs))"
  by (intro keeps_fs_do) (auto simp: write_at_def intro: written_put split: sum.split inode.split)

lemma keeps_create_or_truncate [keeps_intros]: "keeps (written h0) (fs_do (create_or_truncate p))"
  by (intro keeps_fs_do)
    (auto simp: create_or_truncate_def fresh_node_def intro: written_put_new
      split: sum.split option.split inode.split)

lemma keeps_posix_truncate [keeps_intros]: "keeps (written h0) (fs_do (posix_truncate p n))"
  by (intro keeps_fs_do) (auto simp: posix_truncate_def intro: written_put split: sum.split inode.split)

lemma keeps_set_last_write_time [keeps_intros]: "keeps (written h0) (fs_call (set_last_write_time p t))"
  by (intro keeps_fs_call) (auto simp: set_last_write_time_def intro: written_put split: sum.split)

lemma keeps_xattr [keeps_intros]:
  "keeps (written h0) (fs_do (setxattr p v))" "keeps (written h0) (fs_do (removexattr p))"
  by (intro keeps_fs_do; auto simp: setxattr_def removexattr_def intro: written_put
      split: sum.split option.split)+

lemma keeps_remove_calls [keeps_intros]:
  "keeps (written h0) (fs_call (remove p))" "keeps (written h0) (fs_do (remove p))"
  by (intro keeps_fs_call keeps_fs_do keeps_remove; assumption)+

lemma keeps_set_dos_attrs_native [keeps_intros]: "keeps (written h0) (set_dos_attrs_native p a)"
  by (auto simp: keeps_def set_dos_attrs_native_def fat_ioctl_set_def Let_def intro: written_put
      split: sum.split option.split)


section \<open>Host functions\<close>

text \<open>Those that only look keep everything.\<close>

lemma keeps_get_dos_attrs_native [keeps_intros]: "keeps P (get_dos_attrs_native path)"
  by (simp add: keeps_def get_dos_attrs_native_def split: sum.split)

lemma keeps_get_dos_attrs_from_extended [keeps_intros]: "keeps P (get_dos_attrs_from_extended path)"
  by (auto simp: keeps_def get_dos_attrs_from_extended_def sx_defs fs_defs split: sum.split)

lemma keeps_get_item_attrs [keeps_intros]: "keeps P (get_item_attrs path mode)"
  unfolding get_item_attrs_def by (intro keeps_intros)

lemma keeps_get_path_dos_properties [keeps_intros]: "keeps P (get_path_dos_properties env path mode)"
  unfolding get_path_dos_properties_def Let_def by (intro keeps_intros)

lemma keeps_try_open_file [keeps_intros]: "keeps P (try_open_file path mode)"
  unfolding try_open_file_def Let_def by (intro keeps_intros)

lemma keeps_fs_space_info [keeps_intros]: "keeps P (fs_space_info path)"
  unfolding fs_space_info_def by (intro keeps_intros)

lemma keeps_dot_entry [keeps_intros]: "keeps P (dot_entry env d path nm)"
  unfolding dot_entry_def by (intro keeps_intros)

lemma keeps_first_entries [keeps_intros]: "keeps P (first_entries env d path)"
  unfolding first_entries_def by (intro keeps_intros)

lemma keeps_case_list_step [keeps_intros]:
  "keeps P a \<Longrightarrow> keeps P b \<Longrightarrow> (\<And>es. keeps P (c es)) \<Longrightarrow>
   keeps P (case x of ListFailed \<Rightarrow> a | ListFull \<Rightarrow> b | ListEntries es \<Rightarrow> c es)"
  by (cases x) simp_all

lemma keeps_directory_list_loop [keeps_intros]:
  "keeps P (directory_list_loop env d path fnames dl names)"
proof (induction fnames arbitrary: dl names)
  case (Cons fname fnames)
  show ?case
    unfolding directory_list_loop.simps Let_def by (intro keeps_intros Cons.IH)
qed (simp add: keeps_return)

text \<open>The others only write.\<close>

lemma keeps_set_dos_attrs_to_extended [keeps_intros]: "keeps (written h0) (set_dos_attrs_to_extended p a)"
  unfolding set_dos_attrs_to_extended_def Let_def by (intro keeps_intros)

lemma keeps_set_item_attrs [keeps_intros]: "keeps (written h0) (set_item_attrs p a mode)"
  unfolding set_item_attrs_def by (intro keeps_intros)

lemma keeps_host_functions [keeps_intros]:
  "keeps (written h0) (make_dir p)" "keeps (written h0) (delete_dir p)"
  "keeps (written h0) (create_or_truncate_file env p a mode)" "keeps (written h0) (resize_file p n)"
  "keeps (written h0) (delete_file p)" "keeps (written h0) (rename_file p q)"
  unfolding make_dir_def delete_dir_def create_or_truncate_file_def resize_file_def delete_file_def
    rename_file_def
  by (intro keeps_intros)+


section \<open>Operations of the drive\<close>

text \<open>A host function that only looks does not change the state of the drive at all.\<close>

lemma keeps_look: "(\<And>Q. keeps Q m) \<Longrightarrow> keeps P (on_host m)"
  unfolding keeps_def on_host_def
proof (intro allI impI)
  fix s assume "\<And>Q. \<forall>h. Q h \<longrightarrow> Q (snd (m h))" "P s"
  moreover from this(1) [of "\<lambda>h. h = s_host s"] have "snd (m (s_host s)) = s_host s" by simp
  ultimately show "P (snd (case m (s_host s) of (r, h) \<Rightarrow> (r, s\<lparr>s_host := h\<rparr>)))"
    by (simp add: case_prod_unfold)
qed

lemma keeps_look_query [keeps_intros]: "keeps P (on_host (fs_query f))" "keeps P (on_host (fs_gets g))"
  by (intro keeps_look keeps_intros)+

lemma keeps_gets_drive [keeps_intros]: "keeps P (gets_drive f)"
  by (simp add: keeps_def gets_drive_def)

lemma keeps_get_item [keeps_intros]: "keeps P (get_item h)"
  by (simp add: keeps_def get_item_def Let_def)

lemma keeps_not_root_guard [keeps_intros]: "keeps P (not_root_guard p)"
  unfolding not_root_guard_def by (intro keeps_intros)

lemma keeps_forget [keeps_intros]: "keeps P m \<Longrightarrow> keeps P (forget m)"
  unfolding forget_def by (intro keeps_intros)

lemma keeps_get_server_path_attrs [keeps_intros]: "keeps P (get_server_path_attrs p)"
  unfolding get_server_path_attrs_def by (intro keeps_intros keeps_look)

lemma keeps_attrs_or_none [keeps_intros]: "keeps P (attrs_or_none p)"
  unfolding attrs_or_none_def by (intro keeps_intros)

lemma keeps_get_server_path_dos_properties [keeps_intros]: "keeps P (get_server_path_dos_properties env p)"
  unfolding get_server_path_dos_properties_def by (intro keeps_intros keeps_look)

lemma keeps_space_info [keeps_intros]: "keeps P space_info"
  unfolding space_info_def by (intro keeps_intros keeps_look)

lemma keeps_case_io_result [keeps_intros]:
  "keeps P a \<Longrightarrow> keeps P b \<Longrightarrow> (\<And>x. keeps P (c x)) \<Longrightarrow>
   keeps P (case r of OpenFailed \<Rightarrow> a | SeekFailed \<Rightarrow> b | Done x \<Rightarrow> c x)"
  by (cases r) simp_all

lemma keeps_drive_try_open_file [keeps_intros]: "keeps P (drive_try_open_file p m a)"
  unfolding drive_try_open_file_def Let_def by (intro keeps_intros keeps_look)

text \<open>What an invariant has to bear when nothing is written: new handles, use of a handle, new
  listings, removal of a stale entry, a change of the working directory.\<close>

locale reading =
  fixes P :: "dstate \<Rightarrow> bool"
  assumes get_handle_keeps [keeps_intros]: "keeps P (get_handle p)"
    and touch_keeps [keeps_intros]: "keeps P (update_last_used_timestamp n)"
    and listing_keeps [keeps_intros]: "keeps P (create_directory_list env n)"
    and server_name_keeps [keeps_intros]: "keeps P (get_server_name env n fcb c)"
    and chdir_keeps: "P s \<Longrightarrow> access op follow (s_host s) p = Inr loc \<Longrightarrow>
          P (s\<lparr>s_host := (s_host s)\<lparr>h_cwd := loc\<rparr>\<rparr>)"
begin

lemma change_dir_keeps [keeps_intros]: "keeps P (on_host (change_dir dir))"
proof -
  have "P (s\<lparr>s_host := snd (set_current_path dir (s_host s))\<rparr>)" if "P s" for s
    using that chdir_keeps access_node_access
    by (auto simp: set_current_path_def split: sum.split prod.split; metis)
  then show ?thesis
    by (auto simp: keeps_def on_host_def change_dir_def sx_defs fs_defs case_prod_unfold)
qed

lemma server_path_loop_keeps [keeps_intros]: "keeps P (server_path_loop env c p parts)"
proof (induction parts arbitrary: p)
  case (Cons part parts)
  show ?case unfolding server_path_loop.simps Let_def by (intro keeps_intros Cons.IH)
qed (simp add: keeps_return)

lemma create_server_path_keeps [keeps_intros]: "keeps P (create_server_path env p c)"
  unfolding create_server_path_def Let_def by (intro keeps_intros keeps_look)

lemma handle_path_keeps [keeps_intros]: "keeps P (get_handle_path n)"
  unfolding get_handle_path_def by (intro keeps_intros)

lemma read_file_keeps [keeps_intros]: "keeps P (read_file n off len)"
  unfolding read_file_def Let_def by (intro keeps_intros keeps_look)

lemma get_file_size_keeps [keeps_intros]: "keeps P (get_file_size env n)"
  unfolding get_file_size_def by (intro keeps_intros keeps_look)

lemma find_file_keeps [keeps_intros]: "keeps P (find_file env n tmpl attr pos)"
  unfolding find_file_def by (intro keeps_intros)

lemma drive_change_dir_keeps [keeps_intros]: "keeps P (drive_change_dir env p)"
  unfolding drive_change_dir_def by (intro keeps_intros)

lemma get_dos_properties_keeps [keeps_intros]: "keeps P (get_dos_properties env p)"
  unfolding get_dos_properties_def by (intro keeps_intros)

end

lemma keeps_update_item:
  "(\<And>s. P s \<Longrightarrow> P (set_items ((d_items (s_drive s))[unat n := f (d_items (s_drive s) ! unat n)]) s)) \<Longrightarrow>
   keeps P (update_item n f)"
  by (simp add: keeps_def update_item_def Let_def)

lemma keeps_touch:
  "(\<And>s f. P s \<Longrightarrow> P (snd (update_item n f s))) \<Longrightarrow> keeps P (update_last_used_timestamp n)"
  by (simp add: keeps_def update_last_used_timestamp_def)

text \<open>An invariant that does not look at the table of handles.\<close>

lemma reading_items_blind:
  assumes items: "\<And>s is. P s \<Longrightarrow> P (set_items is s)"
    and chdir: "\<And>s op follow p loc. P s \<Longrightarrow> access op follow (s_host s) p = Inr loc \<Longrightarrow>
      P (s\<lparr>s_host := (s_host s)\<lparr>h_cwd := loc\<rparr>\<rparr>)"
  shows "reading P"
proof
  have upd [keeps_intros]: "keeps P (update_item n f)" for n f
    by (intro keeps_update_item items)
  show touch [keeps_intros]: "keeps P (update_last_used_timestamp n)" for n
    by (intro keeps_touch) (simp add: update_item_def Let_def items)
  show "keeps P (get_handle p)" for p
    by (simp add: keeps_def get_handle_def Let_def items split: prod.split sum.split)
  show listing [keeps_intros]: "keeps P (create_directory_list env n)" for env n
    unfolding create_directory_list_def by (intro keeps_intros keeps_look)
  show "keeps P (get_server_name env n fcb c)" for env n fcb c
    unfolding get_server_name_def Let_def by (intro keeps_intros keeps_look)
qed (rule chdir)

text \<open>The flag for a read-only share is never touched.\<close>

interpretation writable: reading "\<lambda>s. \<not> d_read_only (s_drive s)"
  by (rule reading_items_blind) (simp_all add: set_items_def)

text \<open>And what it has to bear on a share that is not read-only: changes of the host.\<close>

locale drive_invariant = reading +
  assumes write_keeps: "P s \<Longrightarrow> \<not> d_read_only (s_drive s) \<Longrightarrow> host_write (s_host s) h' \<Longrightarrow>
    P (s\<lparr>s_host := h'\<rparr>)"

sublocale drive_invariant \<subseteq> writing: reading "\<lambda>s. P s \<and> \<not> d_read_only (s_drive s)"
  by unfold_locales (intro keeps_conj keeps_intros | simp add: chdir_keeps)+

context drive_invariant
begin

abbreviation writing where
  "writing s \<equiv> P s \<and> \<not> d_read_only (s_drive s)"

lemma written_keeps: "written h h' \<Longrightarrow> writing (s\<lparr>s_host := h\<rparr>) \<Longrightarrow> writing (s\<lparr>s_host := h'\<rparr>)"
proof (induction rule: rtranclp_induct)
  case (step h1 h2)
  then show ?case using write_keeps [of "s\<lparr>s_host := h1\<rparr>" h2] by simp
qed

lemma on_host_writes:
  assumes "\<And>h0. keeps (written h0) m"
  shows "keeps writing (on_host m)"
  unfolding keeps_def
proof (intro allI impI)
  fix s assume s: "writing s"
  have "written (s_host s) (snd (m (s_host s)))"
    using keepsD [OF assms, of "s_host s" "s_host s"] by simp
  then have "writing (s\<lparr>s_host := snd (m (s_host s))\<rparr>)" using written_keeps [of _ _ s] s by simp
  then show "writing (snd (on_host m s))" by (simp add: on_host_def case_prod_unfold)
qed

lemma guarded: "keeps writing m \<Longrightarrow> keeps P (sx_bind ro_guard (\<lambda>_. m))"
  by (simp add: keeps_def ro_guard_def gets_drive_def sx_defs)

lemma guarded_flag:
  "keeps writing m \<Longrightarrow> keeps P (sx_bind (gets_drive d_read_only) (\<lambda>ro. if ro then sx_throw e else m))"
  by (simp add: keeps_def gets_drive_def sx_defs)

lemma guarded_drive:
  "(\<And>d. keeps writing (m d)) \<Longrightarrow>
   keeps P (sx_bind (gets_drive id) (\<lambda>d. if d_read_only d then sx_return x else m d))"
  by (simp add: keeps_def gets_drive_def sx_defs)

lemma write_file_keeps [keeps_intros]: "keeps P (write_file buffer n off)"
  unfolding write_file_def Let_def
  by (intro guarded_flag keeps_intros on_host_writes)

lemma set_file_date_time_keeps [keeps_intros]: "keeps P (set_file_date_time env n dt)"
  unfolding set_file_date_time_def
  by (intro guarded_drive keeps_intros on_host_writes)

lemma delete_host_entries_keeps [keeps_intros]: "keeps writing (delete_host_entries dir fcb fnames)"
proof (induction fnames)
  case (Cons fname fnames)
  then show ?case
    unfolding delete_host_entries.simps Let_def
    by (intro keeps_intros on_host_writes)
qed (simp add: keeps_return)

lemma delete_listed_keeps [keeps_intros]: "keeps writing (delete_listed dir fcb ps)"
proof (induction ps)
  case (Cons p ps)
  then show ?case
    unfolding delete_listed.simps Let_def by (intro keeps_intros on_host_writes)
qed (simp add: keeps_return)

lemma methods_keep [keeps_intros]:
  "keeps P (drive_make_dir env p)" "keeps P (drive_delete_dir env p)"
  "keeps P (drive_set_item_attrs env p a)" "keeps P (drive_rename_file env p q)"
  "keeps P (drive_create_or_truncate_file env p a b)"
  unfolding drive_make_dir_def drive_delete_dir_def drive_set_item_attrs_def drive_rename_file_def
    drive_create_or_truncate_file_def
  by (intro guarded keeps_intros on_host_writes)+

lemma delete_files_keeps [keeps_intros]: "keeps P (delete_files env p)"
  unfolding delete_files_def Let_def
  by (intro guarded keeps_intros on_host_writes)

end


section \<open>Requests\<close>

lemma keeps_answer_errors [keeps_intros]: "keeps P m \<Longrightarrow> keeps P (answer_errors c m)"
  unfolding answer_errors_def by (intro keeps_intros)

lemma keeps_done_ok [keeps_intros]: "keeps P done_ok"
  unfolding done_ok_def by (intro keeps_intros)

lemmas req_defs = req_make_remove_dir_def req_change_dir_def req_close_file_def req_read_file_def
  req_write_file_def req_lock_file_def req_unlock_file_def req_disk_info_def req_disk_info_large_def
  req_set_attrs_def req_get_attrs_def req_rename_file_def req_delete_file_def req_find_first_def
  req_find_next_def req_seek_from_end_def req_open_create_def req_feature_query_def
  do_open_file_def do_create_file_def do_extended_open_create_def

context drive_invariant
begin

lemma handle_function_keeps: "keeps P (handle_function env ext f data)"
  by (cases f; simp only: handle_function.simps req_defs Let_def; intro keeps_intros)

end

text \<open>The host only goes through the steps above.\<close>

abbreviation evolved :: "host \<Rightarrow> dstate \<Rightarrow> bool" where
  "evolved h0 s \<equiv> host_step\<^sup>*\<^sup>* h0 (s_host s)"

interpretation evolution: drive_invariant "evolved h0" for h0
proof (intro drive_invariant.intro drive_invariant_axioms.intro)
  show "reading (evolved h0)"
    by (rule reading_items_blind)
      (auto simp: set_items_def intro: rtranclp.rtrancl_into_rtrancl step_chdir)
  show "evolved h0 (s\<lparr>s_host := h'\<rparr>)" if "evolved h0 s" "host_write (s_host s) h'" for s h'
    using that by (auto intro: rtranclp.rtrancl_into_rtrancl step_write)
qed


section \<open>Packets\<close>

text \<open>The state of a drive inside of the server.\<close>

abbreviation request_view :: "pstate \<Rightarrow> nat \<Rightarrow> dstate" where
  "request_view s n \<equiv> \<lparr>s_drive = ps_drives s ! n, s_host = ps_host s\<rparr>"

lemma dstate_eta [simp]: "\<lparr>s_drive = s_drive t, s_host = s_host t\<rparr> = t"
  by simp

definition drive_view :: "server \<Rightarrow> nat \<Rightarrow> dstate" where
  "drive_view s n = \<lparr>s_drive = sv_drives s ! n, s_host = sv_host s\<rparr>"

lemma drive_view_cache [simp]: "drive_view (s\<lparr>sv_cache := c\<rparr>) n = drive_view s n"
  by (simp add: drive_view_def)

definition request_keeps :: "nat \<Rightarrow> (drive list \<Rightarrow> host \<Rightarrow> bool) \<Rightarrow> bool" where
  "request_keeps n Q \<longleftrightarrow> (\<forall>env ext f data.
     keeps (\<lambda>s. Q (ps_drives s) (ps_host s)) (with_drive n (handle_function env ext f data)))"

lemma process_request_keeps:
  assumes "request_keeps (unat (hdr_drive request AND 0x1F)) Q"
  shows "keeps (\<lambda>s. Q (ps_drives s) (ps_host s)) (process_request env request)"
proof -
  have [keeps_intros]: "keeps (\<lambda>s. Q (ps_drives s) (ps_host s)) (put_send_packet off bs)" for off bs
    unfolding put_send_packet_def by (intro keeps_modify) simp
  have [keeps_intros]: "keeps (\<lambda>s. Q (ps_drives s) (ps_host s))
      (with_drive (unat (hdr_drive request AND 0x1F)) (handle_function env ext f data))" for env ext f data
    using assms by (simp add: request_keeps_def)
  show ?thesis unfolding process_request_def Let_def by (intro keeps_intros)
qed

lemma accepted_drive:
  "accept_packet native packet = Some request \<Longrightarrow> hdr_drive request = hdr_drive packet"
  by (auto simp: accept_packet_def Let_def hdr_drive_def hdr_size_def split: if_splits)

lemma serve_packet_keeps:
  assumes "request_keeps (unat (hdr_drive packet AND 0x1F)) Q"
  shows "keeps (\<lambda>s. Q (sv_drives s) (sv_host s)) (serve_packet env packet ip port)"
proof (cases "accept_packet (e_native env) packet")
  case None
  then show ?thesis by (simp add: serve_packet_def keeps_return)
next
  case (Some request)
  have [keeps_intros]: "keeps (\<lambda>s. Q (sv_drives s) (sv_host s)) (run_request env i request)" for i
    using process_request_keeps [of request Q env] assms accepted_drive [OF Some]
    by (auto simp: keeps_def run_request_def case_prod_unfold)
  have [keeps_intros]: "keeps (\<lambda>s. Q (sv_drives s) (sv_host s)) (update_cache i f)" for i f
    unfolding update_cache_def by (intro keeps_modify) simp
  show ?thesis
    unfolding serve_packet_def Some option.case
    by (simp only: Let_def) (intro keeps_intros; simp)
qed

context drive_invariant
begin

text \<open>The drive that the packet names.\<close>

lemma drive_kept:
  assumes "n = unat (hdr_drive packet AND 0x1F)" "n < length (sv_drives s)" "P (drive_view s n)"
  shows "P (drive_view (snd (serve_packet env packet ip port s)) n)"
proof -
  let ?Q = "\<lambda>ds h. n < length ds \<and> P \<lparr>s_drive = ds ! n, s_host = h\<rparr>"
  have "request_keeps n ?Q"
    using keepsD [OF handle_function_keeps]
    by (auto simp: request_keeps_def keeps_def with_drive_def case_prod_unfold)
  then have "keeps (\<lambda>s. ?Q (sv_drives s) (sv_host s)) (serve_packet env packet ip port)"
    by (intro serve_packet_keeps) (simp flip: assms(1))
  from keepsD [OF this, of s] show ?thesis using assms(2,3) by (simp add: drive_view_def)
qed

end

text \<open>An invariant that bears every change of the host holds of all drives at once.\<close>

locale server_invariant = drive_invariant +
  assumes step_keeps: "P s \<Longrightarrow> host_step (s_host s) h' \<Longrightarrow> P (s\<lparr>s_host := h'\<rparr>)"
begin

lemma evolved_keeps: "host_step\<^sup>*\<^sup>* h h' \<Longrightarrow> P (s\<lparr>s_host := h\<rparr>) \<Longrightarrow> P (s\<lparr>s_host := h'\<rparr>)"
proof (induction rule: rtranclp_induct)
  case (step h1 h2)
  then show ?case using step_keeps [of "s\<lparr>s_host := h1\<rparr>" h2] by simp
qed

lemma drives_kept:
  assumes "\<forall>n < length (sv_drives s). P (drive_view s n)"
  shows "\<forall>n < length (sv_drives (snd (serve_packet env packet ip port s))).
    P (drive_view (snd (serve_packet env packet ip port s)) n)"
proof -
  let ?Q = "\<lambda>ds h. \<forall>n < length ds. P \<lparr>s_drive = ds ! n, s_host = h\<rparr>"
  have "request_keeps k ?Q" for k
    unfolding request_keeps_def keeps_def
  proof (intro allI impI)
    fix env ext f data s n
    assume Q: "\<forall>n < length (ps_drives s). P (request_view s n)"
      and n: "n < length (ps_drives (snd (with_drive k (handle_function env ext f data) s)))"
    let ?t = "snd (handle_function env ext f data (request_view s k))"
    have t: "ps_drives (snd (with_drive k (handle_function env ext f data) s)) = (ps_drives s)[k := s_drive ?t]"
      "ps_host (snd (with_drive k (handle_function env ext f data) s)) = s_host ?t"
      by (simp_all add: with_drive_def case_prod_unfold)
    have "host_step\<^sup>*\<^sup>* (ps_host s) (s_host ?t)"
      using keepsD [OF evolution.handle_function_keeps, of "ps_host s" "request_view s k"] by simp
    moreover have "P (request_view s n)" using Q n t by simp
    ultimately have "P \<lparr>s_drive = ps_drives s ! n, s_host = s_host ?t\<rparr>"
      using evolved_keeps [of "ps_host s" "s_host ?t" "request_view s n"] by simp
    moreover have "P \<lparr>s_drive = s_drive ?t, s_host = s_host ?t\<rparr>" if "k < length (ps_drives s)"
      using keepsD [OF handle_function_keeps, of "request_view s k" env ext f data] Q that by simp
    ultimately show "P (request_view (snd (with_drive k (handle_function env ext f data) s)) n)"
      using n unfolding t by (cases "n = k") (auto simp: nth_list_update)
  qed
  from keepsD [OF serve_packet_keeps [where Q = ?Q, OF this], of s] assms
  show ?thesis by (simp add: drive_view_def)
qed

end

end
