(* ===== verification/ReadOnly.thy ===== *)
theory ReadOnly
  imports Invariants
begin

text \<open>
  A read-only share never changes the files of the host, whatever the request is: that the share is
  read-only and that the files are as they were is an invariant of the drive.
\<close>

definition frozen :: "tree \<Rightarrow> dstate \<Rightarrow> bool" where
  "frozen t s \<longleftrightarrow> d_read_only (s_drive s) \<and> h_tree (s_host s) = t"

interpretation frozen: drive_invariant "frozen t" for t
proof (intro drive_invariant.intro drive_invariant_axioms.intro)
  show "reading (frozen t)"
    by (rule reading_items_blind) (simp_all add: set_items_def frozen_def)
qed (simp add: frozen_def)

text \<open>C4: No packet that addresses a read-only share changes the files of the host, whatever the
  packet is; the share stays read-only.\<close>

theorem read_only_share_is_kept:
  assumes "n = unat (hdr_drive packet AND 0x1F)" "n < length (sv_drives s)"
    "d_read_only (sv_drives s ! n)"
  shows "h_tree (sv_host (snd (serve_packet env packet ip port s))) = h_tree (sv_host s) \<and>
    d_read_only (sv_drives (snd (serve_packet env packet ip port s)) ! n)"
  using frozen.drive_kept [OF assms(1,2), of "h_tree (sv_host s)" env ip port] assms(3)
  by (simp add: frozen_def drive_view_def)
theorem read_only_share_is_kept_witness:
  "h_tree (sv_host (snd (serve_packet sample_env (make_request 7 2 INT2F_MAKE_DIR (ch_backslash # bytes_of ''NEW'')) 1 2
       (sample_server (sample_drive\<lparr>d_read_only := True\<rparr>))))) =
     h_tree (sv_host (sample_server (sample_drive\<lparr>d_read_only := True\<rparr>))) \<and>
   d_read_only (sv_drives (snd (serve_packet sample_env (make_request 7 2 INT2F_MAKE_DIR (ch_backslash # bytes_of ''NEW'')) 1 2
       (sample_server (sample_drive\<lparr>d_read_only := True\<rparr>)))) ! 2)"
proof -
  have "hdr_drive (make_request 7 2 INT2F_MAKE_DIR (ch_backslash # bytes_of ''NEW'')) = 2" by code_simp
  then show ?thesis
    by (intro read_only_share_is_kept) (simp_all add: sample_server_def)
qed

end
