(* ===== verification/Retransmit.thy ===== *)
theory Retransmit
  imports Samples
begin

text \<open>
  The reply cache at work: when a client sends the same request again, because it did not get the
  answer, it gets the same answer again and nothing else happens. The proof needs that the
  completion of a reply header can be repeated without effect.
\<close>

section \<open>Completing the header\<close>

definition flags_after :: "endian \<Rightarrow> bool \<Rightarrow> bool \<Rightarrow> nat \<Rightarrow> u16 \<Rightarrow> u16" where
  "flags_after native c ro n w =
     (let w = w OR to_little16 native (of_nat n);
          w = (if ro then w OR to_little16 native DRIVE_PROTO_FLAG_RO_SHARE else w)
      in if c then w OR to_little16 native DRIVE_PROTO_FLAG_CHECKSUM_USED
         else w AND to_little16 native 0x7FFF)"

definition check_after :: "bool \<Rightarrow> nat \<Rightarrow> byte list \<Rightarrow> u16" where
  "check_after c n p = (if c then bsd_checksum (slice p 5 (n - 5)) else DRIVE_PROTO_MAGIC)"

lemma flags_after_idem: "flags_after native c ro n (flags_after native c ro n w) = flags_after native c ro n w"
  unfolding flags_after_def Let_def
  by (rule bit_word_eqI) (auto simp: bit_simps)

lemma overwrite_twice:
  "length a = length b \<Longrightarrow> off + length a \<le> length p \<Longrightarrow> overwrite (overwrite p off a) off b = overwrite p off b"
  by (simp add: overwrite_def)

lemma overwrite_append:
  "off + length a + length b \<le> length p \<Longrightarrow>
   overwrite (overwrite p off a) (off + length a) b = overwrite p off (a @ b)"
  by (simp add: overwrite_def ac_simps)

lemma slice_flags: "5 \<le> length p \<Longrightarrow> slice (overwrite p 1 (store16 native w)) 1 2 = store16 native w"
  using slice_overwrite_same [of 1 p "store16 native w"] by simp

lemma load16_store16_eq [simp]: "load16 native (store16 native w) = w"
  using load16_store16 [of native w "[]"] by simp

lemma seal_reply_eq:
  assumes "8 \<le> length p"
  shows "seal_reply native c ro n p =
    overwrite p 1 (store16 native (flags_after native c ro n (load16 native (slice p 1 2)))
      @ put16 native (check_after c n p))"
proof -
  let ?w = "load16 native (slice p 1 2)"
  have flags: "or_length_flags native v (overwrite p 1 (store16 native w)) =
      overwrite p 1 (store16 native (w OR to_little16 native v))" for v w
    using assms by (simp add: or_length_flags_def slice_flags overwrite_twice del: One_nat_def)
  have check: "overwrite (overwrite p 1 (store16 native w)) 3 (put16 native x) =
      overwrite p 1 (store16 native w @ put16 native x)" for w x
    using overwrite_append [of 1 "store16 native w" "put16 native x" p] assms by (simp add: numeral_3_eq_3)
  have or_both: "or_length_flags native v (overwrite p 1 (store16 native w @ b)) =
      overwrite p 1 (store16 native (w OR to_little16 native v) @ b)"
    and and_both: "and_length_flags native v (overwrite p 1 (store16 native w @ b)) =
      overwrite p 1 (store16 native (w AND to_little16 native v) @ b)" if "length b = 2" for v w b
  proof -
    have "overwrite (overwrite p 1 (store16 native w @ b)) 1 (store16 native w') =
      overwrite p 1 (store16 native w' @ b)" for w'
      using assms that by (simp add: overwrite_def)
    moreover have "slice (overwrite p 1 (store16 native w @ b)) 1 2 = store16 native w"
      using assms by (simp add: overwrite_def slice_def)
    ultimately show "or_length_flags native v (overwrite p 1 (store16 native w @ b)) =
        overwrite p 1 (store16 native (w OR to_little16 native v) @ b)"
      "and_length_flags native v (overwrite p 1 (store16 native w @ b)) =
        overwrite p 1 (store16 native (w AND to_little16 native v) @ b)"
      by (simp_all add: or_length_flags_def and_length_flags_def del: One_nat_def)
  qed
  have data: "slice (overwrite p 1 (store16 native w)) 5 m = slice p 5 m" for w m
    using assms by (intro slice_overwrite_after) simp_all
  have or0: "or_length_flags native v p = overwrite p 1 (store16 native (?w OR to_little16 native v))" for v
    by (simp add: or_length_flags_def)
  show ?thesis
    unfolding seal_reply_def Let_def flags_after_def check_after_def
    by (simp add: or0 flags check data or_both and_both del: One_nat_def)
qed

lemma seal_reply_idem:
  assumes "8 \<le> length p"
  shows "seal_reply native c ro n (seal_reply native c ro n p) = seal_reply native c ro n p"
proof -
  let ?f = "store16 native (flags_after native c ro n (load16 native (slice p 1 2)))"
  let ?q = "overwrite p 1 (?f @ put16 native (check_after c n p))"
  have len: "length ?q = length p" using assms by (simp add: length_overwrite)
  have "slice ?q 1 2 = ?f" using assms by (simp add: overwrite_def slice_def)
  moreover have "slice ?q 5 m = slice p 5 m" for m
    using assms by (intro slice_overwrite_after) simp_all
  then have "check_after c n ?q = check_after c n p" unfolding check_after_def by presburger
  ultimately show ?thesis
    using assms len by (simp add: seal_reply_eq flags_after_idem overwrite_twice del: One_nat_def)
qed

lemma length_seal_reply [layout]: "8 \<le> length p \<Longrightarrow> length (seal_reply native c ro n p) = length p"
  by (simp add: seal_reply_eq length_overwrite)


section \<open>The entry of a client\<close>

text \<open>The first entry of the cache that belongs to the client is its last exchange.\<close>

definition last_exchange :: "u32 \<Rightarrow> u16 \<Rightarrow> reply_info list \<Rightarrow> reply_info option" where
  "last_exchange ip port items = List.find (owned_by ip port) items"

lemma last_exchange_Some:
  "last_exchange ip port items = Some info \<longleftrightarrow>
     (\<exists>i < length items. items ! i = info \<and> owned_by ip port info \<and>
        (\<forall>j < i. \<not> owned_by ip port (items ! j)))"
  unfolding last_exchange_def find_Some_iff by auto

lemma last_exchange_index:
  assumes "last_exchange ip port items = Some info"
  shows "\<exists>i. get_reply_info ip port items = (i, items) \<and> i < length items \<and> items ! i = info"
proof -
  obtain i where i: "i < length items" "items ! i = info" "owned_by ip port info"
    "\<forall>j < i. \<not> owned_by ip port (items ! j)"
    using assms by (auto simp: last_exchange_Some)
  then obtain k where k: "reply_info_loop ip port items 0 0 items = Inr k"
    using reply_info_loop_owned [of items ip port items 0 0] by auto
  have "k = i"
    using reply_info_loop_found [OF k] i by (metis linorder_neqE_nat diff_zero)
  with k i show ?thesis by (simp add: get_reply_info_def)
qed

lemma last_exchange_after:
  assumes "get_reply_info ip port items = (i, items')" "items \<noteq> []"
    "owned_by ip port info"
  shows "last_exchange ip port (items'[i := info]) = Some info"
proof -
  have spec: "i < length items" "length items' = length items"
    using get_reply_info_spec [OF assms(1,2)] by auto
  have "\<not> owned_by ip port (items' ! j)" if "j < i" for j
  proof (cases "reply_info_loop ip port items 0 0 items")
    case (Inr k)
    then show ?thesis using assms(1) that reply_info_loop_found [OF Inr] by (auto simp: get_reply_info_def)
  next
    case (Inl m)
    then have "\<not> (\<exists>j < length items. owned_by ip port (items ! j))"
      using reply_info_loop_owned [of items ip port items 0 0] by auto
    with Inl assms(1) that spec show ?thesis by (auto simp: get_reply_info_def)
  qed
  with spec assms(3) show ?thesis
    by (auto simp: last_exchange_Some intro!: exI [of _ i])
qed


section \<open>Processing touches only the reply packet of the entry\<close>

definition only_reply :: "reply_info \<Rightarrow> pstate \<Rightarrow> bool" where
  "only_reply info s \<longleftrightarrow>
     (\<exists>p. ps_info s = info\<lparr>ri_send_packet := p\<rparr> \<and> length (ri_send_packet info) \<le> length p)"

lemma length_overwrite_ge: "off \<le> length xs \<Longrightarrow> length xs \<le> length (overwrite xs off ys)"
  by (simp add: overwrite_def)

lemma only_reply_put:
  assumes "off \<le> length (ri_send_packet info)"
  shows "keeps (only_reply info) (put_send_packet off bs)"
  unfolding put_send_packet_def
proof (rule keeps_modify)
  fix s assume "only_reply info s"
  then obtain p where p: "ps_info s = info\<lparr>ri_send_packet := p\<rparr>" "length (ri_send_packet info) \<le> length p"
    by (auto simp: only_reply_def)
  have "length p \<le> length (overwrite p off bs)"
    using p(2) assms by (intro length_overwrite_ge) simp
  with p show "only_reply info (s\<lparr>ps_info := (ps_info s)
      \<lparr>ri_send_packet := overwrite (ri_send_packet (ps_info s)) off bs\<rparr>\<rparr>)"
    by (auto simp: only_reply_def intro!: exI [of _ "overwrite p off bs"])
qed

lemma only_reply_with_drive [keeps_intros]: "keeps (only_reply info) (with_drive n m)"
  by (simp add: keeps_def with_drive_def only_reply_def split: prod.split)

lemma only_reply_process_request:
  "8 \<le> length (ri_send_packet info) \<Longrightarrow> keeps (only_reply info) (process_request env request)"
  unfolding process_request_def Let_def hdr_size_def
  by (intro keeps_intros only_reply_put) simp_all


section \<open>A repeated request\<close>

definition recorded :: "byte list \<Rightarrow> nat \<Rightarrow> reply_info \<Rightarrow> bool" where
  "recorded request n info \<longleftrightarrow>
     ri_recv_len info = length request \<and> take (length request) (ri_recv_packet info) = request \<and>
     ri_send_len info = n \<and> 0 < n"

lemma process_request_cached:
  assumes "recorded request n (ps_info s)" "hdr_size \<le> length request"
  shows "process_request env request s = (Inr (Some n), s)"
proof -
  have "5 < length request" using assms(2) by (simp add: hdr_size_def)
  then have "hdr_sequence (ri_recv_packet (ps_info s)) = hdr_sequence request"
    using assms(1) nth_take [of 5 "length request" "ri_recv_packet (ps_info s)"]
    by (simp add: recorded_def hdr_sequence_def)
  moreover have "request \<noteq> []" using \<open>5 < length request\<close> by auto
  ultimately show ?thesis
    using assms by (simp add: process_request_def recorded_def sx_get_def sx_bind_def sx_return_def not_less)
qed

lemma process_request_positive:
  "process_request env request s = (Inr (Some n), s') \<Longrightarrow> 0 < n"
  by (auto simp: process_request_def Let_def sx_defs hdr_size_def put_send_packet_def
      split: if_splits option.splits sum.splits prod.splits)

lemma accept_packet_length:
  "accept_packet native packet = Some request \<Longrightarrow> hdr_size \<le> length request"
  by (auto simp: accept_packet_def Let_def split: if_splits)

lemma overwrite_same_prefix:
  "take (length request) p = request \<Longrightarrow> overwrite p 0 request = p"
  by (metis append_Nil append_take_drop_id overwrite_def plus_nat.add_0 take_0)

lemma serve_packet_cached:
  assumes acc: "accept_packet (e_native env) packet = Some request" "length request \<le> PACKET_SIZE"
    and ex: "last_exchange ip port (sv_cache s) = Some info" "recorded request n info"
    and seal: "seal_reply (e_native env) (checksum_flag (e_native env) packet)
      (d_read_only (sv_drives s ! unat (hdr_drive request AND 0x1F))) n (ri_send_packet info) =
      ri_send_packet info"
  shows "\<exists>s'. serve_packet env packet ip port s = (Inr (Some (take n (ri_send_packet info))), s') \<and>
    sv_drives s' = sv_drives s \<and> sv_host s' = sv_host s \<and>
    last_exchange ip port (sv_cache s') = Some (info\<lparr>ri_timestamp := h_clock (sv_host s)\<rparr>)"
proof -
  obtain i where i: "get_reply_info ip port (sv_cache s) = (i, sv_cache s)" "i < length (sv_cache s)"
    "sv_cache s ! i = info"
    using last_exchange_index [OF ex(1)] by blast
  have run: "run_request env i request s = (Inr (Some n), s)"
    using process_request_cached [of request n "\<lparr>ps_info = info, ps_drives = sv_drives s, ps_host = sv_host s\<rparr>" env]
      ex(2) accept_packet_length [OF acc(1)] i
    by (simp add: run_request_def list_update_same_conv)
  have own: "owned_by ip port info"
    using ex(1) by (auto simp: last_exchange_Some)
  have rec: "info\<lparr>ri_recv_packet := overwrite (ri_recv_packet info) 0 request, ri_recv_len := length request,
      ri_send_len := n, ri_timestamp := t\<rparr> = info\<lparr>ri_timestamp := t\<rparr>" for t
    using ex(2) overwrite_same_prefix [of request "ri_recv_packet info"] by (simp add: recorded_def)
  have ne: "sv_cache s \<noteq> []" using i(2) by auto
  show ?thesis
    using i run acc seal rec own last_exchange_after [OF i(1) ne, of "info\<lparr>ri_timestamp := h_clock (sv_host s)\<rparr>"]
    by (simp add: serve_packet_def sx_defs update_cache_def owned_by_def Let_def)
qed


lemma serve_packet_answered:
  assumes "serve_packet env packet ip port s = (Inr (Some reply), s1)" "wf_cache (sv_cache s)"
  shows "\<exists>request info n p. accept_packet (e_native env) packet = Some request \<and>
    length request \<le> PACKET_SIZE \<and> last_exchange ip port (sv_cache s1) = Some info \<and>
    recorded request n info \<and> reply = take n (ri_send_packet info) \<and> 8 \<le> length p \<and>
    ri_send_packet info = seal_reply (e_native env) (checksum_flag (e_native env) packet)
      (d_read_only (sv_drives s1 ! unat (hdr_drive request AND 0x1F))) n p"
proof -
  obtain request where acc: "accept_packet (e_native env) packet = Some request"
    using assms(1) by (cases "accept_packet (e_native env) packet") (auto simp: serve_packet_def sx_defs)
  obtain i cache where g: "get_reply_info ip port (sv_cache s) = (i, cache)" by fastforce
  have ne: "sv_cache s \<noteq> []" using assms(2) by (auto simp: wf_cache_def REPLY_CACHE_SIZE_def)
  have i: "i < length cache" "owned_by ip port (cache ! i)" "wf_reply_info (cache ! i)"
    using get_reply_info_spec [OF g ne] get_reply_info_wf [OF g assms(2)] by auto
  let ?p0 = "\<lparr>ps_info = cache ! i, ps_drives = sv_drives s, ps_host = sv_host s\<rparr>"
  obtain r ps where pr: "process_request env request ?p0 = (r, ps)" by fastforce
  have "only_reply (cache ! i) (snd (process_request env request ?p0))"
    using i(3) by (intro keepsD [OF only_reply_process_request])
      (auto simp: wf_reply_info_def PACKET_SIZE_def only_reply_def intro: exI [of _ "ri_send_packet (cache ! i)"])
  then obtain q where q: "ps_info ps = (cache ! i)\<lparr>ri_send_packet := q\<rparr>" "8 \<le> length q"
    using pr i(3) by (auto simp: only_reply_def wf_reply_info_def PACKET_SIZE_def)
  have run: "run_request env i request (s\<lparr>sv_cache := cache\<rparr>) =
      (r, s\<lparr>sv_cache := cache[i := ps_info ps], sv_drives := ps_drives ps, sv_host := ps_host ps\<rparr>)"
    using pr by (simp add: run_request_def)
  from assms(1) acc g run obtain n where n: "r = Inr (Some n)" "length request \<le> PACKET_SIZE"
    by (auto simp: serve_packet_def sx_defs update_cache_def Let_def split: sum.splits if_splits option.splits)
  let ?sealed = "seal_reply (e_native env) (checksum_flag (e_native env) packet)
      (d_read_only (ps_drives ps ! unat (hdr_drive request AND 0x1F))) n q"
  let ?info = "(cache ! i)\<lparr>ri_recv_packet := overwrite (ri_recv_packet (cache ! i)) 0 request,
     ri_recv_len := length request, ri_send_len := n, ri_timestamp := h_clock (sv_host s),
     ri_send_packet := ?sealed\<rparr>"
  have s1: "sv_cache s1 = cache[i := ?info]" "sv_drives s1 = ps_drives ps"
    and reply: "reply = take n ?sealed"
    using assms(1) acc g run n i(1) q
    by (auto simp: serve_packet_def sx_defs update_cache_def Let_def)
  have len: "length cache = length (sv_cache s)" using get_reply_info_spec [OF g ne] by simp
  have "last_exchange ip port (sv_cache s1) = Some ?info"
    unfolding s1 using i(2) by (intro last_exchange_after [OF g ne]) (simp add: owned_by_def)
  moreover have "recorded request n ?info"
    using process_request_positive [of env request ?p0 n ps] pr n(1) by (simp add: recorded_def take_overwrite_0)
  ultimately show ?thesis
    using acc n(2) reply q(2) s1(2) by (intro exI [of _ request] exI [of _ ?info] exI [of _ n] exI [of _ q]) simp
qed

section \<open>Other clients\<close>

text \<open>A packet of another client leaves the entry of a client alone when the other client has an entry of its
  own or the cache has an older entry that can be given to it.\<close>

definition spared :: "u32 \<Rightarrow> u16 \<Rightarrow> u32 \<Rightarrow> u16 \<Rightarrow> reply_info list \<Rightarrow> bool" where
  "spared ip port ip' port' items \<longleftrightarrow>
     list_ex (owned_by ip' port') items \<or>
     list_ex (\<lambda>it. case last_exchange ip port items of None \<Rightarrow> True | Some info \<Rightarrow> ri_timestamp it < ri_timestamp info) items"

lemma owned_by_fields:
  "owned_by ip port (it\<lparr>ri_recv_packet := p\<rparr>) = owned_by ip port it" "owned_by ip port (it\<lparr>ri_send_packet := p\<rparr>) = owned_by ip port it"
  "owned_by ip port (it\<lparr>ri_recv_len := n\<rparr>) = owned_by ip port it" "owned_by ip port (it\<lparr>ri_send_len := n\<rparr>) = owned_by ip port it"
  "owned_by ip port (it\<lparr>ri_timestamp := t\<rparr>) = owned_by ip port it"
  by (simp_all add: owned_by_def)

lemma owned_process_request: "keeps (\<lambda>s. owned_by ip port (ps_info s)) (process_request env request)"
proof -
  have put: "keeps (\<lambda>s. owned_by ip port (ps_info s)) (put_send_packet off bs)" for off bs
    unfolding put_send_packet_def by (rule keeps_modify) (simp add: owned_by_def)
  have drive: "keeps (\<lambda>s. owned_by ip port (ps_info s)) (with_drive n m)" for n and m :: "(dstate, 'a) sx"
    by (simp add: keeps_def with_drive_def split: prod.split)
  show ?thesis unfolding process_request_def Let_def by (intro keeps_intros put drive)
qed

lemma last_exchange_other:
  assumes "last_exchange ip port items = Some info" "get_reply_info ip' port' items = (i, cache)"
    "(ip', port') \<noteq> (ip, port)" "spared ip port ip' port' items" "owned_by ip' port' it"
  shows "last_exchange ip port (cache[i := it]) = Some info"
proof -
  obtain j where j: "j < length items" "items ! j = info" "owned_by ip port info"
    "\<forall>k < j. \<not> owned_by ip port (items ! k)"
    using assms(1) by (auto simp: last_exchange_Some)
  then have ne: "items \<noteq> []" by auto
  note spec = get_reply_info_spec [OF assms(2) ne]
  have "j \<noteq> i"
  proof
    assume "j = i"
    show False
    proof (cases "\<exists>k < length items. owned_by ip' port' (items ! k)")
      case True
      then have "owned_by ip' port' (items ! i)" using spec by auto
      then show False using j(2,3) \<open>j = i\<close> assms(3) by (auto simp: owned_by_def)
    next
      case False
      then have "\<forall>it \<in> set items. ri_timestamp info \<le> ri_timestamp it" using spec j(2) \<open>j = i\<close> by auto
      moreover have "\<not> list_ex (owned_by ip' port') items" using False by (auto simp: list_ex_iff in_set_conv_nth)
      ultimately show False using assms(1,4) by (auto simp: spared_def list_ex_iff)
    qed
  qed
  moreover have "\<not> owned_by ip port it" using assms(3,5) by (auto simp: owned_by_def)
  ultimately show ?thesis
    using j spec unfolding last_exchange_Some by (intro exI [of _ j]) (auto simp: nth_list_update)
qed

lemma serve_packet_cache:
  assumes "items = sv_cache s" "items \<noteq> []" "t = snd (serve_packet env packet ip port s)"
  shows "sv_cache t = items \<or> (\<exists>i cache it. get_reply_info ip port items = (i, cache) \<and> owned_by ip port it \<and>
    sv_cache t = cache[i := it])"
proof (cases "accept_packet (e_native env) packet")
  case None
  then show ?thesis using assms by (simp add: serve_packet_def sx_defs)
next
  case (Some request)
  obtain i cache where g: "get_reply_info ip port items = (i, cache)" by fastforce
  have i: "owned_by ip port (cache ! i)" "i < length cache" using get_reply_info_spec [OF g assms(2)] by auto
  let ?p0 = "\<lparr>ps_info = cache ! i, ps_drives = sv_drives s, ps_host = sv_host s\<rparr>"
  obtain r ps where pr: "process_request env request ?p0 = (r, ps)" by fastforce
  have own: "owned_by ip port (ps_info ps)" using keepsD [OF owned_process_request, of ip port ?p0 env request] i pr by simp
  have put: "\<exists>it'. owned_by ip port it' \<and> cache[i := it] = cache[i := it']" if "owned_by ip port it" for it
    using that by blast
  have "\<exists>it. owned_by ip port it \<and> sv_cache t = cache[i := it]"
    using Some g pr own i assms(1,3)
    by (auto simp: serve_packet_def run_request_def sx_defs update_cache_def owned_by_fields Let_def
        split: sum.splits option.splits intro!: put)
  then show ?thesis using g by blast
qed

text \<open>What may happen between a request and its repetition: requests of other clients that spare the entry,
  in any number and with any effect, and everything else that does not touch the cache: time passes,
  other processes change the files.\<close>

inductive meanwhile :: "u32 \<Rightarrow> u16 \<Rightarrow> server \<Rightarrow> server \<Rightarrow> bool" for ip port where
  nothing: "meanwhile ip port s s"
| other_client: "meanwhile ip port s (snd (serve_packet env packet ip' port' t))"
    if "meanwhile ip port s t" "(ip', port') \<noteq> (ip, port)" "spared ip port ip' port' (sv_cache t)"
| elsewhere: "meanwhile ip port s t'" if "meanwhile ip port s t" "sv_cache t' = sv_cache t"

lemma meanwhile_exchange:
  assumes "meanwhile ip port s t" "last_exchange ip port (sv_cache s) = Some info"
  shows "last_exchange ip port (sv_cache t) = Some info"
  using assms
proof (induction rule: meanwhile.induct)
  case (other_client s t ip' port' env packet)
  then have ex: "last_exchange ip port (sv_cache t) = Some info" by simp
  then have "sv_cache t \<noteq> []" by (auto simp: last_exchange_def)
  from serve_packet_cache [OF refl this refl, of env packet ip' port'] show ?case
    using ex last_exchange_other [OF ex _ other_client(2,3)] by auto
qed simp_all

text \<open>C3: A client that sends its request again gets the same reply again, and the request is not
  executed a second time: neither the drives nor the host change. This holds whatever other clients
  requested and whatever happened to the files in between, unless the entry of the client in the reply
  cache was given to another client: this does not happen while each of the others has an entry, too,
  or an older entry is left. Whether a share is read-only is fixed when the server starts.\<close>

theorem retransmission:
  assumes "serve_packet env packet ip port s = (Inr (Some reply), s1)" "wf_cache (sv_cache s)"
    and "meanwhile ip port s1 s2"
    and "\<forall>n. d_read_only (sv_drives s2 ! n) = d_read_only (sv_drives s1 ! n)"
  shows "\<exists>s3. serve_packet env packet ip port s2 = (Inr (Some reply), s3) \<and>
    sv_drives s3 = sv_drives s2 \<and> sv_host s3 = sv_host s2"
proof -
  obtain request info n p where *: "accept_packet (e_native env) packet = Some request"
    "length request \<le> PACKET_SIZE" "last_exchange ip port (sv_cache s1) = Some info"
    "recorded request n info" "reply = take n (ri_send_packet info)" "8 \<le> length p"
    "ri_send_packet info = seal_reply (e_native env) (checksum_flag (e_native env) packet)
      (d_read_only (sv_drives s1 ! unat (hdr_drive request AND 0x1F))) n p"
    using serve_packet_answered [OF assms(1,2)] by blast
  have "seal_reply (e_native env) (checksum_flag (e_native env) packet)
      (d_read_only (sv_drives s2 ! unat (hdr_drive request AND 0x1F))) n (ri_send_packet info) =
      ri_send_packet info"
    using assms(4) *(6,7) by (simp add: seal_reply_idem)
  from serve_packet_cached [OF *(1,2) _ *(4) this, of ip port] meanwhile_exchange [OF assms(3) *(3)] *(5)
  show ?thesis by auto
qed

text \<open>The reply comes again although the files of the host are gone.\<close>

theorem retransmission_witness:
  "\<exists>reply s1 s3. serve_packet sample_env sample_query 1 2 (sample_server sample_drive) = (Inr (Some reply), s1) \<and>
     serve_packet sample_env sample_query 1 2 (s1\<lparr>sv_host := sample_host\<lparr>h_tree := []\<rparr>\<rparr>) = (Inr (Some reply), s3) \<and>
     sv_drives s3 = sv_drives s1"
proof -
  obtain reply s1 where served:
    "serve_packet sample_env sample_query 1 2 (sample_server sample_drive) = (Inr (Some reply), s1)"
    using sample_query_served by blast
  let ?s2 = "s1\<lparr>sv_host := sample_host\<lparr>h_tree := []\<rparr>\<rparr>"
  have "wf_cache (sv_cache (sample_server sample_drive))" by (simp add: sample_server_def wf_empty_cache)
  moreover have "meanwhile 1 2 s1 ?s2" by (rule meanwhile.elsewhere [OF meanwhile.nothing]) simp
  ultimately obtain s3 where "serve_packet sample_env sample_query 1 2 ?s2 = (Inr (Some reply), s3)" "sv_drives s3 = sv_drives ?s2"
    using retransmission [OF served, of ?s2] by auto
  with served show ?thesis by (intro exI [of _ reply] exI [of _ s1] exI [of _ s3]) simp
qed

end
