(* ===== verification/Listing.thy ===== *)
theory Listing
  imports Samples
begin

text \<open>
  Directory listings and searches. With name conversion a listing has one entry for every entry of
  the host directory, in its order and with its host name, behind the volume label or the dot
  entries; it never exceeds 65535 entries; the DOS names are pairwise different and lead back to the
  host names. A search that starts at position 0 and continues where the last match was returns
  exactly the matching entries.
\<close>

section \<open>Properties of files never fail\<close>

lemma std_error_not_oob [simp]: "map_sum StdFilesystemError id x \<noteq> Inl OutOfBounds"
  by (cases x) simp_all

lemma get_item_attrs_result:
  "\<exists>r. get_item_attrs p mode h = (r, h) \<and> r \<noteq> Inl OutOfBounds"
  by (auto simp: get_item_attrs_def get_dos_attrs_native_def get_dos_attrs_from_extended_def sx_defs
      fs_defs split: sum.splits)

lemma get_path_dos_properties_total:
  "\<exists>a props. get_path_dos_properties env p mode h = (Inr (a, props), h) \<and> dp_server_name props = []"
proof -
  obtain r where "get_item_attrs p mode h = (r, h)" "r \<noteq> Inl OutOfBounds"
    using get_item_attrs_result by blast
  then show ?thesis
    by (cases r) (auto simp: get_path_dos_properties_def sx_defs Let_def basic_properties_def)
qed

definition dos_properties_of :: "env \<Rightarrow> host \<Rightarrow> path \<Rightarrow> attrs_mode \<Rightarrow> dos_file_properties" where
  "dos_properties_of env h p mode = snd (projr (fst (get_path_dos_properties env p mode h)))"

lemma get_path_dos_properties_eq:
  obtains a where "get_path_dos_properties env p mode h = (Inr (a, dos_properties_of env h p mode), h)"
  using get_path_dos_properties_total [of env p mode h] by (auto simp: dos_properties_of_def)


section \<open>The listing as a function\<close>

text \<open>The entries for the remaining host names once the list is not empty, with the DOS names that
  are taken.\<close>

fun listed :: "env \<Rightarrow> drive \<Rightarrow> host \<Rightarrow> path \<Rightarrow> byte list list \<Rightarrow> fcb_file_name list \<Rightarrow>
    dos_file_properties list \<times> fcb_file_name list" where
  "listed env d h path [] used = ([], used)"
| "listed env d h path (fname # fnames) used =
     (let props = dos_properties_of env h (append_name path fname) (d_attrs_mode d);
          (props, used) = (if d_name_conversion d \<noteq> OFF then
             case file_name_to_83 (e_translit env) fname used of
               (_, fcb, used) \<Rightarrow> (props\<lparr>dp_fcb_name := fcb, dp_server_name := fname\<rparr>, used)
           else (props, used));
          (ps, used) = listed env d h path fnames used
      in (props # ps, used))"

lemma directory_list_loop_rest:
  assumes "dl \<noteq> []" "length dl \<le> 0xFFFF"
  shows "directory_list_loop env d path fnames dl used h =
    (case listed env d h path (take (0xFFFF - length dl) fnames) used of
       (ps, used') \<Rightarrow> (Inr (True, dl @ ps, used'), h))"
  using assms
proof (induction fnames arbitrary: dl used)
  case Nil
  then show ?case by (simp add: sx_defs)
next
  case (Cons fname fnames)
  obtain a where a: "get_path_dos_properties env (append_name path fname) (d_attrs_mode d) h =
      (Inr (a, dos_properties_of env h (append_name path fname) (d_attrs_mode d)), h)"
    using get_path_dos_properties_eq .
  show ?case
  proof (cases "length dl = 0xFFFF")
    case True
    with Cons.prems show ?thesis by (simp add: sx_defs)
  next
    case False
    then have t: "take (0xFFFF - length dl) (fname # fnames) =
        fname # take (0xFFFF - Suc (length dl)) fnames"
      using Cons.prems by (simp add: take_Cons')
    have IH: "directory_list_loop env d path fnames (dl @ [p]) used' h =
      (case listed env d h path (take (0xFFFF - Suc (length dl)) fnames) used' of
         (ps, used'') \<Rightarrow> (Inr (True, (dl @ [p]) @ ps, used''), h))" for p used'
      using Cons.IH [of "dl @ [p]" used'] False Cons.prems by simp
    show ?thesis
      unfolding t using Cons.prems(1) False a
      by (simp add: sx_defs IH Let_def case_prod_unfold)
  qed
qed

text \<open>What stands before the entries of the directory.\<close>

definition heading :: "env \<Rightarrow> drive \<Rightarrow> host \<Rightarrow> path \<Rightarrow> dos_file_properties list option" where
  "heading env d h path =
     (case first_entries env d path h of (Inr (ListEntries es), _) \<Rightarrow> Some es | _ \<Rightarrow> None)"

lemma dot_entry_total: "\<exists>e. dot_entry env d path nm h = (Inr e, h) \<and>
    dp_fcb_name e = short_name_to_fcb nm \<and> (d_name_conversion d \<noteq> OFF \<longrightarrow> dp_server_name e = nm)"
  using get_path_dos_properties_total [of env "append_name path nm" "d_attrs_mode d" h]
  by (auto simp: dot_entry_def sx_defs)

lemma first_entries_total:
  "first_entries env d path h = (Inr (case heading env d h path of None \<Rightarrow> ListFailed | Some es \<Rightarrow> ListEntries es), h)"
  and heading_length: "heading env d h path = Some es \<Longrightarrow> length es \<le> 2"
proof -
  obtain e1 e2 where e: "dot_entry env d path dot h = (Inr e1, h)" "dot_entry env d path dotdot h = (Inr e2, h)"
    using dot_entry_total by meson
  show "first_entries env d path h = (Inr (case heading env d h path of None \<Rightarrow> ListFailed | Some es \<Rightarrow> ListEntries es), h)"
    using e by (auto simp: heading_def first_entries_def sx_defs split: sum.split)
  show "heading env d h path = Some es \<Longrightarrow> length es \<le> 2"
    using e by (auto simp: heading_def first_entries_def sx_defs split: sum.splits if_splits)
qed

lemma directory_list_loop_eq:
  "directory_list_loop env d path (fname # fnames) [] [] h =
     (case heading env d h path of
        None \<Rightarrow> (Inr (False, [], []), h)
      | Some es \<Rightarrow> (case listed env d h path (take (0xFFFF - length es) (fname # fnames)) [] of
          (ps, used) \<Rightarrow> (Inr (True, es @ ps, used), h)))"
proof (cases "heading env d h path")
  case None
  then show ?thesis by (simp add: first_entries_total sx_defs)
next
  case (Some es)
  have len: "length es \<le> 2" using heading_length [OF Some] .
  then have t: "take (0xFFFF - length es) (fname # fnames) = fname # take (0xFFFF - Suc (length es)) fnames"
    by (simp add: take_Cons')
  obtain a where a: "get_path_dos_properties env (append_name path fname) (d_attrs_mode d) h =
      (Inr (a, dos_properties_of env h (append_name path fname) (d_attrs_mode d)), h)"
    using get_path_dos_properties_eq .
  have rest: "directory_list_loop env d path fnames (es @ [p]) used h =
      (case listed env d h path (take (0xFFFF - Suc (length es)) fnames) used of
       (ps, used') \<Rightarrow> (Inr (True, (es @ [p]) @ ps, used'), h))" for p used
    using directory_list_loop_rest [of "es @ [p]"] len by simp
  show ?thesis
    using Some a by (simp add: first_entries_total sx_defs rest t Let_def case_prod_unfold)
qed

lemma listed_names:
  "d_name_conversion d \<noteq> OFF \<Longrightarrow> map dp_server_name (fst (listed env d h path fnames used)) = fnames"
  by (induction fnames arbitrary: used) (auto simp: Let_def case_prod_unfold)

lemma length_listed: "length (fst (listed env d h path fnames used)) = length fnames"
  by (induction fnames arbitrary: used) (auto simp: Let_def case_prod_unfold)

lemma listed_distinct:
  assumes "d_name_conversion d \<noteq> OFF" "length used + length fnames \<le> 9998"
    "\<forall>g \<in> set used. legal_fcb g" "distinct used"
  shows "distinct (map dp_fcb_name (fst (listed env d h path fnames used)) @ used) \<and>
    (\<forall>g \<in> set (map dp_fcb_name (fst (listed env d h path fnames used))). legal_fcb g)"
  using assms(2-)
proof (induction fnames arbitrary: used)
  case (Cons fname fnames)
  obtain ok fcb used1 where f: "file_name_to_83 (e_translit env) fname used = (ok, fcb, used1)"
    by (metis prod_cases3)
  have ok using file_name_to_83_total [OF Cons.prems(2)] f Cons.prems(1) by (cases ok) fastforce+
  then have fresh: "\<not> used_name fcb used" "used1 = fcb # used" "legal_fcb fcb"
    using file_name_to_83_fresh [of "e_translit env" fname used fcb used1] f by auto
  then have new: "fcb \<notin> set used" using used_name_iff [OF Cons.prems(2)] by blast
  have "distinct (map dp_fcb_name (fst (listed env d h path fnames used1)) @ used1) \<and>
    (\<forall>g \<in> set (map dp_fcb_name (fst (listed env d h path fnames used1))). legal_fcb g)"
    using Cons.prems new fresh by (intro Cons.IH) auto
  with f fresh new assms(1) show ?case by (auto simp: Let_def case_prod_unfold)
qed simp


section \<open>The listing of a handle\<close>

lemma create_directory_list_eq:
  assumes "unat hn < length (d_items (s_drive s))"
    "directory_entries (s_host s) (i_path (d_items (s_drive s) ! unat hn)) = Inr fnames"
    "create_directory_list env hn s = (Inr (Some n), s')"
  shows "s_host s' = s_host s \<and> d_root (s_drive s') = d_root (s_drive s) \<and>
    length (d_items (s_drive s')) = length (d_items (s_drive s)) \<and>
    (let d = s_drive s; h = s_host s; path = i_path (d_items d ! unat hn);
         it = d_items (s_drive s') ! unat hn
     in i_path it = path \<and> n = length (i_directory_list it) \<and>
       (if fnames = [] then i_directory_list it = []
        else \<exists>es. heading env d h path = Some es \<and>
          i_directory_list it = es @ fst (listed env d h path (take (0xFFFF - length es) fnames) [])))"
proof (cases fnames)
  case Nil
  with assms show ?thesis
    by (auto simp: create_directory_list_def sx_defs fs_defs on_host_def gets_drive_def update_item_def
        update_last_used_timestamp_def set_items_def Let_def)
next
  case (Cons f fs)
  note eq = directory_list_loop_eq [of env "s_drive s" "i_path (d_items (s_drive s) ! unat hn)" f fs "s_host s"]
  obtain es where es: "heading env (s_drive s) (s_host s) (i_path (d_items (s_drive s) ! unat hn)) = Some es"
    using assms Cons eq
    by (cases "heading env (s_drive s) (s_host s) (i_path (d_items (s_drive s) ! unat hn))")
      (auto simp: create_directory_list_def sx_defs fs_defs on_host_def gets_drive_def update_item_def
        update_last_used_timestamp_def set_items_def Let_def simp del: directory_list_loop.simps)
  with assms Cons eq show ?thesis
    by (auto simp: create_directory_list_def sx_defs fs_defs on_host_def gets_drive_def update_item_def
        update_last_used_timestamp_def set_items_def Let_def case_prod_unfold
        simp del: directory_list_loop.simps)
qed

lemma create_directory_list_none:
  assumes "directory_entries (s_host s) (i_path (d_items (s_drive s) ! unat hn)) = Inl e"
  shows "\<exists>s'. create_directory_list env hn s = (Inr None, s')"
  using assms
  by (auto simp: create_directory_list_def sx_defs fs_defs on_host_def gets_drive_def update_item_def Let_def)


section \<open>Searches\<close>

definition wanted :: "fcb_file_name \<Rightarrow> u8 \<Rightarrow> dos_file_properties \<Rightarrow> bool" where
  "wanted tmpl attr p \<longleftrightarrow> match_fcb_name_to_mask tmpl (dp_fcb_name p) \<and> attr_accepted attr p"

lemma find_from_Some:
  "find_from tmpl attr n ps = Some (p, k) \<Longrightarrow>
   n \<le> k \<and> k < n + length ps \<and> ps ! (k - n) = p \<and>
   filter (wanted tmpl attr) ps = p # filter (wanted tmpl attr) (drop (Suc (k - n)) ps)"
proof (induction ps arbitrary: n)
  case (Cons q ps)
  show ?case
  proof (cases "wanted tmpl attr q")
    case True
    with Cons.prems show ?thesis by (auto simp: wanted_def)
  next
    case False
    with Cons.prems have "find_from tmpl attr (Suc n) ps = Some (p, k)"
      by (auto simp: wanted_def split: if_splits)
    note IH = Cons.IH [OF this]
    then have "Suc n \<le> k" by blast
    then have "k - n = Suc (k - Suc n)" by simp
    with IH False show ?thesis by auto
  qed
qed simp

lemma find_from_None: "find_from tmpl attr n ps = None \<longleftrightarrow> filter (wanted tmpl attr) ps = []"
  by (induction ps arbitrary: n) (auto simp: wanted_def)

lemma next_position:
  assumes "k < 0xFFFF"
  shows "unat (of_nat k + 1 :: u16) = Suc k" "of_nat k + 1 \<noteq> (0 :: u16)"
proof -
  have "unat (of_nat (Suc k) :: u16) = Suc k"
    using assms by (simp only: unat_of_nat take_bit_eq_mod) simp
  then show u: "unat (of_nat k + 1 :: u16) = Suc k" by (simp add: add.commute)
  show "of_nat k + 1 \<noteq> (0 :: u16)"
    by (simp only: unat_eq_zero [symmetric] u)
qed

text \<open>The search of a client: FIND\_FIRST, then FIND\_NEXT from the returned position on.\<close>

fun search :: "nat \<Rightarrow> env \<Rightarrow> u16 \<Rightarrow> fcb_file_name \<Rightarrow> u8 \<Rightarrow> u16 \<Rightarrow> dstate \<Rightarrow> dos_file_properties list" where
  "search 0 env hn tmpl attr pos s = []"
| "search (Suc fuel) env hn tmpl attr pos s =
     (case find_file env hn tmpl attr pos s of
        (Inr (Some (p, pos')), s') \<Rightarrow> p # search fuel env hn tmpl attr pos' s'
      | _ \<Rightarrow> [])"

text \<open>The state in which a listing is cached for the handle.\<close>

definition cached :: "u16 \<Rightarrow> dos_file_properties list \<Rightarrow> dstate \<Rightarrow> bool" where
  "cached hn dl s \<longleftrightarrow> unat hn < length (d_items (s_drive s)) \<and>
     \<not> path_is_empty (i_path (d_items (s_drive s) ! unat hn)) \<and>
     i_directory_list (d_items (s_drive s) ! unat hn) = dl"

lemma find_file_cached:
  assumes "cached hn dl s" "dl \<noteq> []" "pos \<noteq> 0" "attr \<noteq> FAT_VOLUME"
  shows "find_file env hn tmpl attr pos s =
    (Inr (case find_from tmpl attr (unat pos) (drop (unat pos) dl) of
       None \<Rightarrow> None | Some (p, n) \<Rightarrow> Some (p, of_nat n + 1)), s)"
  using assms
  by (auto simp: find_file_def cached_def get_item_def gets_drive_def sx_defs Let_def split: option.split)

lemma search_cached:
  assumes "cached hn dl s" "attr \<noteq> FAT_VOLUME" "length dl \<le> 0xFFFF" "pos \<noteq> 0" "dl \<noteq> []"
    "length dl < unat pos + fuel"
  shows "search fuel env hn tmpl attr pos s = filter (wanted tmpl attr) (drop (unat pos) dl)"
  using assms
proof (induction fuel arbitrary: pos)
  case 0
  then show ?case by simp
next
  case (Suc fuel)
  show ?case
  proof (cases "find_from tmpl attr (unat pos) (drop (unat pos) dl)")
    case None
    then have "filter (wanted tmpl attr) (drop (unat pos) dl) = []" by (simp add: find_from_None)
    with None Suc.prems show ?thesis by (simp add: find_file_cached)
  next
    case (Some pk)
    obtain p k where pk: "pk = (p, k)" by fastforce
    have k: "unat pos \<le> k" "k < length dl"
      "filter (wanted tmpl attr) (drop (unat pos) dl) = p # filter (wanted tmpl attr) (drop (Suc k) dl)"
      using find_from_Some [OF Some [unfolded pk]] by auto
    have u: "unat (of_nat k + 1 :: u16) = Suc k" "of_nat k + 1 \<noteq> (0 :: u16)"
      using next_position [of k] k(2) Suc.prems(3) by simp_all
    with k Suc.prems show ?thesis
      using Suc.IH [of "of_nat k + 1"] Some pk by (simp add: find_file_cached)
  qed
qed

lemma find_file_first:
  assumes "cached hn dl0 s" "attr \<noteq> FAT_VOLUME" "create_directory_list env hn s = (Inr (Some n), s')"
    "cached hn dl s'"
  shows "find_file env hn tmpl attr 0 s =
    (Inr (case find_from tmpl attr 0 dl of None \<Rightarrow> None | Some (p, n) \<Rightarrow> Some (p, of_nat n + 1)), s')"
  using assms
  by (auto simp: find_file_def cached_def get_item_def gets_drive_def sx_defs Let_def split: option.split)

lemma search_complete:
  assumes "cached hn dl0 s" "attr \<noteq> FAT_VOLUME" "create_directory_list env hn s = (Inr (Some n), s')"
    "cached hn dl s'" "length dl \<le> 0xFFFF" "length dl < fuel"
  shows "search fuel env hn tmpl attr 0 s = filter (wanted tmpl attr) dl"
proof (cases fuel)
  case (Suc fuel')
  show ?thesis
  proof (cases "find_from tmpl attr 0 dl")
    case None
    then have "filter (wanted tmpl attr) dl = []" by (simp add: find_from_None)
    with None show ?thesis using Suc find_file_first [OF assms(1-4)] by simp
  next
    case (Some pk)
    obtain p k where pk: "pk = (p, k)" by fastforce
    have k: "k < length dl" "filter (wanted tmpl attr) dl = p # filter (wanted tmpl attr) (drop (Suc k) dl)"
      using find_from_Some [OF Some [unfolded pk]] by auto
    have u: "unat (of_nat k + 1 :: u16) = Suc k" "of_nat k + 1 \<noteq> (0 :: u16)"
      using next_position [of k] k(1) assms(5) by simp_all
    then have "search fuel' env hn tmpl attr (of_nat k + 1) s' = filter (wanted tmpl attr) (drop (Suc k) dl)"
      using u k(1) assms Suc by (subst search_cached [OF assms(4)]) auto
    with Suc Some pk k find_file_first [OF assms(1-4)] show ?thesis by simp
  qed
qed (use assms in simp)


section \<open>Names lead back to files\<close>

lemma stored_attrs_no_volume:
  "get_item_attrs p mode h = (Inr a, h') \<Longrightarrow> \<not> bit a 3"
  by (auto simp: get_item_attrs_def get_dos_attrs_native_def get_dos_attrs_from_extended_def sx_defs fs_defs
      fat_consts ext_mask_def bit_simps numeral_3_eq_3 split: sum.splits if_splits list.splits)

lemma dos_properties_not_volume: "dp_attrs (dos_properties_of env h p mode) \<noteq> ucast FAT_VOLUME"
proof -
  obtain r where r: "get_item_attrs p mode h = (r, h)" "r \<noteq> Inl OutOfBounds"
    using get_item_attrs_result by blast
  have v: "bit (ucast FAT_VOLUME :: u32) 3" by (simp add: FAT_VOLUME_def bit_simps)
  have "\<not> bit (dp_attrs (dos_properties_of env h p mode)) 3"
  proof (cases r)
    case (Inl e)
    with r show ?thesis
      by (simp add: dos_properties_of_def get_path_dos_properties_def sx_defs Let_def basic_properties_def
          FAT_DIRECTORY_def bit_simps)
  next
    case (Inr a)
    with r stored_attrs_no_volume [of p mode h a h] show ?thesis
      by (simp add: dos_properties_of_def get_path_dos_properties_def sx_defs Let_def FAT_DIRECTORY_def bit_simps)
  qed
  with v show ?thesis by metis
qed


lemma listed_not_volume:
  "p \<in> set (fst (listed env d h path fnames used)) \<Longrightarrow> dp_attrs p \<noteq> ucast FAT_VOLUME"
  using dos_properties_not_volume
  by (induction fnames arbitrary: used) (auto simp: Let_def case_prod_unfold split: if_splits)

text \<open>No entry of the heading is taken for a file.\<close>

lemma dot_fcb_bytes:
  assumes "nm = dot \<or> nm = dotdot"
  shows "ch_nul \<notin> set (fcb_bytes (short_name_to_fcb nm))" "ch_dot \<in> set (fcb_bytes (short_name_to_fcb nm))"
    "wf_fcb (short_name_to_fcb nm)"
proof -
  have "ch_nul \<notin> set (fcb_bytes (short_name_to_fcb dot)) \<and> ch_dot \<in> set (fcb_bytes (short_name_to_fcb dot)) \<and>
    wf_fcb (short_name_to_fcb dot)" by code_simp
  moreover have "ch_nul \<notin> set (fcb_bytes (short_name_to_fcb dotdot)) \<and>
    ch_dot \<in> set (fcb_bytes (short_name_to_fcb dotdot)) \<and> wf_fcb (short_name_to_fcb dotdot)" by code_simp
  ultimately show "ch_nul \<notin> set (fcb_bytes (short_name_to_fcb nm))" "ch_dot \<in> set (fcb_bytes (short_name_to_fcb nm))"
    "wf_fcb (short_name_to_fcb nm)" using assms by auto
qed

lemma heading_not_found:
  assumes "heading env d h path = Some es" "legal_fcb fcb" "e \<in> set es"
  shows "\<not> (dp_attrs e \<noteq> ucast FAT_VOLUME \<and> fcb_eq (dp_fcb_name e) fcb)"
proof -
  obtain e1 e2 where e: "dot_entry env d path dot h = (Inr e1, h)" "dot_entry env d path dotdot h = (Inr e2, h)"
    "dp_fcb_name e1 = short_name_to_fcb dot" "dp_fcb_name e2 = short_name_to_fcb dotdot"
    using dot_entry_total by meson
  have mem: "e \<in> {volume_properties d, e1, e2}"
    using assms(1,3) e by (auto simp: heading_def first_entries_def sx_defs split: sum.splits if_splits)
  have no: "\<not> fcb_eq (short_name_to_fcb nm) fcb" if "nm = dot \<or> nm = dotdot" for nm
  proof
    assume eq: "fcb_eq (short_name_to_fcb nm) fcb"
    have "short_name_to_fcb nm = fcb"
      using eq dot_fcb_bytes [OF that] assms(2) by (simp add: fcb_eq_iff legal_fcb_def)
    with dot_fcb_bytes(2) [OF that] assms(2) have "legal_char ch_dot" by (auto simp: legal_fcb_def)
    then show False using legal_char_facts(2) by blast
  qed
  have "dp_attrs (volume_properties d) = ucast FAT_VOLUME" by (simp add: volume_properties_def)
  moreover have "\<not> fcb_eq (dp_fcb_name e1) fcb" "\<not> fcb_eq (dp_fcb_name e2) fcb"
    using no [of dot] no [of dotdot] e(3,4) by metis+
  ultimately show ?thesis using mem by blast
qed

lemma find_name_append:
  "(\<And>e. e \<in> set es \<Longrightarrow> \<not> (dp_attrs e \<noteq> ucast FAT_VOLUME \<and> fcb_eq (dp_fcb_name e) fcb)) \<Longrightarrow>
   find_name fcb i (es @ ps) = find_name fcb (i + length es) ps"
  by (induction es arbitrary: i) auto

lemma find_name_distinct:
  assumes "distinct (map dp_fcb_name ps)" "\<forall>p \<in> set ps. legal_fcb (dp_fcb_name p) \<and> dp_attrs p \<noteq> ucast FAT_VOLUME"
    "k < length ps"
  shows "find_name (dp_fcb_name (ps ! k)) i ps = Some (i + k)"
  using assms
proof (induction ps arbitrary: i k)
  case (Cons p ps)
  show ?case
  proof (cases k)
    case 0
    with Cons.prems show ?thesis by simp
  next
    case (Suc j)
    have legal: "legal_fcb (dp_fcb_name p)" "legal_fcb (dp_fcb_name (ps ! j))"
      using Cons.prems Suc by auto
    have "ps ! j \<in> set ps" using Cons.prems(3) Suc by simp
    then have "dp_fcb_name p \<noteq> dp_fcb_name (ps ! j)" using Cons.prems(1) by auto
    moreover have "ch_nul \<notin> set (fcb_bytes (dp_fcb_name p))"
      using legal(1) legal_char_facts(1) by (auto simp: legal_fcb_def)
    ultimately have "\<not> fcb_eq (dp_fcb_name p) (dp_fcb_name (ps ! j))"
      using legal by (simp add: fcb_eq_iff legal_fcb_def)
    with Cons.prems Cons.IH [of j "Suc i"] Suc show ?thesis by simp
  qed
qed simp


section \<open>A sample listing\<close>

text \<open>The drive shares \<^verbatim>\<open>/s/d\<close>, and handle 0 is its root.\<close>

definition sample_listing :: dstate where
  "sample_listing = sample_dstate\<lparr>s_drive := sample_drive\<lparr>
     d_root := append_name sample_root (bytes_of ''d''),
     d_items := [empty_item\<lparr>i_path := append_name sample_root (bytes_of ''d'')\<rparr>]\<rparr>\<rparr>"

definition sample_listed :: dstate where
  "sample_listed = snd (create_directory_list sample_env 0 sample_listing)"

lemma sample_listing_facts:
  "fst (create_directory_list sample_env 0 sample_listing) = Inr (Some 1)"
  "directory_entries (s_host sample_listing) (i_path (d_items (s_drive sample_listing) ! unat (0 :: u16))) =
     Inr [bytes_of ''b'']"
  "unat (0 :: u16) < length (d_items (s_drive sample_listing))"
  "d_name_conversion (s_drive sample_listing) = RAM"
  "\<not> path_is_empty (i_path (d_items (s_drive sample_listing) ! unat (0 :: u16)))"
  "exists (s_host sample_listing) (append_name (i_path (d_items (s_drive sample_listing) ! unat (0 :: u16)))
     (bytes_of ''b'')) = Inr True"
  "rstrip (name_blank_padded (dp_fcb_name (i_directory_list (d_items (s_drive sample_listed) ! unat (0 :: u16)) ! 0))) \<noteq> []"
  by code_simp+

lemma sample_listed_eq: "create_directory_list sample_env 0 sample_listing = (Inr (Some 1), sample_listed)"
  using sample_listing_facts(1) by (simp add: sample_listed_def prod_eq_iff)


section \<open>Properties\<close>

text \<open>C8: With name conversion, the listing of a directory that is not empty has at most two leading
  entries (volume label, or dot entries) and then one entry for every entry of the host directory, in
  the host's order and with the host's name, until the listing has 65535 entries: the rest of a larger
  directory is cut off. In a directory of at most 9998 entries the DOS names are pairwise different and
  consist of characters that are legal in DOS names.\<close>

theorem listing_complete:
  assumes "unat hn < length (d_items (s_drive s))" "d_name_conversion (s_drive s) = RAM"
    "directory_entries (s_host s) (i_path (d_items (s_drive s) ! unat hn)) = Inr fnames" "fnames \<noteq> []"
    "create_directory_list env hn s = (Inr (Some n), s')"
  shows "\<exists>es ps. i_directory_list (d_items (s_drive s') ! unat hn) = es @ ps \<and> length es \<le> 2 \<and>
    length (es @ ps) \<le> 0xFFFF \<and> map dp_server_name ps = take (0xFFFF - length es) fnames \<and>
    (length fnames \<le> 9998 \<longrightarrow>
       distinct (map dp_fcb_name ps) \<and> (\<forall>p \<in> set ps. legal_fcb (dp_fcb_name p)))"
proof -
  let ?d = "s_drive s" and ?h = "s_host s" and ?path = "i_path (d_items (s_drive s) ! unat hn)"
  obtain es where es: "heading env ?d ?h ?path = Some es"
    "i_directory_list (d_items (s_drive s') ! unat hn) =
       es @ fst (listed env ?d ?h ?path (take (0xFFFF - length es) fnames) [])"
    using create_directory_list_eq [OF assms(1,3,5)] assms(4) by (auto simp: Let_def)
  let ?ps = "fst (listed env ?d ?h ?path (take (0xFFFF - length es) fnames) [])"
  have "map dp_server_name ?ps = take (0xFFFF - length es) fnames"
    using assms(2) by (intro listed_names) simp
  moreover have "length es \<le> 2" using heading_length [OF es(1)] .
  moreover have "distinct (map dp_fcb_name ?ps) \<and> (\<forall>p \<in> set ?ps. legal_fcb (dp_fcb_name p))"
    if "length fnames \<le> 9998"
    using listed_distinct [of ?d "[]" "take (0xFFFF - length es) fnames" env ?h ?path] assms(2) that by auto
  ultimately show ?thesis using es(2) length_listed by (intro exI [of _ es] exI [of _ ?ps]) auto
qed

text \<open>C9: A search with FIND\_FIRST and FIND\_NEXT returns exactly the entries of the listing that
  match the mask and the attributes, each once and in order, for every mask and every attribute
  value other than the pure volume label.\<close>

theorem search_finds_all:
  assumes "unat hn < length (d_items (s_drive s))" "\<not> path_is_empty (i_path (d_items (s_drive s) ! unat hn))"
    "directory_entries (s_host s) (i_path (d_items (s_drive s) ! unat hn)) = Inr fnames"
    "create_directory_list env hn s = (Inr (Some n), s')" "attr \<noteq> FAT_VOLUME" "n < fuel"
  shows "search fuel env hn tmpl attr 0 s =
    filter (\<lambda>p. match_fcb_name_to_mask tmpl (dp_fcb_name p) \<and> attr_accepted attr p)
      (i_directory_list (d_items (s_drive s') ! unat hn))"
proof -
  let ?dl = "i_directory_list (d_items (s_drive s') ! unat hn)"
  have eq: "length (d_items (s_drive s')) = length (d_items (s_drive s))"
    "i_path (d_items (s_drive s') ! unat hn) = i_path (d_items (s_drive s) ! unat hn)" "n = length ?dl"
    using create_directory_list_eq [OF assms(1,3,4)] by (auto simp: Let_def)
  have "length ?dl \<le> 0xFFFF"
    using create_directory_list_eq [OF assms(1,3,4)] heading_length length_listed
    by (fastforce simp: Let_def split: if_splits)
  moreover have "cached hn (i_directory_list (d_items (s_drive s) ! unat hn)) s" "cached hn ?dl s'"
    using assms(1,2) eq(1,2) by (simp_all add: cached_def)
  ultimately have "search fuel env hn tmpl attr 0 s = filter (wanted tmpl attr) ?dl"
    using search_complete [OF _ assms(5,4)] assms(6) eq(3) by simp
  then show ?thesis by (simp add: wanted_def [abs_def])
qed

text \<open>C21: On a share with name conversion and in a directory of at most 9998 entries, the DOS name under
  which a file is listed leads back to this file: when a client sends the displayed name (in any case),
  \<open>get_server_name\<close> gives the host name of the entry, for every entry whose base name is not blank and
  whose file still exists. The base name is blank for a name such as \<^verbatim>\<open>.git\<close>, which is not found again.\<close>

theorem listed_name_resolves:
  assumes "unat hn < length (d_items (s_drive s))" "d_name_conversion (s_drive s) = RAM"
    "directory_entries (s_host s) (i_path (d_items (s_drive s) ! unat hn)) = Inr fnames"
    "length fnames \<le> 9998" "create_directory_list env hn s = (Inr (Some n), s')"
    "k < length fnames" "exists (s_host s) (append_name (i_path (d_items (s_drive s) ! unat hn)) (fnames ! k)) = Inr True"
    "p = i_directory_list (d_items (s_drive s') ! unat hn) ! (n - length fnames + k)"
    "rstrip (name_blank_padded (dp_fcb_name p)) \<noteq> []"
  shows "dp_server_name p = fnames ! k \<and>
    get_server_name env hn (short_name_to_fcb (map ascii_to_lower (dos_display (dp_fcb_name p)))) False s' =
      (Inr (fnames ! k), s')"
proof -
  let ?d = "s_drive s" and ?h = "s_host s" and ?path = "i_path (d_items (s_drive s) ! unat hn)"
  let ?it = "d_items (s_drive s') ! unat hn"
  have ne: "fnames \<noteq> []" using assms(6) by auto
  obtain es where es: "heading env ?d ?h ?path = Some es" "length es \<le> 2"
    "i_directory_list ?it = es @ fst (listed env ?d ?h ?path (take (0xFFFF - length es) fnames) [])"
    using create_directory_list_eq [OF assms(1,3,5)] ne heading_length by (auto simp: Let_def)
  define ps where "ps = fst (listed env ?d ?h ?path fnames [])"
  have dl: "i_directory_list ?it = es @ ps" using es assms(4) by (simp add: ps_def)
  have st: "s_host s' = ?h" "i_path ?it = ?path" "n = length (es @ ps)"
    "length (d_items (s_drive s')) = length (d_items ?d)"
    using create_directory_list_eq [OF assms(1,3,5)] dl by (auto simp: Let_def)
  have ps: "map dp_server_name ps = fnames" "length ps = length fnames"
    using assms(2) by (simp_all add: ps_def listed_names length_listed)
  have dist: "distinct (map dp_fcb_name ps)" "\<forall>p \<in> set ps. legal_fcb (dp_fcb_name p) \<and> dp_attrs p \<noteq> ucast FAT_VOLUME"
    using listed_distinct [of ?d "[]" fnames env ?h ?path] listed_not_volume assms(2,4) by (auto simp: ps_def)
  have p1: "p = ps ! k" using assms(6,8) dl st(3) ps(2) by (simp add: nth_append)
  moreover have "map dp_server_name ps ! k = fnames ! k" using ps(1) by simp
  ultimately have p2: "dp_server_name p = fnames ! k" using assms(6) ps(2) by simp
  note p = p1 p2
  have fcb: "short_name_to_fcb (map ascii_to_lower (dos_display (dp_fcb_name p))) = dp_fcb_name p"
    using dist(2) p assms(6,9) ps(2) by (intro short_name_to_fcb_display) auto
  have "find_name (dp_fcb_name p) 0 (es @ ps) = Some (length es + k)"
    using find_name_append [of es "dp_fcb_name p" 0 ps] heading_not_found [OF es(1)] dist p assms(6) ps(2)
      find_name_distinct [OF dist, of k "length es"] by auto
  then show ?thesis
    using p fcb dl st ps(2) assms(6,7)
    by (auto simp: get_server_name_def sx_defs gets_drive_def on_host_def fs_defs Let_def nth_append)
qed

theorem listing_complete_witness:
  "\<exists>es ps. i_directory_list (d_items (s_drive sample_listed) ! unat (0 :: u16)) = es @ ps \<and> length es \<le> 2 \<and>
    length (es @ ps) \<le> 0xFFFF \<and> map dp_server_name ps = [bytes_of ''b''] \<and>
    distinct (map dp_fcb_name ps) \<and> (\<forall>p \<in> set ps. legal_fcb (dp_fcb_name p))"
proof -
  obtain es ps where *: "i_directory_list (d_items (s_drive sample_listed) ! unat (0 :: u16)) = es @ ps"
    "length es \<le> 2" "length (es @ ps) \<le> 0xFFFF"
    "map dp_server_name ps = take (0xFFFF - length es) [bytes_of ''b'']"
    "distinct (map dp_fcb_name ps)" "\<forall>p \<in> set ps. legal_fcb (dp_fcb_name p)"
    using listing_complete [OF sample_listing_facts(3,4,2) _ sample_listed_eq] by auto
  moreover have "0xFFFF - length es = Suc (0xFFFE - length es)" using *(2) by simp
  ultimately show ?thesis by (intro exI [of _ es] exI [of _ ps]) auto
qed

theorem search_finds_all_witness:
  "search 2 sample_env 0 (short_name_to_fcb (bytes_of ''????????.???'')) 0x16 0 sample_listing =
    filter (\<lambda>p. match_fcb_name_to_mask (short_name_to_fcb (bytes_of ''????????.???'')) (dp_fcb_name p) \<and> attr_accepted 0x16 p)
      (i_directory_list (d_items (s_drive sample_listed) ! unat (0 :: u16)))"
  by (rule search_finds_all [OF sample_listing_facts(3,5,2) sample_listed_eq])
    (simp_all add: FAT_VOLUME_def)

theorem listed_name_resolves_witness:
  "get_server_name sample_env 0 (short_name_to_fcb (map ascii_to_lower (dos_display (dp_fcb_name
      (i_directory_list (d_items (s_drive sample_listed) ! unat (0 :: u16)) ! 0))))) False sample_listed =
      (Inr (bytes_of ''b''), sample_listed)"
  using listed_name_resolves [OF sample_listing_facts(3,4,2) _ sample_listed_eq, of 0] sample_listing_facts(6,7)
  by simp

end
