(* ===== verification/Containment.thy ===== *)
theory Containment
  imports Invariants Listing Handles
begin

text \<open>
  Client paths of a share with name conversion. On a host without symbolic links every path that the
  server finds for a client path lies in the shared directory: the listing of the shared directory has
  no entry for its parent, every other step goes to an entry of a listing, and listings in the cache
  keep belonging to their path. The invariant is kept by every packet. A path that does not exist is
  held back by the check of its depth alone, which does not see through names that become \<^verbatim>\<open>..\<close> later:
  three dots, which have the DOS name of \<^verbatim>\<open>..\<close>, and two dots with a zero byte.
\<close>

section \<open>Names and locations\<close>

definition plain_name :: "byte list \<Rightarrow> bool" where
  "plain_name nm \<longleftrightarrow> nm \<noteq> [] \<and> nm \<noteq> dot \<and> nm \<noteq> dotdot \<and> ch_nul \<notin> set nm"

definition plain_loc :: "loc \<Rightarrow> bool" where
  "plain_loc l \<longleftrightarrow> list_all plain_name l"

definition no_link :: "node \<Rightarrow> bool" where
  "no_link nd \<longleftrightarrow> (case n_kind nd of Symlink _ \<Rightarrow> False | _ \<Rightarrow> True)"

definition plain_host :: "host \<Rightarrow> bool" where
  "plain_host h \<longleftrightarrow> plain_loc (h_cwd h) \<and> (\<forall>(l, nd) \<in> set (h_tree h). plain_loc l \<and> no_link nd)"

text \<open>Where a list of names leads: without links this is a matter of the names only. At the root of
  the host \<^verbatim>\<open>..\<close> stays where it is.\<close>

fun lexical :: "loc \<Rightarrow> byte list list \<Rightarrow> loc" where
  "lexical l [] = l"
| "lexical l (c # cs) =
     lexical (if c = [] \<or> c = dot then l else if c = dotdot then butlast l else l @ [c]) cs"

text \<open>Where it leads inside of a share, \<open>None\<close> when it leaves the share.\<close>

fun climb :: "loc \<Rightarrow> byte list list \<Rightarrow> loc option" where
  "climb l [] = Some l"
| "climb l (c # cs) =
     (if c = [] \<or> c = dot then climb l cs
      else if c = dotdot then (if l = [] then None else climb (butlast l) cs)
      else climb (l @ [c]) cs)"

lemma lexical_append: "lexical l (xs @ ys) = lexical (lexical l xs) ys"
  by (induction xs arbitrary: l) simp_all

lemma lexical_plain: "plain_loc xs \<Longrightarrow> lexical l xs = l @ xs"
  by (induction xs arbitrary: l) (auto simp: plain_loc_def plain_name_def)

lemma climb_append: "climb l (xs @ ys) = (case climb l xs of None \<Rightarrow> None | Some l' \<Rightarrow> climb l' ys)"
  by (induction xs arbitrary: l) auto

lemma climb_lexical: "climb l xs = Some l' \<Longrightarrow> lexical (r @ l) xs = r @ l'"
proof (induction xs arbitrary: l)
  case (Cons c cs)
  consider "c = [] \<or> c = dot" | "c = dotdot" "l \<noteq> []" | "c \<noteq> []" "c \<noteq> dot" "c \<noteq> dotdot"
    using Cons.prems by (cases "c = dotdot") (auto split: if_splits)
  then show ?case
    using Cons.prems Cons.IH [of l] Cons.IH [of "butlast l"] Cons.IH [of "l @ [c]"]
    by cases (simp_all add: butlast_append)
qed simp

lemma walk_lexical:
  assumes "\<forall>(l, nd) \<in> set t. plain_loc l \<and> no_link nd" "walk t follow n cur cs = Inr loc"
  shows "loc = lexical cur cs"
  using assms
proof (induction t follow n cur cs rule: walk.induct)
  case (2 t follow n cur c cs)
  have "no_link nd'" if "map_of t (cur @ [c]) = Some nd'" for nd'
    using map_of_SomeD [OF that] 2(6) by auto
  with 2 show ?case
    by (auto simp: no_link_def split: option.splits if_splits inode.splits)
qed simp

lemma plain_lexical:
  "plain_loc l \<Longrightarrow> \<forall>c \<in> set cs. ch_nul \<notin> set c \<Longrightarrow> plain_loc (lexical l cs)"
proof (induction cs arbitrary: l)
  case (Cons c cs)
  have "plain_loc (butlast l)" using Cons.prems(1) by (auto simp: plain_loc_def list_all_iff dest: in_set_butlastD)
  with Cons show ?case by (auto simp: plain_loc_def plain_name_def)
qed simp

lemma os_elems_no_nul: "c \<in> set (os_elems es) \<Longrightarrow> ch_nul \<notin> set c"
  by (induction es) (auto split: if_splits dest: set_takeWhileD)

lemma os_elems_id: "\<forall>c \<in> set es. ch_nul \<notin> set c \<Longrightarrow> os_elems es = es"
  by (induction es) auto

lemma resolve_lexical:
  assumes "plain_host h" "resolve follow h p = Inr loc"
  shows "loc = lexical (if p_abs p then [] else h_cwd h) (os_elems (p_elems p)) \<and> plain_loc loc"
proof -
  have "walk (h_tree h) follow 40 (if p_abs p then [] else h_cwd h) (os_elems (p_elems p)) = Inr loc"
    using assms(2) by (auto simp: resolve_def Let_def split: if_splits)
  from walk_lexical [OF _ this] assms(1)
  have "loc = lexical (if p_abs p then [] else h_cwd h) (os_elems (p_elems p))"
    by (simp add: plain_host_def)
  moreover from this have "plain_loc loc"
    using plain_lexical [of "if p_abs p then [] else h_cwd h" "os_elems (p_elems p)"] os_elems_no_nul assms(1)
    by (auto simp: plain_host_def plain_loc_def)
  ultimately show ?thesis by blast
qed

lemma access_resolve: "access op follow h p = Inr loc \<Longrightarrow> resolve follow h p = Inr loc"
  by (auto simp: access_def split: sum.splits option.splits)


section \<open>Paths inside of a share\<close>

definition canonical_root :: "path \<Rightarrow> bool" where
  "canonical_root root \<longleftrightarrow> p_abs root \<and> plain_loc (p_elems root)"

text \<open>The location of a path below the shared directory, as far as the path tells it.\<close>

definition below :: "path \<Rightarrow> path \<Rightarrow> loc option" where
  "below root p =
     (if p_abs p \<and> take (length (p_elems root)) (p_elems p) = p_elems root \<and>
         list_all (\<lambda>e. e \<noteq> [] \<and> ch_nul \<notin> set e) (p_elems p)
      then climb [] (drop (length (p_elems root)) (p_elems p)) else None)"

lemma below_root: "canonical_root root \<Longrightarrow> below root root = Some []"
  by (auto simp: below_def canonical_root_def plain_loc_def list_all_iff plain_name_def)

lemma below_append:
  assumes "below root p = Some l"
  shows "parent_path (append_name p nm) = p"
    and "nm \<noteq> [] \<Longrightarrow> ch_nul \<notin> set nm \<Longrightarrow> below root (append_name p nm) = climb l [nm]"
proof -
  have es: "p_abs p" "take (length (p_elems root)) (p_elems p) = p_elems root"
    "list_all (\<lambda>e. e \<noteq> [] \<and> ch_nul \<notin> set e) (p_elems p)"
    "climb [] (drop (length (p_elems root)) (p_elems p)) = Some l"
    using assms(1) by (auto simp: below_def split: if_splits)
  have "drop_trailing (p_elems p) = p_elems p"
    using es(3) by (auto simp: drop_trailing_def list_all_iff)
  then have eq: "append_name p nm = \<lparr>p_abs = p_abs p,
      p_elems = (if nm = [] then if p_elems p = [] then [] else p_elems p @ [[]] else p_elems p @ [nm])\<rparr>"
    by (simp add: append_name_def path_append_def name_path_def Let_def)
  then show "parent_path (append_name p nm) = p" by (simp add: parent_path_def)
  have len: "length (p_elems root) \<le> length (p_elems p)"
    using arg_cong [OF es(2), of length] by simp
  show "below root (append_name p nm) = climb l [nm]" if "nm \<noteq> []" "ch_nul \<notin> set nm"
  proof -
    have "below root (append_name p nm) = climb [] (drop (length (p_elems root)) (p_elems p) @ [nm])"
      unfolding eq using es len that by (simp add: below_def)
    then show ?thesis by (simp only: climb_append es(4)) simp
  qed
qed

lemma below_location:
  assumes "canonical_root root" "below root p = Some l" "plain_host h" "resolve follow h p = Inr loc"
  shows "loc = p_elems root @ l"
proof -
  let ?rel = "drop (length (p_elems root)) (p_elems p)"
  have p: "p_abs p" "p_elems p = p_elems root @ ?rel" "\<forall>e \<in> set (p_elems p). ch_nul \<notin> set e"
    "climb [] ?rel = Some l"
    using assms(2) by (auto simp: below_def list_all_iff split: if_splits)
      (metis append_take_drop_id)
  have "loc = lexical [] (p_elems root @ ?rel)"
    using resolve_lexical [OF assms(3,4)] p(1,2) os_elems_id [OF p(3)] by simp
  then show ?thesis
    using assms(1) climb_lexical [OF p(4), of "p_elems root"]
    by (simp add: lexical_append canonical_root_def lexical_plain)
qed


section \<open>The invariant\<close>

text \<open>No entry of a listing leads out of the share, and only the entries with the DOS names \<^verbatim>\<open>.\<close> and \<^verbatim>\<open>..\<close> do not
  lead down.\<close>

definition entry_ok :: "loc \<Rightarrow> dos_file_properties \<Rightarrow> bool" where
  "entry_ok l e \<longleftrightarrow>
     dp_server_name e = [] \<or> ch_nul \<notin> set (dp_server_name e) \<and> climb l [dp_server_name e] \<noteq> None \<and>
       (dp_server_name e \<in> {dot, dotdot} \<longrightarrow> dp_fcb_name e = short_name_to_fcb (dp_server_name e))"

definition item_ok :: "path \<Rightarrow> item \<Rightarrow> bool" where
  "item_ok root it \<longleftrightarrow>
     (path_is_empty (i_path it) \<longrightarrow> i_directory_list it = []) \<and>
     (case below root (i_path it) of None \<Rightarrow> True | Some l \<Rightarrow> list_all (entry_ok l) (i_directory_list it))"

definition share_ok :: "drive \<Rightarrow> bool" where
  "share_ok d \<longleftrightarrow> canonical_root (d_root d) \<and> wf_table (d_items d) \<and> list_all (item_ok (d_root d)) (d_items d)"

definition contained :: "dstate \<Rightarrow> bool" where
  "contained s \<longleftrightarrow> plain_host (s_host s) \<and>
     (d_used (s_drive s) \<and> d_name_conversion (s_drive s) = RAM \<longrightarrow> share_ok (s_drive s))"

definition pruned :: "item \<Rightarrow> item \<Rightarrow> bool" where
  "pruned a b \<longleftrightarrow> i_path b = i_path a \<and> set (i_directory_list b) \<subseteq> set (i_directory_list a)"

lemma pruned_refl [simp]: "pruned a a"
  by (simp add: pruned_def)

lemma pruned_trans: "pruned a b \<Longrightarrow> pruned b c \<Longrightarrow> pruned a c"
  by (auto simp: pruned_def)

lemma pruned_update: "pruned (xs ! k) y \<Longrightarrow> list_all2 pruned xs (xs[k := y])"
  by (metis length_list_update list_all2_all_nthI nth_list_update_eq nth_list_update_neq pruned_refl)

lemma item_ok_pruned: "item_ok root a \<Longrightarrow> pruned a b \<Longrightarrow> item_ok root b"
  by (auto simp: item_ok_def pruned_def list_all_iff split: option.splits)

lemma item_ok_empty_list: "i_directory_list it = [] \<Longrightarrow> item_ok root it"
  by (simp add: item_ok_def split: option.split)

lemma share_ok_update:
  assumes "share_ok d" "pruned (d_items d ! n) it \<or> i_path it = i_path (d_items d ! n) \<and> item_ok (d_root d) it"
  shows "share_ok (d\<lparr>d_items := (d_items d)[n := it]\<rparr>)"
proof (cases "n < length (d_items d)")
  case True
  have "item_ok (d_root d) (d_items d ! n)" using assms(1) True by (simp add: share_ok_def list_all_iff)
  then have "item_ok (d_root d) it" using assms(2) item_ok_pruned by blast
  moreover have "i_path ((d_items d)[n := it] ! k) = i_path (d_items d ! k)" if "k < length (d_items d)" for k
    using assms(2) that True by (auto simp: nth_list_update pruned_def)
  ultimately show ?thesis
    using assms(1) by (auto simp: share_ok_def wf_table_def list_all_iff dest!: set_update_subset_insert [THEN subsetD])
next
  case False
  then have "(d_items d)[n := it] = d_items d" by (simp add: list_update_beyond)
  then show ?thesis using assms(1) by (simp add: share_ok_def)
qed

lemma get_handle_loop_pruned:
  assumes "get_handle_loop p now k ff old items = (r, items')"
  shows "list_all2 pruned items items'"
  using assms
proof (induction "length items - k" arbitrary: k ff old items)
  case 0
  then show ?case using get_handle_loop_end [of items k p now ff old] by (simp add: list_all2_refl)
next
  case (Suc m)
  then have k: "k < length items" by simp
  show ?case
  proof (cases "i_path (items ! k) = p")
    case True
    with Suc.prems k show ?thesis
      by (auto simp: get_handle_loop_found intro!: pruned_update) (simp add: pruned_def)
  next
    case False
    let ?items = "items[k := aged now (items ! k)]"
    have "m = length ?items - Suc k" using Suc.hyps(2) by simp
    moreover obtain ff' old' where "get_handle_loop p now (Suc k) ff' old' ?items = (r, items')"
      using Suc.prems get_handle_loop_step [OF k False] by (auto split: prod.splits)
    ultimately have "list_all2 pruned ?items items'" using Suc.hyps(1) by blast
    moreover have "list_all2 pruned items ?items"
      by (intro pruned_update) (simp add: pruned_def aged_def)
    ultimately show ?thesis using list_all2_trans [of pruned pruned pruned items ?items items'] pruned_trans
      by metis
  qed
qed

lemma contained_set_items:
  assumes "contained s"
    "d_used (s_drive s) \<Longrightarrow> d_name_conversion (s_drive s) = RAM \<Longrightarrow> share_ok (s_drive s) \<Longrightarrow>
       share_ok ((s_drive s)\<lparr>d_items := items\<rparr>)"
  shows "contained (set_items items s)"
  using assms by (simp add: contained_def set_items_def)

lemma list_all_update: "list_all Q xs \<Longrightarrow> (k < length xs \<Longrightarrow> Q y) \<Longrightarrow> list_all Q (xs[k := y])"
  by (cases "k < length xs")
    (auto simp: list_all_iff list_update_beyond dest!: set_update_subset_insert [THEN subsetD])

lemma get_handle_items_ok:
  assumes "list_all (item_ok root) (d_items (s_drive s))" "get_handle p s = (r, s')"
  shows "list_all (item_ok root) (d_items (s_drive s'))"
proof -
  let ?items = "d_items (s_drive s)" and ?now = "h_clock (s_host s)"
  obtain q items1 where loop: "get_handle_loop p ?now 0 (length ?items) 0 ?items = (q, items1)" by fastforce
  have "list_all2 pruned ?items items1" using get_handle_loop_pruned [OF loop] .
  then have ok: "list_all (item_ok root) items1" and len: "length items1 = length ?items"
    using assms(1) item_ok_pruned by (fastforce simp: list_all_iff list_all2_conv_all_nth in_set_conv_nth)+
  show ?thesis
  proof (cases q)
    case (Inr h)
    then show ?thesis using assms(2) loop ok by (auto simp: get_handle_def set_items_def)
  next
    case (Inl ab)
    then obtain ff old where q: "q = Inl (ff, old)" by (cases ab) auto
    have "ff = length items1 \<or> ff < length items1 \<and> path_is_empty (i_path (items1 ! ff))"
      using get_handle_loop_spec(1) [OF _ _ loop] get_handle_loop_spec(3) [OF _ _ loop q] len
      by (auto simp: search_failed_def) (metis nth_map)+
    then have free: "ff = length items1 \<or> i_directory_list (items1 ! ff) = []"
      using ok by (auto simp: list_all_iff item_ok_def)
    have new: "list_all (item_ok root) ((items1 @ [empty_item])
        [length items1 := empty_item\<lparr>i_path := p, i_last_used_time := ?now\<rparr>])"
      using ok by (auto intro!: list_all_update item_ok_empty_list simp: empty_item_def)
    have "i_directory_list (items1[old := (items1 ! old)\<lparr>i_path := empty_path, i_directory_list := []\<rparr>] ! old) = []"
      if "old < length items1" using that by simp
    then show ?thesis
      using assms(2) loop q ok free new
      by (cases "ff = length items1"; cases "ff < MAX_HANDLE_COUNT")
        (auto simp: get_handle_def set_items_def intro!: list_all_update item_ok_empty_list)
  qed
qed

lemma share_ok_get_handle:
  assumes "share_ok (s_drive s)"
  obtains h items' where "get_handle p s = (Inr h, set_items items' s)" "unat h < length items'"
    "i_path (items' ! unat h) = p" "share_ok ((s_drive s)\<lparr>d_items := items'\<rparr>)"
proof -
  have wf: "wf_table (d_items (s_drive s))" and ok: "list_all (item_ok (d_root (s_drive s))) (d_items (s_drive s))"
    using assms by (simp_all add: share_ok_def)
  then obtain i items' where g: "get_handle p s = (Inr (of_nat i), set_items items' s)"
    and out: "handed_out p (h_clock (s_host s)) i (d_items (s_drive s)) items'"
    using get_handle_spec [of s p] by (metis wf_table_def)
  have i: "unat (of_nat i :: u16) = i" using out unat_of_handle by (simp add: handed_out_def)
  have "share_ok ((s_drive s)\<lparr>d_items := items'\<rparr>)"
    using get_handle_items_ok [OF ok g] handed_out_wf [OF wf out] assms by (simp add: share_ok_def)
  with g out i show ?thesis by (intro that [of "of_nat i" items']) (simp_all add: handed_out_def)
qed

lemma get_handle_set_items: "\<exists>items. snd (get_handle p s) = set_items items s"
  by (auto simp: get_handle_def Let_def split: prod.split sum.split)

lemma contained_get_handle: "keeps contained (get_handle p)"
  unfolding keeps_def
proof (intro allI impI)
  fix s assume s: "contained s"
  obtain items where g: "snd (get_handle p s) = set_items items s" using get_handle_set_items by blast
  have "share_ok ((s_drive s)\<lparr>d_items := items\<rparr>)" if "share_ok (s_drive s)"
    using share_ok_get_handle [OF that, of p] g by (metis items_set_items(1) snd_conv)
  then show "contained (snd (get_handle p s))"
    unfolding g using contained_set_items [OF s] by simp
qed

lemma contained_update_item:
  assumes "contained s" "pruned (d_items (s_drive s) ! unat n) (f (d_items (s_drive s) ! unat n))"
  shows "contained (snd (update_item n f s))"
  using assms contained_set_items share_ok_update by (simp add: update_item_def Let_def)

lemma contained_touch: "keeps contained (update_last_used_timestamp n)"
  using contained_update_item by (simp add: keeps_def update_last_used_timestamp_def pruned_def)


section \<open>Listings stay inside\<close>

lemma plain_children: "plain_host h \<Longrightarrow> nm \<in> set (children (h_tree h) loc) \<Longrightarrow> plain_name nm"
  by (force simp: plain_host_def plain_loc_def children_def list_all_iff)

lemma directory_entries_plain:
  "plain_host h \<Longrightarrow> directory_entries h p = Inr fnames \<Longrightarrow> nm \<in> set fnames \<Longrightarrow> plain_name nm"
  using plain_children by (auto simp: directory_entries_def split: sum.splits if_splits)

lemma climb_plain: "plain_name nm \<Longrightarrow> climb l [nm] = Some (l @ [nm])"
  by (auto simp: plain_name_def)

lemma heading_ok:
  assumes "plain_host h" "canonical_root (d_root d)" "below (d_root d) path = Some l"
    "d_name_conversion d = RAM" "heading env d h path = Some es"
  shows "list_all (entry_ok l) es"
proof -
  obtain e1 e2 where e: "dot_entry env d path dot h = (Inr e1, h)" "dot_entry env d path dotdot h = (Inr e2, h)"
    "dp_server_name e1 = dot" "dp_server_name e2 = dotdot"
    "dp_fcb_name e1 = short_name_to_fcb dot" "dp_fcb_name e2 = short_name_to_fcb dotdot"
    using dot_entry_total assms(4) by (metis file_name_conversion.distinct(1))
  obtain b where b: "equivalent h path (d_root d) = Inr b"
    using assms(5) by (auto simp: heading_def first_entries_def sx_defs split: sum.splits)
  then obtain l1 n1 l2 n2 where acc: "access_node SysStat True h path = Inr (l1, n1)"
      "access_node SysStat True h (d_root d) = Inr (l2, n2)" "b = (l1 = l2)"
    by (auto simp: equivalent_def split: sum.splits)
  have "l1 = p_elems (d_root d) @ l" "l2 = p_elems (d_root d) @ []"
    using acc(1,2) access_node_access access_resolve below_location [OF assms(2) _ assms(1)] assms(3)
      below_root [OF assms(2)] by metis+
  then have "b \<longleftrightarrow> l = []" using acc(3) by simp
  then show ?thesis
    using assms(5) b e
    by (auto simp: heading_def first_entries_def sx_defs entry_ok_def volume_properties_def split: if_splits)
qed

lemma listing_entries_ok:
  assumes "plain_host h" "canonical_root (d_root d)" "below (d_root d) path = Some l"
    "d_name_conversion d = RAM" "heading env d h path = Some es" "directory_entries h path = Inr fnames"
  shows "list_all (entry_ok l) (es @ fst (listed env d h path (take n fnames) []))"
proof -
  have "dp_server_name e \<in> set fnames" if "e \<in> set (fst (listed env d h path (take n fnames) []))" for e
  proof -
    have "dp_server_name e \<in> set (map dp_server_name (fst (listed env d h path (take n fnames) [])))"
      using that by simp
    moreover have "d_name_conversion d \<noteq> OFF" using assms(4) by simp
    ultimately have "dp_server_name e \<in> set (take n fnames)" by (metis listed_names)
    then show ?thesis by (rule in_set_takeD)
  qed
  then have "entry_ok l e" if "e \<in> set (fst (listed env d h path (take n fnames) []))" for e
    using that directory_entries_plain [OF assms(1,6)] climb_plain by (auto simp: entry_ok_def plain_name_def)
  then show ?thesis using heading_ok [OF assms(1-5)] by (auto simp: list_all_iff)
qed

text \<open>What a new listing does to the state.\<close>

lemma create_directory_list_state:
  fixes s n
  defines "it \<equiv> d_items (s_drive s) ! unat n"
  obtains dl names t where "snd (create_directory_list env n s) =
      set_items ((d_items (s_drive s))[unat n := it\<lparr>i_directory_list := dl, i_fcb_names := names, i_last_used_time := t\<rparr>]) s"
    "dl = [] \<or> (\<exists>fnames es. directory_entries (s_host s) (i_path it) = Inr fnames \<and>
       heading env (s_drive s) (s_host s) (i_path it) = Some es \<and>
       dl = es @ fst (listed env (s_drive s) (s_host s) (i_path it) (take (0xFFFF - length es) fnames) []))"
proof (cases "\<exists>f fs. directory_entries (s_host s) (i_path it) = Inr (f # fs)")
  case False
  have "\<exists>names t. snd (create_directory_list env n s) =
    set_items ((d_items (s_drive s))[unat n := it\<lparr>i_directory_list := [], i_fcb_names := names, i_last_used_time := t\<rparr>]) s"
  proof (cases "directory_entries (s_host s) (i_path it)")
    case (Inl e)
    then show ?thesis
      by (auto simp: it_def create_directory_list_def sx_defs fs_defs on_host_def gets_drive_def update_item_def
          set_items_def Let_def intro!: exI [of _ "[]"] exI [of _ "i_last_used_time it"])
  next
    case (Inr fnames)
    with False have "fnames = []" by (cases fnames) auto
    with Inr show ?thesis
      by (cases "unat n < length (d_items (s_drive s))")
        (auto simp: it_def create_directory_list_def sx_defs fs_defs on_host_def gets_drive_def update_item_def
          update_last_used_timestamp_def set_items_def Let_def list_update_beyond)
  qed
  then show ?thesis using that by metis
next
  case True
  then obtain f fs where de: "directory_entries (s_host s) (i_path it) = Inr (f # fs)" by blast
  note eq = directory_list_loop_eq [of env "s_drive s" "i_path it" f fs "s_host s"]
  show ?thesis
  proof (cases "heading env (s_drive s) (s_host s) (i_path it)")
    case None
    then have "snd (create_directory_list env n s) = set_items ((d_items (s_drive s))
        [unat n := it\<lparr>i_directory_list := [], i_fcb_names := [], i_last_used_time := i_last_used_time it\<rparr>]) s"
      using de eq by (simp add: it_def create_directory_list_def sx_defs fs_defs on_host_def gets_drive_def
          update_item_def set_items_def Let_def del: directory_list_loop.simps)
    then show ?thesis using that by metis
  next
    case (Some es)
    let ?l = "listed env (s_drive s) (s_host s) (i_path it) (take (0xFFFF - length es) (f # fs)) []"
    have "snd (create_directory_list env n s) = set_items ((d_items (s_drive s))
        [unat n := it\<lparr>i_directory_list := es @ fst ?l, i_fcb_names := snd ?l, i_last_used_time := h_clock (s_host s)\<rparr>]) s"
      using Some de eq
      by (cases "unat n < length (d_items (s_drive s))")
        (simp_all add: it_def create_directory_list_def sx_defs fs_defs on_host_def gets_drive_def
          update_item_def update_last_used_timestamp_def set_items_def Let_def case_prod_unfold list_update_beyond
          del: directory_list_loop.simps)
    then show ?thesis using that [where dl = "es @ fst ?l"] Some de by metis
  qed
qed

lemma empty_path_not_listed: "path_is_empty p \<Longrightarrow> directory_entries h p = Inr fnames \<Longrightarrow> False"
  by (auto simp: path_is_empty_def directory_entries_def access_node_def access_def resolve_def)

lemma contained_listing: "keeps contained (create_directory_list env n)"
  unfolding keeps_def
proof (intro allI impI)
  fix s assume s: "contained s"
  let ?it = "d_items (s_drive s) ! unat n" and ?root = "d_root (s_drive s)"
  obtain dl names t where st: "snd (create_directory_list env n s) =
      set_items ((d_items (s_drive s))[unat n := ?it\<lparr>i_directory_list := dl, i_fcb_names := names, i_last_used_time := t\<rparr>]) s"
    and dl: "dl = [] \<or> (\<exists>fnames es. directory_entries (s_host s) (i_path ?it) = Inr fnames \<and>
       heading env (s_drive s) (s_host s) (i_path ?it) = Some es \<and>
       dl = es @ fst (listed env (s_drive s) (s_host s) (i_path ?it) (take (0xFFFF - length es) fnames) []))"
    by (rule create_directory_list_state)
  have "item_ok ?root (?it\<lparr>i_directory_list := dl, i_fcb_names := names, i_last_used_time := t\<rparr>)"
    if "share_ok (s_drive s)" "d_name_conversion (s_drive s) = RAM"
  proof -
    have "list_all (entry_ok l) dl" if "below ?root (i_path ?it) = Some l" for l
      using dl listing_entries_ok [OF _ _ that] s \<open>share_ok (s_drive s)\<close> \<open>d_name_conversion (s_drive s) = RAM\<close>
      by (auto simp: contained_def share_ok_def)
    moreover have "dl = []" if "path_is_empty (i_path ?it)"
      using dl empty_path_not_listed [OF that] by blast
    ultimately show ?thesis by (simp add: item_ok_def split: option.split)
  qed
  then show "contained (snd (create_directory_list env n s))"
    unfolding st by (intro contained_set_items s share_ok_update disjI2) auto
qed

text \<open>A look-up of a name: the listing may be renewed first, a stale entry is dropped, and a name that
  is returned stands in the listing.\<close>

definition drop_entry :: "nat \<Rightarrow> fcb_file_name \<Rightarrow> u16 \<Rightarrow> dstate \<Rightarrow> dstate" where
  "drop_entry i fcb n s =
     (let dl = i_directory_list (d_items (s_drive s) ! unat n)
      in snd (update_item n (\<lambda>it. it\<lparr>i_directory_list := take i dl @ drop (Suc i) dl,
           i_fcb_names := filter (\<lambda>n. \<not> fcb_eq n fcb) (i_fcb_names it)\<rparr>) s))"

lemma find_name_bound: "find_name fcb i ps = Some k \<Longrightarrow> i \<le> k \<and> k < i + length ps \<and> fcb_eq (dp_fcb_name (ps ! (k - i))) fcb"
proof (induction ps arbitrary: i)
  case (Cons p ps)
  show ?case
  proof (cases "find_name fcb (Suc i) ps = Some k")
    case True
    then have "Suc i \<le> k" "k - i = Suc (k - Suc i)" using Cons.IH [OF True] by auto
    then show ?thesis using Cons.IH [OF True] by simp
  qed (use Cons.prems in \<open>auto split: if_splits\<close>)
qed simp

definition named :: "fcb_file_name \<Rightarrow> byte list \<Rightarrow> dos_file_properties list \<Rightarrow> bool" where
  "named fcb nm es \<longleftrightarrow> list_ex (\<lambda>e. dp_server_name e = nm \<and> fcb_eq (dp_fcb_name e) fcb) es"

lemma get_server_name_cases:
  assumes "get_server_name env n fcb c s = (r, s')"
  obtains s1 where "s1 = s \<or> s1 = snd (create_directory_list env n s)"
    "s' = s1 \<or> (\<exists>i. s' = drop_entry i fcb n s1)"
    "\<forall>nm. r = Inr nm \<longrightarrow> nm = [] \<or> named fcb nm (i_directory_list (d_items (s_drive s1) ! unat n))"
proof -
  let ?renew = "c \<or> i_directory_list (d_items (s_drive s) ! unat n) = []"
  define s1 where "s1 = (if ?renew then snd (create_directory_list env n s) else s)"
  let ?dl = "i_directory_list (d_items (s_drive s1) ! unat n)"
  have "(s' = s1 \<or> (\<exists>i. s' = drop_entry i fcb n s1)) \<and> (\<forall>nm. r = Inr nm \<longrightarrow> nm = [] \<or> named fcb nm ?dl)"
  proof (cases "find_name fcb 0 ?dl")
    case None
    with assms show ?thesis
      by (auto simp: get_server_name_def sx_defs gets_drive_def s1_def Let_def split: if_splits prod.splits sum.splits)
  next
    case (Some i)
    then have "named fcb (dp_server_name (?dl ! i)) ?dl"
      using find_name_bound [OF Some] nth_mem [of i ?dl] by (auto simp: named_def list_ex_iff)
    with Some assms show ?thesis
      by (auto simp: get_server_name_def sx_defs gets_drive_def s1_def Let_def on_host_def fs_defs drop_entry_def
          update_item_def split: if_splits prod.splits sum.splits)
  qed
  then show ?thesis using that [of s1] by (auto simp: s1_def)
qed

lemma contained_drop_entry: "contained s \<Longrightarrow> contained (drop_entry i fcb n s)"
  unfolding drop_entry_def Let_def
  by (intro contained_update_item) (auto simp: pruned_def dest: in_set_takeD in_set_dropD)

lemma contained_server_name: "keeps contained (get_server_name env n fcb c)"
  unfolding keeps_def
proof (intro allI impI)
  fix s assume s: "contained s"
  obtain r s' where g: "get_server_name env n fcb c s = (r, s')" by fastforce
  then obtain s1 where "s1 = s \<or> s1 = snd (create_directory_list env n s)"
    "s' = s1 \<or> (\<exists>i. s' = drop_entry i fcb n s1)" using get_server_name_cases by metis
  then show "contained (snd (get_server_name env n fcb c s))"
    using g keepsD [OF contained_listing s] s contained_drop_entry by auto
qed


section \<open>Every packet keeps the invariant\<close>

lemma plain_host_put:
  assumes "plain_host h" "plain_loc loc" "no_link nd"
  shows "plain_host (set_node loc nd h)"
  using assms by (auto simp: plain_host_def set_node_def tree_put_def)

lemma plain_host_write:
  assumes "host_write h h'" "plain_host h"
  shows "plain_host h'"
  using assms
proof cases
  case (host_put op follow p loc nd)
  have "plain_loc loc" using resolve_lexical [OF assms(2) access_resolve [OF host_put(2)]] by blast
  moreover have "no_link nd"
    using host_put(3) assms(2) map_of_SomeD
    by (fastforce simp: plain_host_def no_link_def split: inode.splits)
  ultimately show ?thesis using plain_host_put [OF assms(2)] host_put(1) by blast
next
  case (host_del loc)
  then show ?thesis using assms(2) by (auto simp: plain_host_def tree_del_def)
next
  case (host_move op1 f1 p1 l1 op2 f2 p2 l2)
  have "plain_loc l2" using resolve_lexical [OF assms(2) access_resolve [OF host_move(3)]] by blast
  then show ?thesis using assms(2) host_move(1)
    by (fastforce simp: plain_host_def tree_move_def tree_del_def plain_loc_def list_all_iff dest: in_set_dropD)
qed

lemma plain_host_chdir:
  "plain_host h \<Longrightarrow> access op follow h p = Inr loc \<Longrightarrow> plain_host (h\<lparr>h_cwd := loc\<rparr>)"
  using resolve_lexical [of h follow p loc] access_resolve [of op follow h p loc]
  by (cases "plain_loc loc") (simp_all add: plain_host_def)

interpretation containment: server_invariant contained
proof
  show "contained (s\<lparr>s_host := h'\<rparr>)" if "contained s" "host_step (s_host s) h'" for s h'
    using that(2) by cases (use that(1) plain_host_write plain_host_chdir in \<open>auto simp: contained_def\<close>)
  then show "contained (s\<lparr>s_host := h'\<rparr>)" if "contained s" "host_write (s_host s) h'" for s h'
    using that step_write by blast
  show "contained (s\<lparr>s_host := (s_host s)\<lparr>h_cwd := loc\<rparr>\<rparr>)"
    if "contained s" "access op follow (s_host s) p = Inr loc" for s op follow p loc
    using that plain_host_chdir by (auto simp: contained_def)
qed (intro contained_get_handle contained_touch contained_listing contained_server_name)+


section \<open>Client paths\<close>

text \<open>A drive with name conversion that is in use.\<close>

definition converting :: "path \<Rightarrow> dstate \<Rightarrow> bool" where
  "converting root s \<longleftrightarrow> contained s \<and> d_used (s_drive s) \<and> d_name_conversion (s_drive s) = RAM \<and>
     d_root (s_drive s) = root"

lemma converting_share_ok: "converting root s \<Longrightarrow> share_ok (s_drive s)"
  by (simp add: converting_def contained_def)

lemma converting_get_handle:
  assumes "converting root s" "get_handle p s = (r, s')"
  obtains h where "r = Inr h" "unat h < length (d_items (s_drive s'))"
    "i_path (d_items (s_drive s') ! unat h) = p" "converting root s'"
proof -
  obtain h items' where g: "get_handle p s = (Inr h, set_items items' s)" "unat h < length items'"
    "i_path (items' ! unat h) = p"
    using share_ok_get_handle [OF converting_share_ok [OF assms(1)]] by blast
  moreover have "contained s'" using keepsD [OF contained_get_handle, of s p] assms by (simp add: converting_def)
  ultimately show ?thesis
    using assms that by (auto simp: converting_def set_items_def)
qed

lemma converting_listing:
  assumes "converting root s" "unat h < length (d_items (s_drive s))" "s' = snd (create_directory_list env h s)"
  shows "converting root s' \<and> unat h < length (d_items (s_drive s')) \<and>
    i_path (d_items (s_drive s') ! unat h) = i_path (d_items (s_drive s) ! unat h)"
proof -
  have "contained s'" using keepsD [OF contained_listing, of s env h] assms by (simp add: converting_def)
  moreover obtain dl names t where "s' = set_items ((d_items (s_drive s))[unat h := (d_items (s_drive s) ! unat h)
      \<lparr>i_directory_list := dl, i_fcb_names := names, i_last_used_time := t\<rparr>]) s"
    unfolding assms(3) by (rule create_directory_list_state)
  ultimately show ?thesis using assms(1,2) by (auto simp: converting_def set_items_def)
qed

text \<open>A component of a client path without a zero byte that has the DOS name \<^verbatim>\<open>.\<close> or \<^verbatim>\<open>..\<close> only when it is \<^verbatim>\<open>.\<close> or
  \<^verbatim>\<open>..\<close> itself. Three dots are not honest.\<close>

definition honest_part :: "byte list \<Rightarrow> bool" where
  "honest_part part \<longleftrightarrow> ch_nul \<notin> set part \<and>
     (short_name_to_fcb part = short_name_to_fcb dot \<longrightarrow> part = dot) \<and>
     (short_name_to_fcb part = short_name_to_fcb dotdot \<longrightarrow> part = dotdot)"

lemma dot_fcb_eq: "nm \<in> {dot, dotdot} \<Longrightarrow> fcb_eq (short_name_to_fcb nm) (short_name_to_fcb part) \<Longrightarrow>
    short_name_to_fcb part = short_name_to_fcb nm"
  using dot_fcb_bytes [of nm] by (auto simp: fcb_eq_iff)

lemma converting_server_name:
  assumes "converting root s" "unat h < length (d_items (s_drive s))"
    "below root (i_path (d_items (s_drive s) ! unat h)) = Some l"
    "get_server_name env h (short_name_to_fcb part) c s = (r, s')"
  shows "converting root s' \<and>
    (\<forall>nm. r = Inr nm \<longrightarrow> nm = [] \<or> ch_nul \<notin> set nm \<and> climb l [nm] \<noteq> None \<and>
       (honest_part part \<and> nm \<in> {dot, dotdot} \<longrightarrow> part = nm))"
proof -
  obtain s1 where s1: "s1 = s \<or> s1 = snd (create_directory_list env h s)"
    "s' = s1 \<or> (\<exists>i. s' = drop_entry i (short_name_to_fcb part) h s1)"
    "\<forall>nm. r = Inr nm \<longrightarrow> nm = [] \<or> named (short_name_to_fcb part) nm (i_directory_list (d_items (s_drive s1) ! unat h))"
    by (rule get_server_name_cases [OF assms(4)])
  have c1: "converting root s1" "unat h < length (d_items (s_drive s1))"
    "below root (i_path (d_items (s_drive s1) ! unat h)) = Some l"
    using s1(1) converting_listing [OF assms(1,2) refl, of env] assms(1,2,3) by auto
  then have "item_ok root (d_items (s_drive s1) ! unat h)"
    using converting_share_ok [OF c1(1)] by (simp add: share_ok_def list_all_iff converting_def)
  then have ok: "entry_ok l e" if "e \<in> set (i_directory_list (d_items (s_drive s1) ! unat h))" for e
    using that c1(3) by (simp add: item_ok_def list_all_iff)
  have "nm = [] \<or> ch_nul \<notin> set nm \<and> climb l [nm] \<noteq> None \<and> (honest_part part \<and> nm \<in> {dot, dotdot} \<longrightarrow> part = nm)"
    if r: "r = Inr nm" for nm
  proof (cases "nm = []")
    case False
    then obtain e where e: "dp_server_name e = nm" "fcb_eq (dp_fcb_name e) (short_name_to_fcb part)" "entry_ok l e"
      using s1(3) r ok unfolding named_def list_ex_iff by blast
    then show ?thesis using False dot_fcb_eq [of nm part] by (auto simp: entry_ok_def honest_part_def)
  qed simp
  moreover have "converting root s'"
    using s1(2) c1(1) contained_drop_entry
    by (auto simp: converting_def drop_entry_def update_item_def set_items_def Let_def)
  ultimately show ?thesis by blast
qed

text \<open>A component leads to a location at least as deep as the check of the depth counts.\<close>

lemma climb_depth:
  assumes "climb l [nm] = Some l'" "path_depth d (part # parts) \<noteq> None" "d \<le> length l" "nm \<noteq> []"
    "nm \<in> {dot, dotdot} \<longrightarrow> part = nm"
  obtains d' where "path_depth d' parts \<noteq> None" "d' \<le> length l'"
proof -
  define d' where "d' = (if part = [] \<or> part = dot \<or> part = [ch_slash] then d else if part = dotdot then d - 1 else Suc d)"
  have "path_depth d' parts \<noteq> None" using assms(2) by (auto simp: d'_def split: if_splits)
  moreover have "d' \<le> length l'"
    using assms(1,3,4,5) by (auto simp: d'_def split: if_splits)
  ultimately show ?thesis by (rule that)
qed

text \<open>The path itself and, with an empty last component, its directory.\<close>

definition inside :: "path \<Rightarrow> path \<Rightarrow> bool" where
  "inside root q \<longleftrightarrow> below root q \<noteq> None \<or> (\<exists>p. q = append_name p [] \<and> below root p \<noteq> None)"

lemma inside_location:
  assumes "canonical_root root" "inside root q" "plain_host h" "resolve follow h q = Inr loc"
  shows "\<exists>l. loc = p_elems root @ l"
proof (cases "below root q")
  case None
  then obtain p l where p: "q = append_name p []" "below root p = Some l" using assms(2) by (auto simp: inside_def)
  have es: "p_abs p" "list_all (\<lambda>e. e \<noteq> [] \<and> ch_nul \<notin> set e) (p_elems p)"
    using p(2) by (auto simp: below_def split: if_splits)
  then have "drop_trailing (p_elems p) = p_elems p" by (auto simp: drop_trailing_def list_all_iff)
  then have q: "p_abs q" "p_elems q = p_elems p \<or> p_elems q = p_elems p @ [[]]"
    using es(1) by (auto simp: p(1) append_name_def path_append_def name_path_def Let_def)
  have "p_elems p = p_elems root @ drop (length (p_elems root)) (p_elems p)"
    "climb [] (drop (length (p_elems root)) (p_elems p)) = Some l"
    using p(2) by (auto simp: below_def split: if_splits) (metis append_take_drop_id)
  then have "lexical [] (p_elems p) = p_elems root @ l"
    using assms(1) climb_lexical [of "[]" "drop (length (p_elems root)) (p_elems p)" l "p_elems root"]
    by (metis append_Nil append_Nil2 canonical_root_def lexical_append lexical_plain)
  moreover have "os_elems (p_elems q) = p_elems q" using q(2) es(2) by (intro os_elems_id) (auto simp: list_all_iff)
  ultimately have "loc = p_elems root @ l"
    using resolve_lexical [OF assms(3,4)] q by (auto simp: lexical_append)
  then show ?thesis by blast
next
  case (Some l)
  then show ?thesis using below_location [OF assms(1) Some assms(3,4)] by blast
qed

lemma server_path_inside:
  assumes "converting root s" "below root p = Some l" "server_path_loop env c p parts s = (Inr (q, ex), s')"
    "ex \<or> list_all honest_part parts \<and> path_depth d parts \<noteq> None \<and> d \<le> length l"
  shows "inside root q"
  using assms
proof (induction parts arbitrary: p l s d)
  case Nil
  then show ?case by (auto simp: sx_defs inside_def)
next
  case (Cons part parts)
  obtain r s1 where g: "get_handle p s = (r, s1)" by fastforce
  obtain h where h: "r = Inr h" "unat h < length (d_items (s_drive s1))"
    "i_path (d_items (s_drive s1) ! unat h) = p" "converting root s1"
    using converting_get_handle [OF Cons.prems(1) g] .
  obtain r2 s2 where n: "get_server_name env h (short_name_to_fcb part) c s1 = (r2, s2)" by fastforce
  have s2: "converting root s2" "\<And>nm. r2 = Inr nm \<Longrightarrow> nm = [] \<or> ch_nul \<notin> set nm \<and> climb l [nm] \<noteq> None \<and>
      (honest_part part \<and> nm \<in> {dot, dotdot} \<longrightarrow> part = nm)"
    using converting_server_name [OF h(4,2) _ n] Cons.prems(2) h(3) by auto
  obtain nm where nm: "r2 = Inr nm"
    using Cons.prems(3) g h(1) n by (cases r2) (auto simp: sx_defs)
  show ?case
  proof (cases "nm = []")
    case True
    then have q: "q = append_name p part" "\<not> ex" "parts = []"
      using Cons.prems(3) g h(1) n nm by (auto simp: sx_defs split: if_splits)
    then have part: "ch_nul \<notin> set part" "part = dotdot \<longrightarrow> l \<noteq> []"
      using Cons.prems(4) by (auto simp: honest_part_def split: if_splits)
    show ?thesis
    proof (cases "part = []")
      case True
      then show ?thesis using q(1) Cons.prems(2) by (auto simp: inside_def)
    next
      case False
      then show ?thesis
        using below_append(2) [OF Cons.prems(2) False part(1)] part(2) q(1) by (auto simp: inside_def split: if_splits)
    qed
  next
    case False
    then obtain l' where l': "climb l [nm] = Some l'" "below root (append_name p nm) = Some l'"
      using s2(2) [OF nm] below_append(2) [OF Cons.prems(2)] by fastforce
    show ?thesis
    proof (cases "parts = []")
      case True
      with Cons.prems(3) g h(1) n nm False l'(2) show ?thesis by (auto simp: sx_defs Let_def inside_def)
    next
      case ne: False
      then have loop: "server_path_loop env c (append_name p nm) parts s2 = (Inr (q, ex), s')"
        using Cons.prems(3) g h(1) n nm False by (simp add: sx_defs Let_def)
      show ?thesis
      proof (cases ex)
        case True
        then show ?thesis using Cons.IH [OF s2(1) l'(2) loop] by blast
      next
        case nex: False
        then obtain d' where "path_depth d' parts \<noteq> None" "d' \<le> length l'"
          using climb_depth [OF l'(1), of d part parts] Cons.prems(4) False s2(2) [OF nm] by auto
        then show ?thesis using Cons.IH [OF s2(1) l'(2) loop, of d'] Cons.prems(4) by auto
      qed
    qed
  qed
qed

lemma create_server_path_inside:
  assumes "converting root s" "create_server_path env cp c s = (Inr (q, ex), s')" "ex \<or> list_all honest_part (path_parts cp)"
  shows "inside root q"
proof -
  have root: "below root root = Some []"
    using below_root converting_share_ok [OF assms(1)] assms(1) by (simp add: share_ok_def converting_def)
  then have "inside root root" by (simp add: inside_def)
  moreover have "inside root q" if "path_depth 0 (path_parts cp) \<noteq> None" "server_path_loop env c root (path_parts cp) s = (Inr (q, ex), s')"
    using server_path_inside [OF assms(1) root that(2), of 0] that(1) assms(3) by auto
  ultimately show ?thesis
    using assms(1,2)
    by (auto simp: create_server_path_def check_path_depth_def sx_defs gets_drive_def converting_def Let_def
        split: if_splits option.splits)
qed


section \<open>A sample share\<close>

lemma plain_sample_host: "plain_host sample_host"
  by code_simp

lemma contained_sample_listing: "contained sample_listing"
proof -
  have "plain_host (s_host sample_listing)" by code_simp
  moreover have "canonical_root (d_root (s_drive sample_listing))" by code_simp
  ultimately show ?thesis
    by (simp add: contained_def share_ok_def wf_table_def sample_listing_def MAX_HANDLE_COUNT_def
        item_ok_empty_list empty_item_def)
qed

definition sample_new :: path where
  "sample_new = \<lparr>p_abs = True, p_elems = [bytes_of ''s'', bytes_of ''d'', bytes_of ''NEW'']\<rparr>"

definition sample_later :: host where
  "sample_later = set_node [bytes_of ''s'', bytes_of ''d'', bytes_of ''NEW''] (sample_node (File [])) sample_host"

lemma plain_sample_later: "plain_host sample_later"
  by code_simp

lemma sample_new_found: "fst (create_server_path sample_env (name_path (bytes_of ''NEW'')) False sample_listing) = Inr (sample_new, False)"
  by code_simp

text \<open>The depth of a path of two dots and a zero byte is one, but for the host it is the parent of the shared
  directory.\<close>

lemma zero_byte_escapes:
  "case fst (create_server_path sample_env (name_path (dotdot @ [ch_nul])) False sample_listing) of
     Inr (p, exist) \<Rightarrow> \<not> exist \<and> resolve True sample_host p = Inr [bytes_of ''s'']
   | Inl _ \<Rightarrow> False"
  by code_simp


section \<open>Properties\<close>

text \<open>C2: Paths of clients of a share with name conversion are kept in the shared directory: on a host
  without symbolic links every path that \<open>create_server_path\<close> makes of a client path, now or whenever
  it is used later, denotes a location in the shared directory. This holds for every client path
  whose file exists; and for paths to something that does not exist when no component has a zero
  byte or is a disguised \<^verbatim>\<open>.\<close> or \<^verbatim>\<open>..\<close>.\<close>

theorem share_containment:
  assumes "contained s" "d_used (s_drive s)" "d_name_conversion (s_drive s) = RAM"
    "create_server_path env client_path create_list s = (Inr (p, exist), s')"
    "exist \<or> list_all honest_part (path_parts client_path)"
    "plain_host later" "resolve follow later p = Inr loc"
  shows "\<exists>below_root. loc = p_elems (d_root (s_drive s)) @ below_root"
proof -
  have c: "converting (d_root (s_drive s)) s" using assms(1-3) by (simp add: converting_def)
  have "canonical_root (d_root (s_drive s))"
    using converting_share_ok [OF c] by (simp add: share_ok_def)
  then show ?thesis
    using inside_location [OF _ create_server_path_inside [OF c assms(4,5)] assms(6,7)] by blast
qed

text \<open>A new name in the shared directory; then a file was made there.\<close>

theorem share_containment_witness:
  "fst (create_server_path sample_env (name_path (bytes_of ''NEW'')) False sample_listing) = Inr (sample_new, False) \<and>
   (\<exists>below_root. [bytes_of ''s'', bytes_of ''d'', bytes_of ''NEW''] = p_elems (d_root (s_drive sample_listing)) @ below_root)"
proof -
  obtain s' where found: "create_server_path sample_env (name_path (bytes_of ''NEW'')) False sample_listing = (Inr (sample_new, False), s')"
    using sample_new_found by (metis prod.collapse)
  have conv: "d_used (s_drive sample_listing)" "d_name_conversion (s_drive sample_listing) = RAM" by code_simp+
  have honest: "False \<or> list_all honest_part (path_parts (name_path (bytes_of ''NEW'')))" by code_simp
  have res: "resolve True sample_later sample_new = Inr [bytes_of ''s'', bytes_of ''d'', bytes_of ''NEW'']" by code_simp
  show ?thesis
    using found share_containment [OF contained_sample_listing conv found honest plain_sample_later res] by simp
qed

text \<open>C24: Every packet keeps the containment invariant of all drives, so the previous property holds
  in every state that the server reaches. The invariant is about the listings of directories in the
  share; it does not say that every handle denotes one.\<close>

theorem server_stays_contained:
  assumes "\<forall>n < length (sv_drives s). contained (drive_view s n)"
  shows "\<forall>n < length (sv_drives (snd (serve_packet env packet ip port s))).
    contained (drive_view (snd (serve_packet env packet ip port s)) n)"
  by (rule containment.drives_kept [OF assms])

theorem server_stays_contained_witness:
  "list_all (\<lambda>n. contained (drive_view (snd (serve_packet sample_env sample_query 1 2
       (sample_server (s_drive sample_listing)))) n))
     [0..<length (sv_drives (snd (serve_packet sample_env sample_query 1 2 (sample_server (s_drive sample_listing)))))]"
proof -
  have "\<not> d_used default_drive" by (simp add: default_drive_def)
  then have "contained (drive_view (sample_server (s_drive sample_listing)) n)" if "n < 26" for n
    using that contained_sample_listing plain_sample_host
    by (cases "n = 2") (simp_all add: sample_server_def drive_view_def contained_def sample_listing_def sample_dstate_def)
  then have "\<forall>n < length (sv_drives (sample_server (s_drive sample_listing))).
      contained (drive_view (sample_server (s_drive sample_listing)) n)"
    by (simp add: sample_server_def)
  from server_stays_contained [OF this] show ?thesis unfolding list_all_iff by simp
qed

end
