(* ===== verification/Names.thy ===== *)
theory Names
  imports Containment
begin

text \<open>
  Every DOS name that the server keeps has eight and three bytes: the volume labels and the names in
  the cached listings. In the sources this is the type \<^verbatim>\<open>fcb_file_name\<close>; in the model it is an
  invariant.
\<close>

definition wf_label_and_lists :: "drive \<Rightarrow> bool" where
  "wf_label_and_lists d \<longleftrightarrow> wf_fcb (d_volume_label d) \<and>
     (\<forall>it \<in> set (d_items d). \<forall>e \<in> set (i_directory_list it). wf_fcb (dp_fcb_name e))"

definition wf_names :: "dstate \<Rightarrow> bool" where
  "wf_names s \<longleftrightarrow> wf_label_and_lists (s_drive s)"

lemma dos_properties_wf: "wf_fcb (dp_fcb_name (dos_properties_of env h p mode))"
proof -
  obtain r where "get_item_attrs p mode h = (r, h)" "r \<noteq> Inl OutOfBounds"
    using get_item_attrs_result by blast
  then show ?thesis
    by (cases r) (auto simp: dos_properties_of_def get_path_dos_properties_def sx_defs Let_def basic_properties_def)
qed

lemma listed_wf: "e \<in> set (fst (listed env d h path fnames used)) \<Longrightarrow> wf_fcb (dp_fcb_name e)"
proof (induction fnames arbitrary: used)
  case (Cons fname fnames)
  obtain ok fcb used1 where f: "file_name_to_83 (e_translit env) fname used = (ok, fcb, used1)"
    by (metis prod_cases3)
  with Cons file_name_to_83_legal [OF f] dos_properties_wf show ?case
    by (auto simp: Let_def case_prod_unfold legal_fcb_def split: if_splits)
qed simp

lemma heading_wf:
  assumes "heading env d h path = Some es" "wf_fcb (d_volume_label d)" "e \<in> set es"
  shows "wf_fcb (dp_fcb_name e)"
proof -
  obtain e1 e2 where *: "dot_entry env d path dot h = (Inr e1, h)" "dot_entry env d path dotdot h = (Inr e2, h)"
    "dp_fcb_name e1 = short_name_to_fcb dot" "dp_fcb_name e2 = short_name_to_fcb dotdot"
    using dot_entry_total by meson
  have "e \<in> {volume_properties d, e1, e2}"
    using assms(1,3) * by (auto simp: heading_def first_entries_def sx_defs split: sum.splits if_splits)
  with * assms(2) show ?thesis by (auto simp: volume_properties_def)
qed

lemma wf_update_item:
  assumes "wf_names s" "\<And>e. e \<in> set (i_directory_list it) \<Longrightarrow> wf_fcb (dp_fcb_name e)"
  shows "wf_names (set_items ((d_items (s_drive s))[n := it]) s)"
  using assms by (auto simp: wf_names_def wf_label_and_lists_def set_items_def dest!: set_update_subset_insert [THEN subsetD])

lemma wf_item: "wf_names s \<Longrightarrow> n < length (d_items (s_drive s)) \<Longrightarrow> e \<in> set (i_directory_list (d_items (s_drive s) ! n)) \<Longrightarrow>
  wf_fcb (dp_fcb_name e)"
  using nth_mem unfolding wf_names_def wf_label_and_lists_def by blast

lemma wf_update_pruned:
  assumes "wf_names s" "set (i_directory_list it) \<subseteq> set (i_directory_list (d_items (s_drive s) ! n))"
  shows "wf_names (set_items ((d_items (s_drive s))[n := it]) s)"
proof (cases "n < length (d_items (s_drive s))")
  case True
  with assms wf_item show ?thesis by (intro wf_update_item) blast+
next
  case False
  with assms(1) show ?thesis by (simp add: list_update_beyond wf_names_def set_items_def)
qed

lemma get_handle_lists:
  assumes "it \<in> set (d_items (s_drive (snd (get_handle p s))))"
  shows "i_directory_list it = [] \<or> (\<exists>it0 \<in> set (d_items (s_drive s)). set (i_directory_list it) \<subseteq> set (i_directory_list it0))"
proof -
  let ?items = "d_items (s_drive s)" and ?now = "h_clock (s_host s)"
  let ?Q = "\<lambda>it. i_directory_list it = [] \<or> (\<exists>it0 \<in> set ?items. set (i_directory_list it) \<subseteq> set (i_directory_list it0))"
  obtain q items1 where loop: "get_handle_loop p ?now 0 (length ?items) 0 ?items = (q, items1)" by fastforce
  have "?Q x" if x: "x \<in> set items1" for x
  proof -
    obtain k where k: "k < length items1" "x = items1 ! k" using x by (metis in_set_conv_nth)
    then have "k < length ?items" "pruned (?items ! k) x"
      using get_handle_loop_pruned [OF loop] by (simp_all add: list_all2_conv_all_nth)
    then show ?thesis using nth_mem unfolding pruned_def by blast
  qed
  then have ok: "list_all ?Q items1" by (simp only: list_all_iff) blast
  have old: "?Q (items1 ! k)" if "k < length items1" for k
    using ok that by (simp only: list_all_length)
  have "list_all ?Q (d_items (s_drive (snd (get_handle p s))))"
  proof (cases q)
    case (Inr h)
    then show ?thesis using loop ok by (simp add: get_handle_def set_items_def)
  next
    case (Inl ab)
    then obtain ff old where q: "q = Inl (ff, old)" by (cases ab) auto
    consider "ff = length items1" "ff < MAX_HANDLE_COUNT" | "ff = length items1" "\<not> ff < MAX_HANDLE_COUNT"
      | "ff \<noteq> length items1" by blast
    then show ?thesis
    proof cases
      case 1
      then show ?thesis using loop ok q
        by (simp add: get_handle_def set_items_def empty_item_def list_update_append)
    next
      case 2
      then show ?thesis using loop ok q
        by (simp add: get_handle_def set_items_def list_all_update)
    next
      case 3
      then show ?thesis using loop ok q old
        by (simp add: get_handle_def set_items_def list_all_update)
    qed
  qed
  then show ?thesis using assms by (simp add: list_all_iff)
qed

lemma get_handle_label: "d_volume_label (s_drive (snd (get_handle p s))) = d_volume_label (s_drive s)"
  using get_handle_set_items [of p s] by (auto simp: set_items_def)

lemma wf_names_listing: "keeps wf_names (create_directory_list env n)"
  unfolding keeps_def
proof (intro allI impI)
  fix s assume s: "wf_names s"
  let ?it = "d_items (s_drive s) ! unat n"
  obtain dl names t where st: "snd (create_directory_list env n s) =
      set_items ((d_items (s_drive s))[unat n := ?it\<lparr>i_directory_list := dl, i_fcb_names := names, i_last_used_time := t\<rparr>]) s"
    and dl: "dl = [] \<or> (\<exists>fnames es. directory_entries (s_host s) (i_path ?it) = Inr fnames \<and>
       heading env (s_drive s) (s_host s) (i_path ?it) = Some es \<and>
       dl = es @ fst (listed env (s_drive s) (s_host s) (i_path ?it) (take (0xFFFF - length es) fnames) []))"
    by (rule create_directory_list_state)
  have "wf_fcb (d_volume_label (s_drive s))" using s by (simp add: wf_names_def wf_label_and_lists_def)
  then have "wf_fcb (dp_fcb_name e)" if "e \<in> set dl" for e
    using dl that heading_wf listed_wf by fastforce
  then show "wf_names (snd (create_directory_list env n s))"
    unfolding st by (intro wf_update_item s) simp
qed

lemma wf_names_drop_entry: "wf_names s \<Longrightarrow> wf_names (drop_entry i fcb n s)"
  unfolding drop_entry_def Let_def update_item_def snd_conv
  by (intro wf_update_pruned) (auto dest: in_set_takeD in_set_dropD)

interpretation names: server_invariant wf_names
proof
  show "keeps wf_names (get_handle p)" for p
    unfolding keeps_def
  proof (intro allI impI)
    fix s assume s: "wf_names s"
    then show "wf_names (snd (get_handle p s))"
      using get_handle_lists [of _ p s] get_handle_label [of p s]
      by (fastforce simp: wf_names_def wf_label_and_lists_def)
  qed
  show "keeps wf_names (update_last_used_timestamp n)" for n
    by (simp add: keeps_def update_last_used_timestamp_def update_item_def Let_def wf_update_pruned)
  show "keeps wf_names (get_server_name env n fcb c)" for env n fcb c
    unfolding keeps_def
  proof (intro allI impI)
    fix s assume s: "wf_names s"
    obtain r s' where g: "get_server_name env n fcb c s = (r, s')" by fastforce
    then obtain s1 where "s1 = s \<or> s1 = snd (create_directory_list env n s)"
      "s' = s1 \<or> (\<exists>i. s' = drop_entry i fcb n s1)" using get_server_name_cases by metis
    then show "wf_names (snd (get_server_name env n fcb c s))"
      using g keepsD [OF wf_names_listing s] s wf_names_drop_entry by auto
  qed
qed (auto intro: wf_names_listing simp: wf_names_def)

end
