(* ===== verification/Packets.thy ===== *)
theory Packets
  imports Retransmit Names
begin

text \<open>
  Packets on the wire: a request in which a byte was damaged is dropped, and every reply to a new
  request has the header that the client checks.
\<close>

section \<open>Damaged requests\<close>

lemma take_update_beyond: "n \<le> i \<Longrightarrow> take n (xs[i := x]) = take n xs"
  by (simp add: take_update_swap list_update_beyond)

lemma slice_update_after: "off + n \<le> i \<Longrightarrow> slice (xs[i := x]) off n = slice xs off n"
  by (simp add: slice_def take_drop take_update_beyond)

text \<open>C25: With checksums in use, a request in which any byte behind the checksum was damaged is
  ignored: the server sends nothing and its state does not change.\<close>

theorem damaged_request_ignored:
  assumes "accept_packet (e_native env) packet = Some request" "checksum_flag (e_native env) packet"
    "5 \<le> i" "i < length request" "x \<noteq> packet ! i"
  shows "serve_packet env (packet[i := x]) ip port s = (Inr None, s)"
proof -
  let ?n = "unat (hdr_length_flags (e_native env) packet AND 0x7FF)"
  have acc: "hdr_size \<le> length packet" "hdr_version packet = DRIVE_PROTO_VERSION" "hdr_size \<le> ?n"
    "?n \<le> length packet" "request = take ?n packet"
    "bsd_checksum (drop 5 request) = hdr_checksum (e_native env) packet"
    using assms(1,2) by (auto simp: accept_packet_def Let_def split: if_splits)
  have hdr: "hdr_version (packet[i := x]) = hdr_version packet"
    "hdr_length_flags (e_native env) (packet[i := x]) = hdr_length_flags (e_native env) packet"
    "hdr_checksum (e_native env) (packet[i := x]) = hdr_checksum (e_native env) packet"
    using assms(3) by (simp_all add: hdr_version_def hdr_length_flags_def hdr_checksum_def get16_def slice_update_after)
  have i: "i < ?n" using assms(4) acc(4,5) by simp
  let ?d = "drop 5 (take ?n packet)" and ?j = "i - 5"
  have j: "?j < length ?d" using i assms(3) acc(4) by simp
  have "drop 5 (take ?n (packet[i := x])) = ?d[?j := x]"
    using i assms(3) by (simp add: take_update_swap drop_update_swap)
  also have "\<dots> = take ?j ?d @ x # drop (Suc ?j) ?d" using j by (simp add: upd_conv_take_nth_drop)
  finally have new: "drop 5 (take ?n (packet[i := x])) = take ?j ?d @ x # drop (Suc ?j) ?d" .
  have old: "?d = take ?j ?d @ packet ! i # drop (Suc ?j) ?d"
    using j i assms(3) acc(4) id_take_nth_drop [OF j] by simp
  have "bsd_checksum (drop 5 (take ?n (packet[i := x]))) \<noteq> bsd_checksum ?d"
    using bsd_checksum_one_byte [of "take ?j ?d" x "drop (Suc ?j) ?d" "packet ! i"] assms(5) new old by metis
  then have "accept_packet (e_native env) (packet[i := x]) = None"
    using acc assms(2) by (simp add: accept_packet_def Let_def hdr checksum_flag_def)
  then show ?thesis by (simp add: serve_packet_def sx_return_def)
qed


text \<open>The sample query with a checksum.\<close>

definition sample_checked :: "byte list" where
  "sample_checked = [DRIVE_PROTO_VERSION] @ put16 Little (10 OR DRIVE_PROTO_FLAG_CHECKSUM_USED)
     @ put16 Little (bsd_checksum (drop 5 sample_query)) @ drop 5 sample_query"

theorem damaged_request_ignored_witness:
  "serve_packet sample_env (sample_checked[8 := 0x40]) 1 2 (sample_server sample_drive) =
     (Inr None, sample_server sample_drive)"
proof -
  have native: "e_native sample_env = Little" by (simp add: sample_env_def)
  have "accept_packet Little sample_checked = Some sample_checked" "checksum_flag Little sample_checked"
    "8 < length sample_checked" "0x40 \<noteq> sample_checked ! 8"
    by code_simp+
  then show ?thesis by (intro damaged_request_ignored [where request = sample_checked]) (simp_all add: native)
qed


section \<open>What a request can answer\<close>

text \<open>\<open>yields P Q m\<close>: from a state with \<open>P\<close> every result of the computation satisfies \<open>Q\<close>.\<close>

definition yields :: "('s \<Rightarrow> bool) \<Rightarrow> ('a \<Rightarrow> bool) \<Rightarrow> ('s, 'a) sx \<Rightarrow> bool" where
  "yields P Q m \<longleftrightarrow> (\<forall>s x s'. P s \<longrightarrow> m s = (Inr x, s') \<longrightarrow> Q x)"

lemma yieldsD: "yields P Q m \<Longrightarrow> P s \<Longrightarrow> m s = (Inr x, s') \<Longrightarrow> Q x"
  unfolding yields_def by blast

lemma yields_return: "Q x \<Longrightarrow> yields P Q (sx_return x)"
  by (simp add: yields_def sx_return_def)

lemma yields_throw: "yields P Q (sx_throw e)"
  by (simp add: yields_def sx_throw_def)

lemma yields_bind_result:
  assumes "yields P R m" "keeps P m" "\<And>x. R x \<Longrightarrow> yields P Q (f x)"
  shows "yields P Q (sx_bind m f)"
  unfolding yields_def
proof (intro allI impI)
  fix s x s' assume "P s" "sx_bind m f s = (Inr x, s')"
  moreover from this obtain y s1 where "m s = (Inr y, s1)" "f y s1 = (Inr x, s')"
    by (auto simp: sx_bind_def split: prod.splits sum.splits)
  ultimately show "Q x" using assms unfolding yields_def keeps_def by (metis snd_conv)
qed

lemma yields_bind: "keeps P m \<Longrightarrow> (\<And>x. yields P Q (f x)) \<Longrightarrow> yields P Q (sx_bind m f)"
  by (rule yields_bind_result [where R = "\<lambda>_. True"]) (simp_all add: yields_def)

lemma yields_catch: "yields P Q m \<Longrightarrow> keeps P m \<Longrightarrow> (\<And>e. yields P Q (h e)) \<Longrightarrow> yields P Q (sx_catch m h)"
  unfolding yields_def keeps_def sx_catch_def
  by (auto split: prod.splits sum.splits if_splits) (metis snd_conv)

lemma yields_if: "(b \<Longrightarrow> yields P Q m) \<Longrightarrow> (\<not> b \<Longrightarrow> yields P Q n) \<Longrightarrow> yields P Q (if b then m else n)"
  by simp

lemma yields_case_prod: "(\<And>a b. p = (a, b) \<Longrightarrow> yields P Q (f a b)) \<Longrightarrow> yields P Q (case p of (a, b) \<Rightarrow> f a b)"
  by (cases p) simp

lemma yields_case_option:
  "(x = None \<Longrightarrow> yields P Q m) \<Longrightarrow> (\<And>y. x = Some y \<Longrightarrow> yields P Q (f y)) \<Longrightarrow>
   yields P Q (case x of None \<Rightarrow> m | Some y \<Rightarrow> f y)"
  by (cases x) simp_all

lemma yields_case_sum:
  "(\<And>e. x = Inl e \<Longrightarrow> yields P Q (g e)) \<Longrightarrow> (\<And>y. x = Inr y \<Longrightarrow> yields P Q (f y)) \<Longrightarrow>
   yields P Q (case x of Inl e \<Rightarrow> g e | Inr y \<Rightarrow> f y)"
  by (cases x) simp_all

lemma yields_answer_errors:
  "yields P Q m \<Longrightarrow> keeps P m \<Longrightarrow> (\<And>e. Q (Some (get_dos_err_code e c, []))) \<Longrightarrow> yields P Q (answer_errors c m)"
  unfolding answer_errors_def by (intro yields_catch yields_return)

lemmas yields_intros = yields_return yields_throw yields_if yields_case_prod
  yields_case_option yields_case_sum yields_answer_errors yields_catch yields_bind

definition fits :: "answer \<Rightarrow> bool" where
  "fits a \<longleftrightarrow> (case a of None \<Rightarrow> True | Some (_, d) \<Rightarrow> length d \<le> REPLY_DATA_SIZE)"

definition found_wf :: "(dos_file_properties \<times> u16) option \<Rightarrow> bool" where
  "found_wf r \<longleftrightarrow> (case r of None \<Rightarrow> True | Some (p, _) \<Rightarrow> wf_fcb (dp_fcb_name p))"

lemma length_fcb_bytes: "wf_fcb f \<Longrightarrow> length (fcb_bytes f) = 11"
  by (simp add: wf_fcb_def fcb_bytes_def)

lemma create_directory_list_length:
  "length (d_items (s_drive (snd (create_directory_list env n s)))) = length (d_items (s_drive s))"
proof -
  obtain dl names t where "snd (create_directory_list env n s) =
      set_items ((d_items (s_drive s))[unat n := (d_items (s_drive s) ! unat n)
        \<lparr>i_directory_list := dl, i_fcb_names := names, i_last_used_time := t\<rparr>]) s"
    by (rule create_directory_list_state)
  then show ?thesis by simp
qed

lemma find_file_wf: "yields wf_names found_wf (find_file env n tmpl attr pos)"
  unfolding yields_def
proof (intro allI impI)
  fix s r s' assume s: "wf_names s" and f: "find_file env n tmpl attr pos s = (Inr r, s')"
  show "found_wf r"
  proof (cases "attr = FAT_VOLUME")
    case True
    with s f show ?thesis
      by (auto simp: find_file_def gets_drive_def sx_defs found_wf_def wf_names_def wf_label_and_lists_def
          volume_properties_def split: if_splits)
  next
    case False
    let ?s1 = "if pos = 0 \<or> i_directory_list (d_items (s_drive s) ! unat n) = []
      then snd (create_directory_list env n s) else s"
    let ?dl = "i_directory_list (d_items (s_drive ?s1) ! unat n)"
    have s1: "wf_names ?s1" using keepsD [OF wf_names_listing s] s by simp
    have len: "unat n < length (d_items (s_drive s))"
      and r: "r = None \<or> (\<exists>p k. find_from tmpl attr (unat pos) (drop (unat pos) ?dl) = Some (p, k) \<and> r = Some (p, of_nat k + 1))"
      using False f
      by (auto simp: find_file_def get_item_def gets_drive_def sx_defs Let_def
          split: if_splits prod.splits sum.splits option.splits)
    have len1: "unat n < length (d_items (s_drive ?s1))"
      using len create_directory_list_length [of env n s] by simp
    have "p \<in> set ?dl" if "find_from tmpl attr (unat pos) (drop (unat pos) ?dl) = Some (p, k)" for p k
    proof -
      have "unat pos \<le> k \<and> k < unat pos + length (drop (unat pos) ?dl) \<and> drop (unat pos) ?dl ! (k - unat pos) = p"
        using find_from_Some [OF that] by blast
      then have "p \<in> set (drop (unat pos) ?dl)" by (metis less_diff_conv2 add.commute nth_mem)
      then show ?thesis by (rule in_set_dropD)
    qed
    with r wf_item [OF s1 len1] show ?thesis by (auto simp: found_wf_def)
  qed
qed

lemma find_reply_fits:
  "yields wf_names fits (sx_bind (find_file env n tmpl attr pos) (\<lambda>found.
     case found of
       None \<Rightarrow> sx_return (Some (DOS_EXTERR_NO_MORE_FILES, []))
     | Some (properties, fpos) \<Rightarrow>
         sx_return (Some (DOS_EXTERR_NO_ERROR, find_reply (e_native env) properties h fpos))))"
  by (rule yields_bind_result [OF find_file_wf], intro keeps_intros, intro yields_intros)
    (auto simp: fits_def found_wf_def find_reply_def length_fcb_bytes REPLY_DATA_SIZE_def)

lemma handle_function_fits: "yields wf_names fits (handle_function env ext f data)"
proof (cases "f = INT2F_FIND_FIRST \<or> f = INT2F_FIND_NEXT")
  case True
  have first: "yields wf_names fits (sx_bind (if h = 0xFFFF then sx_return None else find_file env h tmpl attr 0) (\<lambda>found.
     case found of
       None \<Rightarrow> sx_return (Some (DOS_EXTERR_NO_MORE_FILES, []))
     | Some (properties, fpos) \<Rightarrow>
         sx_return (Some (DOS_EXTERR_NO_ERROR, find_reply (e_native env) properties h fpos))))" for h tmpl attr
    using find_reply_fits by (cases "h = 0xFFFF") (simp_all add: yields_def sx_defs fits_def)
  have "yields wf_names fits (handle_function env ext INT2F_FIND_FIRST data)"
    unfolding handle_function.simps req_find_first_def Let_def
    by (intro yields_if yields_return; (rule yields_bind)?; (intro keeps_intros yields_case_sum yields_return first)?; simp add: fits_def)
  moreover have "yields wf_names fits (handle_function env ext INT2F_FIND_NEXT data)"
    unfolding handle_function.simps req_find_next_def Let_def
    by (intro yields_if yields_return yields_catch find_reply_fits keeps_intros) (simp_all add: fits_def)
  ultimately show ?thesis using True by auto
next
  case False
  then show ?thesis
    by (cases f; simp only: handle_function.simps req_defs Let_def done_ok_def; intro yields_intros keeps_intros;
      simp add: fits_def REPLY_DATA_SIZE_def writef_reply_def disk_info_reply_def disk_info_large_reply_def
        get_attrs_reply_def open_create_reply_def seek_from_end_reply_def length_fcb_bytes)
qed


section \<open>The reply packet\<close>

text \<open>A request that the entry of the client does not record is executed.\<close>

definition repeated :: "byte list \<Rightarrow> reply_info \<Rightarrow> bool" where
  "repeated request info \<longleftrightarrow>
     ri_recv_len info = length request \<and> take (length request) (ri_recv_packet info) = request"

definition draft :: "endian \<Rightarrow> byte list \<Rightarrow> u16 \<Rightarrow> u16 \<Rightarrow> byte list \<Rightarrow> byte list \<Rightarrow> byte list" where
  "draft native request flags code data old =
     [request ! 0] @ store16 native flags @ [request ! 3, request ! 4, request ! 5] @ put16 native code
     @ data @ drop (8 + length data) old"

lemma take_8:
  assumes "8 \<le> length xs"
  shows "take 8 xs = [xs ! 0, xs ! 1, xs ! 2, xs ! 3, xs ! 4, xs ! 5, xs ! 6, xs ! 7]"
  using assms by (intro nth_equalityI) (auto simp: less_Suc_eq numeral_eq_Suc)

lemma draft_eq:
  assumes "8 \<le> length request" "8 \<le> length old"
  shows "overwrite (overwrite (overwrite (overwrite old 0 (take 8 request)) 8 data) 1 (store16 native w)) 6 (put16 native c) =
    draft native request w c data old"
proof -
  obtain a b where ab: "store16 native w = [a, b]"
    using length_store16 [of native w] by (cases "store16 native w" rule: remdups_adj.cases) auto
  obtain x y where xy: "put16 native c = [x, y]"
    using length_put16 [of native c] by (cases "put16 native c" rule: remdups_adj.cases) auto
  show ?thesis
    using assms(2) unfolding draft_def ab xy take_8 [OF assms(1)]
    by (simp add: overwrite_def add.commute [of 8] drop_drop [symmetric] del: drop_drop)
      (simp add: numeral_eq_Suc)
qed

lemma process_request_draft:
  assumes "process_request env request s = (Inr (Some n), s')" "\<not> repeated request (ps_info s)"
    "8 \<le> length (ri_send_packet (ps_info s))"
    "\<And>k. k < length (ps_drives s) \<Longrightarrow> wf_names (request_view s k)"
  shows "\<exists>flags code data. flags \<in> {0, DRIVE_PROTO_FLAG_EXTENDED_FEATURES} \<and> length data \<le> REPLY_DATA_SIZE \<and>
    n = length data + 8 \<and> 8 \<le> length request \<and>
    ri_send_packet (ps_info s') = draft (e_native env) request flags code data (ri_send_packet (ps_info s))"
proof -
  let ?k = "unat (hdr_drive request AND 0x1F)"
  have len: "8 \<le> length request"
    using assms(1) by (auto simp: process_request_def hdr_size_def sx_defs split: if_splits)
  have new: "\<not> (ri_recv_len (ps_info s) > 0 \<and> hdr_sequence (ri_recv_packet (ps_info s)) = hdr_sequence request \<and>
      ri_recv_len (ps_info s) = length request \<and> take (length request) (ri_recv_packet (ps_info s)) = request)"
    using assms(2) by (auto simp: repeated_def)
  obtain f where f: "?k < length (ps_drives s)" "int2f_of (hdr_function request) = Some f"
    using assms(1) len new
    by (auto simp: process_request_def hdr_size_def sx_defs Let_def put_send_packet_def split: if_splits option.splits)
  let ?ext = "hdr_length_flags (e_native env) request AND DRIVE_PROTO_FLAG_EXTENDED_FEATURES \<noteq> 0"
  obtain ans t where h: "handle_function env ?ext f (drop 8 request) (request_view s ?k) = (ans, t)" by fastforce
  obtain code data where a: "ans = Inr (Some (code, data))"
    using assms(1) len new f h
    by (auto simp: process_request_def hdr_size_def sx_defs Let_def with_drive_def put_send_packet_def
        split: if_splits option.splits sum.splits)
  have fit: "length data \<le> REPLY_DATA_SIZE"
    using yieldsD [OF handle_function_fits _ h [unfolded a]] assms(4) f(1) by (simp add: fits_def)
  let ?flags = "if f \<noteq> INT2F_CLOSE_FILE \<or> d_use_client_timestamp (ps_drives s ! ?k)
      then DRIVE_PROTO_FLAG_EXTENDED_FEATURES else 0"
  have "ri_send_packet (ps_info s') = draft (e_native env) request ?flags code data (ri_send_packet (ps_info s))"
    "n = length data + 8"
    using assms(1) len new f h a draft_eq [OF len assms(3), symmetric]
    by (auto simp: process_request_def hdr_size_def sx_defs Let_def with_drive_def put_send_packet_def
        split: if_splits)
  with fit len show ?thesis by (intro exI [of _ ?flags] exI [of _ code] exI [of _ data]) auto
qed

text \<open>What the client checks of a reply of the given length.\<close>

definition good_header :: "byte list \<Rightarrow> u8 \<Rightarrow> bool \<Rightarrow> bool \<Rightarrow> byte list \<Rightarrow> bool" where
  "good_header packet seq checksums ro reply \<longleftrightarrow>
     8 \<le> length reply \<and> length reply \<le> PACKET_SIZE \<and>
     hdr_version reply = hdr_version packet \<and> hdr_sequence reply = seq \<and>
     unat (hdr_length_flags Little reply AND 0x7FF) = length reply \<and>
     (hdr_length_flags Little reply AND DRIVE_PROTO_FLAG_RO_SHARE \<noteq> 0) = ro \<and>
     checksum_flag Little reply = checksums \<and>
     hdr_checksum Little reply = (if checksums then bsd_checksum (drop 5 reply) else DRIVE_PROTO_MAGIC)"

lemma flag_bits:
  "DRIVE_PROTO_FLAG_EXTENDED_FEATURES = push_bit 13 1" "DRIVE_PROTO_FLAG_RO_SHARE = push_bit 14 1"
  "DRIVE_PROTO_FLAG_CHECKSUM_USED = push_bit 15 1" "(0x7FFF :: u16) = mask 15" "(0x7FF :: u16) = mask 11"
  by (simp_all add: proto_consts push_bit_eq_mult mask_eq_exp_minus_1)

lemma flag_bit_iff:
  "bit DRIVE_PROTO_FLAG_EXTENDED_FEATURES k \<longleftrightarrow> k = 13" "bit DRIVE_PROTO_FLAG_RO_SHARE k \<longleftrightarrow> k = 14"
  "bit DRIVE_PROTO_FLAG_CHECKSUM_USED k \<longleftrightarrow> k = 15" "bit (0x7FFF :: u16) k \<longleftrightarrow> k < 15"
  "bit (0x7FF :: u16) k \<longleftrightarrow> k < 11"
  by (simp_all only: flag_bits bit_push_bit_iff bit_1_iff bit_mask_iff) auto

lemma reply_flags:
  assumes "flags \<in> {0, DRIVE_PROTO_FLAG_EXTENDED_FEATURES}" "n \<le> PACKET_SIZE"
  shows "unat (flags_after Little c ro n flags AND 0x7FF) = n"
    "(flags_after Little c ro n flags AND DRIVE_PROTO_FLAG_RO_SHARE \<noteq> 0) = ro"
    "(flags_after Little c ro n flags AND DRIVE_PROTO_FLAG_CHECKSUM_USED \<noteq> 0) = c"
proof -
  have "take_bit 11 n = n" using assms(2) by (simp add: take_bit_nat_eq_self PACKET_SIZE_def)
  then have nb: "\<not> bit n k" if "11 \<le> k" for k
    using that by (metis bit_take_bit_iff not_less)
  have fb: "bit flags k \<Longrightarrow> k = 13" for k
    using assms(1) by (auto simp: flag_bit_iff)
  have bits: "bit (flags_after Little c ro n flags) k \<longleftrightarrow> k < 16 \<and>
      (if k = 15 then c else if k = 14 then ro else bit flags k \<or> bit n k)" for k
    using fb [of k] nb [of k] flag_bit_iff(4) [of k] unfolding flags_after_def Let_def to_little16_def
    by (auto simp: bit_and_iff bit_or_iff bit_of_nat_iff flag_bit_iff)
  have "flags_after Little c ro n flags AND 0x7FF = (of_nat n :: u16)"
  proof (rule bit_word_eqI)
    fix k show "bit (flags_after Little c ro n flags AND 0x7FF) k = bit (of_nat n :: u16) k"
      using fb [of k] nb [of k] flag_bit_iff(5) [of k] by (auto simp: bit_and_iff bits bit_of_nat_iff)
  qed
  then show "unat (flags_after Little c ro n flags AND 0x7FF) = n"
    using assms(2) by (simp add: unat_of_nat take_bit_nat_eq_self PACKET_SIZE_def)
  show "(flags_after Little c ro n flags AND DRIVE_PROTO_FLAG_RO_SHARE \<noteq> 0) = ro"
    "(flags_after Little c ro n flags AND DRIVE_PROTO_FLAG_CHECKSUM_USED \<noteq> 0) = c"
    unfolding flag_bits bit_iff_and_push_bit_not_eq_0 [symmetric] by (simp_all add: bits)
qed

lemma sealed_layout:
  assumes "n = length data + 8" "n \<le> length old"
  obtains a b x y where
    "take n (seal_reply Little c ro n (draft Little request flags code data old)) =
       [request ! 0, a, b, x, y, request ! 5] @ put16 Little code @ data"
    "load16 Little [a, b] = flags_after Little c ro n flags"
    "load16 Little [x, y] = check_after c n (draft Little request flags code data old)"
proof -
  let ?p = "draft Little request flags code data old"
  obtain a b where ab: "store16 Little flags = [a, b]" by (simp add: store16_def)
  obtain x y where xy: "put16 Little code = [x, y]" by (simp add: put16_def store16_def)
  have p: "?p = [request ! 0, a, b, request ! 3, request ! 4, request ! 5, x, y] @ data @ drop n old"
    using assms by (simp add: draft_def ab xy add.commute)
  have w: "load16 Little (slice ?p 1 2) = flags"
    using load16_store16 [of Little flags "[]"] by (simp add: p slice_def ab)
  obtain a' b' where ab': "store16 Little (flags_after Little c ro n flags) = [a', b']" by (simp add: store16_def)
  obtain x' y' where xy': "put16 Little (check_after c n ?p) = [x', y']" by (simp add: put16_def store16_def)
  have "seal_reply Little c ro n ?p = [request ! 0, a', b', x', y', request ! 5, x, y] @ data @ drop n old"
    by (subst seal_reply_eq) (simp_all add: w ab' xy' del: One_nat_def, simp_all add: p overwrite_def)
  moreover have "n = length ([request ! 0, a', b', x', y', request ! 5, x, y] @ data)" using assms(1) by simp
  ultimately have "take n (seal_reply Little c ro n ?p) = [request ! 0, a', b', x', y', request ! 5, x, y] @ data"
    by (metis append.assoc append_eq_conv_conj)
  moreover have "load16 Little [a', b'] = flags_after Little c ro n flags"
    using load16_store16 [of Little "flags_after Little c ro n flags" "[]"] ab' by simp
  moreover have "load16 Little [x', y'] = check_after c n ?p"
    using get16_put16 [of "[x', y']" 0 Little "check_after c n ?p" Little] xy'
    by (simp add: get16_def slice_def from_little16_def)
  ultimately show thesis using that xy by simp
qed

lemma sealed_header:
  assumes "flags \<in> {0, DRIVE_PROTO_FLAG_EXTENDED_FEATURES}" "length data \<le> REPLY_DATA_SIZE"
    "n = length data + 8" "n \<le> length old"
  shows "good_header request (request ! 5) c ro (take n (seal_reply Little c ro n (draft Little request flags code data old)))"
proof -
  let ?p = "draft Little request flags code data old"
  obtain a b x y where r: "take n (seal_reply Little c ro n ?p) = [request ! 0, a, b, x, y, request ! 5] @ put16 Little code @ data"
    and f: "load16 Little [a, b] = flags_after Little c ro n flags" and k: "load16 Little [x, y] = check_after c n ?p"
    using sealed_layout [OF assms(3,4)] by metis
  have n: "n \<le> PACKET_SIZE" using assms(2,3) by (simp add: REPLY_DATA_SIZE_def PACKET_SIZE_def)
  obtain u v where uv: "store16 Little flags = [u, v]" by (simp add: store16_def)
  have d: "slice ?p 5 (n - 5) = [request ! 5] @ put16 Little code @ data"
    using assms(3) by (simp add: draft_def uv slice_def take_Cons')
  have "hdr_length_flags Little (take n (seal_reply Little c ro n ?p)) = flags_after Little c ro n flags"
    "hdr_checksum Little (take n (seal_reply Little c ro n ?p)) = check_after c n ?p"
    unfolding r using f k by (simp_all add: hdr_length_flags_def hdr_checksum_def get16_def slice_def from_little16_def)
  moreover define reply where "reply = take n (seal_reply Little c ro n ?p)"
  moreover have "length reply = n" "reply ! 0 = request ! 0" "reply ! 5 = request ! 5"
    "drop 5 reply = [request ! 5] @ put16 Little code @ data"
    unfolding reply_def r using assms(3) by simp_all
  ultimately show ?thesis
    using reply_flags [OF assms(1) n] n assms(3) d unfolding good_header_def checksum_flag_def reply_def [symmetric]
    by (simp add: hdr_version_def hdr_sequence_def check_after_def)
qed

lemma fresh_entry:
  assumes "get_reply_info ip port items = (i, items')" "items \<noteq> []" "request \<noteq> []"
    "\<forall>info. last_exchange ip port items = Some info \<longrightarrow> \<not> repeated request info"
  shows "\<not> repeated request (items' ! i)"
proof (cases "last_exchange ip port items")
  case None
  then have "\<not> (\<exists>j < length items. owned_by ip port (items ! j))"
    by (auto simp: last_exchange_def find_None_iff in_set_conv_nth)
  then obtain m where m: "reply_info_loop ip port items 0 0 items = Inl m"
    using reply_info_loop_owned [of items ip port items 0 0]
    by (cases "reply_info_loop ip port items 0 0 items") auto
  moreover have "i < length items" using get_reply_info_spec [OF assms(1,2)] by blast
  ultimately have "ri_recv_len (items' ! i) = 0" using assms(1) by (auto simp: get_reply_info_def)
  then show ?thesis using assms(3) by (simp add: repeated_def)
next
  case (Some info)
  then show ?thesis using last_exchange_index [OF Some] assms(1,4) by auto
qed

lemma reply_header_good:
  assumes "e_native env = Little" "wf_cache (sv_cache s)"
    "\<forall>k < length (sv_drives s). wf_names (drive_view s k)"
    "accept_packet Little packet = Some request"
    "\<forall>info. last_exchange ip port (sv_cache s) = Some info \<longrightarrow> \<not> repeated request info"
    "serve_packet env packet ip port s = (Inr (Some reply), s')"
  shows "good_header packet (hdr_sequence packet) (checksum_flag Little packet)
    (d_read_only (sv_drives s' ! unat (hdr_drive packet AND 0x1F))) reply"
proof -
  have len: "8 \<le> length request" using accept_packet_length [OF assms(4)] by (simp add: hdr_size_def)
  have hdr: "request ! 0 = packet ! 0" "request ! 5 = packet ! 5" "hdr_drive request = hdr_drive packet"
    using assms(4) len accepted_drive by (auto simp: accept_packet_def Let_def split: if_splits)
  obtain i cache where g: "get_reply_info ip port (sv_cache s) = (i, cache)" by fastforce
  have ne: "sv_cache s \<noteq> []" using assms(2) by (auto simp: wf_cache_def REPLY_CACHE_SIZE_def)
  have i: "i < length cache" "wf_reply_info (cache ! i)"
    using get_reply_info_spec [OF g ne] get_reply_info_wf [OF g assms(2)] by auto
  let ?p0 = "\<lparr>ps_info = cache ! i, ps_drives = sv_drives s, ps_host = sv_host s\<rparr>"
  obtain r ps where pr: "process_request env request ?p0 = (r, ps)" by fastforce
  have run: "run_request env i request (s\<lparr>sv_cache := cache\<rparr>) =
      (r, s\<lparr>sv_cache := cache[i := ps_info ps], sv_drives := ps_drives ps, sv_host := ps_host ps\<rparr>)"
    using pr by (simp add: run_request_def)
  from assms(1,4,6) g run obtain n where n: "r = Inr (Some n)"
    by (auto simp: serve_packet_def sx_defs update_cache_def Let_def split: sum.splits if_splits option.splits)
  have old: "\<not> repeated request (ps_info ?p0)" "8 \<le> length (ri_send_packet (ps_info ?p0))"
    using fresh_entry [OF g ne _ assms(5)] len i(2)
    by (cases "request = []"; simp add: wf_reply_info_def PACKET_SIZE_def)+
  obtain flags code data where d: "flags \<in> {0, DRIVE_PROTO_FLAG_EXTENDED_FEATURES}"
    "length data \<le> REPLY_DATA_SIZE" "n = length data + 8"
    "ri_send_packet (ps_info ps) = draft Little request flags code data (ri_send_packet (cache ! i))"
    using process_request_draft [OF pr [unfolded n] old] assms(1,3) by (auto simp: drive_view_def)
  have "reply = take n (seal_reply Little (checksum_flag Little packet)
      (d_read_only (sv_drives s' ! unat (hdr_drive request AND 0x1F))) n (ri_send_packet (ps_info ps)))"
    using assms(1,4,6) g run n i(1)
    by (auto simp: serve_packet_def sx_defs update_cache_def Let_def split: if_splits)
  moreover have "n \<le> length (ri_send_packet (cache ! i))"
    using d(2,3) i(2) by (simp add: wf_reply_info_def PACKET_SIZE_def REPLY_DATA_SIZE_def)
  ultimately show ?thesis
    using sealed_header [OF d(1-3), of "ri_send_packet (cache ! i)" request] d(4) hdr
    by (simp add: good_header_def hdr_version_def hdr_sequence_def)
qed

lemma sample_server_fresh:
  "e_native sample_env = Little" "wf_cache (sv_cache (sample_server sample_drive))"
  "\<forall>k < length (sv_drives (sample_server sample_drive)). wf_names (drive_view (sample_server sample_drive) k)"
  "last_exchange 1 2 (sv_cache (sample_server sample_drive)) = None"
proof -
  show "e_native sample_env = Little" by (simp add: sample_env_def)
  show "wf_cache (sv_cache (sample_server sample_drive))" by (simp add: sample_server_def wf_empty_cache)
  have "wf_names (drive_view (sample_server sample_drive) k)" if "k < length (sv_drives (sample_server sample_drive))" for k
    using that by (cases "k = 2") (simp_all add: sample_server_def drive_view_def wf_names_def
        wf_label_and_lists_def sample_drive_def default_drive_def wf_fcb_def)
  then show "\<forall>k < length (sv_drives (sample_server sample_drive)). wf_names (drive_view (sample_server sample_drive) k)"
    by blast
  show "last_exchange 1 2 (sv_cache (sample_server sample_drive)) = None"
    by (simp add: sample_server_def last_exchange_def find_None_iff empty_cache_def empty_reply_info_def owned_by_def)
qed

text \<open>C26: On a little-endian machine every reply to a new request has a header that the client
  accepts: protocol version and sequence number of the request, the length of the packet, the flag of
  a read-only share, and a valid checksum, or the magic number if the request came without one; it
  never exceeds 1500 bytes.\<close>

theorem reply_header_accepted:
  assumes "e_native env = Little" "wf_cache (sv_cache s)"
    "\<forall>k < length (sv_drives s). wf_names (drive_view s k)"
    "accept_packet Little packet = Some request"
    "\<forall>info. last_exchange ip port (sv_cache s) = Some info \<longrightarrow> \<not> repeated request info"
    "serve_packet env packet ip port s = (Inr (Some reply), s')"
  shows "good_header packet (hdr_sequence packet) (checksum_flag Little packet)
    (d_read_only (sv_drives s' ! unat (hdr_drive packet AND 0x1F))) reply"
  by (rule reply_header_good [OF assms])

theorem reply_header_accepted_witness:
  "\<exists>reply s'. serve_packet sample_env sample_query 1 2 (sample_server sample_drive) = (Inr (Some reply), s') \<and>
     good_header sample_query 7 False (d_read_only (sv_drives s' ! 2)) reply"
proof -
  have q: "hdr_sequence sample_query = 7" "\<not> checksum_flag Little sample_query" "hdr_drive sample_query = 2"
    by code_simp+
  obtain reply s' where served:
    "serve_packet sample_env sample_query 1 2 (sample_server sample_drive) = (Inr (Some reply), s')"
    using sample_query_served by blast
  have "good_header sample_query (hdr_sequence sample_query) (checksum_flag Little sample_query)
      (d_read_only (sv_drives s' ! unat (hdr_drive sample_query AND 0x1F))) reply"
    using sample_server_fresh by (intro reply_header_accepted [OF _ _ _ sample_query_accepted _ served]) simp_all
  then show ?thesis using served q by auto
qed

end
