(* ===== verification/Files.thy ===== *)
theory Files
  imports Samples
begin

text \<open>
  What is stored can be read again: the bytes of a file, and the DOS attributes of a file or
  directory in both kinds of storage. A change of the contents or of the attributes of one file
  does not change where paths lead.
\<close>

section \<open>Paths lead to the same place\<close>

text \<open>Two nodes that path resolution cannot tell apart.\<close>

definition same_kind :: "node \<Rightarrow> node \<Rightarrow> bool" where
  "same_kind a b \<longleftrightarrow> (case (n_kind a, n_kind b) of
     (File _, File _) \<Rightarrow> True | (Dir, Dir) \<Rightarrow> True | (Symlink p, Symlink q) \<Rightarrow> p = q | _ \<Rightarrow> False)"

definition same_shape :: "tree \<Rightarrow> tree \<Rightarrow> bool" where
  "same_shape t t' \<longleftrightarrow> (\<forall>l. rel_option same_kind (map_of t l) (map_of t' l))"

lemma same_kind_refl [simp]: "same_kind a a"
  by (cases "n_kind a") (simp_all add: same_kind_def)

lemma same_shapeD:
  assumes "same_shape t t'" "map_of t l = Some a"
  obtains b where "map_of t' l = Some b" "same_kind a b"
  using assms unfolding same_shape_def by (metis option.rel_cases option.distinct(1) option.inject)

lemma same_shape_None: "same_shape t t' \<Longrightarrow> map_of t l = None \<Longrightarrow> map_of t' l = None"
  unfolding same_shape_def by (metis option.rel_distinct(1) option.exhaust)

lemma same_kind_Dir: "same_kind a b \<Longrightarrow> (n_kind a = Dir) = (n_kind b = Dir)"
  by (auto simp: same_kind_def split: inode.splits)

lemma walk_same_shape:
  assumes "same_shape t t'"
  shows "walk t' follow n cur cs = walk t follow n cur cs"
  using assms
proof (induction t follow n cur cs rule: walk.induct)
  case (2 t follow n cur c cs)
  show ?case
  proof (cases "map_of t cur")
    case None
    then show ?thesis using same_shape_None [OF 2(6)] by simp
  next
    case (Some nd)
    obtain nd' where nd': "map_of t' cur = Some nd'" "same_kind nd nd'"
      using same_shapeD [OF 2(6) Some] .
    show ?thesis
    proof (cases "n_kind nd = Dir \<and> c \<noteq> [] \<and> c \<noteq> dot \<and> c \<noteq> dotdot")
      case False
      then show ?thesis using Some nd' 2 same_kind_Dir [OF nd'(2)] by auto
    next
      case True
      then have dir: "n_kind nd' = Dir" using same_kind_Dir [OF nd'(2)] by blast
      show ?thesis
      proof (cases "map_of t (cur @ [c])")
        case None
        then show ?thesis using True Some nd' dir same_shape_None [OF 2(6)] by simp
      next
        case (Some x)
        obtain y where y: "map_of t' (cur @ [c]) = Some y" "same_kind x y"
          using same_shapeD [OF 2(6) Some] .
        note here = True \<open>map_of t cur = Some nd\<close> Some nd'(1) dir y(1) 2(6)
        show ?thesis
        proof (cases "n_kind x")
          case (File bs)
          with y(2) obtain bs' where "n_kind y = File bs'" by (auto simp: same_kind_def split: inode.splits)
          with here File 2(3) show ?thesis by simp
        next
          case Dir
          with y(2) have "n_kind y = Dir" using same_kind_Dir by blast
          with here Dir 2(4) show ?thesis by simp
        next
          case (Symlink q)
          with y(2) have "n_kind y = Symlink q" by (auto simp: same_kind_def split: inode.splits)
          with here Symlink 2(5) show ?thesis by simp
        qed
      qed
    qed
  qed
qed simp

lemma map_of_tree_put: "map_of (tree_put loc nd t) l = (if l = loc then Some nd else map_of t l)"
proof (cases "loc \<in> fst ` set t")
  case True
  have "map_of (map (\<lambda>(l, x). (l, if l = loc then nd else x)) t) l =
      (if l = loc \<and> map_of t l \<noteq> None then Some nd else map_of t l)"
    by (induction t) auto
  with True show ?thesis by (auto simp: tree_put_def map_of_eq_None_iff)
next
  case False
  then have "map_of t loc = None" by (simp add: map_of_eq_None_iff)
  with False show ?thesis by (auto simp: tree_put_def map_add_def split: option.split)
qed

lemma same_shape_put:
  "map_of t loc = Some nd \<Longrightarrow> same_kind nd nd' \<Longrightarrow> same_shape t (tree_put loc nd' t)"
  unfolding same_shape_def by (auto simp: map_of_tree_put option.rel_refl)

text \<open>The node at a location was exchanged for one of the same kind.\<close>

definition touched :: "loc \<Rightarrow> node \<Rightarrow> host \<Rightarrow> host \<Rightarrow> bool" where
  "touched loc nd' h h' \<longleftrightarrow> h' = set_node loc nd' h \<and> (\<exists>nd. map_of (h_tree h) loc = Some nd \<and> same_kind nd nd')"

lemma touched_resolve: "touched loc nd' h h' \<Longrightarrow> resolve follow h' p = resolve follow h p"
  using walk_same_shape [OF same_shape_put, of "h_tree h" loc _ nd' follow]
  by (auto simp: touched_def resolve_def set_node_def Let_def)

lemma touched_access: "touched loc nd' h h' \<Longrightarrow> access op follow h' p = access op follow h p"
  using touched_resolve [of loc nd' h h' follow p]
  by (auto simp: access_def touched_def set_node_def split: sum.split)

lemma touched_access_node:
  assumes "touched loc nd' h h'"
  shows "access_node op follow h' p =
    (case access_node op follow h p of Inl e \<Rightarrow> Inl e | Inr (l, nd) \<Rightarrow> Inr (l, if l = loc then nd' else nd))"
  using touched_access [OF assms, of op follow p] assms
  by (auto simp: access_node_def touched_def set_node_def map_of_tree_put split: sum.split option.split)

lemma touched_status:
  assumes "touched loc nd' h h'"
  shows "exists h' p = exists h p" "is_directory h' p = is_directory h p" "is_symlink h' p = is_symlink h p"
proof -
  have kind: "same_kind nd nd'" if "access_node op follow h p = Inr (loc, nd)" for op follow nd
    using assms that by (auto simp: touched_def access_node_def split: sum.splits option.splits)
  have st: "rel_sum (=) (rel_option same_kind) (fs_status follow h p) (fs_status follow h' p)" for follow
    using kind [of SysStat follow]
    by (auto simp: fs_status_def touched_access_node [OF assms] split: sum.split)
  show "exists h' p = exists h p" "is_directory h' p = is_directory h p"
    using st [of True] by (auto simp: exists_def is_directory_def same_kind_Dir elim!: rel_sum.cases option.rel_cases)
  show "is_symlink h' p = is_symlink h p"
    using st [of False]
    by (auto simp: is_symlink_def same_kind_def elim!: rel_sum.cases option.rel_cases split: inode.splits)
qed

lemma touched_dangling: "touched loc nd' h h' \<Longrightarrow> is_dangling_symlink h' p = is_dangling_symlink h p"
  by (simp add: is_dangling_symlink_def touched_status)


section \<open>Contents\<close>

lemma slice_write_bytes_at: "slice (write_bytes_at bs off data) off (length data) = data"
  by (simp add: write_bytes_at_def slice_def)

text \<open>A file behind a handle that can be opened, read and written.\<close>

definition open_file :: "dstate \<Rightarrow> u16 \<Rightarrow> loc \<Rightarrow> node \<Rightarrow> byte list \<Rightarrow> bool" where
  "open_file s n loc nd bs \<longleftrightarrow>
     unat n < length (d_items (s_drive s)) \<and> \<not> path_is_empty (i_path (d_items (s_drive s) ! unat n)) \<and>
     access_node SysOpen True (s_host s) (i_path (d_items (s_drive s) ! unat n)) = Inr (loc, nd) \<and>
     n_kind nd = File bs \<and> \<not> is_dangling_symlink (s_host s) (i_path (d_items (s_drive s) ! unat n)) \<and>
     h_faults (s_host s) SysSeek loc = None \<and> h_faults (s_host s) SysRead loc = None \<and>
     h_faults (s_host s) SysFlush loc = None"

definition used_now :: "u16 \<Rightarrow> dstate \<Rightarrow> dstate" where
  "used_now n s = snd (update_last_used_timestamp n s)"

lemma used_now_simps [simp]:
  "s_host (used_now n s) = s_host s" "length (d_items (s_drive (used_now n s))) = length (d_items (s_drive s))"
  "i_path (d_items (s_drive (used_now n s)) ! unat n) = i_path (d_items (s_drive s) ! unat n)"
  "update_last_used_timestamp n s = (Inr (), used_now n s)"
  by (cases "unat n < length (d_items (s_drive s))";
      simp add: used_now_def update_last_used_timestamp_def update_item_def set_items_def Let_def list_update_beyond)+

lemma read_open_file:
  assumes "open_file s n loc nd bs"
  shows "read_file n off len s = (Inr (slice bs (unat off) (unat len)), used_now n s)"
  using assms
  by (simp add: open_file_def read_file_def get_item_def sx_defs on_host_def fs_defs read_at_def Let_def)

lemma write_open_file:
  fixes off :: u32
  assumes "open_file s n loc nd bs" "\<not> d_read_only (s_drive s)" "data \<noteq> []"
  defines "nd' \<equiv> nd\<lparr>n_kind := File (write_bytes_at bs (unat off) data), n_mtime := h_clock (s_host s)\<rparr>"
  shows "write_file data n off s = (Inr (length data), (used_now n s)\<lparr>s_host := set_node loc nd' (s_host s)\<rparr>)"
    and "touched loc nd' (s_host s) (set_node loc nd' (s_host s))"
proof -
  show "write_file data n off s = (Inr (length data), (used_now n s)\<lparr>s_host := set_node loc nd' (s_host s)\<rparr>)"
    using assms
    by (simp add: open_file_def write_file_def gets_drive_def get_item_def sx_defs on_host_def fs_defs write_at_def Let_def)
  have "map_of (h_tree (s_host s)) loc = Some nd"
    using assms(1) by (auto simp: open_file_def access_node_def split: sum.splits option.splits)
  then show "touched loc nd' (s_host s) (set_node loc nd' (s_host s))"
    using assms(1) by (simp add: touched_def same_kind_def nd'_def open_file_def)
qed

lemma touched_faults: "touched loc nd' h h' \<Longrightarrow> h_faults h' = h_faults h"
  by (auto simp: touched_def set_node_def)

lemma open_file_written:
  fixes off :: u32
  assumes "open_file s n loc nd bs" "\<not> d_read_only (s_drive s)" "data \<noteq> []"
  defines "nd' \<equiv> nd\<lparr>n_kind := File (write_bytes_at bs (unat off) data), n_mtime := h_clock (s_host s)\<rparr>"
  defines "s1 \<equiv> (used_now n s)\<lparr>s_host := set_node loc nd' (s_host s)\<rparr>"
  shows "write_file data n off s = (Inr (length data), s1)" "open_file s1 n loc nd' (write_bytes_at bs (unat off) data)"
proof -
  show "write_file data n off s = (Inr (length data), s1)"
    using write_open_file(1) [OF assms(1-3), of off] by (simp add: s1_def nd'_def)
  have t: "touched loc nd' (s_host s) (s_host s1)"
    using write_open_file(2) [OF assms(1-3), of off] by (simp add: s1_def nd'_def)
  show "open_file s1 n loc nd' (write_bytes_at bs (unat off) data)"
    using assms(1) touched_access_node [OF t] touched_dangling [OF t] touched_faults [OF t]
    by (simp add: open_file_def s1_def nd'_def)
qed

text \<open>C27: What a client writes into an open file is what it reads at the same place afterwards; all
  bytes are accepted, and no other file or directory of the host changes.\<close>

theorem write_then_read:
  assumes "open_file s n loc nd bs" "\<not> d_read_only (s_drive s)" "data \<noteq> []" "length data < 65536"
  shows "\<exists>s1 s2. write_file data n off s = (Inr (length data), s1) \<and>
    read_file n off (of_nat (length data)) s1 = (Inr data, s2) \<and>
    (\<forall>l. l \<noteq> loc \<longrightarrow> map_of (h_tree (s_host s2)) l = map_of (h_tree (s_host s)) l)"
proof -
  define nd' where "nd' = nd\<lparr>n_kind := File (write_bytes_at bs (unat off) data), n_mtime := h_clock (s_host s)\<rparr>"
  define s1 where "s1 = (used_now n s)\<lparr>s_host := set_node loc nd' (s_host s)\<rparr>"
  have w: "write_file data n off s = (Inr (length data), s1)"
    and "open_file s1 n loc nd' (write_bytes_at bs (unat off) data)"
    using open_file_written [OF assms(1-3), of off] by (simp_all add: s1_def nd'_def)
  then have "read_file n off (of_nat (length data)) s1 = (Inr data, used_now n s1)"
    using assms(4) by (simp add: read_open_file unat_of_nat take_bit_nat_eq_self slice_write_bytes_at)
  moreover have "\<forall>l. l \<noteq> loc \<longrightarrow> map_of (h_tree (s_host s1)) l = map_of (h_tree (s_host s)) l"
    by (simp add: s1_def set_node_def map_of_tree_put)
  ultimately show ?thesis using w by auto
qed

definition sample_open :: dstate where
  "sample_open = sample_dstate\<lparr>s_drive := sample_drive\<lparr>
     d_items := [empty_item\<lparr>i_path := append_name sample_root (bytes_of ''a.txt'')\<rparr>]\<rparr>\<rparr>"

theorem write_then_read_witness:
  "\<exists>s1 s2. write_file (bytes_of ''new'') 0 2 sample_open = (Inr 3, s1) \<and>
     read_file 0 2 3 s1 = (Inr (bytes_of ''new''), s2)"
proof -
  have "open_file sample_open 0 [bytes_of ''s'', bytes_of ''a.txt''] (sample_node (File (bytes_of ''hello'')))
      (bytes_of ''hello'')" by code_simp
  moreover have "\<not> d_read_only (s_drive sample_open)" by code_simp
  moreover have "length (bytes_of ''new'') = 3" by code_simp
  ultimately show ?thesis using write_then_read [of sample_open 0 _ _ _ "bytes_of ''new''" 2] by fastforce
qed


section \<open>Attributes\<close>

lemma and_one_bit: "a AND push_bit k 1 = (if bit a k then push_bit k 1 else 0)" for a :: "'a::len word"
  by (rule bit_word_eqI) (auto simp: bit_simps)

lemma fat_bits:
  "FAT_RO = push_bit 0 1" "FAT_HIDDEN = push_bit 1 1" "FAT_SYSTEM = push_bit 2 1" "FAT_ARCHIVE = push_bit 5 1"
  by (simp_all add: fat_consts push_bit_eq_mult)

lemma ext_mask_split:
  "a AND ext_mask = (a AND FAT_RO) OR (a AND FAT_HIDDEN) OR (a AND FAT_SYSTEM) OR (a AND FAT_ARCHIVE)"
  by (rule bit_word_eqI) (auto simp: ext_mask_def bit_simps)

lemma fat_one_bit: "m \<in> {FAT_RO, FAT_HIDDEN, FAT_SYSTEM, FAT_ARCHIVE} \<Longrightarrow> (if a AND m \<noteq> 0 then m else 0) = a AND m"
proof -
  have "(if a AND push_bit k 1 \<noteq> 0 then push_bit k 1 else 0) = a AND push_bit k 1" for k
    unfolding and_one_bit by (cases "bit a k") simp_all
  then show "m \<in> {FAT_RO, FAT_HIDDEN, FAT_SYSTEM, FAT_ARCHIVE} \<Longrightarrow> ?thesis"
    unfolding fat_bits by blast
qed

lemma set_dos_attrs_native_result:
  assumes "set_dos_attrs_native p a h = (Inr (), h')"
  shows "get_dos_attrs_native p h' = (Inr (a AND ext_mask), h')"
proof -
  let ?fat = "(if a AND FAT_RO \<noteq> 0 then 1 else 0) OR (if a AND FAT_HIDDEN \<noteq> 0 then 2 else 0)
      OR (if a AND FAT_SYSTEM \<noteq> 0 then 4 else 0) OR (if a AND FAT_ARCHIVE \<noteq> 0 then 32 else 0) :: u32"
  obtain loc nd where acc: "access_node SysOpen True h p = Inr (loc, nd)" "h_fat_fs h" "h_faults h SysIoctl loc = None"
    and h': "h' = set_node loc (nd\<lparr>n_fat := ?fat\<rparr>) h"
    using assms by (auto simp: set_dos_attrs_native_def fat_ioctl_set_def Let_def split: sum.splits option.splits if_splits)
  have t: "touched loc (nd\<lparr>n_fat := ?fat\<rparr>) h h'"
    using acc(1) h' by (auto simp: touched_def access_node_def same_kind_def split: sum.splits option.splits inode.splits)
  have get: "fat_ioctl_get h' p = Inr ?fat"
    using acc touched_access_node [OF t] touched_faults [OF t] h'
    by (simp add: fat_ioctl_get_def set_node_def)
  have fat: "?fat AND 1 \<noteq> 0 \<longleftrightarrow> a AND FAT_RO \<noteq> 0" "?fat AND 2 \<noteq> 0 \<longleftrightarrow> a AND FAT_HIDDEN \<noteq> 0"
    "?fat AND 4 \<noteq> 0 \<longleftrightarrow> a AND FAT_SYSTEM \<noteq> 0" "?fat AND 32 \<noteq> 0 \<longleftrightarrow> a AND FAT_ARCHIVE \<noteq> 0"
    by simp_all
  show ?thesis
    unfolding get_dos_attrs_native_def get sum.case fat ext_mask_split by (simp add: fat_one_bit)
qed

lemma touched_xattr:
  assumes "access_node SysXattr True h p = Inr (loc, nd)"
  shows "touched loc (nd\<lparr>n_xattr := v\<rparr>) h (set_node loc (nd\<lparr>n_xattr := v\<rparr>) h)"
  using assms by (auto simp: touched_def access_node_def same_kind_def split: sum.splits option.splits inode.splits)

lemma get_after_xattr:
  assumes "access_node SysXattr True h p = Inr (loc, nd)" "h_xattr_fs h"
  shows "getxattr (set_node loc (nd\<lparr>n_xattr := v\<rparr>) h) p 8 =
    (case v of None \<Rightarrow> Inl no_message_available | Some b \<Rightarrow> if length b > 8 then Inl other_errc else Inr b)"
  using touched_access_node [OF touched_xattr [OF assms(1), of v], of SysXattr True p] assms
  by (simp add: getxattr_def set_node_def split: option.split)

lemma remove_default_attrs:
  assumes "removexattr p h = (r, h')" "r = Inr () \<or> r = Inl no_message_available"
  shows "getxattr h' p 8 = Inl no_message_available \<and> is_directory h' p = is_directory h p"
proof (cases "access_node SysXattr True h p")
  case (Inl e)
  with assms show ?thesis by (auto simp: removexattr_def getxattr_def)
next
  case (Inr ln)
  then obtain loc nd where acc: "access_node SysXattr True h p = Inr (loc, nd)" by (cases ln) auto
  have fs: "h_xattr_fs h" using assms acc by (auto simp: removexattr_def split: if_splits)
  show ?thesis
  proof (cases "n_xattr nd")
    case None
    with assms acc fs show ?thesis by (simp add: removexattr_def getxattr_def)
  next
    case (Some v)
    with assms acc fs have "h' = set_node loc (nd\<lparr>n_xattr := None\<rparr>) h" by (simp add: removexattr_def)
    then show ?thesis
      using get_after_xattr [OF acc fs, of None] touched_status(2) [OF touched_xattr [OF acc]] by simp
  qed
qed

text \<open>The attributes that are stored by the absence of the extended attribute.\<close>

definition default_attrs :: "host \<Rightarrow> path \<Rightarrow> u8 \<Rightarrow> bool" where
  "default_attrs h p m \<longleftrightarrow> (\<exists>d. is_directory h p = Inr d \<and> m = (if d then FAT_NONE else FAT_ARCHIVE))"

lemma set_dos_attrs_extended_cases:
  assumes "set_dos_attrs_to_extended p a h = (Inr (), h')"
  shows "if default_attrs h p (a AND ext_mask)
    then \<exists>r. removexattr p h = (r, h') \<and> (r = Inr () \<or> r = Inl no_message_available)
    else setxattr p [a AND ext_mask] h = (Inr (), h')"
proof -
  define m where "m = a AND ext_mask"
  have ne: "FAT_NONE \<noteq> FAT_ARCHIVE" by (simp add: fat_consts)
  have run: "set_dos_attrs_to_extended p a h = (Inr (), h')" by (rule assms)
  show ?thesis
    unfolding m_def [symmetric] using run
    unfolding set_dos_attrs_to_extended_def m_def [symmetric] Let_def default_attrs_def
    by (cases "is_directory h p"; cases "m = FAT_NONE"; cases "m = FAT_ARCHIVE")
      (auto simp: sx_defs fs_defs ne ne [symmetric] split: if_splits prod.splits sum.splits)
qed

lemma set_dos_attrs_extended_result:
  assumes "set_dos_attrs_to_extended p a h = (Inr (), h')"
  shows "get_dos_attrs_from_extended p h' = (Inr (a AND ext_mask), h')"
proof (cases "default_attrs h p (a AND ext_mask)")
  case True
  then obtain d where d: "is_directory h p = Inr d" "a AND ext_mask = (if d then FAT_NONE else FAT_ARCHIVE)"
    by (auto simp: default_attrs_def)
  obtain r where r: "removexattr p h = (r, h')" "r = Inr () \<or> r = Inl no_message_available"
    using set_dos_attrs_extended_cases [OF assms] True by auto
  show ?thesis
    using remove_default_attrs [OF r] d by (simp add: get_dos_attrs_from_extended_def sx_defs fs_defs)
next
  case False
  then have "setxattr p [a AND ext_mask] h = (Inr (), h')"
    using set_dos_attrs_extended_cases [OF assms] by simp
  then obtain loc nd where acc: "access_node SysXattr True h p = Inr (loc, nd)" "h_xattr_fs h"
    "h' = set_node loc (nd\<lparr>n_xattr := Some [a AND ext_mask]\<rparr>) h"
    by (auto simp: setxattr_def split: sum.splits if_splits)
  show ?thesis
    using get_after_xattr [OF acc(1,2), of "Some [a AND ext_mask]"] acc(3)
    by (simp add: get_dos_attrs_from_extended_def and.assoc)
qed

text \<open>None of this changes whether a path is a dangling link.\<close>

definition same_links :: "host \<Rightarrow> host \<Rightarrow> bool" where
  "same_links h h' \<longleftrightarrow> (\<forall>q. is_dangling_symlink h' q = is_dangling_symlink h q)"

lemma touched_links: "touched loc nd h h' \<Longrightarrow> same_links h h'"
  by (simp add: same_links_def touched_dangling)

lemma attr_calls_links:
  "same_links h (snd (fat_ioctl_set p x h))" "same_links h (snd (setxattr p v h))" "same_links h (snd (removexattr p h))"
proof -
  have "same_links h (set_node loc (nd\<lparr>n_fat := x\<rparr>) h)" if "access_node SysOpen True h p = Inr (loc, nd)" for loc nd
    using that by (intro touched_links [of loc "nd\<lparr>n_fat := x\<rparr>"])
      (auto simp: touched_def access_node_def same_kind_def split: sum.splits option.splits inode.splits)
  then show "same_links h (snd (fat_ioctl_set p x h))"
    by (auto simp: fat_ioctl_set_def same_links_def split: sum.split option.split)
  show "same_links h (snd (setxattr p v h))" "same_links h (snd (removexattr p h))"
    using touched_links [OF touched_xattr]
    by (auto simp: setxattr_def removexattr_def same_links_def split: sum.split option.split)
qed

lemma set_dos_attrs_links:
  "same_links h (snd (set_dos_attrs_native p a h))" "same_links h (snd (set_dos_attrs_to_extended p a h))"
proof -
  show "same_links h (snd (set_dos_attrs_native p a h))"
    using attr_calls_links(1) [of h p] unfolding set_dos_attrs_native_def Let_def
    by (simp add: case_prod_unfold split: sum.split split del: if_split)
  have "keeps (same_links h) (set_dos_attrs_to_extended p a)"
    unfolding set_dos_attrs_to_extended_def Let_def
    by (intro keeps_intros keeps_fs_do) (use attr_calls_links in \<open>auto simp: same_links_def\<close>)
  then show "same_links h (snd (set_dos_attrs_to_extended p a h))"
    by (rule keepsD) (simp add: same_links_def)
qed

text \<open>C28: The attributes read-only, hidden, system and archive that are set for a file or directory
  are the ones that are read afterwards, with storage in the file system and with storage in an
  extended attribute; no other bits are stored.\<close>

theorem set_then_get_attrs:
  assumes "mode = NATIVE \<or> mode = IN_EXTENDED" "set_item_attrs p a mode h = (Inr (), h')"
  shows "get_item_attrs p mode h' = (Inr (a AND (FAT_ARCHIVE OR FAT_HIDDEN OR FAT_RO OR FAT_SYSTEM)), h')"
proof -
  have "\<not> is_dangling_symlink h p"
    using assms(2) by (auto simp: set_item_attrs_def sx_defs fs_defs split: if_splits)
  moreover from this have "(if mode = NATIVE then set_dos_attrs_native p a h else set_dos_attrs_to_extended p a h) = (Inr (), h')"
    using assms by (auto simp: set_item_attrs_def sx_defs fs_defs)
  moreover from this have "\<not> is_dangling_symlink h' p" if "\<not> is_dangling_symlink h p"
    using that set_dos_attrs_links [of h p a] by (auto simp: same_links_def split: if_splits)
  ultimately have "get_item_attrs p mode h' = (Inr (a AND ext_mask), h')"
    using assms(1) set_dos_attrs_native_result set_dos_attrs_extended_result
    by (auto simp: get_item_attrs_def sx_defs fs_defs)
  then show ?thesis by (simp add: ext_mask_def)
qed

theorem set_then_get_attrs_witness:
  "\<exists>h'. set_item_attrs (append_name sample_root (bytes_of ''d'')) 0x27 IN_EXTENDED sample_host = (Inr (), h') \<and>
     get_item_attrs (append_name sample_root (bytes_of ''d'')) IN_EXTENDED h' = (Inr 0x27, h')"
proof -
  let ?r = "set_item_attrs (append_name sample_root (bytes_of ''d'')) 0x27 IN_EXTENDED sample_host"
  have "fst ?r = Inr ()" by code_simp
  then have "?r = (Inr (), snd ?r)" by (simp add: prod_eq_iff)
  then show ?thesis
    using set_then_get_attrs [of IN_EXTENDED _ "0x27" sample_host "snd ?r"] by (auto simp: fat_consts)
qed

end
