(* ===== verification/Answers.thy ===== *)
theory Answers
  imports Files
begin

text \<open>
  The answers that carry computed numbers: how much may be read at once, the position of a seek from
  the end of a file, and the size of the file system in clusters.
\<close>

section \<open>Reading\<close>

lemma read_file_bound:
  assumes "read_file n off len s = (Inr bs, s')"
  shows "length bs \<le> unat len"
  using assms
  by (auto simp: read_file_def get_item_def sx_defs on_host_def fs_defs read_at_def Let_def
      update_last_used_timestamp_def update_item_def
      split: if_splits sum.splits io_result.splits inode.splits prod.splits)

lemma read_file_no_oob: "fst (read_file n off len s) \<noteq> Inl OutOfBounds"
  by (simp add: read_file_def get_item_def sx_defs on_host_def fs_defs Let_def
      update_last_used_timestamp_def update_item_def split: io_result.split)

text \<open>C31: A read request never leaves the reply packet when it asks for at most 1492 bytes. A request
  for more is not refused: from a file that is long enough the data runs over the end of the packet.\<close>

theorem read_request_bound:
  assumes "length data = 8" "n = rf_start_cluster (readf_of (e_native env) data)"
    "len = rf_length (readf_of (e_native env) data)" "off = rf_offset (readf_of (e_native env) data)"
  shows "(unat len \<le> REPLY_DATA_SIZE \<longrightarrow> fst (req_read_file env data s) \<noteq> Inl OutOfBounds) \<and>
    (REPLY_DATA_SIZE < unat len \<and> open_file s n loc nd bs \<and> unat off + REPLY_DATA_SIZE < length bs \<longrightarrow>
       fst (req_read_file env data s) = Inl OutOfBounds)"
proof (intro conjI impI)
  obtain r s1 where r: "read_file n off len s = (r, s1)" by fastforce
  show "fst (req_read_file env data s) \<noteq> Inl OutOfBounds" if "unat len \<le> REPLY_DATA_SIZE"
    using that assms r read_file_bound [of n off len s _ s1] read_file_no_oob [of n off len s]
    by (cases r) (auto simp: req_read_file_def answer_errors_def sx_defs Let_def dest: order_trans)
  show "fst (req_read_file env data s) = Inl OutOfBounds"
    if *: "REPLY_DATA_SIZE < unat len \<and> open_file s n loc nd bs \<and> unat off + REPLY_DATA_SIZE < length bs"
  proof -
    have "length (slice bs (unat off) (unat len)) > REPLY_DATA_SIZE" using * by (simp add: less_diff_conv add.commute)
    then show ?thesis
      using * assms read_open_file [of s n loc nd bs off len]
      by (simp add: req_read_file_def answer_errors_def sx_defs Let_def)
  qed
qed

definition long_file :: "byte list" where
  "long_file = replicate 1600 0"

definition sample_long :: "byte list \<Rightarrow> dstate" where
  "sample_long bs = sample_open\<lparr>s_host := sample_host\<lparr>h_tree :=
     [([], sample_node Dir), ([bytes_of ''s''], sample_node Dir),
      ([bytes_of ''s'', bytes_of ''a.txt''], sample_node (File bs))]\<rparr>\<rparr>"

lemma sample_long_access:
  "access SysOpen True (s_host (sample_long bs)) (i_path (d_items (s_drive (sample_long bs)) ! 0)) =
     Inr [bytes_of ''s'', bytes_of ''a.txt'']"
  by code_simp

lemma sample_long_plain:
  "\<not> is_dangling_symlink (s_host (sample_long bs)) (i_path (d_items (s_drive (sample_long bs)) ! 0))"
  by code_simp

lemma sample_long_items: "\<not> path_is_empty (i_path (d_items (s_drive (sample_long bs)) ! 0)) \<and> 0 < length (d_items (s_drive (sample_long bs)))"
  by code_simp

lemma sample_long_node:
  "map_of (h_tree (s_host (sample_long bs))) [bytes_of ''s'', bytes_of ''a.txt''] = Some (sample_node (File bs))"
  by (simp add: sample_long_def bytes_of_def)

lemma sample_long_open:
  "open_file (sample_long bs) 0 [bytes_of ''s'', bytes_of ''a.txt''] (sample_node (File bs)) bs"
  using sample_long_items [of bs]
  by (simp add: open_file_def access_node_def sample_long_access sample_long_node sample_long_plain)
   (simp add: sample_node_def sample_long_def sample_host_def)

theorem read_request_bound_witness:
  "fst (req_read_file sample_env [0, 0, 0, 0, 0, 0, 8, 0] sample_open) \<noteq> Inl OutOfBounds \<and>
   fst (req_read_file sample_env [0, 0, 0, 0, 0, 0, 0x40, 6] (sample_long long_file)) = Inl OutOfBounds"
proof
  have "readf_of (e_native sample_env) [0, 0, 0, 0, 0, 0, 8, 0] = \<lparr>rf_offset = 0, rf_start_cluster = 0, rf_length = 8\<rparr>"
    by code_simp
  then show "fst (req_read_file sample_env [0, 0, 0, 0, 0, 0, 8, 0] sample_open) \<noteq> Inl OutOfBounds"
    by (intro read_request_bound [where len = 8, THEN conjunct1, THEN mp]) (simp_all add: REPLY_DATA_SIZE_def)
  have "readf_of (e_native sample_env) [0, 0, 0, 0, 0, 0, 0x40, 6] = \<lparr>rf_offset = 0, rf_start_cluster = 0, rf_length = 1600\<rparr>"
    by code_simp
  then show "fst (req_read_file sample_env [0, 0, 0, 0, 0, 0, 0x40, 6] (sample_long long_file)) = Inl OutOfBounds"
    using sample_long_open [of long_file]
    by (intro read_request_bound [where len = 1600 and bs = long_file, THEN conjunct2, THEN mp])
      (simp_all add: REPLY_DATA_SIZE_def, auto simp: long_file_def)
qed


section \<open>Seeking\<close>

lemma put32_halves: "put16 native (ucast w) @ put16 native (ucast (drop_bit 16 w)) = put32 native (w :: u32)"
proof -
  have low: "(ucast (drop_bit k (ucast w :: u16)) :: byte) = ucast (drop_bit k w)" if "k \<le> 8" for k
    by (rule bit_word_eqI) (use that in \<open>auto simp: bit_simps\<close>)
  have high: "(ucast (drop_bit k (ucast (drop_bit 16 w) :: u16)) :: byte) = ucast (drop_bit (16 + k) w)" if "k \<le> 8" for k
    by (rule bit_word_eqI) (use that in \<open>auto simp: bit_simps ac_simps\<close>)
  show ?thesis
    unfolding to_little16_wire [of native] to_little32_wire [of native]
    using low [of 0] low [of 8] high [of 0] high [of 8]
    by (simp add: put16_def put32_def store16_def store32_def to_little16_def to_little32_def)
qed

lemma get16_halves:
  assumes "4 \<le> length d"
  shows "push_bit 16 (ucast (get16 native d 2)) + (ucast (get16 native d 0) :: u32) = get32 native d 0"
proof -
  obtain a b c e r where d: "d = a # b # c # e # r"
    using assms by (auto simp: numeral_eq_Suc Suc_le_length_iff)
  have put16_load: "put16 Little (load16 Little [x, y]) = [x, y]" for x y
    using store16_load16 [of "[x, y]" Little] by (simp add: put16_def to_little16_def)
  have hi: "\<not> bit x (16 + n)" "\<not> bit x (24 + n)" for x :: byte and n
    using bit_byte_beyond [of x "8 + n"] bit_byte_beyond [of x "16 + n"] by simp_all
  have put32_load: "put32 Little (load32 Little [a, b, c, e]) = [a, b, c, e]"
    by (auto simp: put32_def store32_def to_little32_def bit_simps hi intro!: bit_word_eqI)
  have g: "get16 native d 2 = load16 Little [c, e]" "get16 native d 0 = load16 Little [a, b]"
    "get32 native d 0 = load32 Little [a, b, c, e]"
    unfolding d
    by (rule get16_put16 [of _ _ Little] get32_put32 [of _ _ Little]; simp add: slice_def put16_load put32_load del: load16.simps load32.simps)+
  show ?thesis
    unfolding g
    by (subst disjunctive_add, force simp: bit_simps)
      (rule word32_byte_eqI; simp add: bit_simps hi)
qed

lemma size_of_open_file:
  assumes "open_file s n loc nd bs" "access_node SysStat True (s_host s) (i_path (d_items (s_drive s) ! unat n)) = Inr (loc, nd)"
  shows "get_file_size env n s = (Inr (of_nat (length bs)), used_now n s)"
proof -
  let ?p = "i_path (d_items (s_drive s) ! unat n)"
  have st: "fs_status True (s_host s) ?p = Inr (Some nd)" using assms(2) by (simp add: fs_status_def)
  then have "is_directory (s_host s) ?p = Inr False" "file_size (s_host s) ?p = Inr (length bs)"
    using assms by (simp_all add: is_directory_def file_size_def open_file_def)
  then have "\<exists>props. get_path_dos_properties env ?p IGNORE (s_host s) = (Inr (FAT_ARCHIVE, props), s_host s) \<and>
      dp_size props = of_nat (length bs)"
    using assms(1)
    by (simp add: get_path_dos_properties_def get_item_attrs_def sx_defs fs_defs Let_def basic_properties_def open_file_def
        no_throw_def fat_consts)
  moreover have "get_item n s = (Inr (d_items (s_drive s) ! unat n), s)" using assms(1) by (simp add: get_item_def open_file_def)
  moreover have "FAT_ARCHIVE \<noteq> FAT_ERROR_ATTR" by (simp add: fat_consts FAT_ERROR_ATTR_def)
  ultimately show ?thesis by (auto simp: get_file_size_def sx_defs on_host_def)
qed

text \<open>The sum of an offset that is not positive and a size that is not negative does not wrap.\<close>

lemma sint_u32: "sint (w :: u32) = (if uint w < 2 ^ 31 then uint w else uint w - 2 ^ 32)"
proof -
  have s: "sint w = (uint w + 2 ^ 31) mod 2 ^ 32 - 2 ^ 31"
    by (simp add: sint_uint signed_take_bit_eq_take_bit_shift take_bit_eq_mod)
  have u: "0 \<le> uint w" "uint w < 2 ^ 32" using uint_lt2p [of w] by simp_all
  show ?thesis
  proof (cases "uint w < 2 ^ 31")
    case True
    then have "(uint w + 2 ^ 31) mod 2 ^ 32 = uint w + 2 ^ 31" using u by simp
    then show ?thesis using s True by simp
  next
    case False
    have "(uint w + 2 ^ 31) mod 2 ^ 32 = (uint w - 2 ^ 31 + 2 ^ 32) mod 2 ^ 32" by (simp add: algebra_simps)
    also have "\<dots> = uint w - 2 ^ 31" unfolding mod_add_self2 using u False by simp
    finally show ?thesis using s False by simp
  qed
qed

lemma sint_nonneg: "0 \<le> sint (w :: u32) \<Longrightarrow> int (unat w) = sint w"
  using uint_lt2p [of w] by (auto simp: sint_u32 split: if_splits)

lemma seek_no_wrap:
  fixes offset fsize :: u32
  assumes "sint offset \<le> 0" "0 \<le> sint fsize"
  shows "sint (offset + fsize) = sint offset + sint fsize"
proof -
  define x y z where "x = uint offset" and "y = uint fsize" and "z = uint (offset + fsize)"
  have "0 \<le> x" "x < 2 ^ 32" "0 \<le> y" "y < 2 ^ 32"
    using uint_lt2p [of offset] uint_lt2p [of fsize] by (simp_all add: x_def y_def)
  moreover have "z = (if x + y < 2 ^ 32 then x + y else x + y - 2 ^ 32)"
    using uint_plus_if' [of offset fsize] by (simp add: x_def y_def z_def)
  ultimately show ?thesis
    using assms unfolding sint_u32 x_def [symmetric] y_def [symmetric] z_def [symmetric] by (auto split: if_splits)
qed

text \<open>C32: A seek from the end of an open file answers the position \<open>max 0 (size + min 0 offset)\<close>, a place in the
  file, for every signed 32-bit offset; the 32-bit sum does not overflow. A file from 2 GiB to 4 GiB is
  answered as missing, because its size is negative as a signed 32-bit number.\<close>

theorem seek_from_end_position:
  assumes "length data = 6" "open_file s (sk_start_cluster (seek_from_end_of (e_native env) data)) loc nd bs"
    "access_node SysStat True (s_host s) (i_path (d_items (s_drive s) ! unat (sk_start_cluster (seek_from_end_of (e_native env) data)))) =
       Inr (loc, nd)"
  shows "(length bs < 2 ^ 31 \<longrightarrow> (\<exists>pos s'. req_seek_from_end env data s =
      (Inr (Some (DOS_EXTERR_NO_ERROR, put32 (e_native env) pos)), s') \<and> s_host s' = s_host s \<and>
      int (unat pos) = max 0 (int (length bs) + min 0 (sint (get32 (e_native env) data 0))))) \<and>
    (2 ^ 31 \<le> length bs \<and> length bs < 2 ^ 32 \<longrightarrow>
      (\<exists>s'. req_seek_from_end env data s = (Inr (Some (DOS_EXTERR_FILE_NOT_FOUND, [])), s') \<and> s_host s' = s_host s))"
proof -
  let ?n = "sk_start_cluster (seek_from_end_of (e_native env) data)" and ?size = "of_nat (length bs) :: u32"
  let ?off = "get32 (e_native env) data 0"
  define start where "start = (if sint ?off > 0 then 0 else ?off)"
  have size: "get_file_size env ?n s = (Inr ?size, used_now ?n s)" by (rule size_of_open_file [OF assms(2,3)])
  have run: "req_seek_from_end env data s =
      (Inr (Some (if sint ?size < 0 then (DOS_EXTERR_FILE_NOT_FOUND, [])
        else (DOS_EXTERR_NO_ERROR, put32 (e_native env) (if sint (start + ?size) < 0 then 0 else start + ?size)))), used_now ?n s)"
    using assms(1) size get16_halves [of data "e_native env"]
    by (simp add: req_seek_from_end_def sx_defs Let_def seek_from_end_reply_def seek_from_end_of_def put32_halves start_def)
  have start: "sint start = min 0 (sint ?off)" "sint start \<le> 0" by (simp_all add: start_def)
  show ?thesis
  proof (intro conjI impI)
    assume small: "length bs < 2 ^ 31"
    then have fs: "sint ?size = int (length bs)" by (simp add: sint_u32 uint_nat unat_of_nat take_bit_nat_eq_self)
    let ?pos = "if sint (start + ?size) < 0 then 0 else start + ?size"
    have "sint (start + ?size) = sint start + int (length bs)" using seek_no_wrap [OF start(2), of ?size] fs by simp
    then have "int (unat ?pos) = max 0 (int (length bs) + min 0 (sint ?off))"
      using start(1) sint_nonneg [of "start + ?size"] by (auto simp: max_def)
    then show "\<exists>pos s'. req_seek_from_end env data s = (Inr (Some (DOS_EXTERR_NO_ERROR, put32 (e_native env) pos)), s') \<and>
        s_host s' = s_host s \<and> int (unat pos) = max 0 (int (length bs) + min 0 (sint ?off))"
      using run fs by (intro exI [of _ ?pos] exI [of _ "used_now ?n s"]) simp
  next
    assume "2 ^ 31 \<le> length bs \<and> length bs < 2 ^ 32"
    then have "sint ?size < 0" by (simp add: sint_u32 uint_nat unat_of_nat take_bit_nat_eq_self)
    then show "\<exists>s'. req_seek_from_end env data s = (Inr (Some (DOS_EXTERR_FILE_NOT_FOUND, [])), s') \<and> s_host s' = s_host s"
      using run by simp
  qed
qed

theorem seek_from_end_position_witness:
  "\<exists>pos s'. req_seek_from_end sample_env [0xFE, 0xFF, 0xFF, 0xFF, 0, 0] sample_open =
     (Inr (Some (DOS_EXTERR_NO_ERROR, put32 Little pos)), s') \<and> int (unat pos) = 3"
proof -
  let ?data = "[0xFE, 0xFF, 0xFF, 0xFF, 0, 0] :: byte list" and ?bs = "bytes_of ''hello''"
  let ?loc = "[bytes_of ''s'', bytes_of ''a.txt'']" and ?nd = "sample_node (File ?bs)"
  have n: "sk_start_cluster (seek_from_end_of (e_native sample_env) ?data) = 0" by code_simp
  have "open_file sample_open 0 ?loc ?nd ?bs" by code_simp
  moreover have "access_node SysStat True (s_host sample_open) (i_path (d_items (s_drive sample_open) ! unat (0 :: u16))) = Inr (?loc, ?nd)"
    by code_simp
  moreover have "length ?bs = 5" "sint (get32 (e_native sample_env) ?data 0) = - 2" "e_native sample_env = Little" by code_simp+
  ultimately show ?thesis
    using seek_from_end_position [of ?data sample_open sample_env ?loc ?nd ?bs] n by fastforce
qed


section \<open>Disk space\<close>

text \<open>Both loops halve the number of sectors \<open>k\<close> times, the smallest \<open>k\<close> for which it fits.\<close>

definition halvings :: "nat \<Rightarrow> nat \<Rightarrow> nat \<Rightarrow> bool" where
  "halvings limit t k \<longleftrightarrow> t div 2 ^ k \<le> limit \<and> (\<forall>j < k. limit < t div 2 ^ j)"

lemma halvings_step:
  assumes "limit < t" "halvings limit (t div 2) k"
  shows "halvings limit t (Suc k)"
proof -
  have "limit < t div 2 ^ j" if "j < Suc k" for j
    using that assms by (cases j) (auto simp: halvings_def div_mult2_eq)
  then show ?thesis using assms(2) by (simp add: halvings_def div_mult2_eq)
qed

lemma halvings_bound:
  assumes "halvings limit t k" "t < (limit + 1) * 2 ^ m"
  shows "k \<le> m"
proof (rule ccontr)
  assume "\<not> k \<le> m"
  then have "limit < t div 2 ^ m" using assms(1) by (simp add: halvings_def)
  moreover have "t div 2 ^ m < limit + 1" using assms(2) by (simp add: less_mult_imp_div_less mult.commute)
  ultimately show False by simp
qed

lemma scale_sectors_spec:
  "\<exists>k b' t' f'. scale_sectors b t f = (b', t', f') \<and> b' = b * 2 ^ k \<and> unat t' = unat t div 2 ^ k \<and>
     unat f' = unat f div 2 ^ k \<and> halvings 0xFFFF (unat t) k"
proof (induction b t f rule: scale_sectors.induct)
  case (1 b t f)
  show ?case
  proof (cases "t > 0xFFFF")
    case True
    then obtain k b' t' f' where *: "scale_sectors (b * 2) (t div 2) (f div 2) = (b', t', f')"
      "b' = b * 2 * 2 ^ k" "unat t' = unat (t div 2) div 2 ^ k" "unat f' = unat (f div 2) div 2 ^ k"
      "halvings 0xFFFF (unat (t div 2)) k"
      using 1 by blast
    have "0xFFFF < unat t" using True by (simp add: word_less_nat_alt)
    then have "halvings 0xFFFF (unat t) (Suc k)" using *(5) by (intro halvings_step) (simp_all add: unat_div)
    with True * show ?thesis
      by (intro exI [of _ "Suc k"]) (simp add: scale_sectors.simps [of b] unat_div div_mult2_eq mult.assoc)
  next
    case False
    then have "unat t \<le> 0xFFFF" by (simp add: word_less_nat_alt not_less)
    with False show ?thesis
      by (intro exI [of _ "0::nat"] exI [of _ b] exI [of _ t] exI [of _ f]) (simp add: scale_sectors.simps [of b] halvings_def)
  qed
qed

lemma scale_sectors_large_spec:
  "\<exists>k b' t' f'. scale_sectors_large b t f = (b', t', f') \<and> b' = b * 2 ^ k \<and> unat t' = unat t div 2 ^ k \<and>
     unat f' = unat f div 2 ^ k \<and> halvings 0xFFFFFFFF (unat t) k"
proof (induction b t f rule: scale_sectors_large.induct)
  case (1 b t f)
  show ?case
  proof (cases "t > 0xFFFFFFFF")
    case True
    then obtain k b' t' f' where *: "scale_sectors_large (b * 2) (t div 2) (f div 2) = (b', t', f')"
      "b' = b * 2 * 2 ^ k" "unat t' = unat (t div 2) div 2 ^ k" "unat f' = unat (f div 2) div 2 ^ k"
      "halvings 0xFFFFFFFF (unat (t div 2)) k"
      using 1 by blast
    have "0xFFFFFFFF < unat t" using True by (simp add: word_less_nat_alt)
    then have "halvings 0xFFFFFFFF (unat t) (Suc k)" using *(5) by (intro halvings_step) (simp_all add: unat_div)
    with True * show ?thesis
      by (intro exI [of _ "Suc k"]) (simp add: scale_sectors_large.simps [of b] unat_div div_mult2_eq mult.assoc)
  next
    case False
    then have "unat t \<le> 0xFFFFFFFF" by (simp add: word_less_nat_alt not_less)
    with False show ?thesis
      by (intro exI [of _ "0::nat"] exI [of _ b] exI [of _ t] exI [of _ f]) (simp add: scale_sectors_large.simps [of b] halvings_def)
  qed
qed

text \<open>C33: The answer to DISK\_INFO describes the size of the file system and its free space, both
  limited to 2 GiB, in clusters of \<open>512 * 2 ^ k\<close> bytes, \<open>k \<le> 6\<close>: the number of clusters and the size of
  a cluster fit into 16 bits, and \<open>k\<close> is the smallest number for which they do.\<close>

theorem disk_info_fits:
  assumes "space_info s = (Inr (fs_size, free_space), s')"
    "total_bytes = min (unat fs_size) 0x7FFFFFFF" "free_bytes = min (unat free_space) 0x7FFFFFFF"
  shows "\<exists>k \<le> 6. halvings 0xFFFF (total_bytes div 512) k \<and>
    req_disk_info env [] s = (Inr (Some (1, disk_info_reply (e_native env)
      (of_nat (total_bytes div (512 * 2 ^ k))) (of_nat (512 * 2 ^ k)) (of_nat (free_bytes div (512 * 2 ^ k))))), s')"
proof -
  let ?cap = "\<lambda>x :: u64. if x > 0x7FFFFFFF then 0x7FFFFFFF else x"
  have cap: "unat (?cap x) = min (unat x) 0x7FFFFFFF" for x
    by (auto simp: word_less_nat_alt min_def)
  have sec: "unat (ucast (?cap x div 512) :: u32) = min (unat x) 0x7FFFFFFF div 512" for x :: u64
  proof -
    have "unat (?cap x div 512) = min (unat x) 0x7FFFFFFF div 512" using cap [of x] by (simp add: unat_div)
    moreover have "min (unat x) 0x7FFFFFFF div 512 < 2 ^ 32" by (rule div_le_dividend [THEN le_less_trans]) simp
    ultimately show ?thesis by (simp add: unat_ucast_down)
  qed
  obtain k b' t' f' where sc: "scale_sectors 512 (ucast (?cap fs_size div 512)) (ucast (?cap free_space div 512)) = (b', t', f')"
    "b' = 512 * 2 ^ k" "unat t' = total_bytes div 512 div 2 ^ k" "unat f' = free_bytes div 512 div 2 ^ k"
    "halvings 0xFFFF (total_bytes div 512) k"
    using scale_sectors_spec [of 512 "ucast (?cap fs_size div 512)" "ucast (?cap free_space div 512)"]
    unfolding sec assms(2,3) [symmetric] by blast
  have k: "k \<le> 6"
  proof (rule halvings_bound [OF sc(5)])
    have "total_bytes < 2 ^ 31" using assms(2) by simp
    then have "total_bytes div 512 < 2 ^ 22" by (simp add: less_mult_imp_div_less)
    then show "total_bytes div 512 < (0xFFFF + 1) * 2 ^ 6" by simp
  qed
  have u: "ucast x = (of_nat (unat x) :: 'b::len word)" for x :: "u32" by simp
  have "req_disk_info env [] s = (Inr (Some (1, disk_info_reply (e_native env) (ucast t') b' (ucast f'))), s')"
    using assms(1) sc(1) by (simp add: req_disk_info_def sx_defs Let_def)
  then show ?thesis
    using k sc(2-5) by (intro exI [of _ k]) (simp add: u div_mult2_eq)
qed

theorem disk_info_fits_witness:
  "\<exists>k s'. req_disk_info sample_env [] sample_open =
     (Inr (Some (1, disk_info_reply Little (of_nat (0x10000000 div (512 * 2 ^ k))) (of_nat (512 * 2 ^ k))
       (of_nat (0x8000000 div (512 * 2 ^ k))))), s')"
proof -
  let ?r = "space_info sample_open"
  have "fst ?r = Inr (0x10000000, 0x8000000)" by code_simp
  then have "?r = (Inr (0x10000000, 0x8000000), snd ?r)" by (simp add: prod_eq_iff)
  then show ?thesis using disk_info_fits [of sample_open _ _ _ _ _ sample_env] by (fastforce simp: sample_env_def)
qed

text \<open>C34: The answer to DISK\_INFO\_LARGE does the same with 32-bit numbers of clusters and with the
  limit \<open>0xFFFFFFFF * 0xFFFF\<close> for the sizes. From \<open>2 ^ 47\<close> bytes on the size of a cluster does not fit
  into its 16 bits and is answered as zero.\<close>

theorem disk_info_large_fits:
  assumes "space_info s = (Inr (fs_size, free_space), s')"
    "total_bytes = min (unat fs_size) (0xFFFFFFFF * 0xFFFF)" "free_bytes = min (unat free_space) (0xFFFFFFFF * 0xFFFF)"
  shows "\<exists>k \<le> 7. halvings 0xFFFFFFFF (total_bytes div 512) k \<and>
    req_disk_info_large env [] s = (Inr (Some (DOS_EXTERR_NO_ERROR, disk_info_large_reply (e_native env)
      (of_nat (total_bytes div (512 * 2 ^ k))) (of_nat (512 * 2 ^ k)) (of_nat (free_bytes div (512 * 2 ^ k))))), s') \<and>
    ((of_nat (512 * 2 ^ k) :: u16) = 0 \<longleftrightarrow> 2 ^ 47 \<le> total_bytes)"
proof -
  let ?limit = "0xFFFEFFFF0001 :: u64"
  let ?cap = "\<lambda>x :: u64. if x > ?limit then ?limit else x"
  have sec: "unat (?cap x div 512) = min (unat x) (0xFFFFFFFF * 0xFFFF) div 512" for x
    by (auto simp: word_less_nat_alt min_def unat_div)
  obtain k b' t' f' where sc: "scale_sectors_large 512 (?cap fs_size div 512) (?cap free_space div 512) = (b', t', f')"
    "b' = 512 * 2 ^ k" "unat t' = total_bytes div 512 div 2 ^ k" "unat f' = free_bytes div 512 div 2 ^ k"
    "halvings 0xFFFFFFFF (total_bytes div 512) k"
    using scale_sectors_large_spec [of 512 "?cap fs_size div 512" "?cap free_space div 512"]
    unfolding sec assms(2,3) [symmetric] by blast
  have bound: "k \<le> m" if "total_bytes < 2 ^ (41 + m)" for m
  proof (rule halvings_bound [OF sc(5)])
    show "total_bytes div 512 < (0xFFFFFFFF + 1) * 2 ^ m"
      using that by (simp add: less_mult_imp_div_less power_add)
  qed
  have k: "k \<le> 7" using bound [of 7] assms(2) by simp
  have "(of_nat (512 * 2 ^ k) :: u16) = 0 \<longleftrightarrow> k = 7"
  proof -
    have "k \<in> {0, 1, 2, 3, 4, 5, 6, 7}" using k by auto
    then show ?thesis by auto
  qed
  moreover have "k = 7 \<longleftrightarrow> 2 ^ 47 \<le> total_bytes"
  proof
    assume "k = 7"
    then have "6 < k" by simp
    then have "0xFFFFFFFF < total_bytes div 512 div 2 ^ 6" using sc(5) unfolding halvings_def by blast
    then show "2 ^ 47 \<le> total_bytes" by (simp add: div_mult2_eq [symmetric])
  next
    assume "2 ^ 47 \<le> total_bytes"
    show "k = 7"
    proof (rule ccontr)
      assume "k \<noteq> 7"
      then have "(2 :: nat) ^ k \<le> 2 ^ 6" using k by (intro power_increasing) auto
      then have "total_bytes div 512 div 2 ^ 6 \<le> total_bytes div 512 div 2 ^ k" by (rule div_le_mono2 [rotated]) simp
      also have "\<dots> \<le> 0xFFFFFFFF" using sc(5) by (simp add: halvings_def)
      finally have "total_bytes div 2 ^ 15 \<le> 0xFFFFFFFF" by (simp add: div_mult2_eq [symmetric])
      moreover have "2 ^ 47 div 2 ^ 15 \<le> total_bytes div 2 ^ 15"
        using \<open>2 ^ 47 \<le> total_bytes\<close> by (rule div_le_mono)
      ultimately show False by simp
    qed
  qed
  ultimately have z: "(of_nat (512 * 2 ^ k) :: u16) = 0 \<longleftrightarrow> 2 ^ 47 \<le> total_bytes" by simp
  have u: "ucast x = (of_nat (unat x) :: 'b::len word)" for x :: "u64" by simp
  have "req_disk_info_large env [] s =
      (Inr (Some (DOS_EXTERR_NO_ERROR, disk_info_large_reply (e_native env) (ucast t') b' (ucast f'))), s')"
    using assms(1) sc(1) by (simp add: req_disk_info_large_def sx_defs Let_def split del: if_split)
  then show ?thesis
    using k z sc(2-5) by (intro exI [of _ k]) (simp add: u div_mult2_eq)
qed

theorem disk_info_large_fits_witness:
  "\<exists>k s'. req_disk_info_large sample_env [] sample_open =
     (Inr (Some (DOS_EXTERR_NO_ERROR, disk_info_large_reply Little (of_nat (0x10000000 div (512 * 2 ^ k)))
       (of_nat (512 * 2 ^ k)) (of_nat (0x8000000 div (512 * 2 ^ k))))), s')"
proof -
  let ?r = "space_info sample_open"
  have "fst ?r = Inr (0x10000000, 0x8000000)" by code_simp
  then have "?r = (Inr (0x10000000, 0x8000000), snd ?r)" by (simp add: prod_eq_iff)
  then show ?thesis using disk_info_large_fits [of sample_open _ _ _ _ _ sample_env] by (fastforce simp: sample_env_def)
qed

end
