(* ===== verification/ClientData.thy ===== *)
theory ClientData
  imports Protocol
begin

text \<open>
  The data of the DOS client (\<^verbatim>\<open>netmount/netmount.c\<close>): the memory shared between NetMount processes
  (\<^verbatim>\<open>shared/shdata.h\<close>), the resident variables, the DOS structures the redirector works on
  (\<^verbatim>\<open>shared/dos.h\<close>, \<^verbatim>\<open>netmount/i86.h\<close>), and the string helpers.

  The program is compiled for 16-bit x86, so \<^verbatim>\<open>int\<close> has 16 bits, the byte order is little-endian and
  structs are packed: a frame buffer is its list of bytes, a field of a struct in it the bytes at its
  offset. A zero-terminated string is the list of its characters without the zero. The structs that
  DOS hands over by pointer are typed regions of a record, except the search areas of FIND\_FIRST and
  FIND\_NEXT, which are kept by address because the two functions reach them by different pointers.
\<close>

section \<open>Outcomes\<close>

text \<open>
  A run of resident code can leave the arrays it is given, and it can wait for interrupts: the trace
  of interrupts is an input, and a run that needs a longer one \<open>Waits\<close>.
\<close>

datatype 'a outcome = Returns 'a | Waits | Faults

type_synonym ('s, 'a) cm = "'s \<Rightarrow> 'a outcome \<times> 's"

definition cm_return :: "'a \<Rightarrow> ('s, 'a) cm" where
  "cm_return x s = (Returns x, s)"

definition cm_bind :: "('s, 'a) cm \<Rightarrow> ('a \<Rightarrow> ('s, 'b) cm) \<Rightarrow> ('s, 'b) cm" where
  "cm_bind m f s = (case m s of (Returns x, s') \<Rightarrow> f x s' | (Waits, s') \<Rightarrow> (Waits, s') | (Faults, s') \<Rightarrow> (Faults, s'))"

definition cm_get :: "('s \<Rightarrow> 'a) \<Rightarrow> ('s, 'a) cm" where
  "cm_get f s = (Returns (f s), s)"

definition cm_modify :: "('s \<Rightarrow> 's) \<Rightarrow> ('s, unit) cm" where
  "cm_modify f s = (Returns (), f s)"

definition cm_fault :: "('s, 'a) cm" where
  "cm_fault s = (Faults, s)"

lemmas cm_defs = cm_return_def cm_bind_def cm_get_def cm_modify_def cm_fault_def

text \<open>An array access that the index must fit.\<close>

definition cm_nth :: "'a list \<Rightarrow> nat \<Rightarrow> ('s, 'a) cm" where
  "cm_nth xs i = (if i < length xs then cm_return (xs ! i) else cm_fault)"


section \<open>Shared data\<close>

definition CLIENT_DRIVES_COUNT :: nat where "CLIENT_DRIVES_COUNT = 26"
definition CHECKSUM_IP_HEADER :: u8 where "CHECKSUM_IP_HEADER = 1"
definition CHECKSUM_NETMOUNT_PROTO :: u8 where "CHECKSUM_NETMOUNT_PROTO = 2"
definition FILE_BUFFER_SIZE :: nat where "FILE_BUFFER_SIZE = 64"
definition MAX_FRAMESIZE :: nat where "MAX_FRAMESIZE = 1518"
definition NETWORK_ERROR :: u16 where "NETWORK_ERROR = 0xFFFF"

type_synonym mac_addr = "byte list"

record drive_info =
  remote_ip_idx :: u8
  remote_port :: u16
  min_rcv_tmo_18_2_ticks_shr_2 :: u8
  max_rcv_tmo_18_2_ticks_shr_2 :: u8
  max_request_retries :: u8
  enabled_checksums :: u8
  min_server_read_len :: u8

record ip_mac_map =
  im_ip :: u32
  im_mac_addr :: mac_addr

record shared_data =
  abi_version :: u16
  min_compatible_abi_version :: u16
  netmount_version :: "byte list"
  drive_map :: "u8 list"
  drives :: "drive_info list"
  local_ipv4 :: u32
  net_mask :: u32
  local_port :: u16
  disable_sending_arp_request :: u8
  gateway_ip_slot :: u8
  interface_mtu :: u16
  ip_mac_maps :: "ip_mac_map list"
  requested_pktdrv_int :: u8
  used_pktdrv_int :: u8
  arp_pkthandle :: u16
  ipv4_pkthandle :: u16
  local_mac_addr :: mac_addr
  last_remote_ip :: u32
  last_remote_udp_port :: u16
  server_response_received :: u8
  psp_segment :: u16
  int2F_redirector_offset :: u16
  orig_INT2F_handler :: u32
  pktdrv_INT_handler :: u32
  has_drive_extended_features :: "u8 list"

record file_buffer =
  fb_timestamp :: u32
  fb_offset :: u32
  fb_start_cluster :: u16
  fb_drive_no :: u8
  fb_valid_bytes :: u8
  fb_data :: "byte list"


section \<open>DOS structures\<close>

record regs =
  r_ax :: u16
  r_bx :: u16
  r_cx :: u16
  r_dx :: u16
  r_si :: u16
  r_di :: u16
  r_ds :: u16
  r_es :: u16
  r_flags :: u16

record dos_directory_entry =
  de_name :: fcb_file_name
  de_attrs :: u8
  de_time_update :: u16
  de_date_update :: u16
  de_start_cluster :: u16
  de_size :: u32

record dos_search =
  ds_drive_no :: u8
  ds_srch_tmpl :: fcb_file_name
  ds_srch_attr :: u8
  ds_dir_entry_no :: u16
  ds_cluster :: u16

record dos_sda =
  curr_dta :: u32
  fn1 :: "byte list"
  fn2 :: "byte list"
  sdb_drive_no :: u8
  found_file :: dos_directory_entry
  srch_attr :: u8
  drive_cds_path :: "byte list"
  action_ext :: u16
  mode_ext :: u16

record dos_sft =
  handle_count :: u16
  open_mode :: u16
  file_attr :: u8
  dev_info_word :: u16
  redir_data :: u32
  sft_start_cluster :: u16
  file_time :: u32
  file_size :: u32
  file_pos :: u32
  original_file_time :: u32
  dir_sector :: u16
  dir_entry_no :: u8
  sft_file_name :: fcb_file_name

text \<open>
  What a redirector call finds in memory: the saved registers, the word on the caller's stack above
  them, the swappable data area, the file table entry or the path of the CDS at ES:DI, the user
  buffer that the DTA points to, the lock parameters at DS:DX and the search areas. \<open>near_stores\<close>
  records what the client stores into its own data segment at an offset that DOS gave it.
\<close>

record dos =
  d_regs :: regs
  d_stack_word :: u16
  d_sda :: dos_sda
  d_sft :: dos_sft
  d_cds_path :: "byte list"
  d_buffer :: "byte list"
  d_lock_params :: "byte list"
  d_search :: "u32 \<Rightarrow> dos_search"
  d_near_stores :: "(u16 \<times> dos_directory_entry) list"


section \<open>The resident state\<close>

text \<open>
  \<open>c_recv_data_len\<close> is the 16-bit pattern of the \<^verbatim>\<open>int16_t\<close>: zero means that the receive buffer is
  free, a negative value that the packet driver fills it. \<open>c_time\<close> is the BIOS timer at 0x46C,
  \<open>c_sent\<close> the frames given to the packet driver, the last one first, \<open>c_copying\<close> the length of the
  frame that the driver copies into the receive buffer, \<open>c_garbage\<close> what an uninitialised variable
  holds, \<open>c_trace\<close> the interrupts to come and \<open>c_world\<close> the rest of the network.

  The trace says at which points of a waiting loop the interrupts happen: \<open>Poll\<close> is one turn of the
  loop, \<open>Clock\<close> a change of the BIOS timer, \<open>Offer\<close> and \<open>Copied\<close> are the two calls of the packet driver
  for a received frame, before and after it copies the frame.
\<close>

datatype step = Poll | Clock u32 | Offer u16 | Copied "byte list"

record 'w client =
  c_shared :: shared_data
  c_recv_buff :: "byte list"
  c_send_buff :: "byte list"
  c_arp_buff :: "byte list"
  c_recv_data_len :: u16
  c_my_2Fmux_id :: u8
  c_req_drive :: u8
  c_ipv4_last_sent_packet_id :: u16
  c_request_last_sent_seq_num :: u8
  c_read_buffer :: file_buffer
  c_time :: u32
  c_sent :: "byte list list"
  c_copying :: "u16 option"
  c_garbage :: u16
  c_dos :: dos
  c_trace :: "step list"
  c_world :: 'w


section \<open>Small helpers\<close>

definition swap_word :: "u16 \<Rightarrow> u16" where
  "swap_word v = push_bit 8 v OR drop_bit 8 v"

definition min_u8 :: "u8 \<Rightarrow> u8 \<Rightarrow> u8" where
  "min_u8 a b = (if a < b then a else b)"

definition min_u16 :: "u16 \<Rightarrow> u16 \<Rightarrow> u16" where
  "min_u16 a b = (if a < b then a else b)"

text \<open>The copied characters and the result of the function.\<close>

fun my_strcpy_noterm_nf :: "byte list \<Rightarrow> nat \<Rightarrow> byte list \<times> int" where
  "my_strcpy_noterm_nf src 0 = (src, int (length src))"
| "my_strcpy_noterm_nf [] src_pos = ([], - int src_pos)"
| "my_strcpy_noterm_nf (_ # src) (Suc src_pos) = my_strcpy_noterm_nf src src_pos"

definition char_to_upper :: "byte \<Rightarrow> byte" where
  "char_to_upper character =
     (if character \<ge> ch_a \<and> character \<le> ch_z then character - ch_a + ch_A else character)"

text \<open>The comparison of \<open>len\<close> characters of a zero-terminated string with an upper-case one; behind
  the end of the tested string its zero is met, which ends the comparison before the strings are left.\<close>

fun strn_upper_cmp :: "byte list \<Rightarrow> byte list \<Rightarrow> nat \<Rightarrow> int" where
  "strn_upper_cmp _ _ 0 = 0"
| "strn_upper_cmp (t # ts) (u # us) (Suc len) =
     (let ret = uint (char_to_upper t) - uint u in if ret \<noteq> 0 then ret else strn_upper_cmp ts us len)"
| "strn_upper_cmp [] (u # us) (Suc len) = - uint u"
| "strn_upper_cmp (t # ts) [] (Suc len) = uint (char_to_upper t)"
| "strn_upper_cmp [] [] (Suc len) = 0"

definition contains_wildcard :: "byte list \<Rightarrow> bool" where
  "contains_wildcard s \<longleftrightarrow> list_ex (\<lambda>c. c = ch_question \<or> c = 0x2A) s"

text \<open>The dots are copied first, eight at most; the base is filled up to the next dot, the rest of
  the name up to it is skipped.\<close>

definition to_dos_fn :: "byte list \<Rightarrow> fcb_file_name" where
  "to_dos_fn file_name =
     (let dots = takeWhile (\<lambda>c. c = ch_dot) (take 8 file_name);
          rest = drop (length dots) file_name;
          base = takeWhile (\<lambda>c. c \<noteq> ch_dot) (take (8 - length dots) rest);
          rest = dropWhile (\<lambda>c. c \<noteq> ch_dot) (drop (length base) rest);
          ext = takeWhile (\<lambda>c. c \<noteq> ch_dot) (take 3 (tl rest))
      in \<lparr>name_blank_padded = pad_blank 8 (dots @ base),
          ext_blank_padded = (if rest = [] then pad_blank 3 [] else pad_blank 3 ext)\<rparr>)"

fun last_backslash :: "byte list \<Rightarrow> byte list \<Rightarrow> byte list" where
  "last_backslash it [] = it"
| "last_backslash it (c # cs) =
     last_backslash (if c = ch_backslash \<or> c = ch_slash then c # cs else it) cs"

definition get_dos_fn_from_full_path :: "byte list \<Rightarrow> fcb_file_name" where
  "get_dos_fn_from_full_path full_path =
     (let full_path = (case full_path of
            a # b # r \<Rightarrow> if b = ch_colon then r else full_path
          | _ \<Rightarrow> full_path);
          it = last_backslash full_path full_path
      in to_dos_fn (case it of c # r \<Rightarrow> if c = ch_backslash \<or> c = ch_slash then r else it | [] \<Rightarrow> it))"

text \<open>The comparisons of the assembler routine are signed.\<close>

definition drive_to_num :: "byte \<Rightarrow> u8" where
  "drive_to_num drive_letter =
     (if sint drive_letter < sint ch_a \<or> sint drive_letter > sint ch_z then drive_letter - ch_A
      else drive_letter - ch_a)"

end
