(* ===== verification/ClientNet.thy ===== *)
theory ClientNet
  imports ClientData
begin

text \<open>
  The network code of the DOS client (\<^verbatim>\<open>netmount/netmount.c\<close>): IPv4 and UDP headers, the reception of
  frames by the packet driver's calls, ARP, and \<open>send_request\<close>, which sends a request until a valid
  reply arrives. The network is the argument \<open>net\<close>: given the frames sent so far, the interrupts that
  were still to come and its own state, it says which interrupts come now.
\<close>

type_synonym 'w net = "byte list list \<Rightarrow> step list \<Rightarrow> 'w \<Rightarrow> step list \<times> 'w"

section \<open>Headers\<close>

definition ETHER_TYPE_IPV4 :: u16 where "ETHER_TYPE_IPV4 = 0x0800"
definition ETHER_TYPE_ARP :: u16 where "ETHER_TYPE_ARP = 0x0806"
definition HW_TYPE_ETHERNET :: u16 where "HW_TYPE_ETHERNET = 1"
definition ARP_OPERATION_REQUEST :: u16 where "ARP_OPERATION_REQUEST = 1"
definition ARP_OPERATION_REPLY :: u16 where "ARP_OPERATION_REPLY = 2"
definition UDP_PROTOCOL :: u8 where "UDP_PROTOCOL = 17"

definition create_ip :: "u32 \<Rightarrow> u16 \<Rightarrow> u8 \<Rightarrow> 'w client \<Rightarrow> 'w client" where
  "create_ip dst_addr data_len protocol s =
     (let ident = c_ipv4_last_sent_packet_id s + 1;
          header = \<lambda>hdr_csum.
            [0x45, 0] @ put16 Little (swap_word (20 + data_len)) @ put16 Little (swap_word ident)
            @ put16 Little (swap_word (push_bit 13 2)) @ [64, protocol] @ put16 Little hdr_csum
            @ put32 Little (local_ipv4 (c_shared s)) @ put32 Little dst_addr
      in s\<lparr>c_ipv4_last_sent_packet_id := ident,
           c_send_buff := overwrite (c_send_buff s) 14 (header (internet_checksum Little (header 0)))\<rparr>)"

definition create_udp :: "u16 \<Rightarrow> u16 \<Rightarrow> u16 \<Rightarrow> 'w client \<Rightarrow> 'w client" where
  "create_udp src_port dst_port data_len s =
     s\<lparr>c_send_buff := overwrite (c_send_buff s) 34
         (put16 Little (swap_word src_port) @ put16 Little (swap_word dst_port)
          @ put16 Little (swap_word (8 + data_len)) @ put16 Little 0)\<rparr>"

text \<open>\<^verbatim>\<open>send_frame\<close> calls the packet driver; the frame is the beginning of a buffer.\<close>

definition send_frame :: "u16 \<Rightarrow> byte list \<Rightarrow> 'w client \<Rightarrow> 'w client" where
  "send_frame frame_length sndbuff s = s\<lparr>c_sent := take (unat frame_length) sndbuff # c_sent s\<rparr>"


section \<open>Received frames\<close>

definition update_mac :: "nat \<Rightarrow> mac_addr \<Rightarrow> shared_data \<Rightarrow> shared_data" where
  "update_mac i mac sh =
     sh\<lparr>ip_mac_maps := (ip_mac_maps sh)[i := (ip_mac_maps sh ! i)\<lparr>im_mac_addr := mac\<rparr>]\<rparr>"

text \<open>The inner loop: the slots outside the local network use the address of the gateway.\<close>

definition outside_network :: "shared_data \<Rightarrow> u32 \<Rightarrow> bool" where
  "outside_network sh ip \<longleftrightarrow> ip AND net_mask sh \<noteq> local_ipv4 sh AND net_mask sh"

fun gateway_loop :: "nat \<Rightarrow> mac_addr \<Rightarrow> nat list \<Rightarrow> shared_data \<Rightarrow> shared_data" where
  "gateway_loop i mac [] sh = sh"
| "gateway_loop i mac (j # js) sh =
     gateway_loop i mac js
       (if j \<noteq> i \<and> outside_network sh (im_ip (ip_mac_maps sh ! j)) then update_mac j mac sh else sh)"

fun arp_table_loop :: "u32 \<Rightarrow> mac_addr \<Rightarrow> nat list \<Rightarrow> shared_data \<Rightarrow> shared_data" where
  "arp_table_loop ip mac [] sh = sh"
| "arp_table_loop ip mac (i # is) sh =
     (if im_ip (ip_mac_maps sh ! i) = ip then
        let sh = update_mac i mac sh in
        if i = unat (gateway_ip_slot sh) then gateway_loop i mac [0..<length (ip_mac_maps sh)] sh else sh
      else arp_table_loop ip mac is sh)"

definition arp_reply_frame :: "shared_data \<Rightarrow> byte list \<Rightarrow> byte list" where
  "arp_reply_frame sh b =
     overwrite b 0
       (slice b 6 6 @ local_mac_addr sh @ put16 Little (swap_word ETHER_TYPE_ARP)
        @ put16 Little (swap_word HW_TYPE_ETHERNET) @ put16 Little (swap_word ETHER_TYPE_IPV4) @ [6, 4]
        @ put16 Little (swap_word ARP_OPERATION_REPLY)
        @ local_mac_addr sh @ put32 Little (local_ipv4 sh) @ slice b 22 6 @ slice b 28 4)"

definition handle_arp :: "'w client \<Rightarrow> 'w client" where
  "handle_arp s =
     (let b = c_recv_buff s in
      if get16 Little b 14 \<noteq> swap_word HW_TYPE_ETHERNET then s
      else if get32 Little b 38 \<noteq> local_ipv4 (c_shared s) then s
      else
        let sh = arp_table_loop (get32 Little b 28) (slice b 22 6) [0..<length (ip_mac_maps (c_shared s))] (c_shared s);
            s = s\<lparr>c_shared := sh\<rparr>
        in if get16 Little b 20 \<noteq> swap_word ARP_OPERATION_REQUEST then s
           else
             let reply = arp_reply_frame sh b in
             send_frame 42 reply (s\<lparr>c_recv_buff := reply\<rparr>))"

text \<open>The result says whether the frame stays in the buffer. The index of the drive was checked by
  the redirector.\<close>

definition handle_ipv4 :: "'w client \<Rightarrow> bool \<times> 'w client" where
  "handle_ipv4 s =
     (let b = c_recv_buff s; sh = c_shared s in
      if b ! 23 \<noteq> UDP_PROTOCOL then (False, s)
      else if get32 Little b 30 \<noteq> local_ipv4 sh then (False, s)
      else if get32 Little b 26 \<noteq> last_remote_ip sh then (False, s)
      else if get16 Little b 34 \<noteq> swap_word (last_remote_udp_port sh) then (False, s)
      else if get16 Little b 36 \<noteq> swap_word (local_port sh) then (False, s)
      else if c_recv_data_len s < 42 + 8 then (False, s)
      else if b ! 42 \<noteq> DRIVE_PROTO_VERSION then (False, s)
      else if enabled_checksums (drives sh ! unat (c_req_drive s)) AND CHECKSUM_IP_HEADER \<noteq> 0 \<and>
              internet_checksum Little (slice b 14 20) \<noteq> 0 then (False, s)
      else (True, s\<lparr>c_shared := sh\<lparr>server_response_received := 1\<rparr>\<rparr>))"

text \<open>The first call of \<^verbatim>\<open>pktdrv_recv\<close> gives the driver the buffer or not, the second finds the frame
  in it.\<close>

definition pktdrv_recv_first :: "u16 \<Rightarrow> 'w client \<Rightarrow> 'w client" where
  "pktdrv_recv_first cx s =
     (if cx > of_nat MAX_FRAMESIZE then s\<lparr>c_copying := None\<rparr>
      else if c_recv_data_len s \<noteq> 0 then s\<lparr>c_copying := None\<rparr>
      else s\<lparr>c_recv_data_len := - cx, c_copying := Some cx\<rparr>)"

definition drop_frame :: "'w client \<Rightarrow> 'w client" where
  "drop_frame s = s\<lparr>c_recv_data_len := 0\<rparr>"

definition pktdrv_recv_second :: "'w client \<Rightarrow> 'w client" where
  "pktdrv_recv_second s =
     (let s = s\<lparr>c_recv_data_len := - c_recv_data_len s\<rparr> in
      if sint (c_recv_data_len s) < 34 then drop_frame s
      else if get16 Little (c_recv_buff s) 12 = swap_word ETHER_TYPE_IPV4 then
        (case handle_ipv4 s of (keep, s) \<Rightarrow> if keep then s else drop_frame s)
      else if sint (c_recv_data_len s) < 42 then drop_frame s
      else if get16 Little (c_recv_buff s) 12 \<noteq> swap_word ETHER_TYPE_ARP then drop_frame s
      else drop_frame (handle_arp s))"

text \<open>One interrupt. The driver copies as many bytes as it announced, and calls again only when it was
  given the buffer.\<close>

fun interrupt :: "step \<Rightarrow> 'w client \<Rightarrow> 'w client" where
  "interrupt Poll s = s"
| "interrupt (Clock t) s = s\<lparr>c_time := t\<rparr>"
| "interrupt (Offer cx) s = pktdrv_recv_first cx s"
| "interrupt (Copied frame) s =
     (case c_copying s of
        None \<Rightarrow> s
      | Some n \<Rightarrow> pktdrv_recv_second
          (s\<lparr>c_recv_buff := overwrite (c_recv_buff s) 0 (take (unat n) frame), c_copying := None\<rparr>))"


section \<open>Address resolution\<close>

definition time16 :: "'w client \<Rightarrow> u16" where
  "time16 s = ucast (c_time s)"

definition known_mac :: "mac_addr \<Rightarrow> bool" where
  "known_mac mac \<longleftrightarrow> list_ex (\<lambda>b. b \<noteq> 0xFF) mac"

text \<open>The waiting loop: \<open>Some True\<close> when the address is known, \<open>Some False\<close> when the time is over,
  \<open>None\<close> when neither has happened at the end of the trace; with the rest of the trace.\<close>

fun arp_wait :: "nat \<Rightarrow> u16 \<Rightarrow> step list \<Rightarrow> 'w client \<Rightarrow> bool option \<times> step list \<times> 'w client" where
  "arp_wait slot wait_start_time [] s = (None, [], s)"
| "arp_wait slot wait_start_time (Poll # tr) s =
     (if time16 s - wait_start_time \<le> 18 then
        if known_mac (im_mac_addr (ip_mac_maps (c_shared s) ! slot)) then (Some True, tr, s)
        else arp_wait slot wait_start_time tr s
      else (Some False, tr, s))"
| "arp_wait slot wait_start_time (i # tr) s = arp_wait slot wait_start_time tr (interrupt i s)"

text \<open>The frame goes out and the network reacts.\<close>

definition transmit :: "'w net \<Rightarrow> u16 \<Rightarrow> byte list \<Rightarrow> 'w client \<Rightarrow> 'w client" where
  "transmit net frame_length sndbuff s =
     (let s = send_frame frame_length sndbuff s;
          (tr, w) = net (c_sent s) (c_trace s) (c_world s)
      in s\<lparr>c_trace := tr, c_world := w\<rparr>)"

fun arp_retries :: "'w net \<Rightarrow> nat \<Rightarrow> nat \<Rightarrow> ('w client, unit) cm" where
  "arp_retries net slot 0 s = (Returns (), s)"
| "arp_retries net slot (Suc n) s =
     (let s = transmit net 42 (c_arp_buff s) s in
      case arp_wait slot (time16 s) (c_trace s) s of
        (None, tr, s) \<Rightarrow> (Waits, s\<lparr>c_trace := tr\<rparr>)
      | (Some True, tr, s) \<Rightarrow> (Returns (), s\<lparr>c_trace := tr\<rparr>)
      | (Some False, tr, s) \<Rightarrow> arp_retries net slot n (s\<lparr>c_trace := tr\<rparr>))"

definition arp_target :: "shared_data \<Rightarrow> u32 \<Rightarrow> u32" where
  "arp_target sh ip =
     (if outside_network sh ip \<and> gateway_ip_slot sh \<noteq> 0xFF
      then im_ip (ip_mac_maps sh ! unat (gateway_ip_slot sh)) else ip)"

definition send_arp_request :: "'w net \<Rightarrow> nat \<Rightarrow> ('w client, unit) cm" where
  "send_arp_request net slot s =
     arp_retries net slot 5
       (s\<lparr>c_arp_buff := overwrite (c_arp_buff s) 38
            (put32 Little (arp_target (c_shared s) (im_ip (ip_mac_maps (c_shared s) ! slot))))\<rparr>)"


section \<open>Requests\<close>

text \<open>The request header at offset 42 of the frame; the arguments behind it are already there.\<close>

definition request_header ::
  "drive_info \<Rightarrow> u16 \<Rightarrow> u8 \<Rightarrow> u8 \<Rightarrow> u8 \<Rightarrow> bool \<Rightarrow> byte list \<Rightarrow> byte list" where
  "request_header drv_info len sequence_num drive func ext buff =
     (let length_flags = (if ext then len OR DRIVE_PROTO_FLAG_EXTENDED_FEATURES else len);
          tail = [sequence_num, drive, func]
      in if enabled_checksums drv_info AND CHECKSUM_NETMOUNT_PROTO \<noteq> 0 then
           [DRIVE_PROTO_VERSION] @ put16 Little (length_flags OR DRIVE_PROTO_FLAG_CHECKSUM_USED)
           @ put16 Little (bsd_checksum_client (tail @ drop 50 buff) (len - 5)) @ tail
         else [DRIVE_PROTO_VERSION] @ put16 Little length_flags @ put16 Little DRIVE_PROTO_MAGIC @ tail)"

definition build_request ::
  "u8 \<Rightarrow> u8 \<Rightarrow> drive_info \<Rightarrow> nat \<Rightarrow> u16 \<Rightarrow> bool \<Rightarrow> 'w client \<Rightarrow> 'w client" where
  "build_request func drive drv_info slot request_data_len ext s =
     (let entry = ip_mac_maps (c_shared s) ! slot;
          s = s\<lparr>c_send_buff := overwrite (c_send_buff s) 0 (im_mac_addr entry)\<rparr>;
          s = create_ip (im_ip entry) (8 + 8 + request_data_len) UDP_PROTOCOL s;
          s = s\<lparr>c_shared := (c_shared s)\<lparr>last_remote_ip := im_ip entry\<rparr>\<rparr>;
          s = create_udp (local_port (c_shared s)) (remote_port drv_info) (8 + request_data_len) s;
          s = s\<lparr>c_shared := (c_shared s)\<lparr>last_remote_udp_port := remote_port drv_info\<rparr>\<rparr>;
          sequence_num = c_request_last_sent_seq_num s + 1;
          s = s\<lparr>c_request_last_sent_seq_num := sequence_num\<rparr>
      in s\<lparr>c_send_buff := overwrite (c_send_buff s) 42
             (request_header drv_info (request_data_len + 8) sequence_num drive func ext (c_send_buff s))\<rparr>)"

text \<open>The checks of a received frame: its protocol length, \<open>None\<close> when it is ignored. The length is
  compared with the length of the whole frame.\<close>

definition check_reply :: "drive_info \<Rightarrow> u8 \<Rightarrow> 'w client \<Rightarrow> u16 option outcome" where
  "check_reply drv_info sequence_num s =
     (let b = c_recv_buff s; length_flags = get16 Little b 43; len = length_flags AND 0x7FF in
      if len > c_recv_data_len s then Returns None
      else if len < 8 then Returns None
      else if b ! 47 \<noteq> sequence_num then Returns None
      else if length_flags AND DRIVE_PROTO_FLAG_CHECKSUM_USED \<noteq> 0 then
        if enabled_checksums drv_info AND CHECKSUM_NETMOUNT_PROTO \<noteq> 0 then
          if 42 + unat len > length b then Faults
          else if bsd_checksum_client (drop 47 b) (len - 5) \<noteq> get16 Little b 45 then Returns None
          else Returns (Some len)
        else Returns (Some len)
      else if get16 Little b 45 \<noteq> DRIVE_PROTO_MAGIC then Returns None
      else Returns (Some len))"

text \<open>The waiting loop: \<open>Returns (Some len)\<close> when a valid reply is in the buffer, \<open>Returns None\<close> when the
  time is over. What one turn of the loop reads, it reads at the time of its \<open>Poll\<close>: interrupts come between the
  turns, and not between the reads of a turn.\<close>

fun wait_reply ::
  "drive_info \<Rightarrow> u8 \<Rightarrow> u16 \<Rightarrow> u16 \<Rightarrow> step list \<Rightarrow> 'w client \<Rightarrow> u16 option outcome \<times> step list \<times> 'w client" where
  "wait_reply di seq start tmo [] s = (Waits, [], s)"
| "wait_reply di seq start tmo (Poll # tr) s =
     (if time16 s - start > tmo then (Returns None, tr, s)
      else if server_response_received (c_shared s) = 0 then wait_reply di seq start tmo tr s
      else (case check_reply di seq s of
          Returns None \<Rightarrow> wait_reply di seq start tmo tr (s\<lparr>c_recv_data_len := 0\<rparr>)
        | Returns (Some len) \<Rightarrow> (Returns (Some len), tr, s)
        | Waits \<Rightarrow> (Waits, tr, s)
        | Faults \<Rightarrow> (Faults, tr, s)))"
| "wait_reply di seq start tmo (i # tr) s = wait_reply di seq start tmo tr (interrupt i s)"

definition next_timeout :: "u16 \<Rightarrow> u16 \<Rightarrow> u16" where
  "next_timeout max_tmo tmo = (if push_bit 1 tmo > max_tmo then max_tmo else push_bit 1 tmo)"

text \<open>The sends that are left, the first one included.\<close>

fun send_retries ::
  "'w net \<Rightarrow> drive_info \<Rightarrow> u8 \<Rightarrow> u16 \<Rightarrow> u16 \<Rightarrow> nat \<Rightarrow> ('w client, u16 option) cm" where
  "send_retries net di seq frame_length tmo 0 s = (Returns None, s)"
| "send_retries net di seq frame_length tmo (Suc n) s =
     (let s = transmit net frame_length (c_send_buff s) s in
      case wait_reply di seq (time16 s) tmo (c_trace s) s of
        (Returns (Some len), tr, s) \<Rightarrow> (Returns (Some len), s\<lparr>c_trace := tr\<rparr>)
      | (Returns None, tr, s) \<Rightarrow>
          send_retries net di seq frame_length
            (next_timeout (push_bit 2 (ucast (max_rcv_tmo_18_2_ticks_shr_2 di))) tmo) n (s\<lparr>c_trace := tr\<rparr>)
      | (Waits, tr, s) \<Rightarrow> (Waits, s\<lparr>c_trace := tr\<rparr>)
      | (Faults, tr, s) \<Rightarrow> (Faults, s\<lparr>c_trace := tr\<rparr>))"

text \<open>The result with the two output parameters: the length of the reply or \<open>NETWORK_ERROR\<close>, the
  register AX and the flag of extended features, which keep their values unless a reply arrives. The
  reply itself starts at offset 50 of the receive buffer.\<close>

definition send_request ::
  "'w net \<Rightarrow> u8 \<Rightarrow> u8 \<Rightarrow> u16 \<Rightarrow> u16 \<Rightarrow> bool \<Rightarrow> ('w client, u16 \<times> u16 \<times> bool) cm" where
  "send_request net func local_drive request_data_len ax ext =
     cm_bind (cm_get c_shared) (\<lambda>sh.
     let frame_length = 14 + 20 + 8 + 8 + request_data_len in
     if frame_length - 14 > interface_mtu sh then cm_return (0, ax, ext)
     else
       cm_bind (cm_nth (drives sh) (unat local_drive)) (\<lambda>drv_info.
       cm_bind (cm_nth (ip_mac_maps sh) (unat (remote_ip_idx drv_info))) (\<lambda>entry.
       let slot = unat (remote_ip_idx drv_info) in
       cm_bind
         (if disable_sending_arp_request sh = 0 \<and> \<not> known_mac (im_mac_addr entry)
          then send_arp_request net slot else cm_return ()) (\<lambda>_.
       cm_bind (cm_nth (drive_map sh) (unat local_drive)) (\<lambda>drive.
       cm_bind (cm_modify (build_request func drive drv_info slot request_data_len ext)) (\<lambda>_.
       cm_bind (cm_modify (\<lambda>s. s\<lparr>c_shared := (c_shared s)\<lparr>server_response_received := 0\<rparr>\<rparr>)) (\<lambda>_.
       cm_bind (cm_get c_request_last_sent_seq_num) (\<lambda>sequence_num.
       cm_bind
         (send_retries net drv_info sequence_num frame_length
            (push_bit 2 (ucast (min_rcv_tmo_18_2_ticks_shr_2 drv_info)))
            (unat (max_request_retries drv_info) + 1)) (\<lambda>r.
       case r of
         None \<Rightarrow> cm_return (NETWORK_ERROR, ax, ext)
       | Some len \<Rightarrow> cm_get (\<lambda>s. (len - 8, get16 Little (c_recv_buff s) 48,
           get16 Little (c_recv_buff s) 43 AND DRIVE_PROTO_FLAG_EXTENDED_FEATURES \<noteq> 0)))))))))))"

end
