(* ===== verification/ClientRedirector.thy ===== *)
theory ClientRedirector
  imports ClientNet
begin

text \<open>
  The redirector of the DOS client: \<^verbatim>\<open>handle_request_for_our_drive\<close> with one definition for each case
  of its switch, and the interrupt handler \<^verbatim>\<open>int2F_redirector\<close>, which decides whether a call is for
  one of the mounted drives. The handlers take the function that sends a request as an argument
  \<open>req\<close>; the client runs them with \<open>send_request\<close>.
\<close>

type_synonym 'w requester = "u8 \<Rightarrow> u8 \<Rightarrow> u16 \<Rightarrow> u16 \<Rightarrow> bool \<Rightarrow> ('w client, u16 \<times> u16 \<times> bool) cm"

definition DOS_EXTERR_ATTEMPT_REMOVE_CUR_DIR :: u16 where "DOS_EXTERR_ATTEMPT_REMOVE_CUR_DIR = 16"
definition DOS_EXTERR_NOT_SAME_DEVICE :: u16 where "DOS_EXTERR_NOT_SAME_DEVICE = 17"

text \<open>The codes of the redirector that the server does not know.\<close>

definition INT2F_COMMIT_FILE :: u8 where "INT2F_COMMIT_FILE = 0x07"
definition INT2F_EXTENDED_ATTRS :: u8 where "INT2F_EXTENDED_ATTRS = 0x2D"
definition INT2F_UNUSED :: u8 where "INT2F_UNUSED = 0xFF"


section \<open>Access to the state\<close>

definition upd_regs :: "(regs \<Rightarrow> regs) \<Rightarrow> 'w client \<Rightarrow> 'w client" where
  "upd_regs f s = s\<lparr>c_dos := (c_dos s)\<lparr>d_regs := f (d_regs (c_dos s))\<rparr>\<rparr>"

definition upd_sft :: "(dos_sft \<Rightarrow> dos_sft) \<Rightarrow> 'w client \<Rightarrow> 'w client" where
  "upd_sft f s = s\<lparr>c_dos := (c_dos s)\<lparr>d_sft := f (d_sft (c_dos s))\<rparr>\<rparr>"

definition upd_sda :: "(dos_sda \<Rightarrow> dos_sda) \<Rightarrow> 'w client \<Rightarrow> 'w client" where
  "upd_sda f s = s\<lparr>c_dos := (c_dos s)\<lparr>d_sda := f (d_sda (c_dos s))\<rparr>\<rparr>"

definition get_regs :: "'w client \<Rightarrow> regs" where "get_regs s = d_regs (c_dos s)"
definition get_sft :: "'w client \<Rightarrow> dos_sft" where "get_sft s = d_sft (c_dos s)"
definition get_sda :: "'w client \<Rightarrow> dos_sda" where "get_sda s = d_sda (c_dos s)"

text \<open>The arguments of a request start at offset 50 of the send buffer, the reply at offset 50 of the
  receive buffer.\<close>

definition put_args :: "nat \<Rightarrow> byte list \<Rightarrow> ('w client, unit) cm" where
  "put_args off bs s =
     (if 50 + off + length bs \<le> length (c_send_buff s)
      then (Returns (), s\<lparr>c_send_buff := overwrite (c_send_buff s) (50 + off) bs\<rparr>) else (Faults, s))"

definition reply_bytes :: "nat \<Rightarrow> nat \<Rightarrow> ('w client, byte list) cm" where
  "reply_bytes off n s =
     (if 50 + off + n \<le> length (c_recv_buff s) then (Returns (slice (c_recv_buff s) (50 + off) n), s) else (Faults, s))"

text \<open>A store into the user's buffer and a load from it.\<close>

definition put_user :: "nat \<Rightarrow> byte list \<Rightarrow> ('w client, unit) cm" where
  "put_user off bs s =
     (if off + length bs \<le> length (d_buffer (c_dos s))
      then (Returns (), s\<lparr>c_dos := (c_dos s)\<lparr>d_buffer := overwrite (d_buffer (c_dos s)) off bs\<rparr>\<rparr>)
      else (Faults, s))"

definition get_user :: "nat \<Rightarrow> nat \<Rightarrow> ('w client, byte list) cm" where
  "get_user off n s =
     (if off + n \<le> length (d_buffer (c_dos s)) then (Returns (slice (d_buffer (c_dos s)) off n), s) else (Faults, s))"

text \<open>The length argument of \<^verbatim>\<open>my_memcpy_ff\<close> is a signed 16-bit number.\<close>

definition copy_len :: "u32 \<Rightarrow> nat" where
  "copy_len n = nat (sint (ucast n :: u16))"

definition I86_FLAG_CF :: u16 where "I86_FLAG_CF = 1"

definition set_success :: "('w client, unit) cm" where
  "set_success = cm_modify (upd_regs (\<lambda>r. r\<lparr>r_ax := 0, r_flags := r_flags r AND NOT I86_FLAG_CF\<rparr>))"

definition set_error :: "u16 \<Rightarrow> ('w client, unit) cm" where
  "set_error x = cm_modify (upd_regs (\<lambda>r. r\<lparr>r_ax := x, r_flags := r_flags r OR I86_FLAG_CF\<rparr>))"

definition set_drive_has_ext_features :: "u8 \<Rightarrow> bool \<Rightarrow> ('w client, unit) cm" where
  "set_drive_has_ext_features local_drive_no has_ext_features =
     cm_modify (\<lambda>s.
       let sh = c_shared s; i = unat (local_drive_no div 8); b = push_bit (unat (local_drive_no mod 8)) 1;
           old = has_drive_extended_features sh ! i
       in s\<lparr>c_shared := sh\<lparr>has_drive_extended_features :=
            (has_drive_extended_features sh)[i := if has_ext_features then old OR b else old AND NOT b]\<rparr>\<rparr>)"

definition get_drive_has_ext_features :: "shared_data \<Rightarrow> u8 \<Rightarrow> bool" where
  "get_drive_has_ext_features sh local_drive_no \<longleftrightarrow>
     has_drive_extended_features sh ! unat (local_drive_no div 8) AND push_bit (unat (local_drive_no mod 8)) 1 \<noteq> 0"

text \<open>\<^verbatim>\<open>uint16_t ax\<close> and \<^verbatim>\<open>flag_ext_features = 0\<close> of the function: a request without the extended flag.\<close>

definition request :: "'w requester \<Rightarrow> u8 \<Rightarrow> u8 \<Rightarrow> u16 \<Rightarrow> ('w client, u16 \<times> u16 \<times> bool) cm" where
  "request req func reqdrv n = cm_bind (cm_get c_garbage) (\<lambda>ax. req func reqdrv n ax False)"

text \<open>A name that is sent without its drive part; \<open>fail\<close> is the error for a name that is too short.\<close>

definition put_name :: "nat \<Rightarrow> byte list \<Rightarrow> u16 \<Rightarrow> (nat \<Rightarrow> ('w client, unit) cm) \<Rightarrow> ('w client, unit) cm" where
  "put_name off path fail k =
     (case my_strcpy_noterm_nf path 2 of (bs, len) \<Rightarrow>
        cm_bind (put_args off bs) (\<lambda>_. if len < 0 then set_error fail else k (nat len)))"


section \<open>Directories\<close>

definition after_plain_reply :: "u8 \<Rightarrow> u16 \<Rightarrow> u16 \<times> u16 \<times> bool \<Rightarrow> ('w client, unit) cm" where
  "after_plain_reply reqdrv net_err r =
     (case r of (ret, ax, ext) \<Rightarrow>
        if ret = 0 then
          cm_bind (set_drive_has_ext_features reqdrv ext) (\<lambda>_. if ax \<noteq> 0 then set_error ax else cm_return ())
        else set_error net_err)"

definition handle_make_remove_dir :: "'w requester \<Rightarrow> int2f \<Rightarrow> u8 \<Rightarrow> ('w client, unit) cm" where
  "handle_make_remove_dir req subfunction reqdrv =
     cm_bind (cm_get get_sda) (\<lambda>sda.
     if subfunction = INT2F_REMOVE_DIR \<and> fn1 sda = drive_cds_path sda
     then set_error DOS_EXTERR_ATTEMPT_REMOVE_CUR_DIR
     else put_name 0 (fn1 sda) DOS_EXTERR_PATH_NOT_FOUND (\<lambda>len.
       cm_bind (request req (int2f_code subfunction) reqdrv (of_nat len))
         (after_plain_reply reqdrv DOS_EXTERR_FILE_NOT_FOUND)))"

definition handle_change_dir :: "'w requester \<Rightarrow> u8 \<Rightarrow> ('w client, unit) cm" where
  "handle_change_dir req reqdrv =
     cm_bind (cm_get get_sda) (\<lambda>sda.
     put_name 0 (fn1 sda) DOS_EXTERR_PATH_NOT_FOUND (\<lambda>len.
       cm_bind (request req (int2f_code INT2F_CHANGE_DIR) reqdrv (of_nat len))
         (after_plain_reply reqdrv DOS_EXTERR_PATH_NOT_FOUND)))"


section \<open>Files\<close>

definition handle_close_file :: "'w requester \<Rightarrow> u8 \<Rightarrow> ('w client, unit) cm" where
  "handle_close_file req reqdrv =
     cm_bind (cm_modify (upd_sft (\<lambda>f. if handle_count f > 0 then f\<lparr>handle_count := handle_count f - 1\<rparr> else f))) (\<lambda>_.
     cm_bind (cm_get get_sft) (\<lambda>sft.
     cm_bind (cm_get c_shared) (\<lambda>sh.
     cm_bind (cm_get c_garbage) (\<lambda>ax.
     cm_bind
       (if file_time sft \<noteq> original_file_time sft \<and> get_drive_has_ext_features sh reqdrv then
          cm_bind (put_args 0 (put16 Little (sft_start_cluster sft) @ put32 Little (file_time sft))) (\<lambda>_.
          req (int2f_code INT2F_CLOSE_FILE) reqdrv 6 ax True)
        else
          cm_bind (put_args 0 (put16 Little (sft_start_cluster sft))) (\<lambda>_.
          req (int2f_code INT2F_CLOSE_FILE) reqdrv 2 ax False)) (\<lambda>(ret, ax, ext).
     if ret = 0 \<and> ax \<noteq> 0 then set_error ax else cm_return ())))))"

definition readf_args :: "u32 \<Rightarrow> u16 \<Rightarrow> u16 \<Rightarrow> byte list" where
  "readf_args offset start_cluster len = put32 Little offset @ put16 Little start_cluster @ put16 Little len"

text \<open>The difference in the mask is a signed \<^verbatim>\<open>int\<close> of 16 bits that is extended with its sign, which is the difference
  of 32 bits.\<close>

definition alignment_mask :: "u8 \<Rightarrow> u32" where
  "alignment_mask min_len = NOT (ucast min_len - 1)"

text \<open>Small reads. First what the read buffer holds: the number of bytes that it delivers.\<close>

definition buffered_len :: "file_buffer \<Rightarrow> u8 \<Rightarrow> u8 \<Rightarrow> dos_sft \<Rightarrow> u16 \<Rightarrow> u16" where
  "buffered_len rb min_len reqdrv sft cx =
     (if fb_valid_bytes rb > 0 \<and> fb_drive_no rb = reqdrv \<and> fb_start_cluster rb = sft_start_cluster sft then
        let buffer_offset = file_pos sft AND alignment_mask min_len in
        if buffer_offset = fb_offset rb then
          let data_offset = ucast (file_pos sft - buffer_offset) in
          if data_offset < fb_valid_bytes rb
          then ucast (min_u8 (ucast cx) (fb_valid_bytes rb - data_offset)) else 0
        else 0
      else 0)"

definition from_buffer :: "file_buffer \<Rightarrow> u8 \<Rightarrow> dos_sft \<Rightarrow> u16 \<Rightarrow> byte list" where
  "from_buffer rb min_len sft n =
     slice (fb_data rb) (unat (ucast (file_pos sft - (file_pos sft AND alignment_mask min_len)) :: u8)) (unat n)"

text \<open>What is asked from the server: the position of the block to be buffered, the position and the
  length of the read.\<close>

definition fetch_range :: "u8 \<Rightarrow> u32 \<Rightarrow> u16 \<Rightarrow> u16 \<Rightarrow> u32 \<times> u32 \<times> u16" where
  "fetch_range min_len pos cx total_read_len =
     (let buffer_offset = (pos + ucast cx) AND alignment_mask min_len;
          here = pos + ucast total_read_len
      in if buffer_offset > here then (buffer_offset, here, ucast min_len + ucast (buffer_offset - here))
         else (buffer_offset, buffer_offset, ucast min_len))"

text \<open>Keeping the block of the reply.\<close>

definition fill_read_buffer :: "u8 \<Rightarrow> u16 \<Rightarrow> u32 \<Rightarrow> u32 \<Rightarrow> u16 \<Rightarrow> ('w client, unit) cm" where
  "fill_read_buffer reqdrv start_cluster buffer_offset read_offset len =
     (if read_offset + ucast len > buffer_offset then
        let n = read_offset + ucast len - buffer_offset in
        cm_bind (reply_bytes (unat (ucast (buffer_offset - read_offset) :: u16)) (copy_len n)) (\<lambda>bs.
        if length bs > FILE_BUFFER_SIZE then cm_fault
        else cm_modify (\<lambda>s. s\<lparr>c_read_buffer := \<lparr>fb_timestamp = c_time s, fb_offset = buffer_offset,
               fb_start_cluster = start_cluster, fb_drive_no = reqdrv, fb_valid_bytes = ucast n,
               fb_data = overwrite (fb_data (c_read_buffer s)) 0 bs\<rparr>\<rparr>))
      else cm_return ())"

definition finish_read :: "u16 \<Rightarrow> ('w client, unit) cm" where
  "finish_read total_read_len =
     cm_bind (cm_modify (upd_sft (\<lambda>f. f\<lparr>file_pos := file_pos f + ucast total_read_len\<rparr>))) (\<lambda>_.
     cm_modify (upd_regs (\<lambda>r. r\<lparr>r_cx := total_read_len\<rparr>)))"

definition handle_small_read :: "'w requester \<Rightarrow> u8 \<Rightarrow> u8 \<Rightarrow> dos_sft \<Rightarrow> u16 \<Rightarrow> ('w client, unit) cm" where
  "handle_small_read req reqdrv min_len sft cx =
     cm_bind (cm_get c_read_buffer) (\<lambda>rb.
     let total_read_len = buffered_len rb min_len reqdrv sft cx in
     cm_bind (put_user 0 (from_buffer rb min_len sft total_read_len)) (\<lambda>_.
     if total_read_len = cx then
       cm_modify (upd_sft (\<lambda>f. f\<lparr>file_pos := file_pos f + ucast total_read_len\<rparr>))
     else
       let (buffer_offset, read_offset, bytes_to_read) = fetch_range min_len (file_pos sft) cx total_read_len in
       cm_bind (put_args 0 (readf_args read_offset (sft_start_cluster sft) bytes_to_read)) (\<lambda>_.
       cm_bind (request req (int2f_code INT2F_READ_FILE) reqdrv 8) (\<lambda>(len, ax, _).
       if len = NETWORK_ERROR then set_error DOS_EXTERR_FILE_NOT_FOUND
       else if ax \<noteq> 0 then set_error ax
       else
         cm_bind (fill_read_buffer reqdrv (sft_start_cluster sft) buffer_offset read_offset len) (\<lambda>_.
         let offset_in_reply = ucast (file_pos sft + ucast total_read_len - read_offset) :: u16;
             n = (if len > offset_in_reply then min_u16 (len - offset_in_reply) (cx - total_read_len) else 0)
         in cm_bind (reply_bytes (unat offset_in_reply) (copy_len (ucast n))) (\<lambda>bs.
            cm_bind (put_user (unat total_read_len) bs) (\<lambda>_.
            finish_read (total_read_len + n))))))))"

text \<open>Large reads bypass the read buffer.\<close>

definition max_read_chunk :: "shared_data \<Rightarrow> u16" where
  "max_read_chunk sh = interface_mtu sh + 14 - 50"

fun read_chunks :: "'w requester \<Rightarrow> nat \<Rightarrow> u8 \<Rightarrow> dos_sft \<Rightarrow> u16 \<Rightarrow> u16 \<Rightarrow> u16 \<Rightarrow> ('w client, unit) cm" where
  "read_chunks req 0 reqdrv sft cx max_chunk_len total_read_len = (\<lambda>s. (Waits, s))"
| "read_chunks req (Suc fuel) reqdrv sft cx max_chunk_len total_read_len =
     (let chunklen = min_u16 (cx - total_read_len) max_chunk_len in
      cm_bind (put_args 0 (readf_args (file_pos sft + ucast total_read_len) (sft_start_cluster sft) chunklen)) (\<lambda>_.
      cm_bind (request req (int2f_code INT2F_READ_FILE) reqdrv 8) (\<lambda>(len, ax, _).
      if len = NETWORK_ERROR then set_error DOS_EXTERR_FILE_NOT_FOUND
      else if ax \<noteq> 0 then set_error ax
      else
        cm_bind (reply_bytes 0 (copy_len (ucast len))) (\<lambda>bs.
        cm_bind (put_user (unat total_read_len) bs) (\<lambda>_.
        let total_read_len = total_read_len + len in
        if len < chunklen \<or> total_read_len = cx then finish_read total_read_len
        else cm_bind (cm_modify (\<lambda>s. s\<lparr>c_recv_data_len := 0\<rparr>)) (\<lambda>_.
             read_chunks req fuel reqdrv sft cx max_chunk_len total_read_len))))))"

definition handle_read_file :: "'w requester \<Rightarrow> u8 \<Rightarrow> ('w client, unit) cm" where
  "handle_read_file req reqdrv =
     cm_bind (cm_get get_sft) (\<lambda>sft.
     cm_bind (cm_get get_regs) (\<lambda>r.
     cm_bind (cm_get c_shared) (\<lambda>sh.
     if open_mode sft AND 1 \<noteq> 0 then set_error DOS_EXTERR_ACCESS_DENIED
     else if r_cx r = 0 then cm_return ()
     else cm_bind (cm_nth (drives sh) (unat reqdrv)) (\<lambda>drv_info.
       if r_cx r < ucast (min_server_read_len drv_info)
       then handle_small_read req reqdrv (min_server_read_len drv_info) sft (r_cx r)
       else read_chunks req 65536 reqdrv sft (r_cx r) (max_read_chunk sh) 0))))"


section \<open>Writing\<close>

text \<open>A write that overlaps the buffered block, or cuts the file before its end, makes it invalid.\<close>

definition invalidate_on_write :: "u8 \<Rightarrow> dos_sft \<Rightarrow> u16 \<Rightarrow> file_buffer \<Rightarrow> file_buffer" where
  "invalidate_on_write reqdrv sft cx rb =
     (if fb_valid_bytes rb > 0 \<and> fb_drive_no rb = reqdrv \<and> fb_start_cluster rb = sft_start_cluster sft \<and>
         file_pos sft < fb_offset rb + ucast (fb_valid_bytes rb) \<and>
         (cx = 0 \<or> file_pos sft + ucast cx > fb_offset rb)
      then rb\<lparr>fb_valid_bytes := 0\<rparr> else rb)"

definition max_write_chunk :: "shared_data \<Rightarrow> u16" where
  "max_write_chunk sh = interface_mtu sh + 14 - 50 - 6"

definition written_to_sft :: "u16 \<Rightarrow> dos_sft \<Rightarrow> dos_sft" where
  "written_to_sft len f =
     (let f = f\<lparr>file_pos := file_pos f + ucast len\<rparr>
      in if file_pos f > file_size f then f\<lparr>file_size := file_pos f\<rparr> else f)"

fun write_chunks :: "'w requester \<Rightarrow> nat \<Rightarrow> u8 \<Rightarrow> u16 \<Rightarrow> u16 \<Rightarrow> u16 \<Rightarrow> ('w client, unit) cm" where
  "write_chunks req 0 reqdrv max_chunk_len total_written_len bytes_left = (\<lambda>s. (Waits, s))"
| "write_chunks req (Suc fuel) reqdrv max_chunk_len total_written_len bytes_left =
     (let chunklen = (if bytes_left > max_chunk_len then max_chunk_len else bytes_left) in
      cm_bind (cm_get get_sft) (\<lambda>sft.
      cm_bind (put_args 0 (put32 Little (file_pos sft) @ put16 Little (sft_start_cluster sft))) (\<lambda>_.
      cm_bind (get_user (unat total_written_len) (copy_len (ucast chunklen))) (\<lambda>bs.
      cm_bind (put_args 6 bs) (\<lambda>_.
      cm_bind (request req (int2f_code INT2F_WRITE_FILE) reqdrv (chunklen + 6)) (\<lambda>(len, ax, _).
      if len = NETWORK_ERROR then set_error DOS_EXTERR_FILE_NOT_FOUND
      else if ax \<noteq> 0 \<or> len \<noteq> 2 then set_error ax
      else
        cm_bind (reply_bytes 0 2) (\<lambda>bs.
        let len = get16 Little bs 0;
            total_written_len = total_written_len + len;
            bytes_left = bytes_left - len
        in cm_bind (cm_modify (upd_regs (\<lambda>r. r\<lparr>r_cx := total_written_len\<rparr>))) (\<lambda>_.
           cm_bind (cm_modify (upd_sft (written_to_sft len))) (\<lambda>_.
           if len \<noteq> chunklen then cm_return ()
           else cm_bind (cm_modify (\<lambda>s. s\<lparr>c_recv_data_len := 0\<rparr>)) (\<lambda>_.
             if bytes_left > 0
             then write_chunks req fuel reqdrv max_chunk_len total_written_len bytes_left
             else cm_return ()))))))))))"

definition handle_write_file :: "'w requester \<Rightarrow> u8 \<Rightarrow> ('w client, unit) cm" where
  "handle_write_file req reqdrv =
     cm_bind (cm_get get_sft) (\<lambda>sft.
     cm_bind (cm_get get_regs) (\<lambda>r.
     cm_bind (cm_get c_shared) (\<lambda>sh.
     if open_mode sft AND 3 = 0 then set_error DOS_EXTERR_ACCESS_DENIED
     else
       cm_bind (cm_modify (\<lambda>s. s\<lparr>c_read_buffer := invalidate_on_write reqdrv sft (r_cx r) (c_read_buffer s)\<rparr>)) (\<lambda>_.
       write_chunks req 65536 reqdrv (max_write_chunk sh) 0 (r_cx r)))))"

text \<open>A wrong value of BL sets an error, but the request is sent all the same.\<close>

definition handle_lock_unlock_file :: "'w requester \<Rightarrow> u8 \<Rightarrow> ('w client, unit) cm" where
  "handle_lock_unlock_file req reqdrv =
     cm_bind (cm_get get_regs) (\<lambda>r.
     let bl = ucast (r_bx r) :: u8; params_count = r_cx r; n = push_bit 3 params_count in
     cm_bind (if bl > 1 then set_error DOS_EXTERR_FILE_NOT_FOUND else cm_return ()) (\<lambda>_.
     cm_bind (cm_get get_sft) (\<lambda>sft.
     cm_bind (put_args 0 (put16 Little params_count @ put16 Little (sft_start_cluster sft))) (\<lambda>_.
     cm_bind (cm_get (\<lambda>s. d_lock_params (c_dos s))) (\<lambda>params.
     cm_bind
       (if copy_len (ucast n) \<le> length params then put_args 4 (take (copy_len (ucast n)) params) else cm_fault) (\<lambda>_.
     cm_bind (request req (int2f_code INT2F_LOCK_UNLOCK_FILE + bl) reqdrv (n + 4)) (\<lambda>(ret, _, _).
     if ret \<noteq> 0 then set_error DOS_EXTERR_FILE_NOT_FOUND else cm_return ())))))))"


section \<open>Disk space\<close>

definition handle_disk_info :: "'w requester \<Rightarrow> u8 \<Rightarrow> ('w client, unit) cm" where
  "handle_disk_info req reqdrv =
     cm_bind (request req (int2f_code INT2F_DISK_INFO) reqdrv 0) (\<lambda>(ret, ax, ext).
     if ret = 6 then
       cm_bind (set_drive_has_ext_features reqdrv ext) (\<lambda>_.
       cm_bind (reply_bytes 0 6) (\<lambda>b.
       cm_modify (upd_regs (\<lambda>r. r\<lparr>r_ax := ax, r_bx := get16 Little b 0, r_cx := get16 Little b 2,
         r_dx := get16 Little b 4\<rparr>))))
     else set_error DOS_EXTERR_FILE_NOT_FOUND)"

definition handle_disk_info_large :: "'w requester \<Rightarrow> u8 \<Rightarrow> ('w client, unit) cm" where
  "handle_disk_info_large req reqdrv =
     cm_bind (cm_get c_shared) (\<lambda>sh.
     if get_drive_has_ext_features sh reqdrv then
       cm_bind (request req (int2f_code INT2F_DISK_INFO_LARGE) reqdrv 0) (\<lambda>(ret, ax, ext).
       if ret = 10 then
         cm_bind (reply_bytes 0 10) (\<lambda>b.
         cm_modify (upd_regs (\<lambda>r. r
           \<lparr>r_ax := ucast (drop_bit 16 (get32 Little b 0)), r_bx := ucast (get32 Little b 0),
            r_cx := ucast (drop_bit 16 (get32 Little b 6)), r_dx := ucast (get32 Little b 6),
            r_si := get16 Little b 4\<rparr>)))
       else set_error DOS_EXTERR_FILE_NOT_FOUND)
     else
       cm_bind (request req (int2f_code INT2F_DISK_INFO) reqdrv 0) (\<lambda>(ret, ax, ext).
       if ret = 6 then
         cm_bind (set_drive_has_ext_features reqdrv ext) (\<lambda>_.
         cm_bind (reply_bytes 0 6) (\<lambda>b.
         cm_modify (upd_regs (\<lambda>r. r\<lparr>r_ax := 0, r_bx := get16 Little b 0, r_cx := 0,
           r_dx := get16 Little b 4, r_si := get16 Little b 2\<rparr>))))
       else set_error DOS_EXTERR_FILE_NOT_FOUND))"


section \<open>Attributes and names\<close>

definition handle_set_attrs :: "'w requester \<Rightarrow> u8 \<Rightarrow> ('w client, unit) cm" where
  "handle_set_attrs req reqdrv =
     cm_bind (cm_get get_sda) (\<lambda>sda.
     cm_bind (cm_get (\<lambda>s. d_stack_word (c_dos s))) (\<lambda>attrs.
     put_name 1 (fn1 sda) DOS_EXTERR_PATH_NOT_FOUND (\<lambda>len.
       cm_bind (put_args 0 [ucast attrs]) (\<lambda>_.
       cm_bind (request req (int2f_code INT2F_SET_ATTRS) reqdrv (of_nat len + 1))
         (after_plain_reply reqdrv DOS_EXTERR_FILE_NOT_FOUND)))))"

definition handle_get_attrs :: "'w requester \<Rightarrow> u8 \<Rightarrow> ('w client, unit) cm" where
  "handle_get_attrs req reqdrv =
     cm_bind (cm_get get_sda) (\<lambda>sda.
     put_name 0 (fn1 sda) DOS_EXTERR_PATH_NOT_FOUND (\<lambda>len.
       cm_bind (request req (int2f_code INT2F_GET_ATTRS) reqdrv (of_nat len)) (\<lambda>(ret, ax, ext).
       if ret = NETWORK_ERROR then set_error DOS_EXTERR_FILE_NOT_FOUND
       else
         cm_bind (set_drive_has_ext_features reqdrv ext) (\<lambda>_.
         if ret \<noteq> 9 \<or> ax \<noteq> 0 then set_error ax
         else
           cm_bind (reply_bytes 0 9) (\<lambda>b.
           cm_modify (upd_regs (\<lambda>r. r\<lparr>r_cx := get16 Little b 0, r_dx := get16 Little b 2,
             r_di := get16 Little b 4, r_bx := get16 Little b 6, r_ax := ucast (b ! 8)\<rparr>)))))))"

definition handle_rename_file :: "'w requester \<Rightarrow> u8 \<Rightarrow> ('w client, unit) cm" where
  "handle_rename_file req reqdrv =
     cm_bind (cm_get get_sda) (\<lambda>sda.
     if take 1 (fn1 sda) \<noteq> take 1 (fn2 sda) then set_error DOS_EXTERR_NOT_SAME_DEVICE
     else if contains_wildcard (fn2 sda) then set_error DOS_EXTERR_PATH_NOT_FOUND
     else
       put_name 1 (fn1 sda) DOS_EXTERR_FILE_NOT_FOUND (\<lambda>len.
       cm_bind (put_args 0 [of_nat len]) (\<lambda>_.
       let len1 = unat (of_nat len :: u8) in
       put_name (1 + len1) (fn2 sda) DOS_EXTERR_FILE_NOT_FOUND (\<lambda>len.
       cm_bind (request req (int2f_code INT2F_RENAME_FILE) reqdrv (of_nat (1 + len1 + len)))
         (after_plain_reply reqdrv DOS_EXTERR_FILE_NOT_FOUND)))))"

definition handle_delete_file :: "'w requester \<Rightarrow> u8 \<Rightarrow> ('w client, unit) cm" where
  "handle_delete_file req reqdrv =
     cm_bind (cm_get get_sda) (\<lambda>sda.
     put_name 0 (fn1 sda) DOS_EXTERR_FILE_NOT_FOUND (\<lambda>len.
       cm_bind (request req (int2f_code INT2F_DELETE_FILE) reqdrv (of_nat len)) (\<lambda>(ret, ax, ext).
       if ret = NETWORK_ERROR then set_error DOS_EXTERR_FILE_NOT_FOUND
       else
         cm_bind (set_drive_has_ext_features reqdrv ext) (\<lambda>_.
         if ret \<noteq> 0 \<or> ax \<noteq> 0 then set_error ax else cm_return ()))))"


section \<open>Opening files\<close>

definition RESULT_CODE_TRUNCATED :: u16 where "RESULT_CODE_TRUNCATED = 3"

definition opened_sft :: "u8 \<Rightarrow> byte list \<Rightarrow> dos_sft \<Rightarrow> dos_sft" where
  "opened_sft reqdrv b f = f
     \<lparr>file_attr := b ! 0, dev_info_word := 0x8040 OR ucast reqdrv, redir_data := 0,
      sft_start_cluster := get16 Little b 20, file_time := get32 Little b 12, file_size := get32 Little b 16,
      file_pos := 0, open_mode := (open_mode f AND 0xFF00) OR ucast (b ! 24),
      original_file_time := get32 Little b 12, dir_sector := 0, dir_entry_no := 0xFF,
      sft_file_name := fcb_of_bytes (slice b 1 11)\<rparr>"

definition invalidate_on_open :: "int2f \<Rightarrow> u8 \<Rightarrow> byte list \<Rightarrow> file_buffer \<Rightarrow> file_buffer" where
  "invalidate_on_open subfunction reqdrv b rb =
     (if subfunction = INT2F_CREATE_FILE \<or>
         subfunction = INT2F_EXTENDED_OPEN_CREATE_FILE \<and>
         get16 Little b 22 = RESULT_CODE_TRUNCATED \<and>
         fb_drive_no rb = reqdrv \<and> fb_start_cluster rb = get16 Little b 20
      then rb\<lparr>fb_valid_bytes := 0\<rparr> else rb)"

definition handle_open_create :: "'w requester \<Rightarrow> int2f \<Rightarrow> u8 \<Rightarrow> ('w client, unit) cm" where
  "handle_open_create req subfunction reqdrv =
     cm_bind (cm_get get_sda) (\<lambda>sda.
     cm_bind (cm_get (\<lambda>s. d_stack_word (c_dos s))) (\<lambda>attrs.
     if contains_wildcard (fn1 sda) then set_error DOS_EXTERR_PATH_NOT_FOUND
     else
       put_name 6 (fn1 sda) DOS_EXTERR_PATH_NOT_FOUND (\<lambda>len.
       cm_bind (put_args 0 (put16 Little attrs)) (\<lambda>_.
       cm_bind
         (if subfunction = INT2F_EXTENDED_OPEN_CREATE_FILE
          then put_args 2 (put16 Little (action_ext sda) @ put16 Little (mode_ext sda)) else cm_return ()) (\<lambda>_.
       cm_bind (request req (int2f_code subfunction) reqdrv (of_nat len + 6)) (\<lambda>(ret, ax, ext).
       if ret = NETWORK_ERROR then set_error DOS_EXTERR_FILE_NOT_FOUND
       else
         cm_bind (set_drive_has_ext_features reqdrv ext) (\<lambda>_.
         if ret \<noteq> 25 \<or> ax \<noteq> 0 then set_error ax
         else
           cm_bind (reply_bytes 0 25) (\<lambda>b.
           cm_bind (cm_modify (\<lambda>s. s\<lparr>c_read_buffer := invalidate_on_open subfunction reqdrv b (c_read_buffer s)\<rparr>)) (\<lambda>_.
           cm_bind
             (if subfunction = INT2F_EXTENDED_OPEN_CREATE_FILE
              then cm_modify (upd_regs (\<lambda>r. r\<lparr>r_cx := get16 Little b 22\<rparr>)) else cm_return ()) (\<lambda>_.
           cm_modify (upd_sft (opened_sft reqdrv b))))))))))))"


section \<open>Searching\<close>

definition found_entry :: "byte list \<Rightarrow> dos_directory_entry" where
  "found_entry b =
     \<lparr>de_name = fcb_of_bytes (slice b 1 11), de_attrs = b ! 0, de_time_update = get16 Little b 12,
      de_date_update = get16 Little b 14, de_start_cluster = 0, de_size = get32 Little b 16\<rparr>"

definition far_ptr :: "u16 \<Rightarrow> u16 \<Rightarrow> u32" where
  "far_ptr seg off = push_bit 16 (ucast seg) OR ucast off"

text \<open>The found entry is stored through \<^verbatim>\<open>(struct dos_directory_entry *)(dta + 1)\<close>: the cast drops the
  segment in the small memory model, so the store goes to this offset of the client's own segment.\<close>

definition store_near :: "u32 \<Rightarrow> dos_directory_entry \<Rightarrow> dos \<Rightarrow> dos" where
  "store_near dta entry d = d\<lparr>d_near_stores := (ucast dta + 21, entry) # d_near_stores d\<rparr>"

definition search_after :: "int2f \<Rightarrow> u8 \<Rightarrow> dos_sda \<Rightarrow> byte list \<Rightarrow> dos_search \<Rightarrow> dos_search" where
  "search_after subfunction reqdrv sda b area =
     (let area = (if subfunction = INT2F_FIND_FIRST then area
            \<lparr>ds_drive_no := reqdrv OR 0x80, ds_srch_tmpl := get_dos_fn_from_full_path (fn1 sda),
             ds_srch_attr := srch_attr sda\<rparr> else area)
      in area\<lparr>ds_dir_entry_no := get16 Little b 22, ds_cluster := get16 Little b 20\<rparr>)"

definition put_search :: "int2f \<Rightarrow> dos_sda \<Rightarrow> dos_search \<Rightarrow> ('w client, u16) cm" where
  "put_search subfunction sda area =
     (if subfunction = INT2F_FIND_FIRST then
        case my_strcpy_noterm_nf (fn1 sda) 2 of (bs, len) \<Rightarrow>
          cm_bind (put_args 0 (srch_attr sda # bs)) (\<lambda>_. cm_return (of_int (len + 1)))
      else
        cm_bind (put_args 0 (put16 Little (ds_cluster area) @ put16 Little (ds_dir_entry_no area)
            @ [ds_srch_attr area] @ fcb_bytes (ds_srch_tmpl area))) (\<lambda>_.
        cm_return 16))"

definition handle_find :: "'w requester \<Rightarrow> int2f \<Rightarrow> u8 \<Rightarrow> ('w client, unit) cm" where
  "handle_find req subfunction reqdrv =
     cm_bind (cm_get get_sda) (\<lambda>sda.
     cm_bind (cm_get get_regs) (\<lambda>r.
     let dta = (if subfunction = INT2F_FIND_FIRST then curr_dta sda else far_ptr (r_es r) (r_di r)) in
     cm_bind (cm_get (\<lambda>s. d_search (c_dos s) dta)) (\<lambda>area.
     cm_bind (put_search subfunction sda area) (\<lambda>n.
     cm_bind (request req (int2f_code subfunction) reqdrv n) (\<lambda>(ret, ax, ext).
     if ret = NETWORK_ERROR then
       set_error (if subfunction = INT2F_FIND_FIRST then DOS_EXTERR_FILE_NOT_FOUND else DOS_EXTERR_NO_MORE_FILES)
     else
       cm_bind (set_drive_has_ext_features reqdrv ext) (\<lambda>_.
       if ax \<noteq> 0 \<or> ret \<noteq> 24 then set_error ax
       else
         cm_bind (reply_bytes 0 24) (\<lambda>b.
         cm_bind (cm_modify (upd_sda (\<lambda>sda. sda\<lparr>found_file := found_entry b\<rparr>))) (\<lambda>_.
         cm_modify (\<lambda>s. s\<lparr>c_dos := store_near dta (found_entry b)
           ((c_dos s)\<lparr>d_search := (d_search (c_dos s))(dta := search_after subfunction reqdrv sda b area)\<rparr>)\<rparr>)))))))))"

definition handle_seek_from_end :: "'w requester \<Rightarrow> u8 \<Rightarrow> ('w client, unit) cm" where
  "handle_seek_from_end req reqdrv =
     cm_bind (cm_get get_sft) (\<lambda>sft.
     cm_bind (cm_get get_regs) (\<lambda>r.
     cm_bind (put_args 0 (put16 Little (r_dx r) @ put16 Little (r_cx r) @ put16 Little (sft_start_cluster sft))) (\<lambda>_.
     cm_bind (request req (int2f_code INT2F_SEEK_FROM_END) reqdrv 6) (\<lambda>(ret, ax, ext).
     if ret = NETWORK_ERROR then set_error DOS_EXTERR_FILE_NOT_FOUND
     else if ax \<noteq> 0 \<or> ret \<noteq> 4 then set_error ax
     else
       cm_bind (reply_bytes 0 4) (\<lambda>b.
       cm_modify (upd_regs (\<lambda>r. r\<lparr>r_ax := get16 Little b 0, r_dx := get16 Little b 2\<rparr>)))))))"


section \<open>The switch\<close>

text \<open>Read-ahead data is kept for 5 seconds.\<close>

definition expire_read_buffer :: "'w client \<Rightarrow> 'w client" where
  "expire_read_buffer s =
     (if fb_valid_bytes (c_read_buffer s) > 0 \<and> c_time s - fb_timestamp (c_read_buffer s) > 5 * 18
      then s\<lparr>c_read_buffer := (c_read_buffer s)\<lparr>fb_valid_bytes := 0\<rparr>\<rparr> else s)"

fun run_subfunction :: "'w requester \<Rightarrow> int2f \<Rightarrow> u8 \<Rightarrow> ('w client, unit) cm" where
  "run_subfunction req INT2F_REMOVE_DIR reqdrv = handle_make_remove_dir req INT2F_REMOVE_DIR reqdrv"
| "run_subfunction req INT2F_MAKE_DIR reqdrv = handle_make_remove_dir req INT2F_MAKE_DIR reqdrv"
| "run_subfunction req INT2F_CHANGE_DIR reqdrv = handle_change_dir req reqdrv"
| "run_subfunction req INT2F_CLOSE_FILE reqdrv = handle_close_file req reqdrv"
| "run_subfunction req INT2F_READ_FILE reqdrv = handle_read_file req reqdrv"
| "run_subfunction req INT2F_WRITE_FILE reqdrv = handle_write_file req reqdrv"
| "run_subfunction req INT2F_LOCK_UNLOCK_FILE reqdrv = handle_lock_unlock_file req reqdrv"
| "run_subfunction req INT2F_UNLOCK_FILE reqdrv = set_error DOS_EXTERR_FUNC_NUM_INVALID"
| "run_subfunction req INT2F_DISK_INFO reqdrv = handle_disk_info req reqdrv"
| "run_subfunction req INT2F_DISK_INFO_LARGE reqdrv = handle_disk_info_large req reqdrv"
| "run_subfunction req INT2F_SET_ATTRS reqdrv = handle_set_attrs req reqdrv"
| "run_subfunction req INT2F_GET_ATTRS reqdrv = handle_get_attrs req reqdrv"
| "run_subfunction req INT2F_RENAME_FILE reqdrv = handle_rename_file req reqdrv"
| "run_subfunction req INT2F_DELETE_FILE reqdrv = handle_delete_file req reqdrv"
| "run_subfunction req INT2F_OPEN_FILE reqdrv = handle_open_create req INT2F_OPEN_FILE reqdrv"
| "run_subfunction req INT2F_CREATE_FILE reqdrv = handle_open_create req INT2F_CREATE_FILE reqdrv"
| "run_subfunction req INT2F_EXTENDED_OPEN_CREATE_FILE reqdrv =
     handle_open_create req INT2F_EXTENDED_OPEN_CREATE_FILE reqdrv"
| "run_subfunction req INT2F_FIND_FIRST reqdrv = handle_find req INT2F_FIND_FIRST reqdrv"
| "run_subfunction req INT2F_FIND_NEXT reqdrv = handle_find req INT2F_FIND_NEXT reqdrv"
| "run_subfunction req INT2F_SEEK_FROM_END reqdrv = handle_seek_from_end req reqdrv"
| "run_subfunction req INT2F_NETMOUNT_FEATURE_QUERY reqdrv = cm_return ()"

definition handle_request_for_our_drive :: "'w requester \<Rightarrow> ('w client, unit) cm" where
  "handle_request_for_our_drive req =
     cm_bind (cm_get get_regs) (\<lambda>r.
     cm_bind (cm_get c_req_drive) (\<lambda>reqdrv.
     let subfunction = ucast (r_ax r) :: u8 in
     cm_bind set_success (\<lambda>_.
     cm_bind (cm_modify expire_read_buffer) (\<lambda>_.
     cm_bind
       (case int2f_of subfunction of
          Some f \<Rightarrow> run_subfunction req f reqdrv
        | None \<Rightarrow>
            if subfunction = INT2F_EXTENDED_ATTRS then cm_modify (upd_regs (\<lambda>r. r\<lparr>r_ax := 2\<rparr>))
            else cm_return ()) (\<lambda>_.
     cm_modify (\<lambda>s. s\<lparr>c_recv_data_len := 0\<rparr>))))))"


section \<open>The interrupt handler\<close>

text \<open>The table ends with the entries for 0x28, 0x2C, 0x2D and 0x2E: those for 0x29 to 0x2B are
  missing, so the last three stand at 0x29 to 0x2B. The search goes up to 0x2E, into the code behind
  the table, whose bytes are the argument \<open>code\<close>.\<close>

definition supported_functions_table :: "u8 list" where
  "supported_functions_table =
     [0x00, 0x01, 0xFF, 0x03, 0xFF, 0x05, 0x06, 0x07, 0x08, 0x09, 0x0A, 0x0B, 0x0C, 0xFF, 0x0E, 0x0F,
      0xFF, 0x11, 0xFF, 0x13, 0xFF, 0xFF, 0x16, 0x17, 0xFF, 0xFF, 0xFF, 0x1B, 0x1C, 0xFF, 0xFF, 0xFF,
      0xFF, 0x21, 0xFF, 0xFF, 0xFF, 0xFF, 0xFF, 0xFF, 0xFF, 0xFF, 0x2D, 0x2E]"

definition supported_function :: "u8 list \<Rightarrow> u8 \<Rightarrow> bool" where
  "supported_function code al \<longleftrightarrow>
     al = int2f_code INT2F_DISK_INFO_LARGE \<or>
     al \<le> 0x2E \<and> (supported_functions_table @ code) ! unat al \<noteq> INT2F_UNUSED"

definition function_drive :: "u8 \<Rightarrow> dos \<Rightarrow> u8" where
  "function_drive al d =
     (if al = int2f_code INT2F_SEEK_FROM_END \<or> al = INT2F_EXTENDED_ATTRS \<or>
         al \<ge> int2f_code INT2F_CLOSE_FILE \<and> al \<le> int2f_code INT2F_UNLOCK_FILE
      then ucast (dev_info_word (d_sft d)) AND 0x3F
      else if al = int2f_code INT2F_FIND_NEXT then sdb_drive_no (d_sda d) AND 0x1F
      else if al \<in> set (map int2f_code [INT2F_SET_ATTRS, INT2F_GET_ATTRS, INT2F_DELETE_FILE, INT2F_OPEN_FILE,
          INT2F_CREATE_FILE, INT2F_EXTENDED_OPEN_CREATE_FILE, INT2F_MAKE_DIR, INT2F_REMOVE_DIR,
          INT2F_CHANGE_DIR, INT2F_RENAME_FILE])
      then drive_to_num (fn1 (d_sda d) ! 0)
      else drive_to_num (d_cds_path d ! 0))"

datatype int2f_exit = Iret | PreviousHandler

definition INSTALL_CHECK_BX :: u16 where "INSTALL_CHECK_BX = 0x4A41"
definition INSTALL_CHECK_CX :: u16 where "INSTALL_CHECK_CX = 0x524F"
definition INSTALL_CHECK_DX :: u16 where "INSTALL_CHECK_DX = 0x4E4D"

text \<open>The calls of other NetMount processes: the segment and the offset of the shared data are
  arguments.\<close>

definition own_multiplex_call :: "u16 \<Rightarrow> u16 \<Rightarrow> regs \<Rightarrow> regs" where
  "own_multiplex_call cs shared_data_offset r =
     (let al = ucast (r_ax r) :: u8;
          r = (if al = 0 then r\<lparr>r_ax := (r_ax r AND 0xFF00) OR 0xFF, r_bx := INSTALL_CHECK_BX,
                 r_cx := INSTALL_CHECK_CX, r_dx := INSTALL_CHECK_DX\<rparr> else r)
      in if al = 1 \<and> r_bx r = 1 then r\<lparr>r_cx := cs, r_bx := shared_data_offset\<rparr> else r)"

definition int2F_redirector ::
  "'w requester \<Rightarrow> u8 list \<Rightarrow> u16 \<Rightarrow> u16 \<Rightarrow> ('w client, int2f_exit) cm" where
  "int2F_redirector req code cs shared_data_offset =
     cm_bind (cm_get get_regs) (\<lambda>r.
     cm_bind (cm_get id) (\<lambda>s.
     let ah = ucast (drop_bit 8 (r_ax r)) :: u8; al = ucast (r_ax r) :: u8 in
     if ah = c_my_2Fmux_id s then
       cm_bind (cm_modify (upd_regs (own_multiplex_call cs shared_data_offset))) (\<lambda>_. cm_return Iret)
     else if ah \<noteq> 0x11 then cm_return PreviousHandler
     else if al = 0 then cm_return PreviousHandler
     else if \<not> supported_function code al then cm_return PreviousHandler
     else
       let bl = function_drive al (c_dos s) in
       if unat bl \<ge> CLIENT_DRIVES_COUNT then cm_return PreviousHandler
       else if drive_map (c_shared s) ! unat bl = 0xFF then cm_return PreviousHandler
       else
         cm_bind (cm_modify (\<lambda>s. s\<lparr>c_req_drive := bl\<rparr>)) (\<lambda>_.
         cm_bind (handle_request_for_our_drive req) (\<lambda>_. cm_return Iret))))"

end
