(* ===== verification/ClientLink.thy ===== *)
theory ClientLink
  imports ClientRedirector Packets
begin

text \<open>
  The client and the server together: what \<open>send_request\<close> puts on the wire is a request the server
  accepts, and the server's reply is what the client waits for. Then the waiting itself: it ends, it
  ends with a reply of the server only, and when a late reply keeps it from succeeding.
\<close>

section \<open>The request frame\<close>

lemma overwrite_middle: "length a = off \<Longrightarrow> length b = length b' \<Longrightarrow> overwrite (a @ b @ c) off b' = a @ b' @ c"
  by (simp add: overwrite_def)

definition ip_header :: "shared_data \<Rightarrow> u32 \<Rightarrow> u16 \<Rightarrow> u16 \<Rightarrow> u8 \<Rightarrow> u16 \<Rightarrow> byte list" where
  "ip_header sh dst data_len ident protocol csum =
     [0x45, 0] @ put16 Little (swap_word (20 + data_len)) @ put16 Little (swap_word ident)
     @ put16 Little (swap_word (push_bit 13 2)) @ [64, protocol] @ put16 Little csum
     @ put32 Little (local_ipv4 sh) @ put32 Little dst"

definition udp_header :: "u16 \<Rightarrow> u16 \<Rightarrow> u16 \<Rightarrow> byte list" where
  "udp_header src_port dst_port data_len =
     put16 Little (swap_word src_port) @ put16 Little (swap_word dst_port)
     @ put16 Little (swap_word (8 + data_len)) @ put16 Little 0"

lemma length_ip_header [simp]: "length (ip_header sh dst n ident p c) = 20"
  by (simp add: ip_header_def)

lemma length_udp_header [simp]: "length (udp_header sp dp n) = 8"
  by (simp add: udp_header_def)

lemma length_request_header [simp]: "length (request_header di len seq drive func ext buff) = 8"
  by (simp add: request_header_def Let_def)

lemma ip_header_verifies:
  assumes "csum = internet_checksum Little (ip_header sh dst n ident p 0)"
  shows "internet_checksum Little (ip_header sh dst n ident p csum) = 0"
proof -
  let ?a = "[0x45, 0] @ put16 Little (swap_word (20 + n)) @ put16 Little (swap_word ident)
     @ put16 Little (swap_word (push_bit 13 2)) @ [64, p]"
  let ?b = "put32 Little (local_ipv4 sh) @ put32 Little dst"
  have split: "ip_header sh dst n ident p c = ?a @ store16 Little c @ ?b" for c
    by (simp add: ip_header_def put16_def [of _ c] to_little16_def)
  show ?thesis
    using internet_checksum_verifies [of ?a ?b csum Little] assms unfolding split by simp
qed

lemma create_ip_eq:
  "create_ip dst n p s = s
     \<lparr>c_ipv4_last_sent_packet_id := c_ipv4_last_sent_packet_id s + 1,
      c_send_buff := overwrite (c_send_buff s) 14 (ip_header (c_shared s) dst n (c_ipv4_last_sent_packet_id s + 1) p
        (internet_checksum Little (ip_header (c_shared s) dst n (c_ipv4_last_sent_packet_id s + 1) p 0)))\<rparr>"
  by (simp add: create_ip_def ip_header_def Let_def)

lemma create_udp_eq:
  "create_udp sp dp n s = s\<lparr>c_send_buff := overwrite (c_send_buff s) 34 (udp_header sp dp n)\<rparr>"
  by (simp add: create_udp_def udp_header_def)

lemma build_request_frame:
  fixes s :: "'w client"
  assumes "length (c_send_buff s) = MAX_FRAMESIZE" "length (im_mac_addr entry) = 6"
    "entry = ip_mac_maps (c_shared s) ! slot"
  shows "\<exists>csum. c_send_buff (build_request func drive di slot n ext s) =
    im_mac_addr entry @ slice (c_send_buff s) 6 8 @
    ip_header (c_shared s) (im_ip entry) (16 + n) (c_ipv4_last_sent_packet_id s + 1) UDP_PROTOCOL csum @
    udp_header (local_port (c_shared s)) (remote_port di) (8 + n) @
    request_header di (n + 8) (c_request_last_sent_seq_num s + 1) drive func ext (c_send_buff s) @ drop 50 (c_send_buff s) \<and>
    csum = internet_checksum Little
      (ip_header (c_shared s) (im_ip entry) (16 + n) (c_ipv4_last_sent_packet_id s + 1) UDP_PROTOCOL 0)"
proof -
  define b where "b = c_send_buff s"
  define f where "f = drop 50 b"
  obtain a a' c d e where b: "b = a @ a' @ c @ d @ e @ f" and len: "length a = 6" "length a' = 8" "length c = 20"
    "length d = 8" "length e = 8" and a': "a' = slice b 6 8"
  proof (rule that [of "take 6 b" "slice b 6 8" "slice b 14 20" "slice b 34 8" "slice b 42 8"])
    have "slice b k m @ drop (k + m) b = drop k b" for k m
      unfolding slice_def by (metis append_take_drop_id add.commute drop_drop)
    from this [of 6 8] this [of 14 20] this [of 34 8] this [of 42 8]
    show "b = take 6 b @ slice b 6 8 @ slice b 14 20 @ slice b 34 8 @ slice b 42 8 @ f"
      by (simp add: f_def)
  qed (use assms(1) in \<open>simp_all add: b_def MAX_FRAMESIZE_def\<close>)
  let ?ip = "ip_header (c_shared s) (im_ip entry) (16 + n) (c_ipv4_last_sent_packet_id s + 1) UDP_PROTOCOL"
  let ?csum = "internet_checksum Little (?ip 0)"
  let ?udp = "udp_header (local_port (c_shared s)) (remote_port di) (8 + n)"
  have s1: "overwrite b 0 (im_mac_addr entry) = im_mac_addr entry @ a' @ c @ d @ e @ f"
    using overwrite_middle [of "[]" 0 a "im_mac_addr entry"] assms(2) len by (simp add: b)
  have s2: "overwrite \<dots> 14 (?ip ?csum) = im_mac_addr entry @ a' @ ?ip ?csum @ d @ e @ f"
    using overwrite_middle [of "im_mac_addr entry @ a'" 14 c "?ip ?csum" "d @ e @ f"] assms(2) len by simp
  have s3: "overwrite \<dots> 34 ?udp = im_mac_addr entry @ a' @ ?ip ?csum @ ?udp @ e @ f"
    using overwrite_middle [of "im_mac_addr entry @ a' @ ?ip ?csum" 34 d ?udp "e @ f"] assms(2) len by simp
  have s4: "overwrite \<dots> 42 h = im_mac_addr entry @ a' @ ?ip ?csum @ ?udp @ h @ f" if "length h = 8" for h
    using overwrite_middle [of "im_mac_addr entry @ a' @ ?ip ?csum @ ?udp" 42 e h f] assms(2) len that by simp
  have dr: "drop 50 (im_mac_addr entry @ a' @ ?ip ?csum @ ?udp @ e @ f) = drop 50 b"
    using assms(2) len by (simp add: f_def)
  have h: "request_header di m q drive func ext (im_mac_addr entry @ a' @ ?ip ?csum @ ?udp @ e @ f) =
      request_header di m q drive func ext b" for m q
    unfolding request_header_def dr by simp
  show ?thesis
    using s1 s2 s3 s4 [OF length_request_header] h
    by (simp add: build_request_def Let_def create_ip_eq create_udp_eq assms(3) [symmetric] b_def [symmetric]
        a' [symmetric] f_def [symmetric])
qed

text \<open>The assembler routine reads the beginning of the memory it is given.\<close>

lemma bsd_checksum_next_take:
  "cx \<noteq> 0 \<Longrightarrow> unat cx \<le> length bs \<Longrightarrow> bsd_checksum_next ax cx bs = bsd_checksum_loop ax (take (unat cx) bs)"
proof (induction ax cx bs rule: bsd_checksum_next.induct)
  case (1 ax cx bs)
  from 1(2) have u: "unat cx = Suc (unat (cx - 1))" by (metis Suc_pred' unat_gt_0 unat_minus_one)
  with 1(3) obtain b bs' where bs: "bs = b # bs'" by (cases bs) auto
  show ?case
  proof (cases "cx - 1 = 0")
    case True
    then show ?thesis using u by (subst bsd_checksum_next.simps) (simp add: bs rotate_right_1 [unfolded One_nat_def])
  next
    case False
    with 1 u show ?thesis by (subst bsd_checksum_next.simps) (simp add: bs rotate_right_1 [unfolded One_nat_def])
  qed
qed

lemma bsd_checksum_client_take:
  "unat len \<le> length bs \<Longrightarrow> bsd_checksum_client bs len = bsd_checksum (take (unat len) bs)"
  by (simp add: bsd_checksum_client_def bsd_checksum_def bsd_checksum_next_take)

definition request_flags :: "bool \<Rightarrow> bool \<Rightarrow> u16 \<Rightarrow> u16" where
  "request_flags checksums ext len =
     (let lf = (if ext then len OR DRIVE_PROTO_FLAG_EXTENDED_FEATURES else len)
      in if checksums then lf OR DRIVE_PROTO_FLAG_CHECKSUM_USED else lf)"

lemma small_bits: "unat (m :: u16) < 2048 \<Longrightarrow> bit m k \<Longrightarrow> k < 11"
proof (rule ccontr)
  assume "unat m < 2048" "bit m k" "\<not> k < 11"
  then have "bit (unat m) k" "unat m < 2 ^ 11" by (simp_all add: bit_unsigned_iff)
  then have "bit (take_bit 11 (unat m)) k" by (simp add: take_bit_nat_eq_self)
  with \<open>\<not> k < 11\<close> show False by (simp add: bit_take_bit_iff)
qed

lemma request_flags_spec:
  assumes "unat len < 2048"
  shows "request_flags c ext len AND 0x7FF = len"
    "(request_flags c ext len AND DRIVE_PROTO_FLAG_CHECKSUM_USED \<noteq> 0) = c"
    "(request_flags c ext len AND DRIVE_PROTO_FLAG_EXTENDED_FEATURES \<noteq> 0) = ext"
proof -
  have bits: "bit (request_flags c ext len) k \<longleftrightarrow> (k = 15 \<and> c) \<or> (k = 13 \<and> ext) \<or> bit len k" for k
    by (auto simp: request_flags_def Let_def bit_or_iff flag_bit_iff)
  show "request_flags c ext len AND 0x7FF = len"
  proof (rule bit_word_eqI)
    fix k show "bit (request_flags c ext len AND 0x7FF) k = bit len k"
      using small_bits [OF assms, of k] flag_bit_iff(5) [of k] by (auto simp: bit_and_iff bits)
  qed
  show "(request_flags c ext len AND DRIVE_PROTO_FLAG_CHECKSUM_USED \<noteq> 0) = c"
    "(request_flags c ext len AND DRIVE_PROTO_FLAG_EXTENDED_FEATURES \<noteq> 0) = ext"
    unfolding flag_bits bit_iff_and_push_bit_not_eq_0 [symmetric]
    using small_bits [OF assms, of 13] small_bits [OF assms, of 15] by (auto simp: bits)
qed

definition uses_checksums :: "drive_info \<Rightarrow> bool" where
  "uses_checksums di \<longleftrightarrow> enabled_checksums di AND CHECKSUM_NETMOUNT_PROTO \<noteq> 0"

definition valid_request :: "bool \<Rightarrow> bool \<Rightarrow> u8 \<Rightarrow> u8 \<Rightarrow> u8 \<Rightarrow> byte list \<Rightarrow> byte list \<Rightarrow> bool" where
  "valid_request checksums ext seq drive func data packet \<longleftrightarrow>
     accept_packet Little packet = Some packet \<and> checksum_flag Little packet = checksums \<and>
     (hdr_length_flags Little packet AND DRIVE_PROTO_FLAG_EXTENDED_FEATURES \<noteq> 0) = ext \<and>
     hdr_sequence packet = seq \<and> hdr_drive packet = drive \<and> hdr_function packet = func \<and> drop 8 packet = data"

lemma request_header_valid:
  assumes "50 + unat n \<le> length buff" "unat n < 2000"
  shows "valid_request (uses_checksums di) ext seq drive func (slice buff 50 (unat n))
    (request_header di (n + 8) seq drive func ext buff @ slice buff 50 (unat n))"
proof -
  let ?c = "uses_checksums di" and ?data = "slice buff 50 (unat n)"
  have len: "unat (n + 8) = unat n + 8" using assms(2) by (simp add: unat_word_ariths)
  then have len5: "unat (n + 8 - 5) = unat n + 3" using assms(2) by (simp add: unat_word_ariths)
  obtain l0 l1 where l: "put16 Little (request_flags ?c ext (n + 8)) = [l0, l1]" by (simp add: put16_def store16_def)
  let ?sum = "if ?c then bsd_checksum ([seq, drive, func] @ ?data) else DRIVE_PROTO_MAGIC"
  obtain c0 c1 where c: "put16 Little ?sum = [c0, c1]" by (simp add: put16_def store16_def)
  have "bsd_checksum_client ([seq, drive, func] @ drop 50 buff) (n + 8 - 5) = bsd_checksum ([seq, drive, func] @ ?data)"
    using assms(1) len5 by (subst bsd_checksum_client_take) (simp_all add: slice_def numeral_3_eq_3)
  then have h: "request_header di (n + 8) seq drive func ext buff = [DRIVE_PROTO_VERSION, l0, l1, c0, c1, seq, drive, func]"
    using l c by (auto simp: request_header_def request_flags_def Let_def uses_checksums_def split: if_splits)
  let ?p = "[DRIVE_PROTO_VERSION, l0, l1, c0, c1, seq, drive, func] @ ?data"
  have lf: "hdr_length_flags Little ?p = request_flags ?c ext (n + 8)"
    unfolding hdr_length_flags_def by (rule get16_put16 [of _ _ Little]) (simp add: slice_def l)
  have ck: "hdr_checksum Little ?p = ?sum"
    unfolding hdr_checksum_def by (rule get16_put16 [of _ _ Little]) (simp add: slice_def c)
  have "length ?p = 8 + unat n" using assms(1) by simp
  moreover have "unat (n + 8) < 2048" using assms(2) len by simp
  note fl = request_flags_spec [OF this, of ?c ext]
  ultimately show ?thesis
    unfolding h valid_request_def accept_packet_def checksum_flag_def lf ck fl
    using len by (simp add: Let_def hdr_size_def hdr_version_def hdr_sequence_def hdr_drive_def hdr_function_def lf ck fl)
qed

text \<open>C35: The frame that the client builds carries a request that the server accepts, with the drive,
  the function, the sequence number, the flags and the arguments the client put into it, behind an
  IPv4 header with a valid checksum and the addresses and ports of the drive.\<close>

theorem request_frame_accepted:
  fixes s :: "'w client"
  assumes "length (c_send_buff s) = MAX_FRAMESIZE" "entry = ip_mac_maps (c_shared s) ! slot"
    "length (im_mac_addr entry) = 6" "unat n \<le> 1464"
    "frame = c_send_buff (build_request func drive di slot n ext s)"
  shows "valid_request (uses_checksums di) ext (c_request_last_sent_seq_num s + 1) drive func
      (slice (c_send_buff s) 50 (unat n)) (slice frame 42 (8 + unat n)) \<and>
    internet_checksum Little (slice frame 14 20) = 0 \<and> take 6 frame = im_mac_addr entry \<and>
    get32 Little frame 26 = local_ipv4 (c_shared s) \<and> get32 Little frame 30 = im_ip entry \<and>
    get16 Little frame 34 = swap_word (local_port (c_shared s)) \<and> get16 Little frame 36 = swap_word (remote_port di)"
proof -
  let ?h = "request_header di (n + 8) (c_request_last_sent_seq_num s + 1) drive func ext (c_send_buff s)"
  let ?ip = "ip_header (c_shared s) (im_ip entry) (16 + n) (c_ipv4_last_sent_packet_id s + 1) UDP_PROTOCOL"
  let ?udp = "udp_header (local_port (c_shared s)) (remote_port di) (8 + n)"
  obtain csum where f: "frame = im_mac_addr entry @ slice (c_send_buff s) 6 8 @ ?ip csum @ ?udp @ ?h @ drop 50 (c_send_buff s)"
    and csum: "csum = internet_checksum Little (?ip 0)"
    using build_request_frame [OF assms(1) assms(3) assms(2)] assms(5) by blast
  have l8: "length (slice (c_send_buff s) 6 8) = 8" using assms(1) by (simp add: MAX_FRAMESIZE_def)
  have "slice frame 42 (8 + unat n) = ?h @ slice (c_send_buff s) 50 (unat n)"
    using assms(3) l8 by (simp add: f slice_def)
  then have v: "valid_request (uses_checksums di) ext (c_request_last_sent_seq_num s + 1) drive func
      (slice (c_send_buff s) 50 (unat n)) (slice frame 42 (8 + unat n))"
    using request_header_valid [of n "c_send_buff s"] assms(1,4) by (simp add: MAX_FRAMESIZE_def)
  have ip: "slice frame 14 20 = ?ip csum" using assms(3) l8 by (simp add: f slice_def)
  have sum: "internet_checksum Little (?ip csum) = 0" by (rule ip_header_verifies [OF csum])
  have fields: "slice (?ip csum) 12 4 = put32 Little (local_ipv4 (c_shared s))" "slice (?ip csum) 16 4 = put32 Little (im_ip entry)"
    "slice ?udp 0 2 = put16 Little (swap_word (local_port (c_shared s)))" "slice ?udp 2 2 = put16 Little (swap_word (remote_port di))"
    by (simp_all add: slice_def ip_header_def udp_header_def)
  have pos: "slice frame 26 4 = slice (?ip csum) 12 4" "slice frame 30 4 = slice (?ip csum) 16 4"
    "slice frame 34 2 = slice ?udp 0 2" "slice frame 36 2 = slice ?udp 2 2"
    using assms(3) l8 by (simp_all add: f slice_def)
  show ?thesis
    using v sum assms(3) ip fields pos
    by (intro conjI get16_put16 [of _ _ Little] get32_put32 [of _ _ Little]) (simp_all, simp_all add: f)
qed


section \<open>The reply frame\<close>

text \<open>A frame that brings the payload of a UDP datagram from the server to the client; Ethernet may pad
  it.\<close>

definition carries :: "shared_data \<Rightarrow> byte list \<Rightarrow> byte list \<Rightarrow> bool" where
  "carries sh payload frame \<longleftrightarrow>
     42 + length payload \<le> length frame \<and> length frame \<le> MAX_FRAMESIZE \<and>
     get16 Little frame 12 = swap_word ETHER_TYPE_IPV4 \<and> frame ! 23 = UDP_PROTOCOL \<and>
     get32 Little frame 30 = local_ipv4 sh \<and> get32 Little frame 26 = last_remote_ip sh \<and>
     get16 Little frame 34 = swap_word (last_remote_udp_port sh) \<and>
     get16 Little frame 36 = swap_word (local_port sh) \<and>
     internet_checksum Little (slice frame 14 20) = 0 \<and> slice frame 42 (length payload) = payload"

definition received :: "byte list \<Rightarrow> 'w client \<Rightarrow> 'w client" where
  "received frame s = s
     \<lparr>c_recv_buff := frame @ drop (length frame) (c_recv_buff s), c_recv_data_len := of_nat (length frame),
      c_copying := None, c_shared := (c_shared s)\<lparr>server_response_received := 1\<rparr>\<rparr>"

lemma get_prefix:
  "off + 2 \<le> length frame \<Longrightarrow> get16 Little (frame @ r) off = get16 Little frame off"
  "off + 4 \<le> length frame \<Longrightarrow> get32 Little (frame @ r) off = get32 Little frame off"
  by (simp_all add: get16_def get32_def slice_append_left)

lemma nth_slice: "k < n \<Longrightarrow> off + k < length xs \<Longrightarrow> slice xs off n ! k = xs ! (off + k)"
  by (simp add: slice_def)

lemma frame_length_word:
  assumes "length frame \<le> MAX_FRAMESIZE"
  shows "unat (of_nat (length frame) :: u16) = length frame" "sint (of_nat (length frame) :: u16) = int (length frame)"
proof -
  have "length frame < 2048" using assms by (simp add: MAX_FRAMESIZE_def)
  then show "unat (of_nat (length frame) :: u16) = length frame" "sint (of_nat (length frame) :: u16) = int (length frame)"
    by (simp_all add: unat_of_nat take_bit_nat_eq_self signed_of_nat signed_take_bit_int_eq_self)
qed

lemma frame_received:
  assumes "c_recv_data_len s = 0" "length (c_recv_buff s) = MAX_FRAMESIZE" "carries (c_shared s) payload frame"
    "8 \<le> length payload" "hdr_version payload = DRIVE_PROTO_VERSION"
  shows "interrupt (Copied frame) (interrupt (Offer (of_nat (length frame))) s) = received frame s"
proof -
  note c = assms(3) [unfolded carries_def]
  have len: "length frame \<le> MAX_FRAMESIZE" "50 \<le> length frame" using c assms(4) by auto
  note w = frame_length_word [OF len(1)]
  have "\<not> (of_nat (length frame) :: u16) > of_nat MAX_FRAMESIZE"
    using w(1) len(1) by (simp add: word_less_nat_alt MAX_FRAMESIZE_def)
  then have offer: "interrupt (Offer (of_nat (length frame))) s =
      s\<lparr>c_recv_data_len := - of_nat (length frame), c_copying := Some (of_nat (length frame))\<rparr>"
    using assms(1) by (simp add: pktdrv_recv_first_def)
  have v: "frame ! 42 = DRIVE_PROTO_VERSION"
  proof -
    have "slice frame 42 (length payload) ! 0 = frame ! 42" using c assms(4) by (subst nth_slice) auto
    then show ?thesis using c assms(5) by (simp add: hdr_version_def)
  qed
  have ge: "\<not> (of_nat (length frame) :: u16) < 50" using w(1) len(2) by (simp add: word_less_nat_alt)
  have b: "overwrite (c_recv_buff s) 0 (take (unat (of_nat (length frame) :: u16)) frame) =
      frame @ drop (length frame) (c_recv_buff s)"
    using w(1) by (simp add: overwrite_def)
  show ?thesis
    unfolding offer using c len w(2) v ge
    by (simp add: b pktdrv_recv_second_def Let_def get_prefix handle_ipv4_def received_def nth_append slice_append_left)
qed

lemma received_slice:
  assumes "carries sh reply frame" "k + n \<le> length reply"
  shows "slice (c_recv_buff (received frame s)) (42 + k) n = slice reply k n"
proof -
  let ?b = "c_recv_buff (received frame s)"
  have "slice ?b 42 (length reply) = reply"
    using assms(1) by (simp add: received_def carries_def slice_append_left)
  moreover have "slice (slice ?b 42 (length reply)) k n = slice ?b (42 + k) n"
    using assms(2) by (simp add: slice_def drop_take min_def add.commute)
  ultimately show ?thesis by simp
qed

lemma good_header_checked:
  assumes "good_header packet seq c ro reply" "carries sh reply frame" "length (c_recv_buff s) = MAX_FRAMESIZE"
  shows "check_reply di seq (received frame s) = Returns (Some (of_nat (length reply)))"
proof -
  note g = assms(1) [unfolded good_header_def] and cr = assms(2) [unfolded carries_def]
  let ?b = "c_recv_buff (received frame s)"
  have b: "?b = frame @ drop (length frame) (c_recv_buff s)" by (simp add: received_def)
  have rep: "slice ?b 42 (length reply) = reply" using cr unfolding b by (simp add: slice_append_left)
  note sub = received_slice [OF assms(2), of _ _ s]
  have lf: "get16 Little ?b 43 = hdr_length_flags Little reply" and ck: "get16 Little ?b 45 = hdr_checksum Little reply"
    using sub [of 1 2] sub [of 3 2] g by (simp_all add: get16_def hdr_length_flags_def hdr_checksum_def)
  have sq: "?b ! 47 = seq"
  proof -
    have "slice ?b 42 (length reply) ! 5 = ?b ! 47" using g cr unfolding b by (subst nth_slice) auto
    then show ?thesis unfolding rep using g by (simp add: hdr_sequence_def)
  qed
  have len: "hdr_length_flags Little reply AND 0x7FF = of_nat (length reply)"
    using g by (metis of_nat_unat ucast_id)
  have small: "length reply < 2000" using g by (simp add: PACKET_SIZE_def)
  then have u: "unat (of_nat (length reply) :: u16) = length reply"
    by (simp add: unat_of_nat take_bit_nat_eq_self)
  have rl: "unat (c_recv_data_len (received frame s)) = length frame"
    using frame_length_word(1) [of frame] cr by (simp add: received_def)
  have short: "length reply - 5 \<le> 1471" using cr unfolding MAX_FRAMESIZE_def by linarith
  have "unat (of_nat (length reply) - 5 :: u16) = length reply - 5"
    using g u by (subst unat_sub) (simp_all add: word_le_nat_alt)
  then have sum: "bsd_checksum_client (drop 47 ?b) (of_nat (length reply) - 5) = bsd_checksum (drop 5 reply)"
    using sub [of 5 "length reply - 5"] g cr assms(3) short
    by (subst bsd_checksum_client_take) (simp_all add: b slice_def MAX_FRAMESIZE_def)
  have lb: "length ?b = MAX_FRAMESIZE" using cr assms(3) by (simp add: b)
  have fit: "42 + length reply \<le> MAX_FRAMESIZE" using cr by simp
  show ?thesis
    unfolding check_reply_def Let_def lf ck sq len sum lb u
    using g u rl cr fit by (auto simp: word_less_nat_alt checksum_flag_def)
qed

section \<open>A request and its reply\<close>

text \<open>The network with the server at the other end: a frame that the client sends is served, and the
  reply comes back in the frame that \<open>wrap\<close>, the network stack of the server, makes of it.\<close>

definition server_net :: "env \<Rightarrow> (byte list \<Rightarrow> byte list) \<Rightarrow> u32 \<Rightarrow> u16 \<Rightarrow> server net" where
  "server_net env wrap ip port sent tr srv =
     (case sent of
        [] \<Rightarrow> (tr, srv)
      | frame # _ \<Rightarrow> (case serve_packet env (drop 42 frame) ip port srv of
            (Inr (Some reply), srv') \<Rightarrow>
              ([Offer (of_nat (length (wrap reply))), Copied (wrap reply), Poll], srv')
          | (_, srv') \<Rightarrow> (tr, srv')))"

text \<open>A client that can send a request of \<open>n\<close> bytes for a drive.\<close>

definition ready :: "u8 \<Rightarrow> u16 \<Rightarrow> 'w client \<Rightarrow> bool" where
  "ready drv n s \<longleftrightarrow>
     (let sh = c_shared s; di = drives sh ! unat drv; slot = unat (remote_ip_idx di) in
      length (c_send_buff s) = MAX_FRAMESIZE \<and> length (c_recv_buff s) = MAX_FRAMESIZE \<and>
      unat drv < length (drives sh) \<and> unat drv < length (drive_map sh) \<and> slot < length (ip_mac_maps sh) \<and>
      length (im_mac_addr (ip_mac_maps sh ! slot)) = 6 \<and> known_mac (im_mac_addr (ip_mac_maps sh ! slot)) \<and>
      36 + unat n \<le> unat (interface_mtu sh) \<and> interface_mtu sh \<le> 1500 \<and> c_recv_data_len s = 0)"

definition client_drive :: "u8 \<Rightarrow> 'w client \<Rightarrow> drive_info" where
  "client_drive drv s = drives (c_shared s) ! unat drv"

definition server_entry :: "u8 \<Rightarrow> 'w client \<Rightarrow> ip_mac_map" where
  "server_entry drv s = ip_mac_maps (c_shared s) ! unat (remote_ip_idx (client_drive drv s))"

definition request_built :: "u8 \<Rightarrow> u8 \<Rightarrow> u16 \<Rightarrow> bool \<Rightarrow> 'w client \<Rightarrow> 'w client" where
  "request_built func drv n ext s =
     build_request func (drive_map (c_shared s) ! unat drv) (client_drive drv s)
       (unat (remote_ip_idx (client_drive drv s))) n ext s"

definition request_packet :: "u8 \<Rightarrow> u8 \<Rightarrow> u16 \<Rightarrow> bool \<Rightarrow> 'w client \<Rightarrow> byte list" where
  "request_packet func drv n ext s = slice (c_send_buff (request_built func drv n ext s)) 42 (8 + unat n)"

lemma build_request_shared:
  "c_shared (build_request func drive di slot n ext s) = (c_shared s)
     \<lparr>last_remote_ip := im_ip (ip_mac_maps (c_shared s) ! slot), last_remote_udp_port := remote_port di\<rparr>"
  "c_recv_buff (build_request func drive di slot n ext s) = c_recv_buff s"
  "c_recv_data_len (build_request func drive di slot n ext s) = c_recv_data_len s"
  "c_request_last_sent_seq_num (build_request func drive di slot n ext s) = c_request_last_sent_seq_num s + 1"
  "c_time (build_request func drive di slot n ext s) = c_time s" "c_sent (build_request func drive di slot n ext s) = c_sent s"
  "c_world (build_request func drive di slot n ext s) = c_world s" "c_dos (build_request func drive di slot n ext s) = c_dos s"
  "c_read_buffer (build_request func drive di slot n ext s) = c_read_buffer s"
  "c_trace (build_request func drive di slot n ext s) = c_trace s"
  "c_req_drive (build_request func drive di slot n ext s) = c_req_drive s"
  "c_garbage (build_request func drive di slot n ext s) = c_garbage s"
  "c_my_2Fmux_id (build_request func drive di slot n ext s) = c_my_2Fmux_id s"
  by (simp_all add: build_request_def Let_def create_ip_eq create_udp_eq)

text \<open>The client after the exchange: the frame is out, the reply is in the receive buffer.\<close>

definition exchanged :: "u8 \<Rightarrow> u8 \<Rightarrow> u16 \<Rightarrow> bool \<Rightarrow> byte list \<Rightarrow> 'w \<Rightarrow> 'w client \<Rightarrow> 'w client" where
  "exchanged func drv n ext frame w s =
     (let b = request_built func drv n ext s in
      received frame (b\<lparr>c_sent := take (50 + unat n) (c_send_buff b) # c_sent s, c_trace := [], c_world := w\<rparr>))"

lemma exchange:
  assumes "ready drv n s"
    "serve_packet env (request_packet func drv n ext s) ip port (c_world s) = (Inr (Some reply), srv')"
    "good_header packet (c_request_last_sent_seq_num s + 1) c ro reply" "hdr_version packet = DRIVE_PROTO_VERSION"
    "carries (c_shared (request_built func drv n ext s)) reply (wrap reply)"
  shows "send_request (server_net env wrap ip port) func drv n ax ext s =
    (Returns (of_nat (length reply) - 8, hdr_ax Little reply,
       hdr_length_flags Little reply AND DRIVE_PROTO_FLAG_EXTENDED_FEATURES \<noteq> 0),
     exchanged func drv n ext (wrap reply) srv' s)"
proof -
  note rd = assms(1) [unfolded ready_def Let_def]
  let ?sh = "c_shared s" and ?di = "client_drive drv s"
  let ?b = "request_built func drv n ext s"
  have n: "unat n \<le> 1464" using rd by (simp add: word_le_nat_alt)
  have fl: "unat (50 + n) = 50 + unat n" "unat (36 + n) = 36 + unat n"
    using n by (simp_all add: unat_word_ariths)
  have mtu: "\<not> 36 + n > interface_mtu ?sh" using rd fl(2) by (simp add: word_less_nat_alt)
  obtain csum where frame: "c_send_buff ?b =
     im_mac_addr (server_entry drv s) @ slice (c_send_buff s) 6 8 @
     ip_header ?sh (im_ip (server_entry drv s)) (16 + n) (c_ipv4_last_sent_packet_id s + 1) UDP_PROTOCOL csum @
     udp_header (local_port ?sh) (remote_port ?di) (8 + n) @
     request_header ?di (n + 8) (c_request_last_sent_seq_num s + 1) (drive_map ?sh ! unat drv) func ext (c_send_buff s) @
     drop 50 (c_send_buff s)"
    using build_request_frame [of s "server_entry drv s"] rd
    unfolding request_built_def server_entry_def client_drive_def by blast
  have "drop 42 (take (50 + unat n) (c_send_buff ?b)) = request_packet func drv n ext s"
    by (simp add: request_packet_def slice_def drop_take)
  note serve = assms(2) [folded this]
  let ?s1 = "?b\<lparr>c_shared := (c_shared ?b)\<lparr>server_response_received := 0\<rparr>\<rparr>"
  let ?tr = "[Offer (of_nat (length (wrap reply))), Copied (wrap reply), Poll]"
  let ?s2 = "?s1\<lparr>c_sent := take (50 + unat n) (c_send_buff ?b) # c_sent s, c_trace := ?tr, c_world := srv'\<rparr>"
  have tx: "transmit (server_net env wrap ip port) (50 + n) (c_send_buff ?b) ?s1 = ?s2"
    using serve fl by (simp add: transmit_def send_frame_def server_net_def request_built_def build_request_shared)
  have s2: "c_recv_data_len ?s2 = 0" "length (c_recv_buff ?s2) = MAX_FRAMESIZE"
    using rd by (simp_all add: request_built_def build_request_shared)
  have cs: "carries (c_shared ?s2) reply (wrap reply)" using assms(5) by (simp add: carries_def)
  have v: "8 \<le> length reply" "hdr_version reply = DRIVE_PROTO_VERSION" using assms(3,4) by (simp_all add: good_header_def)
  note rc = frame_received [OF s2 cs v]
  note ck = good_header_checked [OF assms(3) cs s2(2), of ?di]
  have "wait_reply ?di (c_request_last_sent_seq_num s + 1) (time16 ?s2) tmo ?tr ?s2 =
      (Returns (Some (of_nat (length reply))), [], received (wrap reply) ?s2)" for tmo
    using rc ck by (simp add: time16_def) (simp add: received_def)
  moreover have "get16 Little (c_recv_buff (received (wrap reply) x)) 48 = hdr_ax Little reply"
    "get16 Little (c_recv_buff (received (wrap reply) x)) 43 = hdr_length_flags Little reply" for x :: "server client"
    using received_slice [OF cs, of 6 2 x] received_slice [OF cs, of 1 2 x] v(1)
    by (simp_all add: get16_def hdr_ax_def hdr_length_flags_def)
  moreover have "send_retries (server_net env wrap ip port) ?di (c_request_last_sent_seq_num s + 1)
      (50 + n) tmo (Suc k) ?s1 = (Returns (Some (of_nat (length reply))), (received (wrap reply) ?s2)\<lparr>c_trace := []\<rparr>)" for tmo k
    using calculation(1) by (simp add: tx Let_def)
  moreover have "(received (wrap reply) ?s2)\<lparr>c_trace := []\<rparr> = exchanged func drv n ext (wrap reply) srv' s"
    by (simp add: exchanged_def received_def Let_def)
  moreover have "c_request_last_sent_seq_num ?b = c_request_last_sent_seq_num s + 1"
    by (simp add: request_built_def build_request_shared)
  ultimately show ?thesis
    using rd mtu
    by (simp add: send_request_def cm_defs cm_nth_def Let_def client_drive_def [symmetric] request_built_def [symmetric]
        exchanged_def del: send_retries.simps)
qed

lemma request_packet_eq:
  assumes "ready drv n s"
  shows "request_packet func drv n ext s =
    request_header (client_drive drv s) (n + 8) (c_request_last_sent_seq_num s + 1) (drive_map (c_shared s) ! unat drv) func ext
      (c_send_buff s) @ slice (c_send_buff s) 50 (unat n)"
proof -
  note rd = assms [unfolded ready_def Let_def]
  obtain csum where "c_send_buff (request_built func drv n ext s) =
     im_mac_addr (server_entry drv s) @ slice (c_send_buff s) 6 8 @
     ip_header (c_shared s) (im_ip (server_entry drv s)) (16 + n) (c_ipv4_last_sent_packet_id s + 1) UDP_PROTOCOL csum @
     udp_header (local_port (c_shared s)) (remote_port (client_drive drv s)) (8 + n) @
     request_header (client_drive drv s) (n + 8) (c_request_last_sent_seq_num s + 1) (drive_map (c_shared s) ! unat drv)
       func ext (c_send_buff s) @ drop 50 (c_send_buff s)"
    using build_request_frame [of s "server_entry drv s"] rd
    unfolding request_built_def server_entry_def client_drive_def by blast
  moreover have "length (slice (c_send_buff s) 6 8) = 8" "length (im_mac_addr (server_entry drv s)) = 6"
    using rd by (simp_all add: MAX_FRAMESIZE_def server_entry_def client_drive_def)
  ultimately show ?thesis by (simp add: request_packet_def slice_def)
qed

lemma request_packet_valid:
  assumes "ready drv n s"
  shows "valid_request (uses_checksums (client_drive drv s)) ext (c_request_last_sent_seq_num s + 1)
      (drive_map (c_shared s) ! unat drv) func (slice (c_send_buff s) 50 (unat n)) (request_packet func drv n ext s)"
proof -
  note rd = assms [unfolded ready_def Let_def]
  have "unat n \<le> 1464" using rd by (simp add: word_le_nat_alt)
  then show ?thesis
    using request_header_valid [of n "c_send_buff s"] rd by (simp add: request_packet_eq [OF assms] MAX_FRAMESIZE_def)
qed

lemma exchange_served:
  assumes "ready drv n s" "e_native env = Little" "wf_cache (sv_cache (c_world s))"
    "\<forall>k < length (sv_drives (c_world s)). wf_names (drive_view (c_world s) k)"
    "\<forall>info. last_exchange ip port (sv_cache (c_world s)) = Some info \<longrightarrow> \<not> repeated (request_packet func drv n ext s) info"
    "serve_packet env (request_packet func drv n ext s) ip port (c_world s) = (Inr (Some reply), srv')"
    "carries (c_shared (request_built func drv n ext s)) reply (wrap reply)"
  defines "s' \<equiv> exchanged func drv n ext (wrap reply) srv' s"
  shows "send_request (server_net env wrap ip port) func drv n ax ext s =
      (Returns (of_nat (length reply - 8), hdr_ax Little reply,
         hdr_length_flags Little reply AND DRIVE_PROTO_FLAG_EXTENDED_FEATURES \<noteq> 0), s')"
    and "slice (c_recv_buff s') 50 (length reply - 8) = drop 8 reply"
proof -
  let ?p = "request_packet func drv n ext s"
  have acc: "accept_packet Little ?p = Some ?p" and seq: "hdr_sequence ?p = c_request_last_sent_seq_num s + 1"
    using request_packet_valid [OF assms(1), of ext func] by (simp_all add: valid_request_def)
  have "hdr_version ?p = DRIVE_PROTO_VERSION" using acc by (auto simp: accept_packet_def split: if_splits)
  moreover note good = reply_header_good [OF assms(2-4) acc assms(5,6), unfolded seq]
  ultimately have ex: "send_request (server_net env wrap ip port) func drv n ax ext s =
      (Returns (of_nat (length reply) - 8, hdr_ax Little reply,
         hdr_length_flags Little reply AND DRIVE_PROTO_FLAG_EXTENDED_FEATURES \<noteq> 0), s')"
    unfolding s'_def using exchange [where wrap = wrap, OF assms(1,6) good _ assms(7)] by blast
  have "8 \<le> length reply" using good by (simp add: good_header_def)
  then show "slice (c_recv_buff s') 50 (length reply - 8) = drop 8 reply"
    using received_slice [OF assms(7), of 8 "length reply - 8"] by (simp add: s'_def exchanged_def Let_def slice_def)
  have "(of_nat (length reply - 8) :: u16) = of_nat (length reply) - 8"
    using \<open>8 \<le> length reply\<close> by (simp add: of_nat_diff)
  then show "send_request (server_net env wrap ip port) func drv n ax ext s =
      (Returns (of_nat (length reply - 8), hdr_ax Little reply,
         hdr_length_flags Little reply AND DRIVE_PROTO_FLAG_EXTENDED_FEATURES \<noteq> 0), s')"
    using ex by simp
qed

text \<open>C15: Client and server together: a request of the client, sent once over a network that delivers
  it and the reply, returns the server's reply, its code in AX, its flag of extended features and its
  data in the receive buffer, and the server has served the request exactly once.\<close>

theorem client_server_exchange:
  assumes "ready drv n s" "e_native env = Little" "wf_cache (sv_cache (c_world s))"
    "\<forall>k < length (sv_drives (c_world s)). wf_names (drive_view (c_world s) k)"
    "\<forall>info. last_exchange ip port (sv_cache (c_world s)) = Some info \<longrightarrow> \<not> repeated (request_packet func drv n ext s) info"
    "serve_packet env (request_packet func drv n ext s) ip port (c_world s) = (Inr (Some reply), srv')"
    "carries (c_shared (request_built func drv n ext s)) reply (wrap reply)"
  shows "\<exists>s'. send_request (server_net env wrap ip port) func drv n ax ext s =
      (Returns (of_nat (length reply - 8), hdr_ax Little reply,
         hdr_length_flags Little reply AND DRIVE_PROTO_FLAG_EXTENDED_FEATURES \<noteq> 0), s') \<and>
    slice (c_recv_buff s') 50 (length reply - 8) = drop 8 reply \<and> c_world s' = srv' \<and> c_dos s' = c_dos s"
  using exchange_served [where wrap = wrap, OF assms]
  by (simp add: exchanged_def received_def Let_def request_built_def build_request_shared)

text \<open>A small client for concrete runs: its drive D: is the drive C: of the server 10.0.0.1, both
  checksums are off.\<close>

definition sample_frame :: "shared_data \<Rightarrow> byte list \<Rightarrow> byte list" where
  "sample_frame sh payload =
     (let n = of_nat (length payload);
          hdr = ip_header (sh\<lparr>local_ipv4 := last_remote_ip sh\<rparr>) (local_ipv4 sh) (8 + n) 1 UDP_PROTOCOL
      in replicate 12 0 @ put16 Little (swap_word ETHER_TYPE_IPV4) @ hdr (internet_checksum Little (hdr 0))
         @ udp_header (last_remote_udp_port sh) (local_port sh) n @ payload)"

lemma sample_frame_carries:
  assumes "length payload \<le> 1476"
  shows "carries sh payload (sample_frame sh payload)"
proof -
  let ?hdr = "ip_header (sh\<lparr>local_ipv4 := last_remote_ip sh\<rparr>) (local_ipv4 sh) (8 + of_nat (length payload)) 1 UDP_PROTOCOL"
  let ?c = "internet_checksum Little (?hdr 0)"
  let ?udp = "udp_header (last_remote_udp_port sh) (local_port sh) (of_nat (length payload))"
  have f: "sample_frame sh payload = replicate 12 0 @ put16 Little (swap_word ETHER_TYPE_IPV4) @ ?hdr ?c @ ?udp @ payload"
    by (simp add: sample_frame_def Let_def)
  have "?hdr ?c ! 9 = UDP_PROTOCOL" by (simp add: ip_header_def nth_append)
  then have p: "sample_frame sh payload ! 23 = UDP_PROTOCOL" by (simp add: f nth_append)
  have ip: "slice (sample_frame sh payload) 14 20 = ?hdr ?c" by (simp add: f slice_def)
  have fields: "slice (?hdr ?c) 12 4 = put32 Little (last_remote_ip sh)" "slice (?hdr ?c) 16 4 = put32 Little (local_ipv4 sh)"
    "slice ?udp 0 2 = put16 Little (swap_word (last_remote_udp_port sh))" "slice ?udp 2 2 = put16 Little (swap_word (local_port sh))"
    by (simp_all add: slice_def ip_header_def udp_header_def)
  have pos: "slice (sample_frame sh payload) 26 4 = slice (?hdr ?c) 12 4" "slice (sample_frame sh payload) 30 4 = slice (?hdr ?c) 16 4"
    "slice (sample_frame sh payload) 34 2 = slice ?udp 0 2" "slice (sample_frame sh payload) 36 2 = slice ?udp 2 2"
    "slice (sample_frame sh payload) 12 2 = put16 Little (swap_word ETHER_TYPE_IPV4)"
    by (simp_all add: f slice_def)
  show ?thesis
    unfolding carries_def
    using assms p ip ip_header_verifies [OF refl] fields pos
    by (intro conjI get16_put16 [of _ _ Little] get32_put32 [of _ _ Little])
      (simp_all, simp_all add: f MAX_FRAMESIZE_def slice_def)
qed

definition sample_drive_info :: drive_info where
  "sample_drive_info = \<lparr>remote_ip_idx = 0, remote_port = 12200, min_rcv_tmo_18_2_ticks_shr_2 = 4,
     max_rcv_tmo_18_2_ticks_shr_2 = 22, max_request_retries = 4, enabled_checksums = 0, min_server_read_len = 64\<rparr>"

definition sample_shared :: shared_data where
  "sample_shared =
     \<lparr>abi_version = 2, min_compatible_abi_version = 1, netmount_version = replicate 8 0,
      drive_map = (replicate 26 0xFF)[3 := 2], drives = replicate 26 sample_drive_info, local_ipv4 = 0x0200000A,
      net_mask = 0x00FFFFFF, local_port = 12200, disable_sending_arp_request = 0, gateway_ip_slot = 0xFF,
      interface_mtu = 1500,
      ip_mac_maps = \<lparr>im_ip = 0x0100000A, im_mac_addr = replicate 6 1\<rparr> #
        replicate 3 \<lparr>im_ip = 0xFFFFFFFF, im_mac_addr = replicate 6 0xFF\<rparr>,
      requested_pktdrv_int = 0, used_pktdrv_int = 0x60, arp_pkthandle = 0, ipv4_pkthandle = 1,
      local_mac_addr = replicate 6 2, last_remote_ip = 0, last_remote_udp_port = 0, server_response_received = 0,
      psp_segment = 0x1000, int2F_redirector_offset = 0x1200, orig_INT2F_handler = 0, pktdrv_INT_handler = 0,
      has_drive_extended_features = replicate 4 0\<rparr>"

definition sample_dos :: dos where
  "sample_dos =
     (let fcb = \<lparr>name_blank_padded = replicate 8 ch_space, ext_blank_padded = replicate 3 ch_space\<rparr> in
      \<lparr>d_regs = \<lparr>r_ax = 0, r_bx = 0, r_cx = 0, r_dx = 0, r_si = 0, r_di = 0, r_ds = 0, r_es = 0, r_flags = 0\<rparr>,
       d_stack_word = 0,
       d_sda = \<lparr>curr_dta = 0, fn1 = [], fn2 = [], sdb_drive_no = 0,
         found_file = \<lparr>de_name = fcb, de_attrs = 0, de_time_update = 0, de_date_update = 0, de_start_cluster = 0, de_size = 0\<rparr>,
         srch_attr = 0, drive_cds_path = [], action_ext = 0, mode_ext = 0\<rparr>,
       d_sft = \<lparr>handle_count = 1, open_mode = 2, file_attr = 0, dev_info_word = 0x8043, redir_data = 0,
         sft_start_cluster = 0, file_time = 0, file_size = 5, file_pos = 0, original_file_time = 0, dir_sector = 0,
         dir_entry_no = 0xFF, sft_file_name = fcb\<rparr>,
       d_cds_path = [], d_buffer = [], d_lock_params = [],
       d_search = (\<lambda>_. \<lparr>ds_drive_no = 0, ds_srch_tmpl = fcb, ds_srch_attr = 0, ds_dir_entry_no = 0, ds_cluster = 0\<rparr>),
       d_near_stores = []\<rparr>)"

definition sample_client :: "'w \<Rightarrow> 'w client" where
  "sample_client w =
     \<lparr>c_shared = sample_shared, c_recv_buff = replicate MAX_FRAMESIZE 0, c_send_buff = replicate MAX_FRAMESIZE 0,
      c_arp_buff = replicate 42 0, c_recv_data_len = 0, c_my_2Fmux_id = 0xC0, c_req_drive = 3,
      c_ipv4_last_sent_packet_id = 0, c_request_last_sent_seq_num = 6,
      c_read_buffer = \<lparr>fb_timestamp = 0, fb_offset = 0, fb_start_cluster = 0, fb_drive_no = 0, fb_valid_bytes = 0,
        fb_data = replicate FILE_BUFFER_SIZE 0\<rparr>,
      c_time = 1000, c_sent = [], c_copying = None, c_garbage = 0, c_dos = sample_dos, c_trace = [], c_world = w\<rparr>"

lemma sample_ready: "unat n \<le> 1464 \<Longrightarrow> ready 3 n (sample_client w)"
  by (simp add: ready_def sample_client_def sample_shared_def sample_drive_info_def known_mac_def list_ex_iff)

lemma sample_request_packet:
  "request_packet (int2f_code INT2F_NETMOUNT_FEATURE_QUERY) 3 2 False (sample_client w) = sample_query"
proof -
  have "request_header sample_drive_info 10 7 2 0xFE False b = take 8 sample_query" for b
    by (simp add: request_header_def Let_def sample_drive_info_def) code_simp
  moreover have "slice (replicate MAX_FRAMESIZE 0) 50 2 = drop 8 sample_query"
  proof -
    have "drop 8 sample_query = [0, 0]" by code_simp
    then show ?thesis by (simp add: slice_def MAX_FRAMESIZE_def numeral_2_eq_2)
  qed
  moreover have "client_drive 3 (sample_client w) = sample_drive_info" "drive_map (c_shared (sample_client w)) ! 3 = 2"
    "c_request_last_sent_seq_num (sample_client w) = 6" "c_send_buff (sample_client w) = replicate MAX_FRAMESIZE 0"
    by (simp_all add: client_drive_def sample_client_def sample_shared_def)
  ultimately show ?thesis
    by (subst request_packet_eq) (simp_all add: sample_ready)
qed

theorem client_server_exchange_witness:
  "\<exists>reply srv' s'. send_request (server_net sample_env (sample_frame (c_shared (request_built 0xFE 3 2 False
       (sample_client (sample_server sample_drive))))) 1 2) 0xFE 3 2 0 False (sample_client (sample_server sample_drive)) =
     (Returns (of_nat (length reply - 8), hdr_ax Little reply,
        hdr_length_flags Little reply AND DRIVE_PROTO_FLAG_EXTENDED_FEATURES \<noteq> 0), s') \<and> c_world s' = srv' \<and>
     serve_packet sample_env sample_query 1 2 (sample_server sample_drive) = (Inr (Some reply), srv')"
proof -
  let ?s = "sample_client (sample_server sample_drive)"
  let ?wrap = "sample_frame (c_shared (request_built 0xFE 3 2 False ?s))"
  obtain reply srv' where served:
    "serve_packet sample_env sample_query 1 2 (sample_server sample_drive) = (Inr (Some reply), srv')" "length reply \<le> 8"
    using sample_query_served by blast
  have w: "c_world ?s = sample_server sample_drive" by (simp add: sample_client_def)
  have q: "request_packet 0xFE 3 2 False ?s = sample_query" using sample_request_packet [of "sample_server sample_drive"] by simp
  have "carries (c_shared (request_built 0xFE 3 2 False ?s)) reply (?wrap reply)"
    using sample_frame_carries served(2) by simp
  moreover have "ready 3 2 ?s" by (rule sample_ready) simp
  ultimately show ?thesis
    using client_server_exchange [where drv = 3 and n = 2 and s = ?s and env = sample_env and ip = 1 and port = 2 and
        func = "0xFE" and ext = False and reply = reply and srv' = srv' and wrap = ?wrap and ax = 0]
      sample_server_fresh served unfolding w q by auto
qed

theorem request_frame_accepted_witness:
  "valid_request False False 7 2 0xFE (slice (c_send_buff (sample_client ())) 50 2)
     (slice (c_send_buff (build_request 0xFE 2 sample_drive_info 0 2 False (sample_client ()))) 42 10)"
proof -
  have "length (c_send_buff (sample_client ())) = MAX_FRAMESIZE" "length (im_mac_addr (ip_mac_maps (c_shared (sample_client ())) ! 0)) = 6"
    "c_request_last_sent_seq_num (sample_client ()) = 6" "\<not> uses_checksums sample_drive_info"
    by (simp_all add: sample_client_def sample_shared_def uses_checksums_def sample_drive_info_def)
  then show ?thesis
    using request_frame_accepted [of "sample_client ()" _ 0 2 _ "0xFE" 2 sample_drive_info False] by simp
qed

end
