(* ===== verification/ClientWait.thy ===== *)
theory ClientWait
  imports ClientLink
begin

text \<open>
  The waiting loop of \<open>send_request\<close> with interrupts between its turns: it ends when the timer ticks, it
  accepts only frames of the server that answer the request when the packet driver copies a frame in
  one interrupt, and a late reply blocks it.
\<close>

section \<open>What interrupts leave alone\<close>

definition same_link :: "'w client \<Rightarrow> 'w client \<Rightarrow> bool" where
  "same_link s t \<longleftrightarrow>
     c_send_buff t = c_send_buff s \<and> c_req_drive t = c_req_drive s \<and> drives (c_shared t) = drives (c_shared s) \<and>
     local_ipv4 (c_shared t) = local_ipv4 (c_shared s) \<and> local_port (c_shared t) = local_port (c_shared s) \<and>
     last_remote_ip (c_shared t) = last_remote_ip (c_shared s) \<and>
     last_remote_udp_port (c_shared t) = last_remote_udp_port (c_shared s) \<and>
     c_dos t = c_dos s \<and> c_world t = c_world s \<and> c_read_buffer t = c_read_buffer s \<and>
     drive_map (c_shared t) = drive_map (c_shared s) \<and> interface_mtu (c_shared t) = interface_mtu (c_shared s) \<and>
     length (c_recv_buff s) \<le> length (c_recv_buff t)"

lemma same_link_refl [simp]: "same_link s s"
  by (simp add: same_link_def)

lemma same_link_trans: "same_link s t \<Longrightarrow> same_link t u \<Longrightarrow> same_link s u"
  by (auto simp: same_link_def)

lemma gateway_loop_fields:
  "drives (gateway_loop i mac js sh) = drives sh \<and> local_ipv4 (gateway_loop i mac js sh) = local_ipv4 sh \<and>
   local_port (gateway_loop i mac js sh) = local_port sh \<and> last_remote_ip (gateway_loop i mac js sh) = last_remote_ip sh \<and>
   last_remote_udp_port (gateway_loop i mac js sh) = last_remote_udp_port sh \<and>
   drive_map (gateway_loop i mac js sh) = drive_map sh \<and> interface_mtu (gateway_loop i mac js sh) = interface_mtu sh \<and>
   server_response_received (gateway_loop i mac js sh) = server_response_received sh"
  by (induction js arbitrary: sh) (simp_all add: update_mac_def)

lemma arp_table_loop_fields:
  "drives (arp_table_loop ip mac js sh) = drives sh \<and> local_ipv4 (arp_table_loop ip mac js sh) = local_ipv4 sh \<and>
   local_port (arp_table_loop ip mac js sh) = local_port sh \<and> last_remote_ip (arp_table_loop ip mac js sh) = last_remote_ip sh \<and>
   last_remote_udp_port (arp_table_loop ip mac js sh) = last_remote_udp_port sh \<and>
   drive_map (arp_table_loop ip mac js sh) = drive_map sh \<and> interface_mtu (arp_table_loop ip mac js sh) = interface_mtu sh \<and>
   server_response_received (arp_table_loop ip mac js sh) = server_response_received sh"
  by (induction js) (simp_all add: update_mac_def Let_def gateway_loop_fields)

lemma length_overwrite_le: "length xs \<le> length (overwrite xs off ys)"
  by (simp add: overwrite_def)

lemma same_link_arp: "same_link s (handle_arp s)"
  by (simp add: handle_arp_def Let_def same_link_def arp_table_loop_fields send_frame_def arp_reply_frame_def length_overwrite_le)

lemma same_link_interrupt: "same_link s (interrupt i s)"
proof (cases i)
  case (Copied frame)
  show ?thesis
  proof (cases "c_copying s")
    case (Some n)
    let ?s1 = "s\<lparr>c_recv_buff := overwrite (c_recv_buff s) 0 (take (unat n) frame), c_copying := None\<rparr>"
    let ?s2 = "?s1\<lparr>c_recv_data_len := - c_recv_data_len ?s1\<rparr>"
    have base: "same_link s ?s2" by (simp add: same_link_def length_overwrite_le)
    moreover have "same_link ?s2 (drop_frame t)" if "same_link ?s2 t" for t
      using that by (simp add: drop_frame_def same_link_def)
    moreover have "same_link ?s2 (snd (handle_ipv4 ?s2))" by (simp add: handle_ipv4_def Let_def same_link_def)
    moreover note same_link_arp [of ?s2]
    ultimately show ?thesis
      unfolding Copied using Some
      by (auto simp: pktdrv_recv_second_def Let_def split: prod.splits intro: same_link_trans)
  qed (simp add: Copied)
qed (simp_all add: same_link_def pktdrv_recv_first_def)


section \<open>The timer\<close>

definition is_clock :: "step \<Rightarrow> bool" where
  "is_clock i \<longleftrightarrow> (case i of Clock _ \<Rightarrow> True | _ \<Rightarrow> False)"

text \<open>\<open>n\<close> interrupts of the BIOS timer, each of which advances it by one. The program looks at the clock at
  least once between two of them; anything else may happen there.\<close>

fun ticks :: "u32 \<Rightarrow> nat \<Rightarrow> step list \<Rightarrow> bool" where
  "ticks t 0 tr \<longleftrightarrow> True"
| "ticks t (Suc n) (Clock c # tr) \<longleftrightarrow>
     c = t \<and> Poll \<in> set (takeWhile (\<lambda>i. \<not> is_clock i) tr) \<and> ticks (t + 1) n (dropWhile (\<lambda>i. \<not> is_clock i) tr)"
| "ticks t (Suc n) tr \<longleftrightarrow> False"

text \<open>One minute, at 18.2 ticks in a second, without the reset of the counter at midnight. No timeout of a
  drive is longer than 1020 ticks.\<close>

definition timer_runs :: "step list \<Rightarrow> bool" where
  "timer_runs tr \<longleftrightarrow> (\<exists>pre t post. tr = pre @ post \<and> ticks t 1092 post)"

definition seen_at :: "u32 \<Rightarrow> step list \<Rightarrow> bool" where
  "seen_at t tr \<longleftrightarrow> (\<exists>pre mid post. tr = pre @ Clock t # mid @ Poll # post \<and> (\<forall>i \<in> set mid. \<not> is_clock i))"

lemma seen_at_append: "seen_at t tr \<Longrightarrow> seen_at t (xs @ tr)"
  unfolding seen_at_def by (metis append.assoc)

lemma seen_first:
  assumes "Poll \<in> set (takeWhile (\<lambda>i. \<not> is_clock i) tr)"
  shows "seen_at t (Clock t # tr)"
proof -
  obtain mid post where split: "takeWhile (\<lambda>i. \<not> is_clock i) tr = mid @ Poll # post"
    using assms by (meson split_list)
  have "\<not> is_clock i" if "i \<in> set mid" for i
    using set_takeWhileD [of i "\<lambda>i. \<not> is_clock i" tr] split that by auto
  moreover have "tr = mid @ Poll # (post @ dropWhile (\<lambda>i. \<not> is_clock i) tr)"
    using takeWhile_dropWhile_id [of "\<lambda>i. \<not> is_clock i" tr] split by simp
  ultimately show ?thesis unfolding seen_at_def by (metis append_Nil)
qed

lemma ticks_seen: "ticks t n tr \<Longrightarrow> k < n \<Longrightarrow> seen_at (t + of_nat k) tr"
proof (induction t n tr arbitrary: k rule: ticks.induct)
  case (2 t n c tr)
  show ?case
  proof (cases k)
    case 0
    then show ?thesis using 2(2) seen_first by simp
  next
    case (Suc j)
    then have "seen_at (t + of_nat k) (dropWhile (\<lambda>i. \<not> is_clock i) tr)"
      using 2(1) [of j] 2(2,3) by (simp add: add_ac)
    from seen_at_append [OF this, of "Clock c # takeWhile (\<lambda>i. \<not> is_clock i) tr"] show ?thesis by simp
  qed
qed simp_all

text \<open>A clock that ticks for a minute leaves every timeout behind.\<close>

lemma late_clock:
  fixes t :: u32 and start tmo :: u16
  assumes "tmo \<le> 1020"
  shows "ucast t - start > tmo \<or> ucast (t + 1021) - start > tmo"
proof (rule disjCI)
  have up: "(ucast (t + 1021) :: u16) = ucast t + 1021"
  proof -
    have "unat (ucast (t + 1021) :: u16) = unat (ucast t + 1021 :: u16)"
      by (simp add: unat_ucast_down unat_word_ariths mod_simps) (simp add: mod_mod_cancel)
    then show ?thesis by (simp only: word_unat_eq_iff)
  qed
  have tmo: "unat tmo \<le> 1020" using assms unfolding word_le_nat_alt by simp
  assume "\<not> ucast (t + 1021) - start > tmo"
  then have "unat (ucast t - start + 1021) \<le> unat tmo"
    unfolding up word_less_nat_alt by (simp add: algebra_simps)
  then have "(unat (ucast t - start) + 1021) mod 65536 \<le> 1020" using tmo by (simp add: unat_word_ariths)
  then have "unat (ucast t - start) > 1020"
    by (cases "unat (ucast t - start) \<le> 1020") simp_all
  then show "ucast t - start > tmo" using tmo by (simp add: word_less_nat_alt)
qed

lemma timer_runs_late:
  assumes "timer_runs tr" "tmo \<le> 1020"
  obtains t where "seen_at t tr" "ucast t - start > (tmo :: u16)"
proof -
  obtain pre t post where tr: "tr = pre @ post" "ticks t 1092 post" using assms(1) by (auto simp: timer_runs_def)
  then have "seen_at t tr" "seen_at (t + 1021) tr"
    using ticks_seen [OF tr(2), of 0] ticks_seen [OF tr(2), of 1021] by (simp_all add: seen_at_append)
  then show ?thesis using late_clock [OF assms(2), of t start] that by blast
qed

lemma push_bit_2_le: "push_bit 2 (ucast (x :: u8)) \<le> (1020 :: u16)"
proof -
  have "unat x < 256" using unat_lt2p [of x] by simp
  then have "unat (push_bit 2 (ucast x) :: u16) \<le> 1020"
    by (simp add: push_bit_eq_mult unat_word_ariths unat_ucast_up)
  then show ?thesis by (simp add: word_le_nat_alt)
qed

lemma next_timeout_le: "max_tmo \<le> 1020 \<Longrightarrow> next_timeout max_tmo tmo \<le> 1020"
  by (auto simp: next_timeout_def not_less)


section \<open>Waiting ends\<close>

lemma interrupt_time: "\<not> is_clock i \<Longrightarrow> c_time (interrupt i s) = c_time s"
  by (cases i)
    (auto simp: is_clock_def pktdrv_recv_first_def pktdrv_recv_second_def handle_ipv4_def handle_arp_def drop_frame_def
      send_frame_def Let_def split: option.split prod.split)

lemma check_reply_not_waits: "check_reply di seq s \<noteq> Waits"
  by (simp add: check_reply_def Let_def)

lemma wait_reply_late:
  assumes "\<forall>i \<in> set mid. \<not> is_clock i" "time16 s - start > tmo"
  shows "fst (wait_reply di seq start tmo (mid @ Poll # post) s) \<noteq> Waits"
  using assms
proof (induction mid arbitrary: s)
  case (Cons i mid)
  have "time16 (interrupt i s) = time16 s" using interrupt_time [of i s] Cons.prems(1) by (simp add: time16_def)
  then show ?case
    using Cons.IH [of "interrupt i s"] Cons.prems by (cases i) (simp_all del: interrupt.simps)
qed simp

lemma wait_reply_timeout:
  assumes "seen_at t tr" "ucast t - start > tmo"
  shows "fst (wait_reply di seq start tmo tr s) \<noteq> Waits"
proof -
  obtain pre mid post where tr: "tr = pre @ Clock t # mid @ Poll # post" "\<forall>i \<in> set mid. \<not> is_clock i"
    using assms(1) by (auto simp: seen_at_def)
  have "fst (wait_reply di seq start tmo (pre @ Clock t # mid @ Poll # post) s) \<noteq> Waits"
  proof (induction pre arbitrary: s)
    case Nil
    then show ?case using wait_reply_late [OF tr(2), of tmo "s\<lparr>c_time := t\<rparr>" start] assms(2) by (simp add: time16_def)
  next
    case (Cons i pre)
    then show ?case
      using check_reply_not_waits [of di seq s] by (cases i) (auto split: outcome.split option.split)
  qed
  then show ?thesis by (simp add: tr(1))
qed

lemma arp_wait_late:
  assumes "\<forall>i \<in> set mid. \<not> is_clock i" "time16 s - start > (18 :: u16)"
  shows "fst (arp_wait slot start (mid @ Poll # post) s) \<noteq> None"
  using assms
proof (induction mid arbitrary: s)
  case (Cons i mid)
  have "time16 (interrupt i s) = time16 s" using interrupt_time [of i s] Cons.prems(1) by (simp add: time16_def)
  then show ?case
    using Cons.IH [of "interrupt i s"] Cons.prems by (cases i) (auto simp: not_le simp del: interrupt.simps)
qed (auto simp: not_le)

lemma arp_wait_timeout:
  assumes "seen_at t tr" "ucast t - start > (18 :: u16)"
  shows "fst (arp_wait slot start tr s) \<noteq> None"
proof -
  obtain pre mid post where tr: "tr = pre @ Clock t # mid @ Poll # post" "\<forall>i \<in> set mid. \<not> is_clock i"
    using assms(1) by (auto simp: seen_at_def)
  have "fst (arp_wait slot start (pre @ Clock t # mid @ Poll # post) s) \<noteq> None"
  proof (induction pre arbitrary: s)
    case Nil
    then show ?case using arp_wait_late [OF tr(2), of "s\<lparr>c_time := t\<rparr>" start] assms(2) by (simp add: time16_def)
  next
    case (Cons i pre)
    then show ?case by (cases i) auto
  qed
  then show ?thesis by (simp add: tr(1))
qed

lemma transmit_trace: "c_trace (transmit net n b s) = fst (net (take (unat n) b # c_sent s) (c_trace s) (c_world s))"
  by (simp add: transmit_def send_frame_def Let_def split: prod.split)

lemma send_retries_ends:
  assumes "\<And>sent tr w. timer_runs (fst (net sent tr w))"
  shows "tmo \<le> 1020 \<Longrightarrow> fst (send_retries net di seq fl tmo k s) \<noteq> Waits"
proof (induction k arbitrary: tmo s)
  case (Suc k)
  let ?s = "transmit net fl (c_send_buff s) s"
  have "timer_runs (c_trace ?s)" using assms by (simp add: transmit_trace)
  then obtain t where t: "seen_at t (c_trace ?s)" "ucast t - time16 ?s > tmo"
    using timer_runs_late [OF _ Suc.prems] by blast
  from wait_reply_timeout [OF t, of di seq ?s] Suc.IH next_timeout_le [OF push_bit_2_le]
  show ?case by (auto simp: Let_def split: prod.split outcome.split option.split)
qed simp

lemma arp_retries_ends:
  assumes "\<And>sent tr w. timer_runs (fst (net sent tr w))"
  shows "fst (arp_retries net slot k s) = Returns ()"
proof (induction k arbitrary: s)
  case (Suc k)
  let ?s = "transmit net 42 (c_arp_buff s) s"
  have "timer_runs (c_trace ?s)" using assms by (simp add: transmit_trace)
  then obtain t where t: "seen_at t (c_trace ?s)" "ucast t - time16 ?s > (18 :: u16)"
    using timer_runs_late [of "c_trace ?s" 18 "time16 ?s"] by auto
  from arp_wait_timeout [OF t, of slot ?s] Suc.IH
  show ?case by (auto simp: Let_def split: prod.split option.split bool.split)
qed simp


section \<open>Waiting leaves no buffer\<close>

text \<open>A packet driver that makes its two calls in one interrupt, so that the program does not run while a
  frame is copied.\<close>

fun atomic :: "step list \<Rightarrow> bool" where
  "atomic (Offer n # Copied f # tr) \<longleftrightarrow> length f = unat n \<and> atomic tr"
| "atomic (Poll # tr) \<longleftrightarrow> atomic tr"
| "atomic (Clock t # tr) \<longleftrightarrow> atomic tr"
| "atomic [] \<longleftrightarrow> True"
| "atomic _ \<longleftrightarrow> False"

text \<open>The length in the protocol header of a frame, with the headers before it, does not exceed the buffer.\<close>

definition announced :: "byte list \<Rightarrow> nat" where
  "announced f = 42 + unat (get16 Little f 43 AND 0x7FF)"

fun fitting :: "step \<Rightarrow> bool" where
  "fitting (Copied f) \<longleftrightarrow> (f ! 23 = UDP_PROTOCOL \<and> f ! 42 = DRIVE_PROTO_VERSION \<longrightarrow> announced f \<le> MAX_FRAMESIZE)"
| "fitting _ \<longleftrightarrow> True"

definition roomy :: "'w client \<Rightarrow> bool" where
  "roomy s \<longleftrightarrow> MAX_FRAMESIZE \<le> length (c_recv_buff s) \<and>
     (c_recv_data_len s = 0 \<or> announced (c_recv_buff s) \<le> MAX_FRAMESIZE)"

lemma roomy_drop: "roomy (drop_frame t) = (MAX_FRAMESIZE \<le> length (c_recv_buff t))"
  by (simp add: roomy_def drop_frame_def)

lemma roomy_copied:
  assumes "roomy s" "length f = unat n" "fitting (Copied f)"
  shows "roomy (interrupt (Copied f) (interrupt (Offer n) s))"
proof (cases "n > of_nat MAX_FRAMESIZE \<or> c_recv_data_len s \<noteq> 0")
  case True
  then have "interrupt (Copied f) (interrupt (Offer n) s) = s\<lparr>c_copying := None\<rparr>" by (auto simp: pktdrv_recv_first_def)
  then show ?thesis using assms(1) by (simp add: roomy_def)
next
  case False
  let ?s1 = "s\<lparr>c_recv_buff := overwrite (c_recv_buff s) 0 f, c_copying := None, c_recv_data_len := n\<rparr>"
  have len: "MAX_FRAMESIZE \<le> length (c_recv_buff ?s1)"
    using assms(1) length_overwrite_le [of "c_recv_buff s" 0 f] by (simp add: roomy_def)
  have off: "interrupt (Offer n) s = s\<lparr>c_recv_data_len := - n, c_copying := Some n\<rparr>"
    using False by (simp add: pktdrv_recv_first_def)
  have ip: "roomy t" if "handle_ipv4 ?s1 = (True, t)" for t
  proof -
    have t: "t = ?s1\<lparr>c_shared := (c_shared ?s1)\<lparr>server_response_received := 1\<rparr>\<rparr>" "\<not> n < 50"
      "overwrite (c_recv_buff s) 0 f ! 23 = UDP_PROTOCOL" "overwrite (c_recv_buff s) 0 f ! 42 = DRIVE_PROTO_VERSION"
      using that by (auto simp: handle_ipv4_def Let_def split: if_splits)
    have "50 \<le> length f" using t(2) assms(2) by (simp add: word_less_nat_alt not_less)
    then have "announced (overwrite (c_recv_buff s) 0 f) \<le> MAX_FRAMESIZE"
      using assms(3) t(3,4) by (simp add: overwrite_def nth_append announced_def get_prefix)
    then show ?thesis using len t(1) by (simp add: roomy_def)
  qed
  have "handle_ipv4 ?s1 = (False, t) \<Longrightarrow> t = ?s1" for t
    by (auto simp: handle_ipv4_def Let_def split: if_splits)
  then have "roomy (case handle_ipv4 ?s1 of (keep, s) \<Rightarrow> if keep then s else drop_frame s)"
    using ip len by (auto simp: roomy_drop split: prod.split)
  moreover have "roomy (drop_frame (handle_arp ?s1))"
    using len same_link_arp [of ?s1] by (simp add: same_link_def roomy_drop)
  ultimately show ?thesis
    unfolding off using assms(2) len by (simp add: pktdrv_recv_second_def Let_def roomy_drop)
qed

definition well_driven :: "step list \<Rightarrow> bool" where
  "well_driven tr \<longleftrightarrow> atomic tr \<and> list_all fitting tr"

lemma roomy_trace:
  assumes "well_driven tr"
  shows "roomy s \<Longrightarrow> roomy (snd (snd (arp_wait slot start tr s)))"
    "roomy s \<Longrightarrow> roomy (snd (snd (wait_reply di seq start tmo tr s))) \<and> fst (wait_reply di seq start tmo tr s) \<noteq> Faults"
proof -
  have "atomic tr" "list_all fitting tr" using assms by (simp_all add: well_driven_def)
  then show "roomy s \<Longrightarrow> roomy (snd (snd (arp_wait slot start tr s)))"
  proof (induction tr arbitrary: s rule: atomic.induct)
    case (1 n f tr)
    then have "roomy (interrupt (Copied f) (interrupt (Offer n) s))" by (intro roomy_copied) simp_all
    with 1 show ?case by simp
  qed (simp_all add: roomy_def)
  show "roomy (snd (snd (wait_reply di seq start tmo tr s))) \<and> fst (wait_reply di seq start tmo tr s) \<noteq> Faults" if "roomy s"
    using \<open>atomic tr\<close> \<open>list_all fitting tr\<close> that
  proof (induction tr arbitrary: s rule: atomic.induct)
    case (1 n f tr)
    then have "roomy (interrupt (Copied f) (interrupt (Offer n) s))" by (intro roomy_copied) simp_all
    with 1 show ?case by simp
  next
    case (2 tr)
    have "check_reply di seq s \<noteq> Faults"
      using 2(4) by (auto simp: check_reply_def Let_def roomy_def announced_def not_less)
    moreover have "roomy (s\<lparr>c_recv_data_len := 0\<rparr>)" using 2(4) by (simp add: roomy_def)
    ultimately show ?case using 2 by (auto split: outcome.split option.split)
  qed (simp_all add: roomy_def)
qed

lemma roomy_transmit [simp]: "roomy (transmit net n b s) = roomy s"
  by (simp add: transmit_def send_frame_def roomy_def Let_def split: prod.split)

lemma arp_retries_roomy:
  assumes "\<And>sent tr w. well_driven (fst (net sent tr w))"
  shows "roomy s \<Longrightarrow> roomy (snd (arp_retries net slot k s))"
proof (induction k arbitrary: s)
  case (Suc k)
  let ?s = "transmit net 42 (c_arp_buff s) s"
  have "well_driven (c_trace ?s)" using assms by (simp add: transmit_trace)
  then have "roomy (snd (snd (arp_wait slot (time16 ?s) (c_trace ?s) ?s)))" using Suc.prems by (intro roomy_trace) simp_all
  then have "roomy ((snd (snd (arp_wait slot (time16 ?s) (c_trace ?s) ?s)))\<lparr>c_trace := tr\<rparr>)" for tr by (simp add: roomy_def)
  with Suc.IH show ?case by (auto simp: Let_def split: prod.splits option.split bool.split)
qed simp

lemma send_retries_no_fault:
  assumes "\<And>sent tr w. well_driven (fst (net sent tr w))"
  shows "roomy s \<Longrightarrow> fst (send_retries net di seq fl tmo k s) \<noteq> Faults"
proof (induction k arbitrary: tmo s)
  case (Suc k)
  let ?s = "transmit net fl (c_send_buff s) s"
  let ?w = "wait_reply di seq (time16 ?s) tmo (c_trace ?s) ?s"
  have "well_driven (c_trace ?s)" using assms by (simp add: transmit_trace)
  then have w: "roomy (snd (snd ?w)) \<and> fst ?w \<noteq> Faults" using Suc.prems by (intro roomy_trace) simp_all
  then have "roomy ((snd (snd ?w))\<lparr>c_trace := tr\<rparr>)" for tr by (simp add: roomy_def)
  with w Suc.IH show ?case by (auto simp: Let_def split: prod.splits outcome.split option.split)
qed simp

lemma send_retries_unchecked:
  fixes net :: "'w net"
  assumes "enabled_checksums di AND CHECKSUM_NETMOUNT_PROTO = 0"
  shows "fst (send_retries net di seq fl tmo k s) \<noteq> Faults"
proof (induction k arbitrary: tmo s)
  case (Suc k)
  have "fst (wait_reply di seq start tmo tr s) \<noteq> Faults" for start tr and s :: "'w client"
  proof (induction tr arbitrary: s)
    case (Cons i tr)
    have "check_reply di seq s \<noteq> Faults" using assms by (simp add: check_reply_def Let_def)
    with Cons show ?case by (cases i) (auto split: outcome.split option.split)
  qed simp
  with Suc show ?case by (auto simp: Let_def split: prod.splits outcome.split option.split) (metis fst_conv)+
qed simp

section \<open>Sending a request\<close>

definition never_waits :: "('s, 'a) cm \<Rightarrow> bool" where
  "never_waits m \<longleftrightarrow> (\<forall>s. fst (m s) \<noteq> Waits)"

lemma never_waits_bind: "never_waits m \<Longrightarrow> (\<And>x. never_waits (f x)) \<Longrightarrow> never_waits (cm_bind m f)"
  by (simp add: never_waits_def cm_bind_def split: prod.split outcome.split) (metis fst_conv)

lemma never_waits_basic:
  "never_waits (cm_return x)" "never_waits (cm_get g)" "never_waits (cm_modify h)" "never_waits cm_fault" "never_waits (cm_nth xs i)"
  by (simp_all add: never_waits_def cm_defs cm_nth_def)

lemma never_waits_if: "never_waits m \<Longrightarrow> never_waits m' \<Longrightarrow> never_waits (if b then m else m')"
  by simp

lemma never_waits_option: "never_waits m \<Longrightarrow> (\<And>y. never_waits (f y)) \<Longrightarrow> never_waits (case x of None \<Rightarrow> m | Some y \<Rightarrow> f y)"
  by (cases x) simp_all

lemmas never_waits_intros = never_waits_bind never_waits_basic never_waits_if never_waits_option

definition usable :: "u8 \<Rightarrow> 'w client \<Rightarrow> bool" where
  "usable drv s \<longleftrightarrow>
     (let sh = c_shared s in unat drv < length (drives sh) \<and> unat drv < length (drive_map sh) \<and>
      unat (remote_ip_idx (drives sh ! unat drv)) < length (ip_mac_maps sh))"

text \<open>A drive without checksums reads no byte of a frame whose place depends on the frame.\<close>

definition stays_inside :: "'w net \<Rightarrow> u8 \<Rightarrow> 'w client \<Rightarrow> bool" where
  "stays_inside net drv s \<longleftrightarrow>
     enabled_checksums (drives (c_shared s) ! unat drv) AND CHECKSUM_NETMOUNT_PROTO = 0 \<or>
     roomy s \<and> (\<forall>sent tr w. well_driven (fst (net sent tr w)))"

lemma send_request_no_fault:
  fixes net :: "'w net"
  assumes "usable drv s" "stays_inside net drv s"
  shows "fst (send_request net func drv n ax ext s) \<noteq> Faults"
proof -
  let ?di = "drives (c_shared s) ! unat drv"
  define arp where "arp = (if disable_sending_arp_request (c_shared s) = 0 \<and>
      \<not> known_mac (im_mac_addr (ip_mac_maps (c_shared s) ! unat (remote_ip_idx ?di)))
    then send_arp_request net (unat (remote_ip_idx ?di)) else cm_return ())"
  have arp_ret: "fst (arp_retries net slot k t) \<noteq> Faults" for slot k and t :: "'w client"
    by (induction k arbitrary: t) (auto simp: Let_def split: prod.splits option.split bool.split)
  have arp_ok: "fst (arp s) \<noteq> Faults" using arp_ret by (simp add: arp_def send_arp_request_def cm_defs)
  have sent: "fst (send_retries net ?di seq fl tmo k t) \<noteq> Faults"
    if "roomy (snd (arp s)) \<Longrightarrow> roomy t" for seq fl tmo k t
  proof (cases "enabled_checksums ?di AND CHECKSUM_NETMOUNT_PROTO = 0")
    case True
    then show ?thesis by (rule send_retries_unchecked)
  next
    case False
    then have inside: "roomy s" "\<And>sent tr w. well_driven (fst (net sent tr w))" using assms(2) by (auto simp: stays_inside_def)
    have "roomy (s\<lparr>c_arp_buff := b\<rparr>)" for b using inside(1) by (simp add: roomy_def)
    then have "roomy (snd (arp s))"
      using arp_retries_roomy [of net, OF inside(2)] inside(1) by (simp add: arp_def send_arp_request_def cm_defs)
    then show ?thesis using that by (intro send_retries_no_fault inside(2))
  qed
  have built: "send_retries net ?di seq fl tmo k ((build_request func d ?di slot n ext t)\<lparr>c_shared := sh\<rparr>) \<noteq> (Faults, u)"
    if "arp s = (r, t)" for seq fl tmo k d slot t sh r u
  proof -
    have "roomy (snd (arp s)) \<Longrightarrow> roomy ((build_request func d ?di slot n ext t)\<lparr>c_shared := sh\<rparr>)"
      by (simp add: that roomy_def build_request_def create_ip_def create_udp_def Let_def)
    from sent [OF this, of seq fl tmo k] show ?thesis by auto
  qed
  show ?thesis
    using assms(1) arp_ok built
    by (auto simp: send_request_def usable_def cm_defs cm_nth_def Let_def arp_def [symmetric]
        split: prod.splits outcome.splits option.splits simp del: send_retries.simps)
qed

text \<open>C14: Sending a request always ends: on every network after each transmission of which the BIOS timer
  ticks for a minute, one tick after the other, while anything may arrive in between, \<open>send_request\<close> does
  not wait forever. It returns a result, without reading behind the receive buffer, for every drive of
  the table without protocol checksums; with them, when the packet driver copies a frame in one
  interrupt and no frame of the protocol announces more bytes than the buffer has.\<close>

theorem send_request_returns:
  fixes net :: "'w net" and s :: "'w client"
  assumes "\<forall>sent tr w. timer_runs (fst (net sent tr w))"
  shows "fst (send_request net func drv n ax ext s) \<noteq> Waits \<and>
    (usable drv s \<and> stays_inside net drv s \<longrightarrow> (\<exists>r. fst (send_request net func drv n ax ext s) = Returns r))"
proof -
  have arp: "never_waits (send_arp_request net slot)" for slot
    unfolding never_waits_def send_arp_request_def using assms arp_retries_ends [of net] by simp
  have ret: "never_waits (send_retries net di seq fl (push_bit 2 (ucast m)) k)" for di seq fl k and m :: u8
    unfolding never_waits_def using assms by (intro allI send_retries_ends push_bit_2_le) blast
  have "never_waits (send_request net func drv n ax ext)"
    unfolding send_request_def Let_def by (intro never_waits_intros arp ret)
  then have "fst (send_request net func drv n ax ext s) \<noteq> Waits" by (simp add: never_waits_def)
  then show ?thesis
    using send_request_no_fault [of drv s net func n ax ext] by (cases "fst (send_request net func drv n ax ext s)") auto
qed

text \<open>A network on which nothing but the timer is heard.\<close>

fun only_ticks :: "u32 \<Rightarrow> nat \<Rightarrow> step list" where
  "only_ticks t 0 = []"
| "only_ticks t (Suc n) = Clock t # Poll # only_ticks (t + 1) n"

lemma only_ticks_tick: "ticks t n (only_ticks t n)"
proof (induction n arbitrary: t)
  case (Suc n)
  have "dropWhile (\<lambda>i. \<not> is_clock i) (only_ticks t' n) = only_ticks t' n" for t'
    by (cases n) (simp_all add: is_clock_def)
  with Suc show ?case by (simp add: is_clock_def)
qed simp

lemma only_ticks_driven: "well_driven (only_ticks t n)"
proof -
  have "atomic (only_ticks t n) \<and> list_all fitting (only_ticks t n)" by (induction n arbitrary: t) simp_all
  then show ?thesis by (simp add: well_driven_def)
qed

definition silent_net :: "'w net" where
  "silent_net sent tr w = (only_ticks 1001 1092, w)"

lemma silent_net_runs: "\<forall>sent tr (w :: unit). timer_runs (fst (silent_net sent tr w))"
proof -
  have "timer_runs (only_ticks 1001 1092)"
    unfolding timer_runs_def by (intro exI [of _ "[]"] exI [of _ 1001] exI [of _ "only_ticks 1001 1092"] conjI only_ticks_tick) simp
  then show ?thesis by (simp only: silent_net_def fst_conv simp_thms)
qed

lemma silent_net_inside: "roomy s \<Longrightarrow> stays_inside silent_net drv s"
  by (simp only: stays_inside_def silent_net_def only_ticks_driven fst_conv simp_thms)

lemma sample_roomy: "roomy (sample_client w)" "usable 3 (sample_client w)"
  by (simp_all add: roomy_def usable_def sample_client_def sample_shared_def sample_drive_info_def)

theorem send_request_returns_witness: "\<exists>r. fst (send_request silent_net 1 3 0 0 False (sample_client ())) = Returns r"
  by (rule mp [OF conjunct2 [OF send_request_returns [OF silent_net_runs]]])
    (intro conjI silent_net_inside sample_roomy)

section \<open>Only replies of the server are accepted\<close>

text \<open>The tests of \<open>handle_ipv4\<close> on a frame.\<close>

definition server_frame :: "'w client \<Rightarrow> byte list \<Rightarrow> bool" where
  "server_frame s f \<longleftrightarrow>
     50 \<le> length f \<and> f ! 23 = UDP_PROTOCOL \<and> get32 Little f 30 = local_ipv4 (c_shared s) \<and>
     get32 Little f 26 = last_remote_ip (c_shared s) \<and>
     get16 Little f 34 = swap_word (last_remote_udp_port (c_shared s)) \<and>
     get16 Little f 36 = swap_word (local_port (c_shared s)) \<and> f ! 42 = DRIVE_PROTO_VERSION"

text \<open>Between the interrupts: the buffer is free, or it holds a frame of the server.\<close>

definition holds :: "byte list \<Rightarrow> 'w client \<Rightarrow> bool" where
  "holds f s \<longleftrightarrow> server_frame s f \<and> take (length f) (c_recv_buff s) = f \<and> c_recv_data_len s = of_nat (length f) \<and>
     length f \<le> MAX_FRAMESIZE"

definition settled :: "byte list set \<Rightarrow> 'w client \<Rightarrow> bool" where
  "settled fs s \<longleftrightarrow> c_recv_data_len s = 0 \<or> (\<exists>f \<in> fs. holds f s)"

lemma server_frame_link: "same_link s t \<Longrightarrow> server_frame t f = server_frame s f"
  by (simp add: same_link_def server_frame_def)

lemma handle_ipv4_accepts:
  assumes "handle_ipv4 s = (True, s')" "take (length f) (c_recv_buff s) = f" "c_recv_data_len s = of_nat (length f)"
    "length f \<le> MAX_FRAMESIZE"
  shows "holds f s'"
proof -
  have a: "s' = s\<lparr>c_shared := (c_shared s)\<lparr>server_response_received := 1\<rparr>\<rparr>" "\<not> c_recv_data_len s < 50"
    "c_recv_buff s ! 23 = UDP_PROTOCOL" "get32 Little (c_recv_buff s) 30 = local_ipv4 (c_shared s)"
    "get32 Little (c_recv_buff s) 26 = last_remote_ip (c_shared s)"
    "get16 Little (c_recv_buff s) 34 = swap_word (last_remote_udp_port (c_shared s))"
    "get16 Little (c_recv_buff s) 36 = swap_word (local_port (c_shared s))" "c_recv_buff s ! 42 = DRIVE_PROTO_VERSION"
    using assms(1) by (auto simp: handle_ipv4_def Let_def split: if_splits)
  have len: "50 \<le> length f"
    using a(2) frame_length_word(1) [OF assms(4)] assms(3) by (simp add: word_less_nat_alt not_less)
  obtain r where r: "c_recv_buff s = f @ r" using assms(2) by (metis append_take_drop_id)
  show ?thesis
    using a(1,3-8) len assms(3,4) unfolding r
    by (simp add: holds_def server_frame_def get_prefix nth_append r)
qed

lemma frame_settles:
  assumes "settled fs s" "length f = unat n"
  shows "settled (insert f fs) (interrupt (Copied f) (interrupt (Offer n) s))"
proof (cases "n > of_nat MAX_FRAMESIZE \<or> c_recv_data_len s \<noteq> 0")
  case True
  then have "interrupt (Copied f) (interrupt (Offer n) s) = s\<lparr>c_copying := None\<rparr>" by (auto simp: pktdrv_recv_first_def)
  then show ?thesis using assms(1) by (auto simp: settled_def holds_def server_frame_def)
next
  case False
  let ?s1 = "s\<lparr>c_recv_buff := overwrite (c_recv_buff s) 0 f, c_copying := None, c_recv_data_len := n\<rparr>"
  have len: "length f \<le> MAX_FRAMESIZE" using False assms(2) by (simp add: word_less_nat_alt MAX_FRAMESIZE_def)
  have n: "n = of_nat (length f)" using assms(2) by simp
  have off: "interrupt (Offer n) s = s\<lparr>c_recv_data_len := - n, c_copying := Some n\<rparr>"
    using False by (simp add: pktdrv_recv_first_def)
  have pre: "take (length f) (c_recv_buff ?s1) = f" "c_recv_data_len ?s1 = of_nat (length f)"
    using n by (simp_all add: overwrite_def)
  have "settled (insert f fs) (case handle_ipv4 ?s1 of (keep, s) \<Rightarrow> if keep then s else drop_frame s)"
    using handle_ipv4_accepts [OF _ pre len] by (auto simp: settled_def drop_frame_def split: prod.splits)
  moreover have "settled (insert f fs) (drop_frame t)" for t :: "'a client" by (simp add: settled_def drop_frame_def)
  ultimately show ?thesis
    unfolding off using assms(2) by (simp add: pktdrv_recv_second_def Let_def)
qed

text \<open>What the client found in the buffer when it took the reply.\<close>

definition answers :: "drive_info \<Rightarrow> u8 \<Rightarrow> u16 \<Rightarrow> byte list \<Rightarrow> bool" where
  "answers di seq len f \<longleftrightarrow>
     f ! 47 = seq \<and> get16 Little f 43 AND 0x7FF = len \<and> 8 \<le> len \<and> unat len \<le> length f \<and>
     (get16 Little f 43 AND DRIVE_PROTO_FLAG_CHECKSUM_USED = 0 \<longrightarrow> get16 Little f 45 = DRIVE_PROTO_MAGIC)"

lemma check_reply_settled:
  assumes "settled fs s" "check_reply di seq s = Returns (Some len)"
  shows "\<exists>f \<in> fs. server_frame s f \<and> answers di seq len f"
proof -
  have c: "len = get16 Little (c_recv_buff s) 43 AND 0x7FF" "\<not> len > c_recv_data_len s" "\<not> len < 8"
    "c_recv_buff s ! 47 = seq"
    "get16 Little (c_recv_buff s) 43 AND DRIVE_PROTO_FLAG_CHECKSUM_USED = 0 \<longrightarrow> get16 Little (c_recv_buff s) 45 = DRIVE_PROTO_MAGIC"
    using assms(2) by (auto simp: check_reply_def Let_def split: if_splits)
  have "c_recv_data_len s \<noteq> 0" using c(2,3) by (auto simp: not_less)
  then obtain f where f: "f \<in> fs" "holds f s" using assms(1) by (auto simp: settled_def)
  then have len: "50 \<le> length f" by (simp add: holds_def server_frame_def)
  obtain r where r: "c_recv_buff s = f @ r" using f(2) by (metis append_take_drop_id holds_def)
  have "unat len \<le> length f"
    using c(2) f(2) frame_length_word(1) [of f] by (simp add: holds_def word_less_nat_alt not_less)
  then have "answers di seq len f"
    using c len unfolding r by (simp add: answers_def get_prefix nth_append not_less)
  then show ?thesis using f by (auto simp: holds_def)
qed

text \<open>C6: With a packet driver that makes its two calls in one interrupt, between two turns of the waiting
  loop, and a receive buffer that is free at the start, a reply that the client takes is a frame that arrived while it waited, from the address and the port it sent the request to, to its
  own address and port, with the protocol version and the sequence number of the request, whatever other
  frames arrived before.\<close>

theorem reply_from_server:
  assumes "wait_reply di seq start tmo tr s = (Returns (Some len), rest, s')" "atomic tr" "c_recv_data_len s = 0"
  shows "\<exists>f. Copied f \<in> set tr \<and> server_frame s f \<and> answers di seq len f"
proof -
  have "\<exists>f. (Copied f \<in> set tr \<or> f \<in> fs) \<and> server_frame t f \<and> answers di seq len f"
    if "wait_reply di seq start tmo tr t = (Returns (Some len), rest, s')" "atomic tr" "settled fs t" for t fs
    using that
  proof (induction tr arbitrary: t fs rule: atomic.induct)
    case (1 n f tr)
    let ?t = "interrupt (Copied f) (interrupt (Offer n) t)"
    have "same_link t ?t" by (rule same_link_trans [OF same_link_interrupt same_link_interrupt])
    moreover have "settled (insert f fs) ?t" using 1 by (intro frame_settles) simp_all
    ultimately show ?case using 1 server_frame_link [of t ?t] by fastforce
  next
    case (2 tr)
    show ?case
    proof (cases "check_reply di seq t = Returns (Some len)")
      case True
      then show ?thesis using check_reply_settled [OF 2(4) True] by auto
    next
      case False
      have keep: "settled fs (t\<lparr>c_recv_data_len := 0\<rparr>)" by (simp add: settled_def)
      have same: "server_frame (t\<lparr>c_recv_data_len := 0\<rparr>) f = server_frame t f" for f by (simp add: server_frame_def)
      from 2(2) False consider "wait_reply di seq start tmo tr t = (Returns (Some len), rest, s')"
        | "wait_reply di seq start tmo tr (t\<lparr>c_recv_data_len := 0\<rparr>) = (Returns (Some len), rest, s')"
        by (auto split: if_splits outcome.splits option.splits)
      then show ?thesis using 2(1) [OF _ _ 2(4)] 2(1) [OF _ _ keep] 2(3) same by cases auto
    qed
  next
    case (3 c tr)
    have "settled fs (t\<lparr>c_time := c\<rparr>)" using 3(4) by (auto simp: settled_def holds_def server_frame_def)
    moreover have "server_frame (t\<lparr>c_time := c\<rparr>) f = server_frame t f" for f by (simp add: server_frame_def)
    ultimately show ?case using 3 by fastforce
  qed simp_all
  from this [OF assms(1,2), of "{}"] assms(3) show ?thesis by (simp add: settled_def)
qed


text \<open>An answer of 8 bytes to the request 7, without a checksum.\<close>

definition sample_reply :: "byte list" where
  "sample_reply = [1, 8, 0, 0x24, 0x95, 7, 0, 0]"

lemma sample_reply_good: "good_header sample_reply 7 False False sample_reply"
  by code_simp

lemma sample_reply_header: "length sample_reply = 8" "hdr_version sample_reply = DRIVE_PROTO_VERSION"
  by code_simp+

theorem reply_from_server_witness:
  "\<exists>f. Copied f \<in> set [Offer 50, Copied (sample_frame sample_shared sample_reply), Poll] \<and>
     server_frame (sample_client ()) f \<and> answers sample_drive_info 7 8 f"
proof -
  let ?f = "sample_frame sample_shared sample_reply" and ?s = "sample_client ()"
  have s: "c_shared ?s = sample_shared" "c_recv_data_len ?s = 0" "length (c_recv_buff ?s) = MAX_FRAMESIZE"
    by (simp_all add: sample_client_def)
  have c: "carries (c_shared ?s) sample_reply ?f"
    using sample_frame_carries [of sample_reply] s by (simp add: sample_reply_header)
  have f: "length ?f = 50" by (simp add: sample_frame_def Let_def sample_reply_header)
  have rc: "interrupt (Copied ?f) (interrupt (Offer 50) ?s) = received ?f ?s"
    using frame_received [OF s(2,3) c] f by (simp add: sample_reply_header)
  have ck: "check_reply sample_drive_info 7 (received ?f ?s) = Returns (Some 8)"
    using good_header_checked [OF sample_reply_good c s(3)] by (simp add: sample_reply_header)
  have "wait_reply sample_drive_info 7 (time16 ?s) 16 [Offer 50, Copied ?f, Poll] ?s =
      (Returns (Some 8), [], received ?f ?s)"
    using rc ck by (simp add: time16_def) (simp add: received_def)
  from reply_from_server [OF this _ s(2)] show ?thesis using f by simp
qed


section \<open>A late reply blocks the next request\<close>

definition blocked :: "'w client \<Rightarrow> bool" where
  "blocked s \<longleftrightarrow> c_recv_data_len s \<noteq> 0 \<and> server_response_received (c_shared s) = 0 \<and> c_copying s = None"

lemma blocked_interrupt: "blocked s \<Longrightarrow> blocked (interrupt i s)"
  by (cases i) (simp_all add: blocked_def pktdrv_recv_first_def)

lemma wait_reply_blocked:
  "blocked s \<Longrightarrow> fst (wait_reply di seq start tmo tr s) \<in> {Waits, Returns None} \<and>
     blocked (snd (snd (wait_reply di seq start tmo tr s)))"
proof (induction tr arbitrary: s)
  case (Cons i tr)
  show ?case
  proof (cases i)
    case Poll
    have "server_response_received (c_shared s) = 0" using Cons.prems by (simp add: blocked_def)
    then show ?thesis using Cons Poll by simp
  qed (use Cons.IH [OF blocked_interrupt [OF Cons.prems, of i]] in simp_all)
qed simp

lemma send_retries_blocked:
  "blocked s \<Longrightarrow> fst (send_retries net di seq fl tmo k s) \<in> {Waits, Returns None}"
proof (induction k arbitrary: tmo s)
  case (Suc k)
  let ?s = "transmit net fl (c_send_buff s) s"
  have blk: "blocked ?s" using Suc.prems by (simp add: transmit_def send_frame_def blocked_def Let_def split: prod.split)
  obtain r rest s' where w: "wait_reply di seq (time16 ?s) tmo (c_trace ?s) ?s = (r, rest, s')" by (metis prod_cases3)
  have r: "r = Waits \<or> r = Returns None" and "blocked s'"
    using wait_reply_blocked [OF blk, of di seq "time16 ?s" tmo "c_trace ?s"] w by simp_all
  then have "blocked (s'\<lparr>c_trace := rest\<rparr>)" by (simp add: blocked_def)
  note IH = Suc.IH [OF this]
  from r show ?case
  proof
    assume "r = Returns None"
    with w show ?thesis by (simp add: Let_def IH [simplified])
  qed (use w in \<open>simp add: Let_def\<close>)
qed simp

text \<open>C36: When a duplicate of a reply arrives after its request was finished, it stays in the receive
  buffer. The next request resets the flag of a received response, but does not free the buffer, so
  that every frame is refused: on every network after each transmission of which the BIOS timer ticks for
  a minute, the request fails with a network error after all its retries, whatever the server answers.\<close>

theorem late_reply_blocks:
  fixes s :: "'w client"
  assumes "ready drv n s" "carries (c_shared s) reply frame" "8 \<le> length reply" "hdr_version reply = DRIVE_PROTO_VERSION"
    "\<forall>sent tr w. timer_runs (fst (net sent tr w))"
  shows "fst (send_request net func drv n ax ext
      (interrupt (Copied frame) (interrupt (Offer (of_nat (length frame))) s))) = Returns (NETWORK_ERROR, ax, ext)"
proof -
  note rd = assms(1) [unfolded ready_def Let_def]
  let ?t = "received frame s"
  have t: "interrupt (Copied frame) (interrupt (Offer (of_nat (length frame))) s) = ?t"
    using rd by (intro frame_received [OF _ _ assms(2-4)]) simp_all
  have shared: "drives (c_shared ?t) = drives (c_shared s)" "drive_map (c_shared ?t) = drive_map (c_shared s)"
    "ip_mac_maps (c_shared ?t) = ip_mac_maps (c_shared s)" "interface_mtu (c_shared ?t) = interface_mtu (c_shared s)"
    "disable_sending_arp_request (c_shared ?t) = disable_sending_arp_request (c_shared s)"
    by (simp_all add: received_def)
  let ?b = "request_built func drv n ext ?t"
  let ?s1 = "?b\<lparr>c_shared := (c_shared ?b)\<lparr>server_response_received := 0\<rparr>\<rparr>"
  have "length frame \<noteq> 0" "length frame \<le> MAX_FRAMESIZE" using assms(2,3) by (auto simp: carries_def)
  then have "(of_nat (length frame) :: u16) \<noteq> 0" using frame_length_word(1) [of frame] by (metis unat_0)
  then have blk: "blocked ?s1"
    by (simp add: blocked_def request_built_def build_request_def Let_def create_ip_eq create_udp_eq received_def)
  let ?seq = "c_request_last_sent_seq_num ?b" and ?di = "client_drive drv ?t"
  let ?r = "send_retries net ?di ?seq (50 + n) (push_bit 2 (ucast (min_rcv_tmo_18_2_ticks_shr_2 ?di)))
      (Suc (unat (max_request_retries ?di))) ?s1"
  have "fst ?r \<noteq> Waits" using assms(5) by (intro send_retries_ends push_bit_2_le) blast
  then have "fst ?r = Returns None" using send_retries_blocked [OF blk] by blast
  then obtain u where u: "?r = (Returns None, u)" by (metis prod.collapse)
  have "unat (36 + n) = 36 + unat n" using rd by (simp add: word_le_nat_alt unat_word_ariths)
  then have mtu: "\<not> 36 + n > interface_mtu (c_shared ?t)" using rd by (simp add: word_less_nat_alt shared)
  show ?thesis
    using rd [folded shared] mtu u unfolding t
    by (simp add: send_request_def cm_defs cm_nth_def Let_def client_drive_def [symmetric] request_built_def [symmetric]
        del: send_retries.simps)
qed

theorem late_reply_blocks_witness:
  "fst (send_request silent_net 0xFE 3 2 0 False
     (interrupt (Copied (sample_frame sample_shared sample_reply)) (interrupt (Offer 50) (sample_client ())))) =
     Returns (NETWORK_ERROR, 0, False)"
proof -
  let ?f = "sample_frame sample_shared sample_reply" and ?s = "sample_client ()"
  have "carries (c_shared ?s) sample_reply ?f"
    using sample_frame_carries [of sample_reply] by (simp add: sample_reply_header sample_client_def)
  moreover have "of_nat (length ?f) = (50 :: u16)" by (simp add: sample_frame_def Let_def sample_reply_header)
  moreover have "ready 3 2 ?s" by (rule sample_ready) simp
  moreover have "8 \<le> length sample_reply" by (simp add: sample_reply_header)
  ultimately show ?thesis
    using late_reply_blocks [of 3 2 ?s sample_reply ?f silent_net "0xFE" 0 False] silent_net_runs sample_reply_header(2)
    by simp
qed

end
