(* ===== verification/Serving.thy ===== *)
theory Serving
  imports Packets Answers
begin

text \<open>
  A packet with a new request: the reply of the server carries the code and the data that
  \<open>handle_function\<close> computes on the drive, and the request is remembered in the reply cache.
\<close>

text \<open>Requests change only the table of handles of a drive.\<close>

definition same_settings :: "drive \<Rightarrow> dstate \<Rightarrow> bool" where
  "same_settings d s \<longleftrightarrow> (s_drive s)\<lparr>d_items := []\<rparr> = d\<lparr>d_items := []\<rparr>"

interpretation settings: drive_invariant "same_settings d" for d
proof (intro drive_invariant.intro drive_invariant_axioms.intro)
  show "reading (same_settings d)"
    by (rule reading_items_blind) (simp_all add: set_items_def same_settings_def)
qed (simp add: same_settings_def)

lemma settings_kept: "(s_drive (snd (handle_function env ext f data s)))\<lparr>d_items := []\<rparr> = (s_drive s)\<lparr>d_items := []\<rparr>"
  using keepsD [OF settings.handle_function_keeps, of "s_drive s" s] by (simp add: same_settings_def)

lemma used_kept: "handle_function env ext f data s = (r, t) \<Longrightarrow> d_used (s_drive t) = d_used (s_drive s)"
  using settings_kept [of env ext f data s] by (metis drive.ext_inject drive.surjective drive.update_convs(9) snd_conv)

lemma process_request_answer:
  assumes "\<not> repeated request (ps_info s)" "8 \<le> length request" "8 \<le> length (ri_send_packet (ps_info s))"
    "k = unat (hdr_drive request AND 0x1F)" "2 \<le> k" "k < length (ps_drives s)" "d_used (ps_drives s ! k)"
    "int2f_of (hdr_function request) = Some f"
    "handle_function env (hdr_length_flags (e_native env) request AND DRIVE_PROTO_FLAG_EXTENDED_FEATURES \<noteq> 0) f
       (drop 8 request) (request_view s k) = (Inr (Some (code, data)), t)"
  defines "flags \<equiv> (if f \<noteq> INT2F_CLOSE_FILE \<or> d_use_client_timestamp (ps_drives s ! k)
      then DRIVE_PROTO_FLAG_EXTENDED_FEATURES else 0)"
  shows "process_request env request s = (Inr (Some (length data + 8)), s
    \<lparr>ps_info := (ps_info s)\<lparr>ri_send_packet := draft (e_native env) request flags code data (ri_send_packet (ps_info s))\<rparr>,
     ps_drives := (ps_drives s)[k := s_drive t], ps_host := s_host t\<rparr>)"
proof -
  have new: "\<not> (ri_recv_len (ps_info s) > 0 \<and> hdr_sequence (ri_recv_packet (ps_info s)) = hdr_sequence request \<and>
      ri_recv_len (ps_info s) = length request \<and> take (length request) (ri_recv_packet (ps_info s)) = request)"
    using assms(1) by (auto simp: repeated_def)
  show ?thesis
    using assms(2-9) new draft_eq [OF assms(2,3), symmetric, of "e_native env" flags code data]
    by (auto simp: process_request_def hdr_size_def sx_defs Let_def with_drive_def put_send_packet_def flags_def)
qed

text \<open>The reply carries the code and the data, and the cache remembers the request.\<close>

definition replied :: "byte list \<Rightarrow> u16 \<Rightarrow> byte list \<Rightarrow> bool" where
  "replied reply code data \<longleftrightarrow> drop 8 reply = data \<and> hdr_ax Little reply = code"

definition remembers :: "u32 \<Rightarrow> u16 \<Rightarrow> byte list \<Rightarrow> reply_info list \<Rightarrow> bool" where
  "remembers ip port request cache \<longleftrightarrow>
     (\<exists>info. last_exchange ip port cache = Some info \<and> ri_recv_len info = length request \<and>
        take (length request) (ri_recv_packet info) = request)"

lemma serve_answer:
  assumes native: "e_native env = Little" and cache: "wf_cache (sv_cache s)"
    and acc: "accept_packet Little packet = Some request" "length request \<le> PACKET_SIZE"
    and new: "\<forall>info. last_exchange ip port (sv_cache s) = Some info \<longrightarrow> \<not> repeated request info"
    and drive: "k = unat (hdr_drive request AND 0x1F)" "2 \<le> k" "k < length (sv_drives s)" "d_used (sv_drives s ! k)"
    and func: "int2f_of (hdr_function request) = Some f"
    "handle_function env (hdr_length_flags Little request AND DRIVE_PROTO_FLAG_EXTENDED_FEATURES \<noteq> 0) f
       (drop 8 request) (drive_view s k) = (Inr (Some (code, data)), t)"
    and fit: "length data \<le> REPLY_DATA_SIZE"
  shows "\<exists>reply s'. serve_packet env packet ip port s = (Inr (Some reply), s') \<and> replied reply code data \<and>
    8 \<le> length reply \<and> sv_drives s' = (sv_drives s)[k := s_drive t] \<and> sv_host s' = s_host t \<and> wf_cache (sv_cache s') \<and>
    remembers ip port request (sv_cache s')"
proof -
  have len: "8 \<le> length request" using accept_packet_length [OF acc(1)] by (simp add: hdr_size_def)
  obtain i items where g: "get_reply_info ip port (sv_cache s) = (i, items)" by fastforce
  have ne: "sv_cache s \<noteq> []" using cache by (auto simp: wf_cache_def REPLY_CACHE_SIZE_def)
  have i: "i < length items" "wf_reply_info (items ! i)" "wf_cache items" "owned_by ip port (items ! i)"
    using get_reply_info_spec [OF g ne] get_reply_info_wf [OF g cache] by auto
  have fresh: "\<not> repeated request (items ! i)" using fresh_entry [OF g ne _ new] len by (cases request) auto
  let ?flags = "if f \<noteq> INT2F_CLOSE_FILE \<or> d_use_client_timestamp (sv_drives s ! k)
      then DRIVE_PROTO_FLAG_EXTENDED_FEATURES else 0"
  let ?n = "length data + 8" and ?old = "ri_send_packet (items ! i)"
  let ?p = "draft Little request ?flags code data ?old"
  have old: "length ?old = PACKET_SIZE" "length (ri_recv_packet (items ! i)) = PACKET_SIZE" "?n \<le> length ?old"
    using i(2) fit by (simp_all add: wf_reply_info_def PACKET_SIZE_def REPLY_DATA_SIZE_def)
  let ?ro = "d_read_only ((sv_drives s)[k := s_drive t] ! k)"
  let ?reply = "take ?n (seal_reply Little (checksum_flag Little packet) ?ro ?n ?p)"
  obtain a b x y where lay: "?reply = [request ! 0, a, b, x, y, request ! 5] @ put16 Little code @ data"
    using sealed_layout [OF refl old(3)] by metis
  have run: "run_request env i request (s\<lparr>sv_cache := items\<rparr>) = (Inr (Some ?n),
      s\<lparr>sv_cache := items[i := (items ! i)\<lparr>ri_send_packet := ?p\<rparr>], sv_drives := (sv_drives s)[k := s_drive t], sv_host := s_host t\<rparr>)"
    using process_request_answer [of request "\<lparr>ps_info = items ! i, ps_drives = sv_drives s, ps_host = sv_host s\<rparr>" k f env code data t]
      fresh len drive func old(1) native
    by (simp add: run_request_def drive_view_def PACKET_SIZE_def)
  let ?info = "(items ! i)\<lparr>ri_recv_packet := overwrite (ri_recv_packet (items ! i)) 0 request, ri_recv_len := length request,
      ri_send_len := ?n, ri_timestamp := h_clock (sv_host s),
      ri_send_packet := seal_reply Little (checksum_flag Little packet) ?ro ?n ?p\<rparr>"
  have "serve_packet env packet ip port s = (Inr (Some ?reply),
      s\<lparr>sv_cache := items[i := ?info], sv_drives := (sv_drives s)[k := s_drive t], sv_host := s_host t\<rparr>)"
    using native acc g run i(1) drive(1)
    by (simp add: serve_packet_def sx_defs update_cache_def Let_def)
  moreover have "replied ?reply code data"
  proof -
    have "slice ?reply 6 2 = put16 Little code" unfolding lay by (simp add: slice_def)
    then have "hdr_ax Little ?reply = code" unfolding hdr_ax_def by (rule get16_put16)
    then show ?thesis unfolding replied_def lay by simp
  qed
  moreover have "length (seal_reply Little (checksum_flag Little packet) ?ro ?n ?p) = PACKET_SIZE"
    using old by (subst length_seal_reply) (simp_all add: draft_def PACKET_SIZE_def)
  then have "wf_cache (items[i := ?info])"
    using i old(2) acc(2) fit
    by (auto simp: wf_cache_def list_all_iff wf_reply_info_def overwrite_def REPLY_DATA_SIZE_def PACKET_SIZE_def
        dest!: set_update_subset_insert [THEN subsetD])
  moreover have "last_exchange ip port (items[i := ?info]) = Some ?info"
    using i(4) by (intro last_exchange_after [OF g ne]) (simp add: owned_by_def)
  then have "remembers ip port request (items[i := ?info])"
    using acc(2) old(2) by (simp add: remembers_def overwrite_def)
  ultimately show ?thesis unfolding lay by (intro exI conjI) (assumption | simp)+
qed

end
