(* ===== verification/RemoteCall.thy ===== *)
theory RemoteCall
  imports ClientWait Serving
begin

text \<open>
  A request of the client as a call of the server's function: \<open>send_request\<close> over a network that
  delivers the frames returns what \<open>handle_function\<close> computes on the drive, and leaves client and
  server ready for the next call.
\<close>

section \<open>Client and server together\<close>

definition remote_drive :: "u8 \<Rightarrow> 'w client \<Rightarrow> nat" where
  "remote_drive drv s = unat (drive_map (c_shared s) ! unat drv AND 0x1F)"

text \<open>The client can send, the server serves the drive, and the last request that the server remembers
  of this client is the last one the client sent.\<close>

definition linked :: "env \<Rightarrow> (byte list \<Rightarrow> byte list) \<Rightarrow> u32 \<Rightarrow> u16 \<Rightarrow> u8 \<Rightarrow> server client \<Rightarrow> bool" where
  "linked env wrap ip port drv s \<longleftrightarrow>
     ready drv 128 s \<and> e_native env = Little \<and> wf_cache (sv_cache (c_world s)) \<and>
     (\<forall>k < length (sv_drives (c_world s)). wf_names (drive_view (c_world s) k)) \<and>
     2 \<le> remote_drive drv s \<and> remote_drive drv s < length (sv_drives (c_world s)) \<and>
     d_used (sv_drives (c_world s) ! remote_drive drv s) \<and>
     (\<forall>info. last_exchange ip port (sv_cache (c_world s)) = Some info \<longrightarrow>
        hdr_sequence (ri_recv_packet info) = c_request_last_sent_seq_num s) \<and>
     (\<forall>reply. length reply \<le> 1472 \<longrightarrow>
        carries ((c_shared s)\<lparr>last_remote_ip := im_ip (server_entry drv s),
          last_remote_udp_port := remote_port (client_drive drv s)\<rparr>) reply (wrap reply))"

definition remote_view :: "u8 \<Rightarrow> server client \<Rightarrow> dstate" where
  "remote_view drv s = drive_view (c_world s) (remote_drive drv s)"

text \<open>What a call leaves alone on the client's side.\<close>

definition same_client :: "'w client \<Rightarrow> 'w client \<Rightarrow> bool" where
  "same_client s t \<longleftrightarrow>
     c_dos t = c_dos s \<and> c_read_buffer t = c_read_buffer s \<and> c_time t = c_time s \<and> c_req_drive t = c_req_drive s \<and>
     c_garbage t = c_garbage s \<and> c_my_2Fmux_id t = c_my_2Fmux_id s \<and> drives (c_shared t) = drives (c_shared s) \<and> drive_map (c_shared t) = drive_map (c_shared s) \<and>
     interface_mtu (c_shared t) = interface_mtu (c_shared s) \<and> length (c_recv_buff t) = length (c_recv_buff s) \<and>
     length (c_send_buff t) = length (c_send_buff s)"

lemma exchanged_same:
  assumes "ready drv n s" "length frame \<le> MAX_FRAMESIZE"
  shows "same_client s (exchanged func drv n ext frame srv' s)"
proof -
  note rd = assms(1) [unfolded ready_def Let_def]
  obtain csum where "c_send_buff (request_built func drv n ext s) =
     im_mac_addr (server_entry drv s) @ slice (c_send_buff s) 6 8 @
     ip_header (c_shared s) (im_ip (server_entry drv s)) (16 + n) (c_ipv4_last_sent_packet_id s + 1) UDP_PROTOCOL csum @
     udp_header (local_port (c_shared s)) (remote_port (client_drive drv s)) (8 + n) @
     request_header (client_drive drv s) (n + 8) (c_request_last_sent_seq_num s + 1) (drive_map (c_shared s) ! unat drv)
       func ext (c_send_buff s) @ drop 50 (c_send_buff s)"
    using build_request_frame [of s "server_entry drv s"] rd
    unfolding request_built_def server_entry_def client_drive_def by blast
  then have "length (c_send_buff (request_built func drv n ext s)) = MAX_FRAMESIZE"
    using rd by (simp add: server_entry_def client_drive_def MAX_FRAMESIZE_def)
  then show ?thesis
    using rd assms(2) unfolding same_client_def
    by (simp add: exchanged_def received_def Let_def request_built_def build_request_shared)
qed

lemma remote_call:
  assumes link: "linked env wrap ip port drv s" and n: "36 + unat n \<le> unat (interface_mtu (c_shared s))"
    and func: "int2f_of func = Some f"
      "handle_function env ext f (slice (c_send_buff s) 50 (unat n)) (remote_view drv s) = (Inr (Some (code, data)), t)"
    and data: "length data \<le> 1464"
  shows "\<exists>x s'. send_request (server_net env wrap ip port) func drv n ax ext s = (Returns (of_nat (length data), code, x), s') \<and>
    slice (c_recv_buff s') 50 (length data) = data \<and> linked env wrap ip port drv (s'\<lparr>c_recv_data_len := 0\<rparr>) \<and>
    remote_view drv s' = t \<and> same_client s s'"
proof -
  note l = link [unfolded linked_def]
  have rd: "ready drv n s" using l n by (simp add: ready_def Let_def)
  let ?p = "request_packet func drv n ext s" and ?srv = "c_world s" and ?k = "remote_drive drv s"
  note v = request_packet_valid [OF rd, of ext func, unfolded valid_request_def]
  have len: "length ?p = 8 + unat n"
    using rd by (simp add: request_packet_eq ready_def Let_def MAX_FRAMESIZE_def word_le_nat_alt)
  have small: "unat n \<le> 1464" using rd by (simp add: ready_def Let_def word_le_nat_alt)
  have new: "\<forall>info. last_exchange ip port (sv_cache ?srv) = Some info \<longrightarrow> \<not> repeated ?p info"
  proof (intro allI impI)
    fix info assume "last_exchange ip port (sv_cache ?srv) = Some info"
    then have "ri_recv_packet info ! 5 \<noteq> ?p ! 5" using l v by (simp add: hdr_sequence_def)
    moreover have "ri_recv_packet info ! 5 = ?p ! 5" if "take (length ?p) (ri_recv_packet info) = ?p"
      using that len nth_take [of 5 "length ?p" "ri_recv_packet info"] by simp
    ultimately show "\<not> repeated ?p info" by (auto simp: repeated_def)
  qed
  obtain reply srv' where serve: "serve_packet env ?p ip port ?srv = (Inr (Some reply), srv')"
    and rep: "replied reply code data" "8 \<le> length reply"
    and srv': "sv_drives srv' = (sv_drives ?srv)[?k := s_drive t]" "sv_host srv' = s_host t" "wf_cache (sv_cache srv')"
      "remembers ip port ?p (sv_cache srv')"
    using serve_answer [where env = env and packet = ?p and request = ?p and s = ?srv and k = ?k and ip = ip and port = port and
        f = f and code = code and data = data and t = t] l v len small new func data
    by (simp add: remote_drive_def remote_view_def PACKET_SIZE_def REPLY_DATA_SIZE_def) blast
  have dl: "length reply - 8 = length data" using rep(1) by (auto simp: replied_def)
  then have "length reply \<le> 1472" using data by simp
  then have cr: "carries (c_shared (request_built func drv n ext s)) reply (wrap reply)"
    using l by (simp add: request_built_def build_request_shared server_entry_def client_drive_def)
  note ex = exchange_served [where wrap = wrap, OF rd _ _ _ new serve cr, unfolded dl]
  let ?s' = "exchanged func drv n ext (wrap reply) srv' s"
  have call: "send_request (server_net env wrap ip port) func drv n ax ext s =
      (Returns (of_nat (length data), code, hdr_length_flags Little reply AND DRIVE_PROTO_FLAG_EXTENDED_FEATURES \<noteq> 0), ?s')"
    "slice (c_recv_buff ?s') 50 (length data) = data"
    using ex l rep by (simp_all add: replied_def)
  have sh: "c_shared ?s' = (c_shared s)\<lparr>last_remote_ip := im_ip (server_entry drv s),
      last_remote_udp_port := remote_port (client_drive drv s), server_response_received := 1\<rparr>"
    "c_world ?s' = srv'" "c_request_last_sent_seq_num ?s' = c_request_last_sent_seq_num s + 1"
    by (simp_all add: exchanged_def received_def Let_def request_built_def build_request_shared server_entry_def client_drive_def)
  have keep: "same_client s ?s'"
    using rd cr by (simp add: exchanged_same carries_def)
  have view: "remote_view drv ?s' = t"
    using l srv' sh by (simp add: remote_view_def remote_drive_def drive_view_def)
  have names: "\<forall>k < length (sv_drives srv'). wf_names (drive_view srv' k)"
    using names.drives_kept [of ?srv env ?p ip port] l serve by simp
  have "hdr_sequence (ri_recv_packet info) = c_request_last_sent_seq_num s + 1"
    if "last_exchange ip port (sv_cache srv') = Some info" for info
  proof -
    have "take (length ?p) (ri_recv_packet info) = ?p" using srv'(4) that by (simp add: remembers_def)
    then have "ri_recv_packet info ! 5 = ?p ! 5" using len nth_take [of 5 "length ?p" "ri_recv_packet info"] by simp
    then show ?thesis using v by (simp add: hdr_sequence_def)
  qed
  moreover have "ready drv 128 (?s'\<lparr>c_recv_data_len := 0\<rparr>)"
    using l keep by (simp add: ready_def same_client_def sh Let_def)
  moreover have "carries ((c_shared ?s')\<lparr>last_remote_ip := im_ip (server_entry drv ?s'),
      last_remote_udp_port := remote_port (client_drive drv ?s')\<rparr>) reply (wrap reply)" if "length reply \<le> 1472" for reply
    using l that by (simp add: sh carries_def server_entry_def client_drive_def)
  moreover have "d_used (s_drive t)"
    using used_kept [OF func(2)] l by (simp add: remote_view_def drive_view_def)
  ultimately have "linked env wrap ip port drv (?s'\<lparr>c_recv_data_len := 0\<rparr>)"
    using l srv' names view unfolding linked_def
    by (simp add: sh remote_drive_def server_entry_def client_drive_def)
  then show ?thesis using call keep view by blast
qed

end
