(* ===== verification/ClientFiles.thy ===== *)
theory ClientFiles
  imports RemoteCall
begin

text \<open>
  The client's file operations against a service that reads and writes a file: the read buffer is
  invisible, large reads and writes are split into frames and put together again. The service is an
  interface; the connected client and server provide it.
\<close>

section \<open>Slices and aligned positions\<close>

lemma slice_adjacent: "slice xs a n @ slice xs (a + n) m = slice xs a (n + m)"
  by (simp add: slice_def take_add drop_drop [symmetric] add.commute [of a] del: drop_drop)

lemma slice_slice: "slice (slice xs a n) b m = slice xs (a + b) (min m (n - b))"
  by (simp add: slice_def drop_take add.commute min.commute)

lemma slice_full: "length xs - a \<le> n \<Longrightarrow> length xs - a \<le> m \<Longrightarrow> slice xs a n = slice xs a m"
  by (simp add: slice_def)

lemma slice_min: "slice xs a (min n (length xs - a)) = slice xs a n"
  by (cases "n \<le> length xs - a") (simp_all add: slice_def min_def)

definition block_sized :: "u8 \<Rightarrow> bool" where
  "block_sized min_len \<longleftrightarrow> (\<exists>j \<le> 6. min_len = 2 ^ j)"

lemma block_sized_nat:
  assumes "block_sized min_len"
  obtains j where "j \<le> 6" "unat min_len = 2 ^ j" "unat min_len \<le> 64" "alignment_mask min_len = NOT (mask j)"
proof -
  obtain j where j: "j \<le> 6" "min_len = 2 ^ j" using assms by (auto simp: block_sized_def)
  have "j = 0 \<or> j = 1 \<or> j = 2 \<or> j = 3 \<or> j = 4 \<or> j = 5 \<or> j = 6" using j(1) by auto
  then have "unat min_len = 2 ^ j" "unat min_len \<le> 64" "alignment_mask min_len = NOT (mask j)"
    using j(2) by (auto simp: alignment_mask_def mask_eq_exp_minus_1)
  with j(1) show thesis using that by blast
qed

lemma aligned:
  assumes "block_sized min_len"
  shows "unat (x AND alignment_mask min_len) = unat x - unat x mod unat min_len"
    "x AND alignment_mask min_len \<le> x"
proof -
  obtain j where j: "j \<le> 6" "unat min_len = 2 ^ j" "alignment_mask min_len = NOT (mask j)"
    using block_sized_nat [OF assms] by metis
  have "(x AND NOT (mask j)) OR (x AND mask j) = x" by (rule bit_word_eqI) (auto simp: bit_simps)
  moreover have "(x AND NOT (mask j)) AND (x AND mask j) = 0" by (rule bit_word_eqI) (auto simp: bit_simps)
  ultimately have "(x AND NOT (mask j)) + (x AND mask j) = x" by (simp add: disjunctive_add_eq_or)
  then have "x AND alignment_mask min_len = x - (x AND mask j)" by (simp add: j(3) algebra_simps)
  moreover have "unat (x AND mask j) = unat x mod 2 ^ j"
    by (simp only: take_bit_eq_mask [symmetric] unsigned_take_bit_eq) (simp add: take_bit_eq_mod)
  ultimately show "unat (x AND alignment_mask min_len) = unat x - unat x mod unat min_len"
    by (simp add: j(2) unat_sub word_and_le2)
  show "x AND alignment_mask min_len \<le> x" by (rule word_and_le2)
qed


section \<open>The read buffer\<close>

text \<open>The buffered bytes of the file are those of the file.\<close>

definition coherent :: "u8 \<Rightarrow> u16 \<Rightarrow> byte list \<Rightarrow> file_buffer \<Rightarrow> bool" where
  "coherent drv cluster bs rb \<longleftrightarrow> length (fb_data rb) = FILE_BUFFER_SIZE \<and>
     (fb_valid_bytes rb > 0 \<and> fb_drive_no rb = drv \<and> fb_start_cluster rb = cluster \<longrightarrow>
        take (unat (fb_valid_bytes rb)) (fb_data rb) = slice bs (unat (fb_offset rb)) (unat (fb_valid_bytes rb)) \<and>
        unat (fb_offset rb) + unat (fb_valid_bytes rb) \<le> length bs \<and> unat (fb_valid_bytes rb) \<le> FILE_BUFFER_SIZE)"

lemma unat_min_u8: "unat (min_u8 a b) = min (unat a) (unat b)"
  by (simp add: min_u8_def word_less_nat_alt min_def)

lemma unat_min_u16: "unat (min_u16 a b) = min (unat a) (unat b)"
  by (simp add: min_u16_def word_less_nat_alt min_def)

text \<open>What the buffer delivers is the beginning of what is read.\<close>

lemma buffered:
  assumes "coherent drv (sft_start_cluster sft) bs rb" "block_sized min_len" "cx < ucast min_len"
  defines "t \<equiv> buffered_len rb min_len drv sft cx"
  shows "t \<le> cx" "from_buffer rb min_len sft t = slice bs (unat (file_pos sft)) (unat t)"
    "t = 0 \<or> unat (file_pos sft) + unat t \<le> length bs"
proof -
  let ?pos = "file_pos sft" and ?off = "file_pos sft AND alignment_mask min_len"
  let ?d = "ucast (?pos - ?off) :: u8"
  have m: "unat min_len \<le> 64" using block_sized_nat [OF assms(2)] by metis
  have off: "unat ?pos - unat ?off = unat ?pos mod unat min_len" "unat ?off \<le> unat ?pos"
    using aligned [OF assms(2), of ?pos] by (simp_all add: word_le_nat_alt)
  have min0: "0 < unat min_len" using assms(2) by (auto elim: block_sized_nat)
  have "unat (?pos - ?off) < 64"
    using off m mod_less_divisor [OF min0, of "unat ?pos"] by (simp add: unat_sub word_le_nat_alt)
  then have d: "unat ?d = unat ?pos - unat ?off"
    using off(2) by (simp add: unat_ucast_down unat_sub word_le_nat_alt)
  have cx: "unat cx < 64" using assms(3) m by (simp add: word_less_nat_alt unat_ucast_up)
  then have cx8: "unat (ucast cx :: u8) = unat cx" by (simp add: unat_ucast_down)
  let ?v = "fb_valid_bytes rb"
  have "t \<le> cx \<and> from_buffer rb min_len sft t = slice bs (unat ?pos) (unat t) \<and> (t = 0 \<or> unat ?pos + unat t \<le> length bs)"
  proof (cases "?v > 0 \<and> fb_drive_no rb = drv \<and> fb_start_cluster rb = sft_start_cluster sft \<and> ?off = fb_offset rb \<and> ?d < ?v")
    case True
    then have t: "unat t = min (unat cx) (unat ?v - unat ?d)"
      by (simp add: t_def buffered_len_def Let_def unat_ucast_up unat_min_u8 cx8 unat_sub word_le_nat_alt word_less_nat_alt)
    have c: "take (unat ?v) (fb_data rb) = slice bs (unat ?off) (unat ?v)" "unat ?off + unat ?v \<le> length bs"
      using assms(1) True by (simp_all add: coherent_def)
    have "unat ?d < unat ?v" using True unfolding word_less_nat_alt by blast
    then have fit: "unat ?d + unat t \<le> unat ?v" using t by linarith
    then have "slice (fb_data rb) (unat ?d) (unat t) = slice (take (unat ?v) (fb_data rb)) (unat ?d) (unat t)"
      by (simp add: slice_def drop_take)
    also have "\<dots> = slice bs (unat ?pos) (unat t)"
      using fit d off(2) unfolding c by (simp add: slice_slice)
    finally have "from_buffer rb min_len sft t = slice bs (unat ?pos) (unat t)" by (simp add: from_buffer_def)
    moreover have "unat ?pos + unat t \<le> length bs" using fit c(2) d off(2) by linarith
    moreover have "unat t \<le> unat cx" using t by linarith
    ultimately show ?thesis by (simp add: word_le_nat_alt)
  next
    case False
    then have "t = 0" by (auto simp: t_def buffered_len_def Let_def)
    then show ?thesis by (simp add: from_buffer_def slice_def)
  qed
  then show "t \<le> cx" "from_buffer rb min_len sft t = slice bs (unat ?pos) (unat t)" "t = 0 \<or> unat ?pos + unat t \<le> length bs"
    by auto
qed

text \<open>What is asked from the server covers the rest of the read and the block behind it.\<close>

lemma fetched:
  assumes "block_sized min_len" "cx < ucast min_len" "t < cx" "unat pos + 256 < 2 ^ 32"
    "fetch_range min_len pos cx t = (bo, ro, len)"
  shows "unat ro \<le> unat pos + unat t" "unat ro \<le> unat bo" "unat ro + unat len = unat bo + unat min_len"
    "unat pos + unat cx < unat ro + unat len" "unat len < 128" "unat bo \<le> unat pos + unat cx"
    "unat bo - unat ro < 64" "unat pos + unat t - unat ro < 64"
proof -
  have m: "unat min_len \<le> 64" "0 < unat min_len" using assms(1) by (auto elim: block_sized_nat)
  have cx: "unat cx < unat min_len" using assms(2) by (simp add: word_less_nat_alt unat_ucast_up)
  have t: "unat t < unat cx" using assms(3) by (simp add: word_less_nat_alt)
  have here: "unat (pos + ucast t) = unat pos + unat t" and last: "unat (pos + ucast cx) = unat pos + unat cx"
    using cx t m assms(4) by (simp_all add: unat_word_ariths unat_ucast_up)
  define q where "q = (unat pos + unat cx) mod unat min_len"
  have q: "q < unat min_len" "q \<le> unat pos + unat cx" using m by (simp_all add: q_def)
  have bo: "unat bo = unat pos + unat cx - q"
    using assms(5) aligned(1) [OF assms(1), of "pos + ucast cx"] last
    by (auto simp: fetch_range_def Let_def q_def split: if_splits)
  show "unat ro \<le> unat pos + unat t" "unat ro \<le> unat bo" "unat ro + unat len = unat bo + unat min_len"
    "unat pos + unat cx < unat ro + unat len" "unat len < 128" "unat bo \<le> unat pos + unat cx"
    "unat bo - unat ro < 64" "unat pos + unat t - unat ro < 64"
  proof -
    consider (before) "bo > pos + ucast t" "ro = pos + ucast t" "len = ucast min_len + ucast (bo - (pos + ucast t))"
      | (inside) "\<not> bo > pos + ucast t" "ro = bo" "len = ucast min_len"
      using assms(5) unfolding fetch_range_def Let_def by (metis (no_types, lifting) prod.inject)
    then have "unat ro \<le> unat pos + unat t \<and> unat ro \<le> unat bo \<and> unat ro + unat len = unat bo + unat min_len \<and>
        unat bo - unat ro < 64 \<and> unat pos + unat t - unat ro < 64"
    proof cases
      case before
      then have le: "unat pos + unat t < unat bo" using here by (simp add: word_less_nat_alt)
      then have "unat (bo - (pos + ucast t)) = unat bo - (unat pos + unat t)" using here by (simp add: unat_sub word_le_nat_alt)
      moreover have "unat bo - (unat pos + unat t) < 64" using bo cx m by linarith
      ultimately have "unat len = unat min_len + (unat bo - (unat pos + unat t))"
        using before(3) m(1) by (simp add: unat_word_ariths unat_ucast_up unat_ucast_down)
      moreover have "unat ro = unat pos + unat t" using before(2) here by simp
      ultimately show ?thesis using le \<open>unat bo - (unat pos + unat t) < 64\<close> by simp
    next
      case inside
      then have "unat bo \<le> unat pos + unat t" "unat len = unat min_len"
        using here by (simp_all add: word_less_nat_alt unat_ucast_up)
      moreover have "unat pos + unat t - unat bo < 64" using bo q t m(1) by linarith
      ultimately show ?thesis using inside(2) by simp
    qed
    then show "unat ro \<le> unat pos + unat t" "unat ro \<le> unat bo" "unat ro + unat len = unat bo + unat min_len"
      "unat pos + unat cx < unat ro + unat len" "unat len < 128" "unat bo \<le> unat pos + unat cx"
      "unat bo - unat ro < 64" "unat pos + unat t - unat ro < 64"
      using bo q m by linarith+
  qed
qed

lemma copy_len_small: "unat n < 32768 \<Longrightarrow> copy_len n = unat n"
proof -
  assume n: "unat n < 32768"
  have "sint (ucast n :: u16) = int (unat n)"
  proof -
    have "ucast n = (of_nat (unat n) :: u16)" by simp
    moreover have "signed_take_bit 15 (int (unat n)) = int (unat n)"
      using n by (intro signed_take_bit_int_eq_self) (simp_all del: int_nat_eq of_nat_unat)
    ultimately show ?thesis by (simp add: signed_of_nat del: of_nat_unat)
  qed
  then show "copy_len n = unat n" by (simp add: copy_len_def)
qed

lemma reply_part:
  assumes "slice b 50 (length d) = d" "off + n \<le> length d"
  shows "slice b (50 + off) n = slice d off n"
proof -
  have "slice d off n = slice (slice b 50 (length d)) off n" using assms(1) by simp
  moreover have "min n (length d - off) = n" using assms(2) by simp
  ultimately show ?thesis by (simp only: slice_slice)
qed

text \<open>The block of a reply that is kept is part of the file.\<close>

lemma filled:
  assumes "d = slice bs (unat ro) (unat len)" "slice (c_recv_buff s) 50 (length d) = d" "length (c_recv_buff s) = MAX_FRAMESIZE"
    "unat ro \<le> unat bo" "unat ro + unat len = unat bo + m" "m \<le> 64" "unat len < 128" "unat bo + 128 < 2 ^ 32"
    "coherent drv cluster bs (c_read_buffer s)"
  shows "\<exists>rb. fill_read_buffer drv cluster bo ro (of_nat (length d)) s = (Returns (), s\<lparr>c_read_buffer := rb\<rparr>) \<and>
    coherent drv cluster bs rb"
proof (cases "unat bo < unat ro + length d")
  case True
  let ?n = "ro + ucast (of_nat (length d) :: u16) - bo" and ?k = "unat ro + length d - unat bo"
  let ?b = "unat (ucast (bo - ro) :: u16)"
  have L: "length d \<le> unat len" "unat ro + length d \<le> length bs" using assms(1) True assms(4) by auto
  then have l: "unat (ucast (of_nat (length d) :: u16) :: u32) = length d"
    using assms(7) by (simp add: unat_ucast_up unat_of_nat take_bit_nat_eq_self)
  then have sum: "unat (ro + ucast (of_nat (length d) :: u16)) = unat ro + length d"
    using L assms(4,7,8) by (simp add: unat_word_ariths)
  then have gt: "ro + ucast (of_nat (length d) :: u16) > bo" and n: "unat ?n = ?k"
    using True by (simp_all add: word_less_nat_alt unat_sub word_le_nat_alt)
  have k: "?k \<le> 64" using L assms(5,6) by linarith
  have b: "?b = unat bo - unat ro" using assms(4,5,7) by (simp add: unat_ucast_down unat_sub word_le_nat_alt)
  have fit: "?b + ?k = length d" using True assms(4) b by linarith
  have part: "slice (c_recv_buff s) (50 + ?b) ?k = slice bs (unat bo) ?k"
    using reply_part [OF assms(2), of ?b ?k] fit b assms(1,4) by (simp add: slice_slice)
  have len: "length (slice bs (unat bo) ?k) = ?k" using L(2) True by simp
  let ?rb = "\<lparr>fb_timestamp = c_time s, fb_offset = bo, fb_start_cluster = cluster, fb_drive_no = drv,
      fb_valid_bytes = ucast ?n, fb_data = overwrite (fb_data (c_read_buffer s)) 0 (slice bs (unat bo) ?k)\<rparr>"
  have cl: "copy_len ?n = ?k" using copy_len_small [of ?n] n k by simp
  have inb: "50 + ?b + ?k \<le> length (c_recv_buff s)" using fit L assms(3,7) by (simp add: MAX_FRAMESIZE_def)
  have "fill_read_buffer drv cluster bo ro (of_nat (length d)) s = (Returns (), s\<lparr>c_read_buffer := ?rb\<rparr>)"
    using gt inb part len k
    by (simp add: fill_read_buffer_def Let_def cm_defs reply_bytes_def cl FILE_BUFFER_SIZE_def)
  moreover have "unat (ucast ?n :: u8) = ?k" using n k by (simp add: unat_ucast_down)
  then have "coherent drv cluster bs ?rb"
    using len k L(2) True assms(9) by (simp add: coherent_def overwrite_def FILE_BUFFER_SIZE_def)
  ultimately show ?thesis by blast
next
  case False
  have "unat (of_nat (length d) :: u16) = length d"
    using assms(1,7) by (simp add: unat_of_nat take_bit_nat_eq_self min_def)
  then have "\<not> ro + ucast (of_nat (length d) :: u16) > bo"
    using False assms(8) by (simp add: word_less_nat_alt unat_word_ariths unat_ucast_up)
  then have "fill_read_buffer drv cluster bo ro (of_nat (length d)) s = (Returns (), s\<lparr>c_read_buffer := c_read_buffer s\<rparr>)"
    by (simp add: fill_read_buffer_def cm_defs)
  then show ?thesis using assms(9) by blast
qed

lemma ucast_of_nat_small: "n < 65536 \<Longrightarrow> ucast (of_nat n :: u16) = (of_nat n :: u32)"
  by (simp add: word_unat_eq_iff unat_ucast_up unat_of_nat take_bit_nat_eq_self)

text \<open>The rest of the read is found in the reply.\<close>

lemma rest_in_reply:
  assumes "d = slice bs ro len" "ro \<le> here" "here + rest < ro + len"
  shows "slice d (here - ro) (min (length d - (here - ro)) rest) = slice bs here rest"
    "length (slice bs here rest) = min (length d - (here - ro)) rest"
proof -
  have l: "length d - (here - ro) = min (ro + len - here) (length bs - here)"
    using assms(1,2) by (simp add: min_def) linarith
  show "length (slice bs here rest) = min (length d - (here - ro)) rest" using assms(3) unfolding l by simp
  have "slice d (here - ro) (min (length d - (here - ro)) rest) = slice bs here (min rest (length bs - here))"
    using assms unfolding l by (simp add: slice_slice min_def)
  then show "slice d (here - ro) (min (length d - (here - ro)) rest) = slice bs here rest" by (simp only: slice_min)
qed


section \<open>Written bytes\<close>

lemma written_parts:
  obtains pre where "length pre = off" "\<And>d. write_bytes_at bs off d = pre @ d @ drop (off + length d) bs"
    "\<And>pos n. pos + n \<le> off \<Longrightarrow> pos + n \<le> length bs \<Longrightarrow> slice pre pos n = slice bs pos n"
proof (rule that)
  let ?pre = "take off (bs @ replicate (off - length bs) 0)"
  show "length ?pre = off" by simp
  show "write_bytes_at bs off d = ?pre @ d @ drop (off + length d) bs" for d by (simp add: write_bytes_at_def)
  show "slice ?pre pos n = slice bs pos n" if "pos + n \<le> off" "pos + n \<le> length bs" for pos n
    using that by (simp add: slice_def drop_take) linarith
qed

lemma length_write_bytes_at: "length (write_bytes_at bs off d) = max (length bs) (off + length d)"
proof -
  obtain pre where "length pre = off" "write_bytes_at bs off d = pre @ d @ drop (off + length d) bs"
    using written_parts by metis
  then show ?thesis by simp
qed

lemma write_bytes_twice:
  "write_bytes_at (write_bytes_at bs off a) (off + length a) b = write_bytes_at bs off (a @ b)"
proof -
  obtain pre where pre: "length pre = off" "\<And>d. write_bytes_at bs off d = pre @ d @ drop (off + length d) bs"
    using written_parts [of off bs] by metis
  let ?w = "pre @ a @ drop (off + length a) bs"
  have "take (off + length a) ?w = pre @ a" using pre(1) by simp
  moreover have "drop (off + length a + length b) ?w = drop (off + length (a @ b)) bs" using pre(1) by (simp add: ac_simps)
  moreover have "off + length a \<le> length ?w" using pre(1) by simp
  ultimately show ?thesis unfolding pre(2) write_bytes_at_def [of ?w] by simp
qed

lemma slice_written_elsewhere:
  assumes "pos + n \<le> length bs" "pos + n \<le> off \<or> off + length d \<le> pos"
  shows "slice (write_bytes_at bs off d) pos n = slice bs pos n"
proof -
  obtain pre where pre: "length pre = off" "write_bytes_at bs off d = pre @ d @ drop (off + length d) bs"
    "pos + n \<le> off \<Longrightarrow> slice pre pos n = slice bs pos n"
    using written_parts [of off bs] assms(1) by metis
  from assms(2) show ?thesis
  proof
    assume "pos + n \<le> off"
    then show ?thesis using pre by (simp add: slice_append_left)
  next
    assume "off + length d \<le> pos"
    then show ?thesis using pre(1,2) by (simp add: slice_append_right) (simp add: slice_def)
  qed
qed

text \<open>A write drops the buffered block or does not touch it.\<close>

lemma written_coherent:
  assumes "coherent drv cluster bs rb" "sft_start_cluster sft = cluster" "unat cx = length d" "0 < cx"
    "unat (file_pos sft) + 65536 < 2 ^ 32" "length bs < 2 ^ 32"
  shows "coherent drv cluster (write_bytes_at bs (unat (file_pos sft)) d) (invalidate_on_write drv sft cx rb)"
proof (cases "invalidate_on_write drv sft cx rb = rb")
  case False
  then have "invalidate_on_write drv sft cx rb = rb\<lparr>fb_valid_bytes := 0\<rparr>" by (simp add: invalidate_on_write_def split: if_splits)
  then show ?thesis using assms(1) by (simp add: coherent_def)
next
  case True
  let ?off = "unat (fb_offset rb)" and ?v = "unat (fb_valid_bytes rb)" and ?p = "unat (file_pos sft)"
  have "slice (write_bytes_at bs ?p d) ?off ?v = slice bs ?off ?v \<and> ?off + ?v \<le> length (write_bytes_at bs ?p d)"
    if hit: "fb_valid_bytes rb > 0" "fb_drive_no rb = drv" "fb_start_cluster rb = cluster"
  proof -
    have in_file: "?off + ?v \<le> length bs" using assms(1) hit by (simp add: coherent_def)
    then have "unat (fb_offset rb + ucast (fb_valid_bytes rb)) = ?off + ?v"
      using assms(6) by (simp add: unat_word_ariths unat_ucast_up)
    moreover have "unat (file_pos sft + ucast cx) = ?p + length d"
      using assms(3,5) unat_lt2p [of cx] by (simp add: unat_word_ariths unat_ucast_up)
    moreover have "fb_valid_bytes rb \<noteq> 0" "cx \<noteq> 0" using hit(1) assms(4) by auto
    then have "\<not> (file_pos sft < fb_offset rb + ucast (fb_valid_bytes rb) \<and> file_pos sft + ucast cx > fb_offset rb)"
      using True hit assms(2)
      by (auto simp: invalidate_on_write_def split: if_splits dest: arg_cong [where f = fb_valid_bytes])
    ultimately have "?off + ?v \<le> ?p \<or> ?p + length d \<le> ?off" by (auto simp: word_less_nat_alt)
    with in_file show ?thesis by (simp add: slice_written_elsewhere length_write_bytes_at)
  qed
  then show ?thesis using assms(1) True by (simp add: coherent_def)
qed


section \<open>A service that reads and writes a file\<close>

text \<open>\<open>link bs s\<close>: the service is at hand and the file has the contents \<open>bs\<close>. A request that was answered
  leaves the receive buffer occupied.\<close>

definition freed :: "'w client \<Rightarrow> 'w client" where
  "freed s = s\<lparr>c_recv_data_len := 0\<rparr>"

text \<open>What a read call gives the program: the bytes in its buffer, their number in CX, the new position.\<close>

definition delivered :: "byte list \<Rightarrow> dos \<Rightarrow> dos" where
  "delivered d dos = dos
     \<lparr>d_buffer := overwrite (d_buffer dos) 0 d,
      d_sft := (d_sft dos)\<lparr>file_pos := file_pos (d_sft dos) + of_nat (length d)\<rparr>,
      d_regs := (d_regs dos)\<lparr>r_cx := of_nat (length d)\<rparr>\<rparr>"

lemma cm_bind_run: "cm_bind m f s = (Returns y, s') \<Longrightarrow> cm_bind m (\<lambda>x. cm_bind (f x) g) s = g y s'"
  by (auto simp: cm_bind_def split: prod.splits outcome.splits)

lemma cm_bind_simps:
  "cm_bind (cm_get h) f s = f (h s) s" "cm_bind (cm_modify u) g s = g () (u s)"
  "m s = (Returns x, s') \<Longrightarrow> cm_bind m f s = f x s'"
  by (simp_all add: cm_defs)

lemma overwrite_prefix_twice:
  "length a + length b \<le> length xs \<Longrightarrow> overwrite (overwrite xs 0 a) (length a) b = overwrite xs 0 (a @ b)"
  by (simp add: overwrite_def ac_simps)

text \<open>The bytes that the chunks have delivered so far.\<close>

definition reading_at :: "byte list \<Rightarrow> nat \<Rightarrow> u16 \<Rightarrow> dos \<Rightarrow> dos \<Rightarrow> bool" where
  "reading_at bs p got dos0 dos \<longleftrightarrow> dos = dos0\<lparr>d_buffer := overwrite (d_buffer dos0) 0 (slice bs p (unat got))\<rparr> \<and>
     length (slice bs p (unat got)) = unat got"

text \<open>What a write call leaves: the number of bytes in CX, the new position and size.\<close>

definition written :: "u16 \<Rightarrow> dos \<Rightarrow> dos" where
  "written n dos = dos\<lparr>d_regs := (d_regs dos)\<lparr>r_cx := n\<rparr>, d_sft := written_to_sft n (d_sft dos)\<rparr>"

text \<open>The state between two chunks: before the first one nothing has happened, not even to a position
  behind the end of the file.\<close>

definition progress :: "u16 \<Rightarrow> dos \<Rightarrow> dos" where
  "progress k dos = (if k = 0 then dos else written k dos)"

definition so_far :: "byte list \<Rightarrow> nat \<Rightarrow> u16 \<Rightarrow> byte list \<Rightarrow> byte list" where
  "so_far bs p k data = (if k = 0 then bs else write_bytes_at bs p (take (unat k) data))"

lemma written_to_sft_twice:
  assumes "unat (file_pos f) + unat a + unat b < 2 ^ 32" "unat a + unat b < 65536"
  shows "written_to_sft b (written_to_sft a f) = written_to_sft (a + b) f"
proof -
  have ab: "ucast (a + b) = (ucast a + ucast b :: u32)"
    using assms(2) by (simp add: word_unat_eq_iff unat_word_ariths unat_ucast_up)
  have "file_pos f + ucast a \<le> file_pos f + ucast a + ucast b"
    using assms by (simp add: word_le_nat_alt unat_word_ariths unat_ucast_up)
  then show ?thesis by (auto simp: written_to_sft_def Let_def ab add.assoc not_less)
qed

locale file_reader =
  fixes req :: "'w requester" and link :: "byte list \<Rightarrow> 'w client \<Rightarrow> bool" and drv :: u8 and cluster :: u16
  assumes reads: "link bs s \<Longrightarrow> slice (c_send_buff s) 50 8 = readf_args off cluster len \<Longrightarrow>
      36 + unat len \<le> unat (interface_mtu (c_shared s)) \<Longrightarrow> d = slice bs (unat off) (unat len) \<Longrightarrow>
      \<exists>x s'. req (int2f_code INT2F_READ_FILE) drv 8 ax False s = (Returns (of_nat (length d), 0, x), s') \<and>
        slice (c_recv_buff s') 50 (length d) = d \<and> link bs (freed s') \<and> same_client s s'"
    and local: "link bs s \<Longrightarrow> length b = length (c_send_buff s) \<Longrightarrow>
      link bs (s\<lparr>c_send_buff := b, c_dos := dos, c_read_buffer := rb\<rparr>)"
    and sizes: "link bs s \<Longrightarrow> length (c_send_buff s) = MAX_FRAMESIZE \<and> length (c_recv_buff s) = MAX_FRAMESIZE \<and>
      164 \<le> unat (interface_mtu (c_shared s)) \<and> unat (interface_mtu (c_shared s)) \<le> 1500 \<and> unat drv < length (drives (c_shared s)) \<and>
      c_recv_data_len s = 0"
begin

lemma link_dos: "link bs s \<Longrightarrow> link bs (s\<lparr>c_dos := dos\<rparr>)"
  using local [of bs s "c_send_buff s" "c_read_buffer s" dos] by simp

lemma link_after: "link bs (freed s) \<Longrightarrow> link bs (freed (s\<lparr>c_dos := dos, c_read_buffer := rb\<rparr>))"
proof -
  have "freed (s\<lparr>c_dos := dos, c_read_buffer := rb\<rparr>) =
      (freed s)\<lparr>c_send_buff := c_send_buff (freed s), c_dos := dos, c_read_buffer := rb\<rparr>"
    by (simp add: freed_def)
  then show "link bs (freed s) \<Longrightarrow> link bs (freed (s\<lparr>c_dos := dos, c_read_buffer := rb\<rparr>))"
    using local [of bs "freed s" "c_send_buff (freed s)" rb dos] by simp
qed

lemma link_after_dos: "link bs (freed s) \<Longrightarrow> link bs (freed (s\<lparr>c_dos := dos\<rparr>))"
  using link_after [of bs s "c_read_buffer s" dos] by simp

text \<open>A read request with its arguments.\<close>

lemma read_request:
  assumes "link bs s" "36 + unat len \<le> unat (interface_mtu (c_shared s))" "d = slice bs (unat off) (unat len)"
  shows "\<exists>x s'. cm_bind (put_args 0 (readf_args off cluster len)) (\<lambda>_. request req (int2f_code INT2F_READ_FILE) drv 8) s =
      (Returns (of_nat (length d), 0, x), s') \<and>
    slice (c_recv_buff s') 50 (length d) = d \<and> link bs (freed s') \<and> same_client s s' \<and> length (c_recv_buff s') = MAX_FRAMESIZE"
proof -
  let ?args = "readf_args off cluster len"
  let ?s = "s\<lparr>c_send_buff := overwrite (c_send_buff s) 50 ?args\<rparr>"
  have a: "length ?args = 8" by (simp add: readf_args_def)
  have z: "length (c_send_buff s) = MAX_FRAMESIZE" "length (c_recv_buff s) = MAX_FRAMESIZE" using sizes [OF assms(1)] by simp_all
  then have len: "length (overwrite (c_send_buff s) 50 ?args) = length (c_send_buff s)"
    using a by (simp add: overwrite_def MAX_FRAMESIZE_def)
  then have "link bs ?s" using local [OF assms(1), of _ "c_read_buffer s" "c_dos s"] by simp
  moreover have "slice (c_send_buff ?s) 50 8 = ?args"
    using slice_overwrite_same [of 50 "c_send_buff s" ?args] a z by (simp add: MAX_FRAMESIZE_def)
  ultimately obtain x s' where r: "req (int2f_code INT2F_READ_FILE) drv 8 (c_garbage s) False ?s = (Returns (of_nat (length d), 0, x), s')"
    "slice (c_recv_buff s') 50 (length d) = d" "link bs (freed s')" "same_client ?s s'"
    using reads [of bs ?s off len d] assms(2,3) by fastforce
  have "same_client s s'" "length (c_recv_buff s') = MAX_FRAMESIZE"
    using r(4) len z by (simp_all add: same_client_def)
  with r show ?thesis using a z by (simp add: cm_defs put_args_def request_def MAX_FRAMESIZE_def)
qed

lemma freed_linked: "link bs s \<Longrightarrow> freed s = s"
  using sizes [of bs s] by (simp add: freed_def)

lemma small_read:
  assumes "link bs s" "coherent drv cluster bs (c_read_buffer s)" "sft = get_sft s" "sft_start_cluster sft = cluster"
    "block_sized min_len" "cx < ucast min_len" "r_cx (get_regs s) = cx" "unat cx \<le> length (d_buffer (c_dos s))"
    "unat (file_pos sft) + 256 < 2 ^ 32"
  shows "\<exists>s'. handle_small_read req drv min_len sft cx s = (Returns (), s') \<and>
    c_dos s' = delivered (slice bs (unat (file_pos sft)) (unat cx)) (c_dos s) \<and> link bs (freed s') \<and>
    coherent drv cluster bs (c_read_buffer s')"
proof -
  let ?p = "unat (file_pos sft)"
  define t where "t = buffered_len (c_read_buffer s) min_len drv sft cx"
  define A where "A = slice bs ?p (unat t)"
  note buf = buffered [OF assms(2) [folded assms(4)] assms(5,6), folded t_def A_def]
  let ?s1 = "s\<lparr>c_dos := (c_dos s)\<lparr>d_buffer := overwrite (d_buffer (c_dos s)) 0 A\<rparr>\<rparr>"
  have lt: "unat t \<le> unat cx" using buf(1) by (simp add: word_le_nat_alt)
  have A: "length A = unat t" using buf(3) by (auto simp: A_def)
  have put: "put_user 0 A s = (Returns (), ?s1)" using A lt assms(8) by (simp add: put_user_def)
  have l1: "link bs ?s1" by (rule link_dos [OF assms(1)])
  show ?thesis
  proof (cases "t = cx")
    case True
    let ?s' = "upd_sft (\<lambda>f. f\<lparr>file_pos := file_pos f + ucast t\<rparr>) ?s1"
    have "handle_small_read req drv min_len sft cx s = (Returns (), ?s')"
      using put buf(2) True by (simp add: handle_small_read_def cm_defs t_def [symmetric] Let_def)
    moreover have "link bs (freed ?s')"
      unfolding upd_sft_def using link_dos [OF l1] freed_linked by metis
    moreover have "c_dos ?s' = delivered A (c_dos s)"
      using A True assms(3,7) by (simp add: upd_sft_def delivered_def get_sft_def get_regs_def)
    moreover have "c_read_buffer ?s' = c_read_buffer s" by (simp add: upd_sft_def)
    ultimately show ?thesis using assms(2) True A_def by auto
  next
    case False
    then have "t < cx" using buf(1) by simp
    obtain bo ro len where fr: "fetch_range min_len (file_pos sft) cx t = (bo, ro, len)" by (metis prod_cases3)
    note f = fetched [OF assms(5,6) \<open>t < cx\<close> assms(9) fr]
    have m: "unat min_len \<le> 64" using assms(5) by (auto elim: block_sized_nat)
    define d where "d = slice bs (unat ro) (unat len)"
    have "36 + unat len \<le> unat (interface_mtu (c_shared ?s1))" using sizes [OF l1] f(5) by simp
    from read_request [OF l1 this d_def] obtain x s3 where r:
      "cm_bind (put_args 0 (readf_args ro cluster len)) (\<lambda>_. request req (int2f_code INT2F_READ_FILE) drv 8) ?s1 =
        (Returns (of_nat (length d), 0, x), s3)"
      "slice (c_recv_buff s3) 50 (length d) = d" "link bs (freed s3)" "same_client ?s1 s3" "length (c_recv_buff s3) = MAX_FRAMESIZE"
      by blast
    have "coherent drv cluster bs (c_read_buffer s3)" using r(4) assms(2) by (simp add: same_client_def)
    moreover have "unat bo + 128 < 2 ^ 32" using f(6) assms(6,9) m by (simp add: word_less_nat_alt unat_ucast_up)
    ultimately obtain rb where rb: "fill_read_buffer drv cluster bo ro (of_nat (length d)) s3 = (Returns (), s3\<lparr>c_read_buffer := rb\<rparr>)"
      "coherent drv cluster bs rb"
      using filled [OF d_def r(2,5) f(2,3) m f(5)] by blast
    define oir where "oir = (ucast (file_pos sft + ucast t - ro) :: u16)"
    define n where "n = (if of_nat (length d) > oir then min_u16 (of_nat (length d) - oir) (cx - t) else 0)"
    define B where "B = slice bs (?p + unat t) (unat cx - unat t)"
    have c64: "unat cx < 64" using assms(6) m by (simp add: word_less_nat_alt unat_ucast_up)
    have here: "unat (file_pos sft + ucast t) = ?p + unat t" using assms(9) lt c64 by (simp add: unat_word_ariths unat_ucast_up)
    have o: "unat oir = ?p + unat t - unat ro"
      using f(1,8) here by (simp add: oir_def unat_ucast_down unat_sub word_le_nat_alt)
    have ld: "unat (of_nat (length d) :: u16) = length d"
      using f(5) by (simp add: d_def unat_of_nat take_bit_nat_eq_self min_def)
    have "?p + unat t + (unat cx - unat t) < unat ro + unat len" using f(4) lt by simp
    note B = rest_in_reply [OF d_def f(1) this, folded B_def o]
    have n: "unat n = min (length d - unat oir) (unat cx - unat t)"
      using ld \<open>t < cx\<close> by (simp add: n_def word_less_nat_alt unat_min_u16 unat_sub word_le_nat_alt)
    then have nB: "unat n = length B" "n = of_nat (length B)" using B(2) by (simp, metis of_nat_unat ucast_id)
    let ?s4 = "s3\<lparr>c_read_buffer := rb\<rparr>"
    have sl: "slice (c_recv_buff ?s4) (50 + unat oir) (unat n) = B"
    proof (cases "length d \<le> unat oir")
      case False
      then show ?thesis using reply_part [OF r(2), of "unat oir" "unat n"] n B(1) by simp
    qed (use n nB in \<open>simp add: slice_def\<close>)
    have "unat oir < 64" "unat n < 64" using f(8) o n c64 by linarith+
    then have inb: "50 + unat oir + unat n \<le> length (c_recv_buff ?s4)" using r(5) by (simp add: MAX_FRAMESIZE_def)
    have cl: "copy_len (ucast n) = unat n" using copy_len_small [of "ucast n"] n c64 by (simp add: unat_ucast_up)
    have get: "reply_bytes (unat oir) (copy_len (ucast n)) ?s4 = (Returns B, ?s4)"
      unfolding reply_bytes_def cl using inb sl by simp
    have dos3: "c_dos ?s4 = c_dos ?s1" using r(4) by (simp add: same_client_def)
    have AB: "A @ B = slice bs ?p (unat cx)"
      unfolding A_def B_def using lt slice_adjacent [of bs ?p "unat t" "unat cx - unat t"] by simp
    have "unat t + length B \<le> length (d_buffer (c_dos s))" using nB(1) n lt assms(8) by simp
    then have two: "overwrite (overwrite (d_buffer (c_dos s)) 0 A) (unat t) B = overwrite (d_buffer (c_dos s)) 0 (A @ B)"
      "unat t + length B \<le> length (overwrite (d_buffer (c_dos s)) 0 A)"
      using overwrite_prefix_twice [of A B "d_buffer (c_dos s)"] A by (simp_all add: overwrite_def)
    let ?s' = "?s4\<lparr>c_dos := delivered (A @ B) (c_dos s)\<rparr>"
    have tn: "t + n = of_nat (length (A @ B))" using A nB by (simp add: unsigned_of_nat)
    have "length (A @ B) \<le> unat cx" unfolding AB by simp
    then have tn': "ucast (t + n) = (of_nat (length (A @ B)) :: u32)"
      using c64 unfolding tn by (intro ucast_of_nat_small) simp
    have fin: "cm_bind (put_user (unat t) B) (\<lambda>_. finish_read (t + n)) ?s4 = (Returns (), ?s')"
      using two dos3 tn tn'
      by (simp add: cm_defs put_user_def finish_read_def upd_sft_def upd_regs_def delivered_def)
    have ne: "of_nat (length d) \<noteq> NETWORK_ERROR"
    proof
      assume "of_nat (length d) = NETWORK_ERROR"
      then have "unat (of_nat (length d) :: u16) = 65535" by (simp add: NETWORK_ERROR_def)
      then show False using ld f(5) by (simp add: d_def)
    qed
    have "handle_small_read req drv min_len sft cx s = (Returns (), ?s')"
      by (simp only: handle_small_read_def Let_def cm_bind_simps(1) t_def [symmetric] buf(2) cm_bind_simps(3) [where m = "put_user 0 A", OF put]
          if_not_P [OF False] fr prod.case assms(4) cm_bind_run [OF r(1)] if_not_P [OF ne] if_False simp_thms
          cm_bind_simps(3) [where m = "fill_read_buffer _ _ _ _ _", OF rb(1)] oir_def [symmetric] n_def [symmetric] cm_bind_simps(3) [where m = "reply_bytes _ _", OF get] fin)
    moreover have "link bs (freed ?s')"
    proof -
      have "?s' = s3\<lparr>c_dos := delivered (A @ B) (c_dos s), c_read_buffer := rb\<rparr>" by simp
      then show ?thesis using link_after [OF r(3)] by metis
    qed
    ultimately show ?thesis using rb(2) by (intro exI [of _ ?s']) (simp add: AB)
  qed
qed

lemma chunk_read:
  assumes "link bs s" "reading_at bs (unat (file_pos sft)) got dos0 (c_dos s)" "got < cx" "unat cx \<le> length (d_buffer dos0)"
    "unat (file_pos sft) + 65536 < 2 ^ 32" "sft = d_sft dos0" "sft_start_cluster sft = cluster"
    "chunk = min_u16 (cx - got) (max_read_chunk (c_shared s))"
  obtains d s' where "read_chunks req (Suc fuel) drv sft cx (max_read_chunk (c_shared s)) got s =
      (if length d < unat chunk \<or> got + of_nat (length d) = cx then finish_read (got + of_nat (length d)) s'
       else read_chunks req fuel drv sft cx (max_read_chunk (c_shared s)) (got + of_nat (length d)) (freed s'))"
    "reading_at bs (unat (file_pos sft)) (got + of_nat (length d)) dos0 (c_dos s')"
    "link bs (freed s')" "c_read_buffer s' = c_read_buffer s" "interface_mtu (c_shared s') = interface_mtu (c_shared s)"
    "d = slice bs (unat (file_pos sft) + unat got) (unat chunk)" "0 < unat chunk" "unat got + unat chunk \<le> unat cx"
proof -
  let ?p = "unat (file_pos sft)" and ?mtu = "interface_mtu (c_shared s)"
  define A where "A = slice bs ?p (unat got)"
  have mtu: "164 \<le> unat ?mtu" "unat ?mtu \<le> 1500" using sizes [OF assms(1)] by simp_all
  then have mx: "unat (max_read_chunk (c_shared s)) = unat ?mtu - 36"
    by (simp add: max_read_chunk_def unat_sub_if' unat_word_ariths)
  have tc: "unat got < unat cx" "unat cx < 65536" using assms(3) unat_lt2p [of cx] by (simp_all add: word_less_nat_alt)
  then have ck: "unat chunk = min (unat cx - unat got) (unat ?mtu - 36)"
    by (simp add: assms(8) unat_min_u16 mx unat_sub word_le_nat_alt)
  have ck': "0 < unat chunk" "unat got + unat chunk \<le> unat cx" "36 + unat chunk \<le> unat ?mtu"
    using ck tc mtu by linarith+
  have off: "unat (file_pos sft + ucast got) = ?p + unat got"
    using assms(5) tc by (simp add: unat_word_ariths unat_ucast_up)
  define d where "d = slice bs (?p + unat got) (unat chunk)"
  from read_request [OF assms(1) ck'(3), of d "file_pos sft + ucast got"] obtain x s3 where r:
    "cm_bind (put_args 0 (readf_args (file_pos sft + ucast got) cluster chunk)) (\<lambda>_. request req (int2f_code INT2F_READ_FILE) drv 8) s =
      (Returns (of_nat (length d), 0, x), s3)"
    "slice (c_recv_buff s3) 50 (length d) = d" "link bs (freed s3)" "same_client s s3" "length (c_recv_buff s3) = MAX_FRAMESIZE"
    unfolding off d_def by blast
  have L: "length d \<le> 1464" using ck'(3) mtu by (simp add: d_def)
  then have ld: "unat (of_nat (length d) :: u16) = length d" by (simp add: unat_of_nat take_bit_nat_eq_self)
  have ne: "of_nat (length d) \<noteq> NETWORK_ERROR" using ld L by (auto simp: NETWORK_ERROR_def)
  have "copy_len (ucast (of_nat (length d) :: u16)) = length d"
    using copy_len_small [of "ucast (of_nat (length d) :: u16)"] ld L by (simp add: unat_ucast_up)
  then have get: "reply_bytes 0 (copy_len (ucast (of_nat (length d) :: u16))) s3 = (Returns d, s3)"
    using r(2,5) L by (simp add: reply_bytes_def MAX_FRAMESIZE_def)
  have A: "length A = unat got" "c_dos s = dos0\<lparr>d_buffer := overwrite (d_buffer dos0) 0 A\<rparr>"
    using assms(2) by (simp_all add: reading_at_def A_def)
  have fit: "length A + length d \<le> length (d_buffer dos0)" using A ck'(2) assms(4) by (simp add: d_def)
  let ?s' = "s3\<lparr>c_dos := dos0\<lparr>d_buffer := overwrite (d_buffer dos0) 0 (A @ d)\<rparr>\<rparr>"
  have "c_dos s3 = c_dos s" using r(4) by (simp add: same_client_def)
  then have put: "put_user (unat got) d s3 = (Returns (), ?s')"
    using A fit overwrite_prefix_twice [OF fit] by (simp add: put_user_def overwrite_def)
  have lt: "of_nat (length d) < chunk \<longleftrightarrow> length d < unat chunk" using ld by (simp add: word_less_nat_alt)
  have tot: "unat (got + of_nat (length d)) = unat got + length d"
    using ld ck'(2) tc by (simp add: unat_word_ariths d_def)
  have run: "read_chunks req (Suc fuel) drv sft cx (max_read_chunk (c_shared s)) got s =
      (if length d < unat chunk \<or> got + of_nat (length d) = cx then finish_read (got + of_nat (length d)) ?s'
       else read_chunks req fuel drv sft cx (max_read_chunk (c_shared s)) (got + of_nat (length d)) (freed ?s'))"
    by (simp only: read_chunks.simps Let_def assms(7) assms(8) [symmetric] prod.case cm_bind_run [OF r(1)] if_not_P [OF ne] if_False simp_thms
        cm_bind_simps(3) [where m = "reply_bytes _ _", OF get] cm_bind_simps(3) [where m = "put_user _ _", OF put] lt)
      (simp add: cm_bind_simps freed_def)
  have AB: "A @ d = slice bs ?p (unat (got + of_nat (length d)))"
    unfolding A_def tot using slice_adjacent [of bs ?p "unat got" "length d"] by (simp add: d_def slice_min min.commute)
  show thesis
  proof (rule that [OF run])
    show "reading_at bs ?p (got + of_nat (length d)) dos0 (c_dos ?s')"
    proof -
      have "length (A @ d) = unat (got + of_nat (length d))" using A(1) tot by simp
      then show ?thesis unfolding reading_at_def AB [symmetric] by simp
    qed
  qed (use r(3,4) ck' in \<open>simp_all add: d_def same_client_def link_after_dos\<close>)
qed

lemma finish_delivers:
  assumes "reading_at bs p got dos0 (c_dos s)" "slice bs p (unat got) = slice bs p n"
  shows "\<exists>s'. finish_read got s = (Returns (), s') \<and> c_dos s' = delivered (slice bs p n) dos0 \<and>
    c_read_buffer s' = c_read_buffer s \<and> (link bs' (freed s) \<longrightarrow> link bs' (freed s'))"
proof -
  let ?d = "slice bs p n"
  have d: "c_dos s = dos0\<lparr>d_buffer := overwrite (d_buffer dos0) 0 ?d\<rparr>" "length ?d = unat got"
    using assms by (simp_all add: reading_at_def)
  have "got = of_nat (length ?d)" "ucast got = (of_nat (length ?d) :: u32)" unfolding d(2) by simp_all
  then have "finish_read got s = (Returns (), s\<lparr>c_dos := delivered ?d dos0\<rparr>)"
    using d by (simp add: finish_read_def cm_defs upd_sft_def upd_regs_def delivered_def)
  then show ?thesis using link_after_dos by simp
qed

lemma large_read:
  assumes "link bs s" "reading_at bs (unat (file_pos sft)) got dos0 (c_dos s)" "got < cx" "unat cx \<le> length (d_buffer dos0)"
    "unat (file_pos sft) + 65536 < 2 ^ 32" "sft = d_sft dos0" "sft_start_cluster sft = cluster" "unat cx - unat got \<le> fuel"
    "mx = max_read_chunk (c_shared s)"
  shows "\<exists>s'. read_chunks req fuel drv sft cx mx got s = (Returns (), s') \<and>
    c_dos s' = delivered (slice bs (unat (file_pos sft)) (unat cx)) dos0 \<and> link bs (freed s') \<and> c_read_buffer s' = c_read_buffer s"
  using assms
proof (induction fuel arbitrary: s got)
  case 0
  then show ?case by (simp add: word_less_nat_alt)
next
  case (Suc fuel)
  let ?p = "unat (file_pos sft)"
  define chunk where "chunk = min_u16 (cx - got) (max_read_chunk (c_shared s))"
  obtain d s1 where run: "read_chunks req (Suc fuel) drv sft cx mx got s =
      (if length d < unat chunk \<or> got + of_nat (length d) = cx then finish_read (got + of_nat (length d)) s1
       else read_chunks req fuel drv sft cx mx (got + of_nat (length d)) (freed s1))"
    and s1: "reading_at bs ?p (got + of_nat (length d)) dos0 (c_dos s1)"
    "link bs (freed s1)" "c_read_buffer s1 = c_read_buffer s" "interface_mtu (c_shared s1) = interface_mtu (c_shared s)"
    and d: "d = slice bs (?p + unat got) (unat chunk)" "0 < unat chunk" "unat got + unat chunk \<le> unat cx"
    using chunk_read [OF Suc.prems(1-7) chunk_def, of fuel] unfolding Suc.prems(9) by metis
  let ?got = "got + of_nat (length d) :: u16"
  have ld: "length d \<le> unat chunk" by (simp add: d(1))
  then have "length d < 65536" using d(3) unat_lt2p [of cx] by simp
  then have g: "unat ?got = unat got + length d"
    using ld d(3) unat_lt2p [of cx] by (simp add: unat_word_ariths unat_of_nat take_bit_nat_eq_self)
  show ?case
  proof (cases "length d < unat chunk \<or> ?got = cx")
    case True
    have "slice bs ?p (unat ?got) = slice bs ?p (unat cx)"
    proof (cases "?got = cx")
      case False
      then have "length bs - ?p \<le> unat got + length d" using True by (simp add: d(1))
      then show ?thesis using g d(3) ld by (intro slice_full) linarith+
    qed simp
    from finish_delivers [OF s1(1) this, of bs] True run s1 show ?thesis by auto
  next
    case False
    have "c_dos (freed s1) = c_dos s1" "c_read_buffer (freed s1) = c_read_buffer s" "mx = max_read_chunk (c_shared (freed s1))"
      using s1(3,4) Suc.prems(9) by (simp_all add: freed_def max_read_chunk_def)
    moreover have "unat ?got \<noteq> unat cx" using False unfolding word_unat_eq_iff [symmetric] by blast
    then have "?got < cx" "unat cx - unat ?got \<le> fuel"
      using g ld d(2,3) False Suc.prems(8) unfolding word_less_nat_alt by linarith+
    ultimately show ?thesis
      using Suc.IH [OF s1(2), of ?got] s1(1) Suc.prems(4-7) False run by simp
  qed
qed

lemma read_handler:
  assumes "link bs s" "coherent drv cluster bs (c_read_buffer s)" "sft = get_sft s" "cx = r_cx (get_regs s)"
    "sft_start_cluster sft = cluster" "open_mode sft AND 1 = 0" "unat cx \<le> length (d_buffer (c_dos s))"
    "unat (file_pos sft) + 65536 < 2 ^ 32" "m = min_server_read_len (client_drive drv s)" "m = 0 \<or> block_sized m"
  shows "\<exists>s'. handle_read_file req drv s = (Returns (), s') \<and>
    c_dos s' = delivered (slice bs (unat (file_pos sft)) (unat cx)) (c_dos s) \<and> link bs (freed s') \<and>
    coherent drv cluster bs (c_read_buffer s')"
proof -
  have drv: "unat drv < length (drives (c_shared s))" using sizes [OF assms(1)] by simp
  have enter: "handle_read_file req drv s =
      (if cx = 0 then (Returns (), s)
       else if cx < ucast m then handle_small_read req drv m sft cx s
       else read_chunks req 65536 drv sft cx (max_read_chunk (c_shared s)) 0 s)"
    using assms(6) drv unfolding assms(3,4,9)
    by (simp add: handle_read_file_def cm_defs cm_nth_def client_drive_def del: read_chunks.simps)
  consider "cx = 0" | "cx \<noteq> 0" "cx < ucast m" | "cx \<noteq> 0" "\<not> cx < ucast m" by blast
  then show ?thesis
  proof cases
    case 1
    have "delivered [] (c_dos s) = c_dos s"
      using 1 assms(4) by (simp add: delivered_def overwrite_def get_regs_def)
    then show ?thesis using 1 enter assms(1,2) freed_linked [OF assms(1)] by (simp add: slice_def)
  next
    case 2
    then have "block_sized m" using assms(10) by (auto simp: word_less_nat_alt)
    from small_read [OF assms(1-3,5) this 2(2) assms(4) [symmetric] assms(7)] assms(8) 2 enter show ?thesis by auto
  next
    case 3
    have "reading_at bs (unat (file_pos sft)) 0 (c_dos s) (c_dos s)" by (simp add: reading_at_def slice_def overwrite_def)
    moreover have "0 < cx" using 3(1) by (simp add: word_neq_0_conv)
    moreover have "unat cx - unat (0 :: u16) \<le> 65536" using unat_lt2p [of cx] by simp
    ultimately obtain s' where "read_chunks req 65536 drv sft cx (max_read_chunk (c_shared s)) 0 s = (Returns (), s')"
      "c_dos s' = delivered (slice bs (unat (file_pos sft)) (unat cx)) (c_dos s)" "link bs (freed s')"
      "c_read_buffer s' = c_read_buffer s"
      using large_read [OF assms(1) _ _ assms(7,8) _ assms(5)] assms(3) unfolding get_sft_def by blast
    then show ?thesis using enter 3 assms(2) by auto
  qed
qed

end

text \<open>The service also writes.\<close>

locale file_service = file_reader +
  assumes writes: "link bs s \<Longrightarrow> slice (c_send_buff s) 50 (6 + length d) = put32 Little off @ put16 Little cluster @ d \<Longrightarrow>
      d \<noteq> [] \<Longrightarrow> 42 + length d \<le> unat (interface_mtu (c_shared s)) \<Longrightarrow>
      \<exists>x s'. req (int2f_code INT2F_WRITE_FILE) drv (of_nat (6 + length d)) ax False s = (Returns (2, 0, x), s') \<and>
        slice (c_recv_buff s') 50 2 = put16 Little (of_nat (length d)) \<and>
        link (write_bytes_at bs (unat off) d) (freed s') \<and> same_client s s'"
begin

lemma write_request:
  assumes "link bs s" "42 + length d \<le> unat (interface_mtu (c_shared s))" "d \<noteq> []"
  shows "\<exists>s1 s2 x s'. put_args 0 (put32 Little off @ put16 Little cluster) s = (Returns (), s1) \<and> c_dos s1 = c_dos s \<and>
    put_args 6 d s1 = (Returns (), s2) \<and>
    request req (int2f_code INT2F_WRITE_FILE) drv (of_nat (length d) + 6) s2 = (Returns (2, 0, x), s') \<and>
    slice (c_recv_buff s') 50 2 = put16 Little (of_nat (length d)) \<and> link (write_bytes_at bs (unat off) d) (freed s') \<and>
    same_client s s' \<and> length (c_recv_buff s') = MAX_FRAMESIZE"
proof -
  let ?args = "put32 Little off @ put16 Little cluster"
  let ?s = "s\<lparr>c_send_buff := overwrite (c_send_buff s) 50 (?args @ d)\<rparr>"
  have z: "length (c_send_buff s) = MAX_FRAMESIZE" "length (c_recv_buff s) = MAX_FRAMESIZE"
    "unat (interface_mtu (c_shared s)) \<le> 1500" using sizes [OF assms(1)] by simp_all
  then have fit: "50 + (6 + length d) \<le> length (c_send_buff s)" using assms(2) by (simp add: MAX_FRAMESIZE_def)
  then have len: "length (overwrite (c_send_buff s) 50 (?args @ d)) = length (c_send_buff s)"
    by (simp add: overwrite_def)
  then have "link bs ?s" using local [OF assms(1), of _ "c_read_buffer s" "c_dos s"] by simp
  moreover have "slice (c_send_buff ?s) 50 (6 + length d) = ?args @ d"
    using slice_overwrite_same [of 50 "c_send_buff s" "?args @ d"] fit by simp
  ultimately obtain x s' where r: "req (int2f_code INT2F_WRITE_FILE) drv (of_nat (6 + length d)) (c_garbage s) False ?s = (Returns (2, 0, x), s')"
    "slice (c_recv_buff s') 50 2 = put16 Little (of_nat (length d))" "link (write_bytes_at bs (unat off) d) (freed s')" "same_client ?s s'"
    using writes [of bs ?s d off "c_garbage s"] assms(2,3) by fastforce
  have "overwrite (overwrite (c_send_buff s) 50 ?args) 56 d = overwrite (c_send_buff s) 50 (?args @ d)"
    using fit by (simp add: overwrite_def add.commute)
  moreover have "same_client s s'" "length (c_recv_buff s') = MAX_FRAMESIZE"
    using r(4) len z by (simp_all add: same_client_def)
  moreover have "length (overwrite (c_send_buff s) 50 ?args) = length (c_send_buff s)" using fit by (simp add: overwrite_def)
  ultimately show ?thesis using r fit by (simp add: cm_defs put_args_def request_def add.commute)
qed

lemma chunk_write:
  assumes "link bs s" "c_dos s = progress k dos0" "d_buffer dos0 = data" "unat k + unat left \<le> length data" "0 < left"
    "unat (file_pos (d_sft dos0)) + 65536 < 2 ^ 32" "sft_start_cluster (d_sft dos0) = cluster" "unat k + unat left < 65536"
    "unat mx = unat (interface_mtu (c_shared s)) - 42"
  obtains n d s' where "write_chunks req (Suc fuel) drv mx k left s =
      (if left - n > 0 then write_chunks req fuel drv mx (k + n) (left - n) (freed s') else (Returns (), freed s'))"
    "c_dos s' = written (k + n) dos0" "link (write_bytes_at bs (unat (file_pos (d_sft dos0)) + unat k) d) (freed s')"
    "d = slice data (unat k) (unat n)" "length d = unat n" "0 < unat n" "unat n \<le> unat left"
    "interface_mtu (c_shared s') = interface_mtu (c_shared s)" "c_read_buffer s' = c_read_buffer s"
proof -
  have mtu: "164 \<le> unat (interface_mtu (c_shared s))" "unat (interface_mtu (c_shared s)) \<le> 1500" using sizes [OF assms(1)] by simp_all
  define n where "n = (if left > mx then mx else left)"
  have n: "0 < unat n" "unat n \<le> unat left" "42 + unat n \<le> unat (interface_mtu (c_shared s))"
    using assms(5,9) mtu by (auto simp: n_def word_less_nat_alt)
  define d where "d = slice data (unat k) (unat n)"
  have ld: "length d = unat n" using n(2) assms(4) by (simp add: d_def)
  then have d: "d \<noteq> []" "42 + length d \<le> unat (interface_mtu (c_shared s))" "of_nat (length d) = n" using n by auto
  define off where "off = file_pos (d_sft dos0) + ucast k"
  have off: "unat off = unat (file_pos (d_sft dos0)) + unat k"
    using assms(6,8) by (simp add: off_def unat_word_ariths unat_ucast_up)
  obtain s1 s2 x s3 where w: "put_args 0 (put32 Little off @ put16 Little cluster) s = (Returns (), s1)" "c_dos s1 = c_dos s"
    "put_args 6 d s1 = (Returns (), s2)"
    "request req (int2f_code INT2F_WRITE_FILE) drv (n + 6) s2 = (Returns (2, 0, x), s3)"
    "slice (c_recv_buff s3) 50 2 = put16 Little n" "link (write_bytes_at bs (unat off) d) (freed s3)" "same_client s s3"
    "length (c_recv_buff s3) = MAX_FRAMESIZE"
    using write_request [OF assms(1) d(2,1), of off] unfolding d(3) by blast
  have cl: "copy_len (ucast n) = unat n" using copy_len_small [of "ucast n"] n(3) mtu by (simp add: unat_ucast_up)
  have sft: "file_pos (get_sft s) = off" "sft_start_cluster (get_sft s) = cluster"
    using assms(2,7) by (simp_all add: get_sft_def progress_def written_def written_to_sft_def off_def Let_def)
  have user: "get_user (unat k) (copy_len (ucast n)) s1 = (Returns d, s1)"
    using w(2) assms(2-4) n(2) by (simp add: get_user_def cl progress_def written_def d_def)
  have reply: "reply_bytes 0 2 s3 = (Returns (put16 Little n), s3)"
    using w(5,8) by (simp add: reply_bytes_def MAX_FRAMESIZE_def)
  have v: "get16 Little (put16 Little n) 0 = n" by (rule get16_put16) (simp add: slice_def)
  let ?s' = "upd_sft (written_to_sft n) (upd_regs (\<lambda>r. r\<lparr>r_cx := k + n\<rparr>) s3)"
  have run: "write_chunks req (Suc fuel) drv mx k left s =
      (if left - n > 0 then write_chunks req fuel drv mx (k + n) (left - n) (freed ?s') else (Returns (), freed ?s'))"
  proof -
    show ?thesis
      by (simp only: write_chunks.simps Let_def n_def [symmetric] cm_bind_simps(1,2) sft cm_bind_simps(3) [where m = "put_args _ _", OF w(1)]
          cm_bind_simps(3) [where m = "get_user _ _", OF user] cm_bind_simps(3) [where m = "put_args _ _", OF w(3)]
          cm_bind_simps(3) [where m = "request _ _ _ _", OF w(4)] prod.case simp_thms if_False if_True
          cm_bind_simps(3) [where m = "reply_bytes _ _", OF reply] v)
        (simp add: NETWORK_ERROR_def cm_bind_simps(2) cm_bind_simps(3) [where m = "reply_bytes _ _", OF reply] v freed_def cm_return_def)
  qed
  show thesis
  proof (rule that [OF run])
    have "c_dos s3 = progress k dos0" using w(7) assms(2) by (simp add: same_client_def)
    then show "c_dos ?s' = written (k + n) dos0"
      using written_to_sft_twice [of "d_sft dos0" k n] assms(6,8) n(2)
      by (simp add: upd_sft_def upd_regs_def progress_def written_def)
    show "link (write_bytes_at bs (unat (file_pos (d_sft dos0)) + unat k) d) (freed ?s')"
      using link_after_dos w(6) unfolding off upd_sft_def upd_regs_def by simp
    show "c_read_buffer ?s' = c_read_buffer s" "interface_mtu (c_shared ?s') = interface_mtu (c_shared s)"
      using w(7) by (simp_all add: upd_sft_def upd_regs_def same_client_def)
  qed (use n d_def ld in auto)
qed

lemma chunks_written:
  assumes "link (so_far bs p k data) s" "c_dos s = progress k dos0" "d_buffer dos0 = data"
    "unat k + unat left = unat cx" "unat cx \<le> length data" "0 < left" "p = unat (file_pos (d_sft dos0))"
    "p + 65536 < 2 ^ 32" "sft_start_cluster (d_sft dos0) = cluster" "unat mx = unat (interface_mtu (c_shared s)) - 42" "unat left \<le> fuel"
  shows "\<exists>s'. write_chunks req fuel drv mx k left s = (Returns (), s') \<and> c_dos s' = written cx dos0 \<and>
    link (write_bytes_at bs p (take (unat cx) data)) (freed s') \<and> c_read_buffer s' = c_read_buffer s"
  using assms
proof (induction fuel arbitrary: s k left)
  case 0
  then show ?case by (simp add: word_less_nat_alt)
next
  case (Suc fuel)
  let ?bs = "so_far bs p k data"
  have cx: "unat cx < 65536" using unat_lt2p [of cx] by simp
  have pre: "unat k + unat left \<le> length data" "unat k + unat left < 65536"
    "unat (file_pos (d_sft dos0)) + 65536 < 2 ^ 32" using Suc.prems(4,5,7,8) cx by simp_all
  obtain n d s1 where run: "write_chunks req (Suc fuel) drv mx k left s =
      (if left - n > 0 then write_chunks req fuel drv mx (k + n) (left - n) (freed s1) else (Returns (), freed s1))"
    and s1: "c_dos s1 = written (k + n) dos0" "link (write_bytes_at ?bs (p + unat k) d) (freed s1)"
    "interface_mtu (c_shared s1) = interface_mtu (c_shared s)" "c_read_buffer s1 = c_read_buffer s"
    and d: "d = slice data (unat k) (unat n)" "length d = unat n" "0 < unat n" "unat n \<le> unat left"
    using chunk_write [OF Suc.prems(1-3) pre(1) Suc.prems(6) pre(3) Suc.prems(9) pre(2) Suc.prems(10), of fuel]
    unfolding Suc.prems(7) [symmetric] by metis
  have kn: "unat (k + n) = unat k + unat n" using d(4) pre(2) by (simp add: unat_word_ariths)
  have ln: "unat (left - n) = unat left - unat n" using d(4) by (simp add: unat_sub word_le_nat_alt)
  have nz: "k + n \<noteq> 0" using kn d(3) by auto
  have "take (unat k) data @ d = take (unat (k + n)) data" unfolding kn d(1) by (simp add: slice_def take_add)
  moreover have "length (take (unat k) data) = unat k" using pre(1) by simp
  ultimately have new: "write_bytes_at ?bs (p + unat k) d = write_bytes_at bs p (take (unat (k + n)) data)"
    using write_bytes_twice [of bs p "take (unat k) data" d] by (cases "k = 0") (simp_all add: so_far_def)
  then have link: "link (so_far bs p (k + n) data) (freed s1)" using s1(2) nz by (simp add: so_far_def)
  have same: "c_dos (freed s1) = c_dos s1" "c_read_buffer (freed s1) = c_read_buffer s" "c_shared (freed s1) = c_shared s1"
    "freed (freed s1) = freed s1"
    using s1(4) by (simp_all add: freed_def)
  show ?case
  proof (cases "left - n > 0")
    case True
    have "unat (k + n) + unat (left - n) = unat cx" "unat (left - n) \<le> fuel"
      using kn ln d(3,4) Suc.prems(4,11) by linarith+
    then show ?thesis
      using Suc.IH [OF link, of "left - n"] True run s1 same Suc.prems(3,5,7-10) nz by (simp add: progress_def)
  next
    case False
    then have "unat left = unat n" using ln d(4) by (simp add: word_less_nat_alt)
    then have "unat (k + n) = unat cx" using kn Suc.prems(4) by simp
    then have "k + n = cx" by (simp add: word_unat_eq_iff)
    then show ?thesis using False run s1(1) link same nz by (simp add: so_far_def)
  qed
qed

lemma write_handler:
  assumes "link bs s" "coherent drv cluster bs (c_read_buffer s)" "sft = get_sft s" "cx = r_cx (get_regs s)"
    "sft_start_cluster sft = cluster" "open_mode sft AND 3 \<noteq> 0" "0 < cx" "unat cx \<le> length (d_buffer (c_dos s))"
    "unat (file_pos sft) + 65536 < 2 ^ 32" "length bs < 2 ^ 32"
    "bs' = write_bytes_at bs (unat (file_pos sft)) (take (unat cx) (d_buffer (c_dos s)))"
  shows "\<exists>s'. handle_write_file req drv s = (Returns (), s') \<and> c_dos s' = written cx (c_dos s) \<and> link bs' (freed s') \<and>
    coherent drv cluster bs' (c_read_buffer s')"
proof -
  let ?rb = "invalidate_on_write drv sft cx (c_read_buffer s)"
  let ?s = "s\<lparr>c_read_buffer := ?rb\<rparr>" and ?mx = "max_write_chunk (c_shared s)"
  have enter: "handle_write_file req drv s = write_chunks req 65536 drv ?mx 0 cx ?s"
    using assms(6) unfolding assms(3,4) by (simp add: handle_write_file_def cm_defs del: write_chunks.simps)
  have z: "164 \<le> unat (interface_mtu (c_shared s))" "unat (interface_mtu (c_shared s)) \<le> 1500" using sizes [OF assms(1)] by simp_all
  have "?s = s\<lparr>c_send_buff := c_send_buff s, c_dos := c_dos s, c_read_buffer := ?rb\<rparr>" by simp
  then have "link bs ?s" using local [OF assms(1), of "c_send_buff s" ?rb "c_dos s"] by simp
  moreover have "unat ?mx = unat (interface_mtu (c_shared s)) - 42"
    using z by (simp add: max_write_chunk_def unat_sub_if' unat_word_ariths)
  moreover have "unat cx \<le> 65536" using unat_lt2p [of cx] by simp
  ultimately obtain s' where "write_chunks req 65536 drv ?mx 0 cx ?s = (Returns (), s')" "c_dos s' = written cx (c_dos s)"
    "link bs' (freed s')" "c_read_buffer s' = ?rb"
    using chunks_written [of bs "unat (file_pos sft)" 0 "d_buffer (c_dos s)" ?s "c_dos s" cx cx ?mx 65536] assms(3,5,7-9,11)
    by (auto simp: so_far_def progress_def get_sft_def)
  moreover have "coherent drv cluster bs' ?rb"
    using written_coherent [OF assms(2,5) _ assms(7,9,10)] assms(8,11) by simp
  ultimately show ?thesis using enter by auto
qed

end

end
