(* ===== verification/EndToEnd.thy ===== *)
theory EndToEnd
  imports ClientFiles
begin

text \<open>
  The connected client and server as a file service, and what a DOS program sees of it: its reads
  return the bytes of the file on the host, its writes change them.
\<close>

section \<open>The server as a file service\<close>

text \<open>The drive is mounted, and the block size of small reads is a power of two.\<close>

definition mounted :: "u8 \<Rightarrow> 'w client \<Rightarrow> bool" where
  "mounted drv s \<longleftrightarrow> unat drv < CLIENT_DRIVES_COUNT \<and> drive_map (c_shared s) ! unat drv \<noteq> 0xFF \<and> c_my_2Fmux_id s \<noteq> 0x11 \<and>
     (let m = min_server_read_len (client_drive drv s) in m = 0 \<or> block_sized m)"

lemma mounted_same: "same_client s t \<Longrightarrow> mounted drv (freed t) = mounted drv s"
  by (simp add: mounted_def same_client_def client_drive_def freed_def)

definition serves_file :: "env \<Rightarrow> (byte list \<Rightarrow> byte list) \<Rightarrow> u32 \<Rightarrow> u16 \<Rightarrow> u8 \<Rightarrow> u16 \<Rightarrow> byte list \<Rightarrow> server client \<Rightarrow> bool" where
  "serves_file env wrap ip port drv cluster bs s \<longleftrightarrow>
     linked env wrap ip port drv s \<and> mounted drv s \<and> (\<exists>loc nd. open_file (remote_view drv s) cluster loc nd bs)"

definition writable_file :: "env \<Rightarrow> (byte list \<Rightarrow> byte list) \<Rightarrow> u32 \<Rightarrow> u16 \<Rightarrow> u8 \<Rightarrow> u16 \<Rightarrow> byte list \<Rightarrow> server client \<Rightarrow> bool" where
  "writable_file env wrap ip port drv cluster bs s \<longleftrightarrow>
     serves_file env wrap ip port drv cluster bs s \<and> \<not> d_read_only (s_drive (remote_view drv s))"

lemma open_file_used: "open_file s n loc nd bs \<Longrightarrow> open_file (used_now n s) n loc nd bs"
  by (simp add: open_file_def)

lemma used_now_read_only: "d_read_only (s_drive (used_now n s)) = d_read_only (s_drive s)"
  unfolding used_now_def update_last_used_timestamp_def update_item_def Let_def by (simp add: set_items_def)

lemma remote_view_freed [simp]: "remote_view drv (freed s) = remote_view drv s"
  by (simp add: remote_view_def remote_drive_def freed_def)

lemma linked_local:
  "linked env wrap ip port drv s \<Longrightarrow> length b = length (c_send_buff s) \<Longrightarrow>
   linked env wrap ip port drv (s\<lparr>c_send_buff := b, c_dos := dos, c_read_buffer := rb\<rparr>)"
  by (simp add: linked_def ready_def Let_def remote_drive_def server_entry_def client_drive_def)

lemma linked_sizes:
  "linked env wrap ip port drv s \<Longrightarrow> length (c_send_buff s) = MAX_FRAMESIZE \<and> length (c_recv_buff s) = MAX_FRAMESIZE \<and>
     164 \<le> unat (interface_mtu (c_shared s)) \<and> unat (interface_mtu (c_shared s)) \<le> 1500 \<and> unat drv < length (drives (c_shared s)) \<and>
     c_recv_data_len s = 0 \<and> e_native env = Little"
  by (simp add: linked_def ready_def Let_def word_le_nat_alt)

lemma read_call:
  assumes "linked env wrap ip port drv s" "open_file (remote_view drv s) cluster loc nd bs"
    "slice (c_send_buff s) 50 8 = readf_args off cluster len" "36 + unat len \<le> unat (interface_mtu (c_shared s))"
    "d = slice bs (unat off) (unat len)"
  shows "\<exists>x s'. send_request (server_net env wrap ip port) (int2f_code INT2F_READ_FILE) drv 8 ax False s =
      (Returns (of_nat (length d), 0, x), s') \<and>
    slice (c_recv_buff s') 50 (length d) = d \<and> linked env wrap ip port drv (freed s') \<and>
    remote_view drv s' = used_now cluster (remote_view drv s) \<and> same_client s s'"
proof -
  note z = linked_sizes [OF assms(1)]
  have args: "readf_of Little (readf_args off cluster len) = \<lparr>rf_offset = off, rf_start_cluster = cluster, rf_length = len\<rparr>"
    by (simp add: readf_of_def readf_args_def get16_put16 get32_put32 slice_def)
  have d: "length d \<le> 1464" using assms(4,5) z by simp linarith
  have "handle_function env False INT2F_READ_FILE (slice (c_send_buff s) 50 (unat (8 :: u16))) (remote_view drv s) =
      (Inr (Some (0, d)), used_now cluster (remote_view drv s))"
    using assms(3) d z args read_open_file [OF assms(2), of off len, folded assms(5)]
    by (simp add: req_read_file_def readf_args_def Let_def answer_errors_def sx_defs REPLY_DATA_SIZE_def DOS_EXTERR_NO_ERROR_def)
  from remote_call [OF assms(1) _ int2f_of_code this d, of ax] z show ?thesis unfolding freed_def by simp
qed

lemma write_call:
  assumes "linked env wrap ip port drv s" "open_file (remote_view drv s) cluster loc nd bs" "\<not> d_read_only (s_drive (remote_view drv s))"
    "slice (c_send_buff s) 50 (6 + length d) = put32 Little off @ put16 Little cluster @ d" "d \<noteq> []"
    "42 + length d \<le> unat (interface_mtu (c_shared s))"
  shows "\<exists>x s' nd'. send_request (server_net env wrap ip port) (int2f_code INT2F_WRITE_FILE) drv (of_nat (6 + length d)) ax False s =
      (Returns (2, 0, x), s') \<and>
    slice (c_recv_buff s') 50 2 = put16 Little (of_nat (length d)) \<and> linked env wrap ip port drv (freed s') \<and>
    open_file (remote_view drv s') cluster loc nd' (write_bytes_at bs (unat off) d) \<and>
    \<not> d_read_only (s_drive (remote_view drv s')) \<and> same_client s s'"
proof -
  note z = linked_sizes [OF assms(1)]
  let ?v = "remote_view drv s"
  have n: "unat (of_nat (6 + length d) :: u16) = 6 + length d"
    using assms(6) z by (subst unat_of_nat) (simp add: take_bit_nat_eq_self)
  have args: "writef_of Little (put32 Little off @ put16 Little cluster @ d) = \<lparr>wr_offset = off, wr_start_cluster = cluster\<rparr>"
    by (simp add: writef_of_def get16_put16 get32_put32 slice_def)
  obtain nd' t where w: "write_file d cluster off ?v = (Inr (length d), t)"
    and t: "open_file t cluster loc nd' (write_bytes_at bs (unat off) d)" "d_read_only (s_drive t) = d_read_only (s_drive ?v)"
    using open_file_written [OF assms(2,3,5), of off] used_now_read_only by simp
  have "handle_function env False INT2F_WRITE_FILE (slice (c_send_buff s) 50 (unat (of_nat (6 + length d) :: u16))) ?v =
      (Inr (Some (0, put16 Little (of_nat (length d)))), t)"
    unfolding n assms(4) using args w z
    by (simp add: req_write_file_def Let_def answer_errors_def sx_defs writef_reply_def DOS_EXTERR_NO_ERROR_def)
  from remote_call [OF assms(1) _ int2f_of_code this, of ax] z n assms(6) t assms(3) show ?thesis
    unfolding freed_def by simp blast
qed

lemma serves_read:
  assumes "serves_file env wrap ip port drv cluster bs s" "slice (c_send_buff s) 50 8 = readf_args off cluster len"
    "36 + unat len \<le> unat (interface_mtu (c_shared s))" "d = slice bs (unat off) (unat len)"
  shows "\<exists>x s'. send_request (server_net env wrap ip port) (int2f_code INT2F_READ_FILE) drv 8 ax False s =
      (Returns (of_nat (length d), 0, x), s') \<and>
    slice (c_recv_buff s') 50 (length d) = d \<and> serves_file env wrap ip port drv cluster bs (freed s') \<and> same_client s s' \<and>
    d_read_only (s_drive (remote_view drv s')) = d_read_only (s_drive (remote_view drv s))"
proof -
  obtain loc nd where l: "linked env wrap ip port drv s" "open_file (remote_view drv s) cluster loc nd bs"
    using assms(1) by (auto simp: serves_file_def)
  obtain x s' where r: "send_request (server_net env wrap ip port) (int2f_code INT2F_READ_FILE) drv 8 ax False s =
      (Returns (of_nat (length d), 0, x), s')" "slice (c_recv_buff s') 50 (length d) = d" "linked env wrap ip port drv (freed s')"
    "remote_view drv s' = used_now cluster (remote_view drv s)" "same_client s s'"
    using read_call [OF l assms(2-4)] by blast
  then have "serves_file env wrap ip port drv cluster bs (freed s')"
    using assms(1) open_file_used [OF l(2)] mounted_same [OF r(5)] by (auto simp: serves_file_def)
  with r show ?thesis by (simp add: used_now_read_only)
qed

interpretation remote: file_reader "send_request (server_net env wrap ip port)" "serves_file env wrap ip port drv cluster" drv cluster
  for env wrap ip port drv cluster
proof
  fix bs s off len d ax
  assume "serves_file env wrap ip port drv cluster bs s" "slice (c_send_buff s) 50 8 = readf_args off cluster len"
    "36 + unat len \<le> unat (interface_mtu (c_shared s))" "d = slice bs (unat off) (unat len)"
  from serves_read [OF this, of ax]
  show "\<exists>x s'. send_request (server_net env wrap ip port) (int2f_code INT2F_READ_FILE) drv 8 ax False s =
      (Returns (of_nat (length d), 0, x), s') \<and>
    slice (c_recv_buff s') 50 (length d) = d \<and> serves_file env wrap ip port drv cluster bs (freed s') \<and> same_client s s'"
    by blast
qed (auto simp: serves_file_def linked_local linked_sizes remote_view_def remote_drive_def mounted_def client_drive_def)

interpretation remote_write: file_service "send_request (server_net env wrap ip port)" "writable_file env wrap ip port drv cluster"
  drv cluster for env wrap ip port drv cluster
proof
  fix bs s off len d ax
  assume w: "writable_file env wrap ip port drv cluster bs s" and r: "slice (c_send_buff s) 50 8 = readf_args off cluster len"
    "36 + unat len \<le> unat (interface_mtu (c_shared s))" "d = slice bs (unat off) (unat len)"
  from serves_read [OF _ r, of env wrap ip port drv ax] w
  show "\<exists>x s'. send_request (server_net env wrap ip port) (int2f_code INT2F_READ_FILE) drv 8 ax False s =
      (Returns (of_nat (length d), 0, x), s') \<and>
    slice (c_recv_buff s') 50 (length d) = d \<and> writable_file env wrap ip port drv cluster bs (freed s') \<and> same_client s s'"
    unfolding writable_file_def by force
next
  fix bs s d off ax
  assume w: "writable_file env wrap ip port drv cluster bs s" and d: 
    "slice (c_send_buff s) 50 (6 + length d) = put32 Little off @ put16 Little cluster @ d" "d \<noteq> []"
    "42 + length d \<le> unat (interface_mtu (c_shared s))"
  obtain loc nd where l: "linked env wrap ip port drv s" "open_file (remote_view drv s) cluster loc nd bs"
    "\<not> d_read_only (s_drive (remote_view drv s))" "mounted drv s"
    using w by (auto simp: serves_file_def writable_file_def)
  from write_call [OF l(1-3) d, of ax] mounted_same l(4)
  show "\<exists>x s'. send_request (server_net env wrap ip port) (int2f_code INT2F_WRITE_FILE) drv (of_nat (6 + length d)) ax False s =
      (Returns (2, 0, x), s') \<and>
    slice (c_recv_buff s') 50 2 = put16 Little (of_nat (length d)) \<and>
    writable_file env wrap ip port drv cluster (write_bytes_at bs (unat off) d) (freed s') \<and> same_client s s'"
    unfolding writable_file_def serves_file_def by fastforce
qed (auto simp: writable_file_def serves_file_def linked_local linked_sizes remote_view_def remote_drive_def mounted_def client_drive_def)


section \<open>Calls of a program\<close>

text \<open>A call of the redirector for an open file: DOS has put the function into AX and found the file's
  entry, which names the drive.\<close>

definition calls :: "u8 \<Rightarrow> u8 \<Rightarrow> 'w client \<Rightarrow> bool" where
  "calls func drv s \<longleftrightarrow> r_ax (get_regs s) = 0x1100 OR ucast func \<and>
     ucast (dev_info_word (get_sft s)) AND 0x3F = drv"

text \<open>The handler clears AX and the carry flag first.\<close>

definition successful :: "dos \<Rightarrow> dos" where
  "successful dos = dos\<lparr>d_regs := (d_regs dos)\<lparr>r_ax := 0, r_flags := r_flags (d_regs dos) AND NOT I86_FLAG_CF\<rparr>\<rparr>"

definition entered :: "u8 \<Rightarrow> 'w client \<Rightarrow> 'w client" where
  "entered drv s = expire_read_buffer (s\<lparr>c_req_drive := drv, c_dos := successful (c_dos s)\<rparr>)"

lemma redirector_enters:
  assumes "calls func drv s" "mounted drv s" "func = int2f_code f" "f = INT2F_READ_FILE \<or> f = INT2F_WRITE_FILE"
    "run_subfunction req f drv (entered drv s) = (Returns (), s')"
  shows "int2F_redirector req code cs off s = (Returns Iret, freed s')"
proof -
  note c = assms(1) [unfolded calls_def] and m = assms(2) [unfolded mounted_def]
  have ax: "ucast (drop_bit 8 (r_ax (get_regs s))) = (0x11 :: u8)" "ucast (r_ax (get_regs s)) = func"
    using c assms(3,4) by auto
  have func: "func = 8 \<or> func = 9" using assms(3,4) by auto
  have sup: "supported_function code func"
    using func by (auto simp: supported_function_def supported_functions_table_def INT2F_UNUSED_def)
  have fd: "function_drive func (c_dos s) = drv"
    using func c by (auto simp: function_drive_def get_sft_def)
  have "handle_request_for_our_drive req (s\<lparr>c_req_drive := drv\<rparr>) = (Returns (), freed s')"
    using assms(3,5) ax(2) func
    by (simp add: handle_request_for_our_drive_def cm_bind_simps set_success_def entered_def successful_def upd_regs_def get_regs_def
        freed_def cm_defs)
  then show ?thesis
    using c m ax sup fd func unfolding int2F_redirector_def
    by (auto simp: cm_bind_simps cm_return_def Let_def)
qed

lemma entered_link:
  "serves_file env wrap ip port drv cluster bs (entered drv' s) = serves_file env wrap ip port drv cluster bs s"
  "writable_file env wrap ip port drv cluster bs (entered drv' s) = writable_file env wrap ip port drv cluster bs s"
  by (simp_all add: serves_file_def writable_file_def linked_def ready_def Let_def remote_view_def remote_drive_def server_entry_def
      client_drive_def mounted_def entered_def expire_read_buffer_def)

lemma entered_state:
  "coherent drv cluster bs (c_read_buffer s) \<Longrightarrow> coherent drv cluster bs (c_read_buffer (entered drv' s))"
  "c_dos (entered drv' s) = successful (c_dos s)" "get_sft (entered drv' s) = get_sft s"
  "r_cx (get_regs (entered drv' s)) = r_cx (get_regs s)" "client_drive drv (entered drv' s) = client_drive drv s"
  by (simp_all add: entered_def expire_read_buffer_def successful_def coherent_def get_sft_def get_regs_def client_drive_def)

text \<open>What the entry of an open file says.\<close>

definition opened :: "u16 \<Rightarrow> u16 \<Rightarrow> 'w client \<Rightarrow> bool" where
  "opened cluster mode s \<longleftrightarrow> sft_start_cluster (get_sft s) = cluster \<and> open_mode (get_sft s) = mode \<and>
     unat (file_pos (get_sft s)) + 65536 < 2 ^ 32 \<and> unat (r_cx (get_regs s)) \<le> length (d_buffer (c_dos s))"

lemma redirected_read:
  assumes "file_reader req link drv cluster" "link bs (entered drv s)" "mounted drv s" "coherent drv cluster bs (c_read_buffer s)"
    "calls (int2f_code INT2F_READ_FILE) drv s" "opened cluster mode s" "mode AND 1 = 0"
  shows "\<exists>s'. int2F_redirector req code cs off s = (Returns Iret, s') \<and>
    c_dos s' = delivered (slice bs (unat (file_pos (get_sft s))) (unat (r_cx (get_regs s)))) (successful (c_dos s)) \<and>
    link bs s' \<and> coherent drv cluster bs (c_read_buffer s')"
proof -
  let ?s = "entered drv s"
  note o = assms(6) [unfolded opened_def] and m = assms(3) [unfolded mounted_def Let_def]
  have b: "d_buffer (c_dos ?s) = d_buffer (c_dos s)" by (simp add: entered_state successful_def)
  obtain s' where r: "handle_read_file req drv ?s = (Returns (), s')"
    "c_dos s' = delivered (slice bs (unat (file_pos (get_sft s))) (unat (r_cx (get_regs s)))) (successful (c_dos s))"
    "link bs (freed s')" "coherent drv cluster bs (c_read_buffer s')"
    using file_reader.read_handler [OF assms(1,2), of "get_sft s" "r_cx (get_regs s)" "min_server_read_len (client_drive drv s)"]
      assms(4,7) o b m by (auto simp: entered_state)
  then have "run_subfunction req INT2F_READ_FILE drv ?s = (Returns (), s')" by simp
  from redirector_enters [OF assms(5,3) refl _ this] r show ?thesis by (simp add: freed_def)
qed

lemma remote_write:
  assumes "writable_file env wrap ip port drv cluster bs s" "coherent drv cluster bs (c_read_buffer s)"
    "calls (int2f_code INT2F_WRITE_FILE) drv s" "opened cluster mode s" "mode AND 3 \<noteq> 0"
    "0 < r_cx (get_regs s)" "length bs < 2 ^ 32"
    "bs' = write_bytes_at bs (unat (file_pos (get_sft s))) (take (unat (r_cx (get_regs s))) (d_buffer (c_dos s)))"
  shows "\<exists>s'. int2F_redirector (send_request (server_net env wrap ip port)) code cs off s = (Returns Iret, s') \<and>
    c_dos s' = written (r_cx (get_regs s)) (successful (c_dos s)) \<and>
    writable_file env wrap ip port drv cluster bs' s' \<and> coherent drv cluster bs' (c_read_buffer s')"
proof -
  let ?s = "entered drv s"
  note o = assms(4) [unfolded opened_def Let_def]
  have m: "mounted drv s" using assms(1) by (simp add: writable_file_def serves_file_def)
  have b: "d_buffer (c_dos ?s) = d_buffer (c_dos s)" by (simp add: entered_state successful_def)
  obtain s' where r: "handle_write_file (send_request (server_net env wrap ip port)) drv ?s = (Returns (), s')"
    "c_dos s' = written (r_cx (get_regs s)) (successful (c_dos s))"
    "writable_file env wrap ip port drv cluster bs' (freed s')" "coherent drv cluster bs' (c_read_buffer s')"
    using remote_write.write_handler [of env wrap ip port drv cluster bs ?s "get_sft s" "r_cx (get_regs s)" bs']
      assms o b by (auto simp: entered_link entered_state)
  then have "run_subfunction (send_request (server_net env wrap ip port)) INT2F_WRITE_FILE drv ?s = (Returns (), s')" by simp
  from redirector_enters [OF assms(3) m refl _ this] r show ?thesis by (simp add: freed_def)
qed


section \<open>A remote file behaves like a local one\<close>

text \<open>What a program does with an open file: it reads and writes at positions of its choice, and time
  passes between its calls.\<close>

datatype file_op = ReadAt u32 u16 | WriteAt u32 "byte list" | TimePasses u32

fun local_op :: "file_op \<Rightarrow> byte list \<Rightarrow> byte list \<times> byte list" where
  "local_op (ReadAt pos n) bs = (slice bs (unat pos) (unat n), bs)"
| "local_op (WriteAt pos d) bs = ([], write_bytes_at bs (unat pos) d)"
| "local_op (TimePasses t) bs = ([], bs)"

fun local_run :: "file_op list \<Rightarrow> byte list \<Rightarrow> byte list list \<times> byte list" where
  "local_run [] bs = ([], bs)"
| "local_run (a # as) bs =
     (let (r, bs) = local_op a bs; (rs, bs) = local_run as bs in (r # rs, bs))"

text \<open>The same through the redirector: DOS sets the position in the file's entry, the number of bytes in
  CX and the buffer, and calls interrupt 2F.\<close>

definition prepare :: "u8 \<Rightarrow> u32 \<Rightarrow> u16 \<Rightarrow> byte list \<Rightarrow> 'w client \<Rightarrow> 'w client" where
  "prepare func pos n buffer s = s\<lparr>c_dos := (c_dos s)
     \<lparr>d_regs := (d_regs (c_dos s))\<lparr>r_ax := 0x1100 OR ucast func, r_cx := n\<rparr>,
      d_sft := (d_sft (c_dos s))\<lparr>file_pos := pos\<rparr>, d_buffer := buffer\<rparr>\<rparr>"

definition read_bytes :: "'w client \<Rightarrow> byte list" where
  "read_bytes s = take (unat (r_cx (get_regs s))) (d_buffer (c_dos s))"

fun remote_op :: "'w requester \<Rightarrow> u8 list \<Rightarrow> file_op \<Rightarrow> ('w client, byte list) cm" where
  "remote_op req code (ReadAt pos n) =
     cm_bind (cm_modify (prepare (int2f_code INT2F_READ_FILE) pos n (replicate (unat n) 0))) (\<lambda>_.
     cm_bind (int2F_redirector req code 0 0) (\<lambda>_. cm_get read_bytes))"
| "remote_op req code (WriteAt pos d) =
     cm_bind (cm_modify (prepare (int2f_code INT2F_WRITE_FILE) pos (of_nat (length d)) d)) (\<lambda>_.
     cm_bind (int2F_redirector req code 0 0) (\<lambda>_. cm_return []))"
| "remote_op req code (TimePasses t) = cm_bind (cm_modify (\<lambda>s. s\<lparr>c_time := t\<rparr>)) (\<lambda>_. cm_return [])"

fun remote_run :: "'w requester \<Rightarrow> u8 list \<Rightarrow> file_op list \<Rightarrow> ('w client, byte list list) cm" where
  "remote_run req code [] = cm_return []"
| "remote_run req code (a # as) =
     cm_bind (remote_op req code a) (\<lambda>r. cm_bind (remote_run req code as) (\<lambda>rs. cm_return (r # rs)))"

text \<open>Positions away from the end of the 32-bit range, at most 65535 bytes written at once.\<close>

fun op_fits :: "file_op \<Rightarrow> bool" where
  "op_fits (ReadAt pos n) \<longleftrightarrow> unat pos + 65536 < 2 ^ 32"
| "op_fits (WriteAt pos d) \<longleftrightarrow> unat pos + 65536 < 2 ^ 32 \<and> d \<noteq> [] \<and> length d < 65536"
| "op_fits (TimePasses t) \<longleftrightarrow> True"

text \<open>The file is open for reading and writing on a mounted drive, the server has it, and the client's
  read buffer agrees with it.\<close>

definition remote_file :: "env \<Rightarrow> (byte list \<Rightarrow> byte list) \<Rightarrow> u32 \<Rightarrow> u16 \<Rightarrow> u8 \<Rightarrow> u16 \<Rightarrow> byte list \<Rightarrow> server client \<Rightarrow> bool" where
  "remote_file env wrap ip port drv cluster bs s \<longleftrightarrow>
     writable_file env wrap ip port drv cluster bs s \<and> coherent drv cluster bs (c_read_buffer s) \<and> length bs < 2 ^ 32 \<and>
     sft_start_cluster (get_sft s) = cluster \<and> open_mode (get_sft s) = 2 \<and>
     ucast (dev_info_word (get_sft s)) AND 0x3F = drv"

lemma prepare_state:
  "writable_file env wrap ip port drv cluster bs (prepare func pos n b s) = writable_file env wrap ip port drv cluster bs s"
  "c_read_buffer (prepare func pos n b s) = c_read_buffer s" "get_sft (prepare func pos n b s) = (get_sft s)\<lparr>file_pos := pos\<rparr>"
  "r_cx (get_regs (prepare func pos n b s)) = n" "r_ax (get_regs (prepare func pos n b s)) = 0x1100 OR ucast func"
  "d_buffer (c_dos (prepare func pos n b s)) = b"
  by (simp_all add: prepare_def serves_file_def writable_file_def linked_def ready_def Let_def remote_view_def remote_drive_def
      server_entry_def client_drive_def mounted_def get_sft_def get_regs_def)

lemma delivered_read_bytes:
  assumes "c_dos s = delivered d dos" "length d < 65536"
  shows "read_bytes s = d"
  using assms by (simp add: read_bytes_def delivered_def get_regs_def overwrite_def unat_of_nat take_bit_nat_eq_self)

lemma remote_op_simulates:
  assumes "remote_file env wrap ip port drv cluster bs s" "op_fits a" "local_op a bs = (r, bs')" "length bs' < 2 ^ 32"
  shows "\<exists>s'. remote_op (send_request (server_net env wrap ip port)) code a s = (Returns r, s') \<and>
    remote_file env wrap ip port drv cluster bs' s'"
proof -
  note rf = assms(1) [unfolded remote_file_def]
  let ?req = "send_request (server_net env wrap ip port)"
  have m: "mounted drv (prepare f p k b s)" for f p k b
    using rf prepare_state(1) [of env wrap ip port drv cluster bs f p k b s] by (simp add: writable_file_def serves_file_def)
  show ?thesis
  proof (cases a)
    case (ReadAt pos n)
    let ?s = "prepare (int2f_code INT2F_READ_FILE) pos n (replicate (unat n) 0) s"
    obtain s' where s': "int2F_redirector ?req code 0 0 ?s = (Returns Iret, s')"
      "c_dos s' = delivered (slice bs (unat pos) (unat n)) (successful (c_dos ?s))"
      "writable_file env wrap ip port drv cluster bs s'" "coherent drv cluster bs (c_read_buffer s')"
      using redirected_read [OF remote_write.file_reader_axioms, of env wrap ip port drv cluster bs ?s 2 code 0 0] rf assms(2) ReadAt m
      by (auto simp: prepare_state entered_link calls_def opened_def)
    have "read_bytes s' = slice bs (unat pos) (unat n)"
      using unat_lt2p [of n] by (intro delivered_read_bytes [OF s'(2)]) simp
    then have "remote_op ?req code a s = (Returns r, s')" using s'(1) assms(3) ReadAt by (auto simp: cm_bind_simps cm_get_def)
    moreover have "sft_start_cluster (get_sft s') = sft_start_cluster (get_sft s)" "open_mode (get_sft s') = open_mode (get_sft s)"
      "dev_info_word (get_sft s') = dev_info_word (get_sft s)"
      using s'(2) by (simp_all add: get_sft_def delivered_def successful_def prepare_def)
    ultimately show ?thesis using rf s'(3,4) assms(3) ReadAt unfolding remote_file_def by (intro exI [of _ s']) simp
  next
    case (WriteAt pos d)
    let ?s = "prepare (int2f_code INT2F_WRITE_FILE) pos (of_nat (length d)) d s"
    have d: "unat (of_nat (length d) :: u16) = length d" "0 < (of_nat (length d) :: u16)" "bs' = write_bytes_at bs (unat pos) d" "r = []"
      using assms(2,3) WriteAt by (auto simp: unat_of_nat take_bit_nat_eq_self word_less_nat_alt)
    obtain s' where s': "int2F_redirector ?req code 0 0 ?s = (Returns Iret, s')"
      "c_dos s' = written (of_nat (length d)) (successful (c_dos ?s))"
      "writable_file env wrap ip port drv cluster bs' s'" "coherent drv cluster bs' (c_read_buffer s')"
      using remote_write [of env wrap ip port drv cluster bs ?s 2 bs' code 0 0] rf assms(2) WriteAt d
      by (auto simp: prepare_state calls_def opened_def)
    have "remote_op ?req code a s = (Returns r, s')" using s'(1) WriteAt d(4) by (simp add: cm_bind_simps cm_return_def)
    moreover have "sft_start_cluster (get_sft s') = sft_start_cluster (get_sft s)" "open_mode (get_sft s') = open_mode (get_sft s)"
      "dev_info_word (get_sft s') = dev_info_word (get_sft s)"
      using s'(2) by (simp_all add: get_sft_def written_def written_to_sft_def Let_def successful_def prepare_def)
    ultimately show ?thesis using rf s'(3,4) assms(4) unfolding remote_file_def by (intro exI [of _ s']) simp
  next
    case (TimePasses t)
    then show ?thesis using assms(1,3)
      by (auto simp: cm_bind_simps cm_return_def remote_file_def serves_file_def writable_file_def linked_def ready_def Let_def
          remote_view_def remote_drive_def server_entry_def client_drive_def mounted_def get_sft_def)
  qed
qed

lemma local_op_grows: "local_op a bs = (r, bs') \<Longrightarrow> length bs \<le> length bs'"
  by (cases a) (auto simp: length_write_bytes_at)

lemma local_run_grows: "local_run as bs = (rs, bs') \<Longrightarrow> length bs \<le> length bs'"
proof (induction as arbitrary: bs rs)
  case (Cons a as)
  then show ?case by (auto simp: Let_def split: prod.splits) (meson local_op_grows order_trans)
qed simp

text \<open>C1: A file on a mounted drive behaves like a local file. Whatever a program reads and writes, in whatever
  order, at whatever positions and with whatever delays: through the redirector, the read buffer, the
  frames of both sizes, the network and the server it gets the same bytes, and leaves the same contents
  on the host, as the same operations on a local file.\<close>

theorem remote_file_refines_local:
  assumes "remote_file env wrap ip port drv cluster bs s" "list_all op_fits as" "local_run as bs = (rs, bs')" "length bs' < 2 ^ 32"
  shows "\<exists>s'. remote_run (send_request (server_net env wrap ip port)) code as s = (Returns rs, s') \<and>
    remote_file env wrap ip port drv cluster bs' s'"
  using assms
proof (induction as arbitrary: bs s rs)
  case (Cons a as)
  obtain r bs1 where r: "local_op a bs = (r, bs1)" by fastforce
  obtain rs1 where rs: "local_run as bs1 = (rs1, bs')" "rs = r # rs1" using Cons.prems(3) r by (auto split: prod.splits)
  have "length bs1 < 2 ^ 32" using local_run_grows [OF rs(1)] Cons.prems(4) by simp
  then obtain s1 where s1: "remote_op (send_request (server_net env wrap ip port)) code a s = (Returns r, s1)"
    "remote_file env wrap ip port drv cluster bs1 s1"
    using remote_op_simulates [OF Cons.prems(1) _ r, of code] Cons.prems(2) by auto
  from Cons.IH [OF s1(2) _ rs(1) Cons.prems(4)] Cons.prems(2) show ?case
    using s1(1) rs(2) by (auto simp: cm_defs)
qed (auto simp: cm_return_def)

text \<open>The small client and the small server with the file \<^verbatim>\<open>a.txt\<close> open under the handle 0.\<close>

definition sample_link :: "server client" where
  "sample_link = sample_client (sample_server (s_drive sample_open))"

definition sample_wrap :: "byte list \<Rightarrow> byte list" where
  "sample_wrap = sample_frame (sample_shared\<lparr>last_remote_ip := 0x0100000A, last_remote_udp_port := 12200\<rparr>)"

lemma sample_view: "remote_view 3 sample_link = sample_open"
  by (simp add: remote_view_def remote_drive_def sample_link_def sample_client_def sample_shared_def drive_view_def sample_server_def
      sample_open_def sample_dstate_def)

lemma sample_open_file:
  "open_file sample_open 0 [bytes_of ''s'', bytes_of ''a.txt''] (sample_node (File (bytes_of ''hello''))) (bytes_of ''hello'')"
  by code_simp

lemma sample_linked: "linked sample_env sample_wrap 1 2 3 sample_link"
proof -
  let ?srv = "sample_server (s_drive sample_open)"
  have "wf_names (drive_view ?srv k)" if "k < length (sv_drives ?srv)" for k
    using that by (cases "k = 2") (simp_all add: sample_server_def sample_open_def drive_view_def wf_names_def
        wf_label_and_lists_def sample_drive_def default_drive_def empty_item_def wf_fcb_def)
  moreover have "ready 3 128 sample_link" unfolding sample_link_def by (rule sample_ready) simp
  moreover have "carries (sample_shared\<lparr>last_remote_ip := 0x0100000A, last_remote_udp_port := 12200\<rparr>) reply (sample_wrap reply)"
    if "length reply \<le> 1472" for reply
    unfolding sample_wrap_def using that by (intro sample_frame_carries) simp
  moreover have "d_used (s_drive sample_open)" by code_simp
  moreover have "wf_cache empty_cache" by (rule wf_empty_cache)
  moreover have "last_exchange 1 2 empty_cache = None"
    by (simp add: last_exchange_def find_None_iff empty_cache_def empty_reply_info_def owned_by_def)
  ultimately show ?thesis
    by (simp add: linked_def sample_link_def sample_client_def remote_drive_def sample_server_def sample_env_def server_entry_def
        client_drive_def) (simp add: sample_shared_def sample_drive_info_def)
qed

lemma sample_remote_file: "remote_file sample_env sample_wrap 1 2 3 0 (bytes_of ''hello'') sample_link"
proof -
  have "mounted 3 sample_link"
  proof -
    have "block_sized 64" unfolding block_sized_def by (intro exI [of _ 6]) simp
    then show ?thesis
      by (simp add: mounted_def sample_link_def sample_client_def client_drive_def sample_shared_def sample_drive_info_def CLIENT_DRIVES_COUNT_def)
  qed
  moreover have "\<not> d_read_only (s_drive sample_open)" by code_simp
  moreover have "coherent 3 0 bs (c_read_buffer sample_link)" for bs
    by (simp add: coherent_def sample_link_def sample_client_def)
  moreover have "length (bytes_of ''hello'') = 5" by code_simp
  moreover have "sft_start_cluster (get_sft sample_link) = 0" "open_mode (get_sft sample_link) = 2"
    "ucast (dev_info_word (get_sft sample_link)) AND 0x3F = (3 :: u8)"
    by (simp_all add: get_sft_def sample_link_def sample_client_def sample_dos_def Let_def)
  ultimately show ?thesis
    using sample_linked sample_open_file
    by (auto simp: remote_file_def writable_file_def serves_file_def sample_view)
qed

theorem remote_file_refines_local_witness:
  "\<exists>s'. remote_run (send_request (server_net sample_env sample_wrap 1 2)) []
      [ReadAt 0 3, WriteAt 2 (bytes_of ''new''), ReadAt 0 8, TimePasses 5000, ReadAt 3 2] sample_link =
    (Returns [bytes_of ''hel'', [], bytes_of ''henew'', [], bytes_of ''ew''], s')"
proof -
  let ?ops = "[ReadAt 0 3, WriteAt 2 (bytes_of ''new''), ReadAt 0 8, TimePasses 5000, ReadAt 3 2]"
  have "length (bytes_of ''new'') = 3" by code_simp
  then have "list_all op_fits ?ops" by auto
  moreover have "local_run ?ops (bytes_of ''hello'') =
      ([bytes_of ''hel'', [], bytes_of ''henew'', [], bytes_of ''ew''], bytes_of ''henew'')" by code_simp
  moreover have "length (bytes_of ''henew'') = 5" by code_simp
  ultimately show ?thesis using remote_file_refines_local [OF sample_remote_file, of ?ops] by fastforce
qed

text \<open>C5: A request of the client is a call of the server's function: over a network that delivers the
  frames, \<open>send_request\<close> returns the code and the data that the server computes from the client's
  arguments on the state of the drive, the drive is left in the state that the function leaves, and
  client and server are ready for the next call.\<close>

theorem request_is_remote_call:
  assumes "linked env wrap ip port drv s" "36 + unat n \<le> unat (interface_mtu (c_shared s))" "int2f_of func = Some f"
    "handle_function env ext f (slice (c_send_buff s) 50 (unat n)) (remote_view drv s) = (Inr (Some (code, data)), t)"
    "length data \<le> 1464"
  shows "\<exists>x s'. send_request (server_net env wrap ip port) func drv n ax ext s = (Returns (of_nat (length data), code, x), s') \<and>
    slice (c_recv_buff s') 50 (length data) = data \<and> linked env wrap ip port drv (s'\<lparr>c_recv_data_len := 0\<rparr>) \<and>
    remote_view drv s' = t \<and> same_client s s'"
  by (rule remote_call [OF assms])

theorem request_is_remote_call_witness:
  "\<exists>x s'. send_request (server_net sample_env sample_wrap 1 2) 0xFE 3 2 0 False sample_link = (Returns (0, 0, x), s') \<and>
     remote_view 3 s' = sample_open"
proof -
  have "length (slice (c_send_buff sample_link) 50 (unat (2 :: u16))) = 2"
    by (simp add: sample_link_def sample_client_def MAX_FRAMESIZE_def)
  then have "handle_function sample_env False INT2F_NETMOUNT_FEATURE_QUERY (slice (c_send_buff sample_link) 50 (unat (2 :: u16)))
      (remote_view 3 sample_link) = (Inr (Some (0, [])), sample_open)"
    by (simp add: req_feature_query_def done_ok_def sx_defs sample_view DOS_EXTERR_NO_ERROR_def)
  moreover have "int2f_of 0xFE = Some INT2F_NETMOUNT_FEATURE_QUERY" by code_simp
  moreover have "36 + unat (2 :: u16) \<le> unat (interface_mtu (c_shared sample_link))"
    by (simp add: sample_link_def sample_client_def sample_shared_def)
  ultimately show ?thesis using request_is_remote_call [OF sample_linked, of 2 "0xFE" _ False 0 "[]" sample_open 0] by auto
qed

end
