(* ===== verification/ClientSetup.thy ===== *)
theory ClientSetup
  imports ClientNet
begin

text \<open>
  The transient part of the DOS client (\<^verbatim>\<open>netmount/netmount.c\<close>): parsing of numbers and addresses, the
  table of server addresses, and the commands INSTALL, MOUNT, UMOUNT and UNINSTALL of \<^verbatim>\<open>main\<close>. Messages
  are left out. Interrupts that belong to DOS, to the packet driver or to other resident programs are
  arguments or fields of the state.
\<close>

section \<open>Exit codes\<close>

definition EXIT_OK :: int where "EXIT_OK = 0"
definition EXIT_MISSING_ARG :: int where "EXIT_MISSING_ARG = 2"
definition EXIT_UNKNOWN_CMD :: int where "EXIT_UNKNOWN_CMD = 3"
definition EXIT_UNKNOWN_ARG :: int where "EXIT_UNKNOWN_ARG = 4"
definition EXIT_BAD_DRIVE_LETTER :: int where "EXIT_BAD_DRIVE_LETTER = 5"
definition EXIT_BAD_NET_MASK :: int where "EXIT_BAD_NET_MASK = 6"
definition EXIT_BAD_ARG :: int where "EXIT_BAD_ARG = 7"
definition EXIT_UNSUPPORTED_DOS :: int where "EXIT_UNSUPPORTED_DOS = - 1"
definition EXIT_ALREADY_INSTALLED :: int where "EXIT_ALREADY_INSTALLED = - 2"
definition EXIT_NOT_FREE_MULTIPLEX :: int where "EXIT_NOT_FREE_MULTIPLEX = - 3"
definition EXIT_PKTDRV_INIT_FAILED :: int where "EXIT_PKTDRV_INIT_FAILED = - 4"
definition EXIT_NOT_INSTALLED :: int where "EXIT_NOT_INSTALLED = - 5"
definition EXIT_DRIVE_LETTER_ALREADY_USED :: int where "EXIT_DRIVE_LETTER_ALREADY_USED = - 6"
definition EXIT_NOT_FREE_SLOT_FOR_REMOTE_IP :: int where "EXIT_NOT_FREE_SLOT_FOR_REMOTE_IP = - 7"
definition EXIT_DRIVE_NOT_MOUNTED :: int where "EXIT_DRIVE_NOT_MOUNTED = - 8"
definition EXIT_DRIVE_MOUNTED :: int where "EXIT_DRIVE_MOUNTED = - 9"
definition EXIT_NOT_LAST_IN_INT2F_CHAIN :: int where "EXIT_NOT_LAST_IN_INT2F_CHAIN = - 10"
definition EXIT_INCOMPATIBLE_VERSION :: int where "EXIT_INCOMPATIBLE_VERSION = - 11"


section \<open>Numbers and addresses\<close>

definition digit_of :: "byte \<Rightarrow> u8 option" where
  "digit_of c =
     (if c \<ge> ch_0 \<and> c \<le> ch_9 then Some (c - ch_0)
      else if c \<ge> ch_A \<and> c \<le> 0x46 then Some (c - ch_A + 10)
      else if c \<ge> ch_a \<and> c \<le> 0x66 then Some (c - ch_a + 10)
      else None)"

fun strto_loop :: "u16 \<Rightarrow> u16 \<Rightarrow> byte list \<Rightarrow> u16 \<times> byte list" where
  "strto_loop base number [] = (number, [])"
| "strto_loop base number (c # str) =
     (case digit_of c of
        Some dig \<Rightarrow>
          if ucast dig \<ge> base then (number, c # str)
          else strto_loop base (number * base + ucast dig) str
      | None \<Rightarrow> (number, c # str))"

definition strto_ui16 :: "byte list \<Rightarrow> u16 \<times> byte list" where
  "strto_ui16 str =
     (case str of
        a # b # r \<Rightarrow> if a = ch_0 \<and> (b = 0x78 \<or> b = 0x58) then strto_loop 16 0 r else strto_loop 10 0 str
      | _ \<Rightarrow> strto_loop 10 0 str)"

text \<open>The bytes read so far; the first error ends the loop.\<close>

fun parse_ipv4_loop :: "nat \<Rightarrow> byte list \<Rightarrow> byte list \<Rightarrow> (byte list \<times> byte list) option" where
  "parse_ipv4_loop 0 bs str =
     (case strto_ui16 str of (n, endp) \<Rightarrow> if endp = str then None else Some (bs @ [ucast n], endp))"
| "parse_ipv4_loop (Suc k) bs str =
     (case strto_ui16 str of (n, endp) \<Rightarrow>
        if endp = str \<or> take 1 endp \<noteq> [ch_dot] then None
        else parse_ipv4_loop k (bs @ [ucast n]) (tl endp))"

definition parse_ipv4_addr :: "byte list \<Rightarrow> (u32 \<times> byte list) option" where
  "parse_ipv4_addr str = map_option (\<lambda>(bs, r). (load32 Little bs, r)) (parse_ipv4_loop 3 [] str)"

text \<open>The digits are written from the end of the buffer, the rest is filled.\<close>

fun to_str_loop :: "nat \<Rightarrow> u16 \<Rightarrow> u8 \<Rightarrow> byte list \<Rightarrow> byte \<Rightarrow> byte list" where
  "to_str_loop 0 num base acc fill = acc"
| "to_str_loop (Suc i) num base acc fill =
     (if num > 0 then
        let tmp = num div ucast base; remain = num - tmp * ucast base;
            d = (if remain \<le> 9 then ucast remain + ch_0 else ucast remain - 10 + ch_A)
        in to_str_loop i tmp base (d # acc) fill
      else replicate (Suc i) fill @ acc)"

definition uint16_to_str :: "u16 \<Rightarrow> nat \<Rightarrow> u8 \<Rightarrow> byte \<Rightarrow> byte list" where
  "uint16_to_str num buf_size base fill = to_str_loop (buf_size - 1) num base [] fill"


section \<open>The table of addresses\<close>

text \<open>The first loop: the slot of the address, or the last free slot before it.\<close>

fun slot_search :: "u32 \<Rightarrow> u8 \<Rightarrow> u8 \<Rightarrow> ip_mac_map list \<Rightarrow> u8 \<times> u8" where
  "slot_search ip i free_ip_idx [] = (0xFF, free_ip_idx)"
| "slot_search ip i free_ip_idx (m # ms) =
     (if im_ip m = ip then (i, free_ip_idx)
      else slot_search ip (i + 1) (if im_ip m = 0xFFFFFFFF then i else free_ip_idx) ms)"

text \<open>The second loop: a slot that neither the gateway nor a drive uses.\<close>

definition reusable_slot :: "shared_data \<Rightarrow> nat \<Rightarrow> bool" where
  "reusable_slot sh i \<longleftrightarrow>
     i \<noteq> unat (gateway_ip_slot sh) \<and> \<not> list_ex (\<lambda>d. unat (remote_ip_idx d) = i) (take CLIENT_DRIVES_COUNT (drives sh))"

definition assign_remote_ip_addr_slot :: "u32 \<Rightarrow> shared_data \<Rightarrow> u8 \<times> shared_data" where
  "assign_remote_ip_addr_slot ip sh =
     (let (ip_idx, free_ip_idx) = slot_search ip 0 0xFF (ip_mac_maps sh);
          (ip_idx, free_ip_idx) =
            (if ip_idx = 0xFF then
               if free_ip_idx \<noteq> 0xFF then (free_ip_idx, free_ip_idx)
               else (case find (reusable_slot sh) [0..<length (ip_mac_maps sh)] of
                   Some i \<Rightarrow> (of_nat i, of_nat i)
                 | None \<Rightarrow> (ip_idx, free_ip_idx))
             else (ip_idx, free_ip_idx))
      in if ip_idx \<noteq> 0xFF \<and> ip_idx = free_ip_idx then
           (ip_idx, sh\<lparr>ip_mac_maps := (ip_mac_maps sh)[unat free_ip_idx :=
              \<lparr>im_ip = ip, im_mac_addr = replicate 6 0xFF\<rparr>]\<rparr>)
         else (ip_idx, sh))"


section \<open>Detection of the resident client\<close>

text \<open>INT 2F with subfunction 0 for a multiplex number: the registers AL, BX, CX and DX it returns.
  The result is whether the client was found and its number, else the last free number or zero.\<close>

type_synonym mux = "u8 \<Rightarrow> u8 \<times> u16 \<times> u16 \<times> u16"

fun scan_mux :: "mux \<Rightarrow> u8 \<Rightarrow> u8 list \<Rightarrow> bool \<times> u8" where
  "scan_mux mux free_id [] = (False, free_id)"
| "scan_mux mux free_id (ah # ids) =
     (case mux ah of (al, bx, cx, dx) \<Rightarrow>
        if al = 0 then scan_mux mux ah ids
        else if al = 0xFF \<and> bx = 0x4A41 \<and> cx = 0x524F \<and> dx = 0x4E4D then (True, ah)
        else scan_mux mux free_id ids)"

definition get_install_info :: "mux \<Rightarrow> bool \<times> u8" where
  "get_install_info mux = scan_mux mux 0 (map of_nat [0xC0..<0x100])"


section \<open>The packet driver\<close>

text \<open>The calls of the packet driver at an interrupt: the bytes behind its jump, the registration of
  an ethernet type with a handle or an error code, the address it reports with the number of its
  bytes or a negated error code.\<close>

record pktdrv =
  pd_signature :: "u8 \<Rightarrow> byte list"
  pd_vector :: "u8 \<Rightarrow> u32"
  pd_register_type :: "u8 \<Rightarrow> u16 \<Rightarrow> u8 + u16"
  pd_getaddr :: "u8 \<Rightarrow> u16 \<Rightarrow> int \<times> mac_addr"

definition PKTDRV_SIGNATURE :: "byte list" where "PKTDRV_SIGNATURE = bytes_of ''PKT DRVR'' @ [0]"
definition PKTDRV_ERROR_BAD_ADDRESS :: u8 where "PKTDRV_ERROR_BAD_ADDRESS = 14"

text \<open>The error code, zero for success, and the handles that are still registered with the shared
  data afterwards.\<close>

definition pktdrv_init :: "pktdrv \<Rightarrow> u8 \<Rightarrow> shared_data \<times> u32 \<Rightarrow> u8 \<times> shared_data \<times> u32" where
  "pktdrv_init pd num st =
     (case st of (sh, handler) \<Rightarrow>
      if take 9 (pd_signature pd num) \<noteq> PKTDRV_SIGNATURE then (0xFF, sh, handler)
      else
        let handler = pd_vector pd num in
        case pd_register_type pd num (swap_word ETHER_TYPE_ARP) of
          Inl e \<Rightarrow> (e, sh, handler)
        | Inr arp_handle \<Rightarrow>
            let sh = sh\<lparr>arp_pkthandle := arp_handle\<rparr> in
            (case pd_register_type pd num (swap_word ETHER_TYPE_IPV4) of
               Inl e \<Rightarrow> (e, sh, handler)
             | Inr ipv4_handle \<Rightarrow>
                 let sh = sh\<lparr>ipv4_pkthandle := ipv4_handle\<rparr>;
                     (ret, addr) = pd_getaddr pd num ipv4_handle;
                     sh = sh\<lparr>local_mac_addr := addr\<rparr>
                 in if ret = 6 then
                      if \<not> list_all (\<lambda>b. b = 0) addr \<and> \<not> list_all (\<lambda>b. b = 0xFF) addr
                      then (0, sh\<lparr>used_pktdrv_int := num\<rparr>, handler)
                      else (PKTDRV_ERROR_BAD_ADDRESS, sh, handler)
                    else if ret \<ge> 0 then (PKTDRV_ERROR_BAD_ADDRESS, sh, handler)
                    else (of_int (- ret), sh, handler)))"

fun pktdrv_detect :: "pktdrv \<Rightarrow> u8 list \<Rightarrow> shared_data \<times> u32 \<Rightarrow> shared_data \<times> u32" where
  "pktdrv_detect pd [] st = st"
| "pktdrv_detect pd (i # is) st =
     (case pktdrv_init pd i st of (e, st) \<Rightarrow> if e = 0 then st else pktdrv_detect pd is st)"


section \<open>INSTALL\<close>

definition option_value :: "string \<Rightarrow> byte list \<Rightarrow> byte list option" where
  "option_value name arg =
     (if strn_upper_cmp (tl arg) (bytes_of name) (length name) = 0 then Some (drop (1 + length name) arg) else None)"

text \<open>One argument; the flag says whether the local address is set.\<close>

definition install_arg :: "byte list \<Rightarrow> shared_data \<times> bool \<Rightarrow> int + shared_data \<times> bool" where
  "install_arg arg st =
     (case st of (sh, local_ip_set) \<Rightarrow>
      let address = \<lambda>v. (case parse_ipv4_addr v of Some (ip, []) \<Rightarrow> Some ip | _ \<Rightarrow> None) in
      if take 1 arg \<noteq> [ch_slash] then Inl EXIT_UNKNOWN_ARG
      else case option_value ''IP:'' arg of
        Some v \<Rightarrow> (case address v of Some ip \<Rightarrow> Inr (sh\<lparr>local_ipv4 := ip\<rparr>, True) | None \<Rightarrow> Inl EXIT_BAD_ARG)
      | None \<Rightarrow> (case option_value ''MASK:'' arg of
        Some v \<Rightarrow> (case address v of Some m \<Rightarrow> Inr (sh\<lparr>net_mask := m\<rparr>, local_ip_set) | None \<Rightarrow> Inl EXIT_BAD_ARG)
      | None \<Rightarrow> (case option_value ''GW:'' arg of
        Some v \<Rightarrow> (case address v of
            Some gw \<Rightarrow> (case assign_remote_ip_addr_slot gw sh of
                (slot, sh) \<Rightarrow> Inr (sh\<lparr>gateway_ip_slot := slot\<rparr>, local_ip_set))
          | None \<Rightarrow> Inl EXIT_BAD_ARG)
      | None \<Rightarrow> (case option_value ''PORT:'' arg of
        Some v \<Rightarrow> (let port = fst (strto_ui16 v) in
          if port = 0 then Inl EXIT_BAD_ARG else Inr (sh\<lparr>local_port := port\<rparr>, local_ip_set))
      | None \<Rightarrow> (case option_value ''PKT_INT:'' arg of
        Some v \<Rightarrow> (let n = ucast (fst (strto_ui16 v)) in
          if n < 0x60 \<or> n > 0x80 then Inl EXIT_BAD_ARG else Inr (sh\<lparr>requested_pktdrv_int := n\<rparr>, local_ip_set))
      | None \<Rightarrow> (case option_value ''MTU:'' arg of
        Some v \<Rightarrow> (let mtu = fst (strto_ui16 v) in
          if mtu > 1500 \<or> mtu < 560 then Inl EXIT_BAD_ARG else Inr (sh\<lparr>interface_mtu := mtu\<rparr>, local_ip_set))
      | None \<Rightarrow>
          if strn_upper_cmp (tl arg) (bytes_of ''NO_ARP_REQUESTS'') 16 = 0
          then Inr (sh\<lparr>disable_sending_arp_request := 1\<rparr>, local_ip_set)
          else Inl EXIT_UNKNOWN_ARG))))))"

fun install_args :: "byte list list \<Rightarrow> shared_data \<times> bool \<Rightarrow> int + shared_data \<times> bool" where
  "install_args [] st = Inr st"
| "install_args (a # as) st = (case install_arg a st of Inl e \<Rightarrow> Inl e | Inr st \<Rightarrow> install_args as st)"

text \<open>The bits of the mask from the last one on: behind a one only ones follow.\<close>

fun mask_bits_ok :: "bool \<Rightarrow> bool list \<Rightarrow> bool" where
  "mask_bits_ok prev_bit [] = True"
| "mask_bits_ok prev_bit (b # bs) = (\<not> (prev_bit \<and> \<not> b) \<and> mask_bits_ok b bs)"

definition net_mask_ok :: "u32 \<Rightarrow> bool" where
  "net_mask_ok m =
     mask_bits_ok False (concat (map (\<lambda>byt. map (bit byt) [0..<8]) (rev (put32 Little m))))"

definition arp_request_frame :: "shared_data \<Rightarrow> byte list" where
  "arp_request_frame sh =
     replicate 6 0xFF @ local_mac_addr sh @ put16 Little (swap_word ETHER_TYPE_ARP)
     @ put16 Little (swap_word HW_TYPE_ETHERNET) @ put16 Little (swap_word ETHER_TYPE_IPV4) @ [6, 4]
     @ put16 Little (swap_word ARP_OPERATION_REQUEST)
     @ local_mac_addr sh @ put32 Little (local_ipv4 sh) @ replicate 6 0"

definition install_defaults :: "shared_data \<Rightarrow> shared_data" where
  "install_defaults sh = sh
     \<lparr>ip_mac_maps := map (\<lambda>m. m\<lparr>im_ip := 0xFFFFFFFF\<rparr>) (ip_mac_maps sh), gateway_ip_slot := 0xFF,
      local_port := DRIVE_PROTO_UDP_PORT, net_mask := 0, requested_pktdrv_int := 0, interface_mtu := 1500,
      disable_sending_arp_request := 0\<rparr>"

text \<open>What \<^verbatim>\<open>main\<close> does for INSTALL before it stays resident: the exit code or the resident state. The
  version check, the interrupt vectors and the release of memory are not part of the state. The
  multiplex number comes from \<open>get_install_info\<close>.\<close>

definition install_frames :: "'w client \<Rightarrow> 'w client" where
  "install_frames s =
     (let sh = c_shared s in
      s\<lparr>c_send_buff := overwrite (c_send_buff s) 6 (local_mac_addr sh @ put16 Little (swap_word ETHER_TYPE_IPV4)),
        c_arp_buff := overwrite (c_arp_buff s) 0 (arp_request_frame sh),
        c_shared := sh\<lparr>drive_map := map (\<lambda>_. 0xFF) (drive_map sh)\<rparr>\<rparr>)"

definition install :: "mux \<Rightarrow> pktdrv \<Rightarrow> u16 \<Rightarrow> u32 \<Rightarrow> u16 \<Rightarrow> byte list list \<Rightarrow> 'w client \<Rightarrow> int + 'w client" where
  "install mux pd psp int2f_handler redirector_offset args s =
     (case get_install_info mux of (installed, multiplex_id) \<Rightarrow>
      if installed then Inl EXIT_ALREADY_INSTALLED
      else if multiplex_id = 0 then Inl EXIT_NOT_FREE_MULTIPLEX
      else if args = [] then Inl EXIT_MISSING_ARG
      else case install_args args (install_defaults (c_shared s), False) of
        Inl e \<Rightarrow> Inl e
      | Inr (sh, local_ip_set) \<Rightarrow>
          if \<not> local_ip_set then Inl EXIT_MISSING_ARG
          else if \<not> net_mask_ok (net_mask sh) then Inl EXIT_BAD_NET_MASK
          else
            let sh = sh\<lparr>used_pktdrv_int := 0\<rparr>;
                (sh, handler) =
                  (if requested_pktdrv_int sh = 0 then pktdrv_detect pd (map of_nat [0x60..<0x81]) (sh, 0)
                   else snd (pktdrv_init pd (requested_pktdrv_int sh) (sh, 0)))
            in if used_pktdrv_int sh = 0 then Inl EXIT_PKTDRV_INIT_FAILED
               else
                 let s = install_frames (s\<lparr>c_shared := sh, c_my_2Fmux_id := multiplex_id\<rparr>);
                     sh = (c_shared s)\<lparr>abi_version := 2, min_compatible_abi_version := 1,
                       netmount_version := overwrite (netmount_version (c_shared s)) 0 (bytes_of ''1.8.1''),
                       psp_segment := psp, orig_INT2F_handler := int2f_handler,
                       int2F_redirector_offset := redirector_offset, pktdrv_INT_handler := handler\<rparr>
                 in Inr (s\<lparr>c_shared := sh, c_recv_data_len := 0\<rparr>))"


section \<open>MOUNT\<close>

record mount_opts =
  mo_drive :: "(u32 \<times> u16 \<times> u8 \<times> u8) option"
  mo_remote_port :: u16
  mo_min_rcv_tmo_sec :: u16
  mo_max_rcv_tmo_sec :: u16
  mo_max_request_retries :: u8
  mo_enabled_checksums :: u8
  mo_min_server_read_len :: u8

definition default_mount_opts :: mount_opts where
  "default_mount_opts = \<lparr>mo_drive = None, mo_remote_port = DRIVE_PROTO_UDP_PORT, mo_min_rcv_tmo_sec = 1,
     mo_max_rcv_tmo_sec = 5, mo_max_request_retries = 4, mo_enabled_checksums = 3, mo_min_server_read_len = 64\<rparr>"

definition name_item :: "string \<Rightarrow> byte list \<Rightarrow> bool" where
  "name_item name p \<longleftrightarrow>
     strn_upper_cmp p (bytes_of name) (length name) = 0 \<and>
     (drop (length name) p = [] \<or> hd (drop (length name) p) = ch_comma)"

function parse_checksums :: "u8 \<Rightarrow> byte list \<Rightarrow> u8 option" where
  "parse_checksums sums p =
     (if p = [] then Some sums
      else if name_item ''IP_HEADER'' p then parse_checksums (sums OR CHECKSUM_IP_HEADER) (drop 10 p)
      else if name_item ''NETMOUNT'' p then parse_checksums (sums OR CHECKSUM_NETMOUNT_PROTO) (drop 9 p)
      else None)"
  by pat_completeness auto
termination
  by (relation "measure (length \<circ> snd)") auto

declare parse_checksums.simps [simp del]

text \<open>The remote drive \<^verbatim>\<open><ipv4_addr>[:port]/<remote_drive>\<close> and the local drive.\<close>

definition mount_drive :: "byte list \<Rightarrow> byte list list \<Rightarrow> mount_opts \<Rightarrow> int + mount_opts \<times> byte list list" where
  "mount_drive arg as opts =
     (case parse_ipv4_addr arg of
        None \<Rightarrow> Inl EXIT_BAD_ARG
      | Some (remote_ip, endp) \<Rightarrow>
          let (port, endp) = (case endp of
                c # r \<Rightarrow> if c = ch_colon then strto_ui16 r else (mo_remote_port opts, endp)
              | [] \<Rightarrow> (mo_remote_port opts, endp))
          in if port = 0 then Inl EXIT_BAD_ARG
             else case endp of
               [] \<Rightarrow> Inl EXIT_BAD_ARG
             | c # r \<Rightarrow>
                 if c \<noteq> ch_slash then Inl EXIT_BAD_ARG
                 else
                   let remote_drive_no = drive_to_num (case r of [] \<Rightarrow> 0 | l # _ \<Rightarrow> l) in
                   if unat remote_drive_no \<ge> CLIENT_DRIVES_COUNT then Inl EXIT_BAD_DRIVE_LETTER
                   else case as of
                     [] \<Rightarrow> Inl EXIT_BAD_ARG
                   | l # as \<Rightarrow>
                       let drive_no = drive_to_num (case l of [] \<Rightarrow> 0 | c # _ \<Rightarrow> c) in
                       if unat drive_no \<ge> CLIENT_DRIVES_COUNT then Inl EXIT_BAD_DRIVE_LETTER
                       else Inr (opts\<lparr>mo_drive := Some (remote_ip, port, remote_drive_no, drive_no),
                                   mo_remote_port := port\<rparr>, as))"

definition mount_arg :: "byte list \<Rightarrow> mount_opts \<Rightarrow> int + mount_opts" where
  "mount_arg arg opts =
     (case option_value ''CHECKSUMS:'' arg of
        Some v \<Rightarrow> (case parse_checksums 0 v of
            Some c \<Rightarrow> Inr (opts\<lparr>mo_enabled_checksums := c\<rparr>) | None \<Rightarrow> Inl EXIT_BAD_ARG)
      | None \<Rightarrow> (case option_value ''MIN_RCV_TMO:'' arg of
        Some v \<Rightarrow> (let n = fst (strto_ui16 v) in
          if n < 1 \<or> n > 56 then Inl EXIT_BAD_ARG else Inr (opts\<lparr>mo_min_rcv_tmo_sec := n\<rparr>))
      | None \<Rightarrow> (case option_value ''MAX_RCV_TMO:'' arg of
        Some v \<Rightarrow> (let n = fst (strto_ui16 v) in
          if n < 1 \<or> n > 56 then Inl EXIT_BAD_ARG else Inr (opts\<lparr>mo_max_rcv_tmo_sec := n\<rparr>))
      | None \<Rightarrow> (case option_value ''MAX_RETRIES:'' arg of
        Some v \<Rightarrow> (case strto_ui16 v of (n, endp) \<Rightarrow>
          if endp = v \<or> sint n > 254 \<or> sint n < 0 then Inl EXIT_BAD_ARG
          else Inr (opts\<lparr>mo_max_request_retries := ucast n\<rparr>))
      | None \<Rightarrow> (case option_value ''MIN_READ_LEN:'' arg of
        Some v \<Rightarrow> (case strto_ui16 v of (n, endp) \<Rightarrow>
          let n = ucast n :: u8 in
          if endp = v \<or> n > 64 \<or> n AND (n - 1) \<noteq> 0 then Inl EXIT_BAD_ARG
          else Inr (opts\<lparr>mo_min_server_read_len := n\<rparr>))
      | None \<Rightarrow> Inl EXIT_UNKNOWN_ARG)))))"

lemma mount_drive_shorter: "mount_drive arg as opts = Inr (o2, as') \<Longrightarrow> length as' < length as"
  by (auto simp: mount_drive_def Let_def split: option.splits prod.splits list.splits if_splits)

function mount_args :: "byte list list \<Rightarrow> mount_opts \<Rightarrow> int + mount_opts" where
  "mount_args [] opts = Inr opts"
| "mount_args (a # as) opts =
     (if take 1 a = [ch_slash] then (case mount_arg a opts of Inl e \<Rightarrow> Inl e | Inr opts \<Rightarrow> mount_args as opts)
      else (case mount_drive a as opts of Inl e \<Rightarrow> Inl e | Inr (opts, as) \<Rightarrow> mount_args as opts))"
  by pat_completeness auto
termination
  by (relation "measure (length \<circ> fst)") (auto dest: mount_drive_shorter)

text \<open>The current directory structures of DOS, one for each drive up to LASTDRIVE. \<open>get_cds\<close> allows one
  more.\<close>

record dos_current_dir =
  cds_current_path :: "byte list"
  cds_flags :: u16

record dos_setup =
  st_shared :: shared_data
  st_cds :: "dos_current_dir list option"

definition get_cds :: "u8 \<Rightarrow> dos_setup \<Rightarrow> (nat \<times> dos_current_dir list) option outcome" where
  "get_cds drive_no st =
     (case st_cds st of
        None \<Rightarrow> Returns None
      | Some cds \<Rightarrow>
          if drive_no > of_nat (length cds) then Returns None
          else if unat drive_no < length cds then Returns (Some (unat drive_no, cds)) else Faults)"

definition ticks_shr_2 :: "u16 \<Rightarrow> u8" where
  "ticks_shr_2 sec = ucast (drop_bit 2 (sec * 182 div 10))"

definition mount_info :: "mount_opts \<Rightarrow> u8 \<Rightarrow> u16 \<Rightarrow> drive_info" where
  "mount_info opts ip_idx port =
     \<lparr>remote_ip_idx = ip_idx, remote_port = port,
      min_rcv_tmo_18_2_ticks_shr_2 = ticks_shr_2 (mo_min_rcv_tmo_sec opts),
      max_rcv_tmo_18_2_ticks_shr_2 = ticks_shr_2 (mo_max_rcv_tmo_sec opts),
      max_request_retries = mo_max_request_retries opts, enabled_checksums = mo_enabled_checksums opts,
      min_server_read_len = mo_min_server_read_len opts\<rparr>"

definition clear_ext_feature :: "u8 \<Rightarrow> shared_data \<Rightarrow> shared_data" where
  "clear_ext_feature drive_no sh =
     (let i = unat (drive_no div 8) in
      sh\<lparr>has_drive_extended_features := (has_drive_extended_features sh)
        [i := has_drive_extended_features sh ! i AND NOT (push_bit (unat (drive_no mod 8)) 1)]\<rparr>)"

definition mount :: "byte list list \<Rightarrow> (dos_setup, int) cm" where
  "mount args =
     (case mount_args args default_mount_opts of
        Inl e \<Rightarrow> cm_return e
      | Inr opts \<Rightarrow> (case mo_drive opts of
          None \<Rightarrow> cm_return EXIT_MISSING_ARG
        | Some (remote_ip, port, remote_drive_no, drive_no) \<Rightarrow> (\<lambda>st.
            case get_cds drive_no st of
              Faults \<Rightarrow> (Faults, st)
            | Waits \<Rightarrow> (Waits, st)
            | Returns None \<Rightarrow> (Returns 1, st)
            | Returns (Some (i, cds)) \<Rightarrow>
                if cds_flags (cds ! i) \<noteq> 0 then (Returns EXIT_DRIVE_LETTER_ALREADY_USED, st)
                else
                  let (ip_idx, sh) = assign_remote_ip_addr_slot remote_ip (st_shared st) in
                  if ip_idx = 0xFF then (Returns EXIT_NOT_FREE_SLOT_FOR_REMOTE_IP, st\<lparr>st_shared := sh\<rparr>)
                  else
                    let sh = clear_ext_feature drive_no (sh
                          \<lparr>drives := (drives sh)[i := mount_info opts ip_idx port],
                           drive_map := (drive_map sh)[i := remote_drive_no]\<rparr>)
                    in (Returns EXIT_OK, \<lparr>st_shared = sh, st_cds = Some (cds[i :=
                         \<lparr>cds_current_path = [ch_A + drive_no, ch_colon, ch_backslash], cds_flags = 0xC000\<rparr>])\<rparr>))))"


section \<open>UMOUNT\<close>

definition umount :: "u8 \<Rightarrow> (dos_setup, int) cm" where
  "umount drive_no st =
     (case get_cds drive_no st of
        Faults \<Rightarrow> (Faults, st)
      | Waits \<Rightarrow> (Waits, st)
      | Returns None \<Rightarrow> (Returns 1, st)
      | Returns (Some (i, cds)) \<Rightarrow>
          let sh = st_shared st in
          (Returns 0, \<lparr>st_shared = sh\<lparr>drive_map := (drive_map sh)[i := 0xFF],
             drives := (drives sh)[i := (drives sh ! i)\<lparr>remote_ip_idx := 0xFF\<rparr>]\<rparr>,
             st_cds = Some (cds[i := (cds ! i)\<lparr>cds_flags := 0\<rparr>])\<rparr>))"

fun umount_all :: "u8 list \<Rightarrow> int \<Rightarrow> (dos_setup, int) cm" where
  "umount_all [] retval = cm_return retval"
| "umount_all (d # ds) retval =
     cm_bind (cm_get (\<lambda>st. drive_map (st_shared st) ! unat d)) (\<lambda>m.
     if m \<noteq> 0xFF then cm_bind (umount d) (\<lambda>r. umount_all ds (retval OR r)) else umount_all ds retval)"

definition umount_cmd :: "byte list list \<Rightarrow> (dos_setup, int) cm" where
  "umount_cmd args =
     (case args of
        [arg] \<Rightarrow>
          if strn_upper_cmp arg (bytes_of ''/ALL'') 5 = 0
          then umount_all (map of_nat [0..<CLIENT_DRIVES_COUNT]) EXIT_OK
          else
            let drive_no = drive_to_num (case arg of [] \<Rightarrow> 0 | c # _ \<Rightarrow> c) in
            if unat drive_no \<ge> CLIENT_DRIVES_COUNT then cm_return EXIT_BAD_DRIVE_LETTER
            else cm_bind (cm_get (\<lambda>st. drive_map (st_shared st) ! unat drive_no)) (\<lambda>m.
              if m = 0xFF then cm_return EXIT_DRIVE_NOT_MOUNTED else umount drive_no)
      | _ \<Rightarrow> cm_return EXIT_BAD_ARG)"


section \<open>Commands on the installed client\<close>

definition check_netmount_compatibility :: "shared_data \<Rightarrow> int" where
  "check_netmount_compatibility sh = (if abi_version sh \<noteq> 2 then EXIT_INCOMPATIBLE_VERSION else EXIT_OK)"

text \<open>UNINSTALL releases the client only when no drive is mounted and its handler is the current one.
  \<open>Some\<close> gives the handler that is restored.\<close>

definition uninstall :: "u32 \<Rightarrow> byte list list \<Rightarrow> shared_data \<Rightarrow> int \<times> u32 option" where
  "uninstall current_INT2F_handler args sh =
     (if args \<noteq> [] then (EXIT_BAD_ARG, None)
      else if current_INT2F_handler \<noteq>
           push_bit 16 (ucast (psp_segment sh)) OR ucast (int2F_redirector_offset sh) then (EXIT_NOT_LAST_IN_INT2F_CHAIN, None)
      else if list_ex (\<lambda>m. m \<noteq> 0xFF) (drive_map sh) then (EXIT_DRIVE_MOUNTED, None)
      else (EXIT_OK, Some (orig_INT2F_handler sh)))"

datatype command = UNINSTALL | INSTALL | MOUNT | UMOUNT

definition command_of :: "byte list \<Rightarrow> command option" where
  "command_of arg =
     (if strn_upper_cmp arg (bytes_of ''UNINSTALL'') 10 = 0 then Some UNINSTALL
      else if strn_upper_cmp arg (bytes_of ''INSTALL'') 8 = 0 then Some INSTALL
      else if strn_upper_cmp arg (bytes_of ''MOUNT'') 6 = 0 then Some MOUNT
      else if strn_upper_cmp arg (bytes_of ''UMOUNT'') 7 = 0 then Some UMOUNT
      else None)"

text \<open>The part of \<^verbatim>\<open>main\<close> before a command that works on the installed client: the exit code, or the
  command with its arguments.\<close>

definition main_prologue :: "u8 \<Rightarrow> mux \<Rightarrow> shared_data \<Rightarrow> byte list list \<Rightarrow> int + command \<times> byte list list" where
  "main_prologue dos_major mux sh args =
     (if list_ex (\<lambda>a. a = bytes_of ''/?'') args then Inl EXIT_OK
      else if dos_major < 5 then Inl EXIT_UNSUPPORTED_DOS
      else case args of
        [] \<Rightarrow> Inl EXIT_UNKNOWN_CMD
      | a # as \<Rightarrow> (case command_of a of
            None \<Rightarrow> Inl EXIT_UNKNOWN_CMD
          | Some INSTALL \<Rightarrow> Inr (INSTALL, as)
          | Some cmd \<Rightarrow>
              if \<not> fst (get_install_info mux) then Inl EXIT_NOT_INSTALLED
              else if check_netmount_compatibility sh \<noteq> EXIT_OK then Inl EXIT_INCOMPATIBLE_VERSION
              else Inr (cmd, as)))"

end
