(* ===== verification/Manage.thy ===== *)
theory Manage
  imports ClientSetup
begin

text \<open>
  The configuration tool of the DOS client (\<^verbatim>\<open>nmmanage/nmmanage.c\<close>): it finds the resident client, reads
  and changes the memory the client shares, and prints. The state is that memory together with what
  was printed; a command returns its exit code, or it faults when an index leaves an array. The functions
  \<^verbatim>\<open>strtoul\<close>, \<^verbatim>\<open>strcasecmp\<close>, \<^verbatim>\<open>toupper\<close> and the conversions of \<^verbatim>\<open>printf\<close> are those of the C library on a
  machine with 16-bit \<^verbatim>\<open>int\<close> and 32-bit \<^verbatim>\<open>long\<close>.
\<close>

section \<open>Numbers in the C library\<close>

definition is_space :: "byte \<Rightarrow> bool" where
  "is_space c \<longleftrightarrow> c = ch_space \<or> (0x09 \<le> c \<and> c \<le> 0x0D)"

fun scan_digits :: "int \<Rightarrow> int \<Rightarrow> byte list \<Rightarrow> int \<times> byte list" where
  "scan_digits base n [] = (n, [])"
| "scan_digits base n (c # cs) =
     (case digit_of c of
        Some dig \<Rightarrow> if uint dig < base then scan_digits base (n * base + uint dig) cs else (n, c # cs)
      | None \<Rightarrow> (n, c # cs))"

definition hex_prefix :: "byte list \<Rightarrow> bool" where
  "hex_prefix s \<longleftrightarrow>
     (case s of a # b # c # _ \<Rightarrow> a = ch_0 \<and> (b = 0x78 \<or> b = 0x58) \<and> digit_of c \<noteq> None | _ \<Rightarrow> False)"

text \<open>White space, a sign, the prefix of the base, digits: the sign, the number and the rest, or \<open>None\<close>
  when there is no number.\<close>

definition scan_number :: "int \<Rightarrow> byte list \<Rightarrow> (bool \<times> int \<times> byte list) option" where
  "scan_number base str =
     (let s = dropWhile is_space str;
          neg = (take 1 s = [0x2D]);
          s = (if neg \<or> take 1 s = [0x2B] then tl s else s);
          (base, s) = (if (base = 0 \<or> base = 16) \<and> hex_prefix s then (16, drop 2 s)
            else if base = 0 then (if take 1 s = [ch_0] then 8 else 10, s) else (base, s));
          (n, rest) = scan_digits base 0 s
      in if rest = s then None else Some (neg, n, rest))"

definition strtoul :: "int \<Rightarrow> byte list \<Rightarrow> u32 \<times> byte list" where
  "strtoul base str =
     (case scan_number base str of
        None \<Rightarrow> (0, str)
      | Some (neg, n, rest) \<Rightarrow>
          (if n > 0xFFFFFFFF then 0xFFFFFFFF else if neg then - of_int n else of_int n, rest))"

definition strcaseeq :: "byte list \<Rightarrow> string \<Rightarrow> bool" where
  "strcaseeq s name \<longleftrightarrow> map ascii_to_lower s = map ascii_to_lower (bytes_of name)"


section \<open>Conversions of printf\<close>

definition fmt_d :: "u16 \<Rightarrow> byte list" where
  "fmt_d w = (if sint w < 0 then 0x2D # to_chars (nat (- sint w)) else to_chars (nat (sint w)))"

definition hex_char :: "u8 \<Rightarrow> byte" where
  "hex_char n = (if n < 10 then ch_0 + n else ch_A + (n - 10))"

definition fmt_02X :: "u8 \<Rightarrow> byte list" where
  "fmt_02X b = [hex_char (drop_bit 4 b), hex_char (b AND 0x0F)]"

definition fmt_03d :: "u8 \<Rightarrow> byte list" where
  "fmt_03d b = (let ds = to_chars (unat b) in replicate (3 - length ds) ch_0 @ ds)"

definition fmt_ip :: "u32 \<Rightarrow> byte list" where
  "fmt_ip ip = (case put32 Little ip of
     [a, b, c, d] \<Rightarrow> to_chars (unat a) @ [ch_dot] @ to_chars (unat b) @ [ch_dot] @ to_chars (unat c) @ [ch_dot] @ to_chars (unat d)
   | _ \<Rightarrow> [])"

fun fmt_mac :: "mac_addr \<Rightarrow> byte list" where
  "fmt_mac [] = []"
| "fmt_mac [b] = fmt_02X b"
| "fmt_mac (b # bs) = fmt_02X b @ [ch_colon] @ fmt_mac bs"


section \<open>The tool's state\<close>

record tool =
  t_data :: shared_data
  t_out :: "byte list"

definition print :: "byte list \<Rightarrow> (tool, unit) cm" where
  "print bs = cm_modify (\<lambda>t. t\<lparr>t_out := t_out t @ bs\<rparr>)"

definition println :: "byte list \<Rightarrow> (tool, unit) cm" where
  "println bs = print (bs @ [ch_lf])"

definition print_error :: "int \<Rightarrow> string \<Rightarrow> byte list \<Rightarrow> (tool, int) cm" where
  "print_error code message arg = cm_bind (println (bytes_of message @ arg)) (\<lambda>_. cm_return code)"

definition set_data :: "(shared_data \<Rightarrow> shared_data) \<Rightarrow> (tool, int) cm" where
  "set_data f = cm_bind (cm_modify (\<lambda>t. t\<lparr>t_data := f (t_data t)\<rparr>)) (\<lambda>_. cm_return EXIT_OK)"

definition data_nth :: "(shared_data \<Rightarrow> 'a list) \<Rightarrow> u8 \<Rightarrow> (tool, 'a) cm" where
  "data_nth f i = cm_bind (cm_get (\<lambda>t. f (t_data t))) (\<lambda>xs. cm_nth xs (unat i))"

abbreviation yes_no :: "bool \<Rightarrow> string \<Rightarrow> string \<Rightarrow> byte list" where
  "yes_no b y n \<equiv> bytes_of (if b then y else n)"


section \<open>INFO\<close>

definition NMMANAGE_VERSION :: string where "NMMANAGE_VERSION = ''1.1.0''"
definition ABI_VERSION :: u16 where "ABI_VERSION = 2"
definition EXIT_MISSING_CMD :: int where "EXIT_MISSING_CMD = 1"

definition nmmanage_info :: "(tool, unit) cm" where
  "nmmanage_info =
     cm_bind (println (bytes_of ''NMManage'')) (\<lambda>_.
     cm_bind (println (bytes_of (''Version: '' @ NMMANAGE_VERSION))) (\<lambda>_.
     println (bytes_of ''ABI version: '' @ fmt_d ABI_VERSION)))"

text \<open>The version is a string in an array of eight characters.\<close>

definition netmount_info :: "(tool, unit) cm" where
  "netmount_info =
     cm_bind (cm_get t_data) (\<lambda>data.
     cm_bind (println (bytes_of ''Detected installed NetMount client'')) (\<lambda>_.
     cm_bind (if 0 \<in> set (netmount_version data) then cm_return () else cm_fault) (\<lambda>_.
     cm_bind (println (bytes_of ''Version: '' @ takeWhile (\<lambda>c. c \<noteq> 0) (netmount_version data))) (\<lambda>_.
     cm_bind (println (bytes_of ''ABI version: '' @ fmt_d (abi_version data))) (\<lambda>_.
     println (bytes_of ''Minimum compatible ABI version: '' @ fmt_d (min_compatible_abi_version data)))))))"


section \<open>NET\<close>

definition gateway :: "(tool, byte list) cm" where
  "gateway =
     cm_bind (cm_get (\<lambda>t. gateway_ip_slot (t_data t))) (\<lambda>gw_ip_slot.
     if gw_ip_slot \<noteq> 0xFF then
       cm_bind (data_nth ip_mac_maps gw_ip_slot) (\<lambda>m. cm_return (fmt_ip (im_ip m)))
     else cm_return [])"

definition net_info :: "(tool, unit) cm" where
  "net_info =
     cm_bind (cm_get t_data) (\<lambda>data.
     cm_bind (println (bytes_of ''IP: '' @ fmt_ip (local_ipv4 data))) (\<lambda>_.
     cm_bind (println (bytes_of ''MASK: '' @ fmt_ip (net_mask data))) (\<lambda>_.
     cm_bind gateway (\<lambda>gw.
     cm_bind (println (bytes_of (if gateway_ip_slot data \<noteq> 0xFF then ''GW: '' else ''GW:'') @ gw)) (\<lambda>_.
     cm_bind (println (bytes_of ''Local udp PORT: '' @ fmt_d (local_port data))) (\<lambda>_.
     cm_bind (println (bytes_of ''Interface MTU: '' @ fmt_d (interface_mtu data))) (\<lambda>_.
     cm_bind (println (bytes_of ''Send ARP_REQUESTS: '' @
       yes_no (disable_sending_arp_request data \<noteq> 0) ''DISABLED'' ''ENABLED'')) (\<lambda>_.
     cm_bind (println (bytes_of ''PKT_INT: 0x'' @ fmt_02X (used_pktdrv_int data))) (\<lambda>_.
     println (bytes_of ''MAC: '' @ fmt_mac (local_mac_addr data)))))))))))"

definition net_get :: "byte list \<Rightarrow> (tool, int) cm" where
  "net_get option =
     cm_bind (cm_get t_data) (\<lambda>data.
     let show = (\<lambda>bs. cm_bind (println bs) (\<lambda>_. cm_return EXIT_OK)) in
     if strcaseeq option ''IP'' then show (fmt_ip (local_ipv4 data))
     else if strcaseeq option ''MASK'' then show (fmt_ip (net_mask data))
     else if strcaseeq option ''GW'' then cm_bind gateway show
     else if strcaseeq option ''PORT'' then show (fmt_d (local_port data))
     else if strcaseeq option ''MTU'' then show (fmt_d (interface_mtu data))
     else if strcaseeq option ''ARP_REQUESTS'' then
       show (yes_no (disable_sending_arp_request data \<noteq> 0) ''DISABLED'' ''ENABLED'')
     else if strcaseeq option ''PKT_INT'' then show (bytes_of ''0x'' @ fmt_02X (used_pktdrv_int data))
     else if strcaseeq option ''MAC'' then show (fmt_mac (local_mac_addr data))
     else print_error EXIT_BAD_ARG ''Error: Unknown option: '' option)"

text \<open>A number argument: the value is cut to 16 bits, and the whole string must be a number.\<close>

definition with_number :: "byte list \<Rightarrow> (u16 \<Rightarrow> (tool, int) cm) \<Rightarrow> (tool, int) cm" where
  "with_number v f =
     (case strtoul 0 v of (n, endptr) \<Rightarrow>
        if endptr = v \<or> endptr \<noteq> [] then print_error EXIT_BAD_ARG ''Error: The value is not a valid number: '' v
        else f (ucast n))"

definition net_set :: "byte list \<Rightarrow> byte list \<Rightarrow> (tool, int) cm" where
  "net_set option v =
     (if strcaseeq option ''PORT'' then with_number v (\<lambda>port.
        if port = 0 then print_error EXIT_BAD_ARG ''Error: Local UDP port must be in range 1-65535'' []
        else set_data (\<lambda>d. d\<lparr>local_port := port\<rparr>))
      else if strcaseeq option ''MTU'' then with_number v (\<lambda>mtu.
        if mtu > 1500 \<or> mtu < 560 then print_error EXIT_BAD_ARG ''Error: Interface MTU must be in the range 560-1500'' []
        else set_data (\<lambda>d. d\<lparr>interface_mtu := mtu\<rparr>))
      else if strcaseeq option ''ARP_REQUESTS'' then
        if strcaseeq v ''ENABLED'' then set_data (\<lambda>d. d\<lparr>disable_sending_arp_request := 0\<rparr>)
        else if strcaseeq v ''DISABLED'' then set_data (\<lambda>d. d\<lparr>disable_sending_arp_request := 1\<rparr>)
        else print_error EXIT_BAD_ARG ''Error: Only ENABLED and DISABLED are valid values: '' v
      else if strcaseeq option ''IP'' \<or> strcaseeq option ''MASK'' \<or> strcaseeq option ''GW'' \<or>
              strcaseeq option ''PKT_INT'' \<or> strcaseeq option ''MAC'' then
        print_error EXIT_BAD_ARG ''Error: Option is read-only and cannot be modified: '' option
      else print_error EXIT_BAD_ARG ''Error: Unknown option: '' option)"


section \<open>DRIVE\<close>

definition list_drive :: "u8 \<Rightarrow> (tool, unit) cm" where
  "list_drive drive_no =
     cm_bind (data_nth drive_map drive_no) (\<lambda>remote.
     if remote \<noteq> 0xFF then
       cm_bind (data_nth drives drive_no) (\<lambda>drive.
       cm_bind (data_nth ip_mac_maps (remote_ip_idx drive)) (\<lambda>m.
       println ([ch_A + drive_no] @ bytes_of '' -> '' @ fmt_ip (im_ip m) @ [ch_colon] @ fmt_d (remote_port drive)
         @ [ch_slash, remote + ch_A])))
     else cm_return ())"

fun for_each :: "('a \<Rightarrow> (tool, unit) cm) \<Rightarrow> 'a list \<Rightarrow> (tool, unit) cm" where
  "for_each f [] = cm_return ()"
| "for_each f (x # xs) = cm_bind (f x) (\<lambda>_. for_each f xs)"

definition drive_list :: "(tool, unit) cm" where
  "drive_list = for_each list_drive (map of_nat [2..<CLIENT_DRIVES_COUNT])"

definition compute_rcv_tmo :: "u8 \<Rightarrow> u8" where
  "compute_rcv_tmo rcv_tmo_18_2_ticks_shr_2 =
     (let min_dsec = ucast (push_bit 2 (ucast rcv_tmo_18_2_ticks_shr_2 :: u32) * 100 div 182) :: u16;
          min_sec = ucast (min_dsec div 10) :: u8;
          min_dsec = min_dsec - ucast min_sec * 10
      in if min_dsec \<ge> 5 then min_sec + 1 else min_sec)"

definition extended_features :: "u8 \<Rightarrow> (tool, bool) cm" where
  "extended_features drive_no =
     cm_bind (data_nth has_drive_extended_features (drive_no div 8)) (\<lambda>f.
     cm_return (ucast f AND (push_bit (unat (drive_no mod 8)) 1 :: u16) \<noteq> 0))"

text \<open>The commands on a drive that is mounted.\<close>

definition with_drive_no :: "u8 \<Rightarrow> (u8 \<Rightarrow> drive_info \<Rightarrow> (tool, int) cm) \<Rightarrow> (tool, int) cm" where
  "with_drive_no drive_no f =
     cm_bind (data_nth drive_map drive_no) (\<lambda>remote.
     if remote = 0xFF then
       cm_bind (println (bytes_of ''Drive '' @ [drive_no + ch_A] @ bytes_of '' is not mounted by NetMount'')) (\<lambda>_.
       cm_return EXIT_DRIVE_NOT_MOUNTED)
     else cm_bind (data_nth drives drive_no) (f remote))"

definition drive_info_cmd :: "u8 \<Rightarrow> (tool, int) cm" where
  "drive_info_cmd drive_no = with_drive_no drive_no (\<lambda>remote drive.
     cm_bind (data_nth ip_mac_maps (remote_ip_idx drive)) (\<lambda>m.
     cm_bind (println (bytes_of ''Local drive: '' @ [drive_no + ch_A])) (\<lambda>_.
     cm_bind (println (bytes_of ''Server IP: '' @ fmt_ip (im_ip m))) (\<lambda>_.
     cm_bind (println (bytes_of ''Server udp PORT: '' @ fmt_d (remote_port drive))) (\<lambda>_.
     cm_bind (println (bytes_of ''Server DRIVE: '' @ [remote + ch_A])) (\<lambda>_.
     cm_bind (cm_get (\<lambda>t. abi_version (t_data t))) (\<lambda>abi.
     cm_bind (if abi \<ge> 2 then
         cm_bind (extended_features drive_no) (\<lambda>f.
         println (bytes_of ''Server HAS_EXTENDED_FEATURES: '' @ yes_no f ''YES'' ''NO''))
       else println (bytes_of ''Client does not support extended features'')) (\<lambda>_.
     cm_bind (println (bytes_of ''Minimum length of data block read from the server MIN_READ_LEN [bytes]: ''
       @ fmt_d (ucast (min_server_read_len drive)))) (\<lambda>_.
     cm_bind (println (bytes_of ''Minimum response timenout MIN_RCV_TMO [seconds]: ''
       @ fmt_d (ucast (compute_rcv_tmo (min_rcv_tmo_18_2_ticks_shr_2 drive))))) (\<lambda>_.
     cm_bind (println (bytes_of ''Maximum response timenout MAX_RCV_TMO [seconds]: ''
       @ fmt_d (ucast (compute_rcv_tmo (max_rcv_tmo_18_2_ticks_shr_2 drive))))) (\<lambda>_.
     cm_bind (println (bytes_of ''Maximum number of request retries MAX_RETRIES: ''
       @ fmt_d (ucast (max_request_retries drive)))) (\<lambda>_.
     cm_bind (println (bytes_of ''Netmount protocol checksum CHECKSUM_NETMOUNT: ''
       @ yes_no (enabled_checksums drive AND CHECKSUM_NETMOUNT_PROTO \<noteq> 0) ''ENABLED'' ''DISABLED'')) (\<lambda>_.
     cm_bind (println (bytes_of ''IP header checksum CHECKSUM_IP_HEADER: ''
       @ yes_no (enabled_checksums drive AND CHECKSUM_IP_HEADER \<noteq> 0) ''ENABLED'' ''Send only (ignore received)'')) (\<lambda>_.
     cm_return EXIT_OK))))))))))))))"

definition drive_get :: "u8 \<Rightarrow> byte list \<Rightarrow> (tool, int) cm" where
  "drive_get drive_no option = with_drive_no drive_no (\<lambda>remote drive.
     let show = (\<lambda>bs. cm_bind (println bs) (\<lambda>_. cm_return EXIT_OK)) in
     if strcaseeq option ''IP'' then
       cm_bind (data_nth ip_mac_maps (remote_ip_idx drive)) (\<lambda>m. show (fmt_ip (im_ip m)))
     else if strcaseeq option ''PORT'' then show (fmt_d (remote_port drive))
     else if strcaseeq option ''DRIVE'' then show [remote + ch_A]
     else if strcaseeq option ''HAS_EXTENDED_FEATURES'' then
       cm_bind (cm_get (\<lambda>t. abi_version (t_data t))) (\<lambda>abi.
       if abi \<ge> 2 then cm_bind (extended_features drive_no) (\<lambda>f. show (yes_no f ''YES'' ''NO''))
       else show (bytes_of ''NO''))
     else if strcaseeq option ''MIN_READ_LEN'' then show (fmt_d (ucast (min_server_read_len drive)))
     else if strcaseeq option ''MIN_RCV_TMO'' then
       show (fmt_d (ucast (compute_rcv_tmo (min_rcv_tmo_18_2_ticks_shr_2 drive))))
     else if strcaseeq option ''MAX_RCV_TMO'' then
       show (fmt_d (ucast (compute_rcv_tmo (max_rcv_tmo_18_2_ticks_shr_2 drive))))
     else if strcaseeq option ''MAX_RETRIES'' then show (fmt_d (ucast (max_request_retries drive)))
     else if strcaseeq option ''CHECKSUM_NETMOUNT'' then
       show (yes_no (enabled_checksums drive AND CHECKSUM_NETMOUNT_PROTO \<noteq> 0) ''ENABLED'' ''DISABLED'')
     else if strcaseeq option ''CHECKSUM_IP_HEADER'' then
       show (yes_no (enabled_checksums drive AND CHECKSUM_IP_HEADER \<noteq> 0) ''ENABLED'' ''SEND_ONLY'')
     else print_error EXIT_BAD_ARG ''Error: Unknown option: '' option)"

definition set_drive :: "u8 \<Rightarrow> (drive_info \<Rightarrow> drive_info) \<Rightarrow> (tool, int) cm" where
  "set_drive drive_no f =
     set_data (\<lambda>d. d\<lparr>drives := (drives d)[unat drive_no := f (drives d ! unat drive_no)]\<rparr>)"

definition drive_set :: "u8 \<Rightarrow> byte list \<Rightarrow> byte list \<Rightarrow> (tool, int) cm" where
  "drive_set drive_no option v = with_drive_no drive_no (\<lambda>_ _.
     if strcaseeq option ''MIN_READ_LEN'' then with_number v (\<lambda>n.
       if n > 64 \<or> n AND (n - 1) \<noteq> 0 then
         print_error EXIT_BAD_ARG ''Error: Minimum read length must be power of 2 in range 0-64'' []
       else set_drive drive_no (\<lambda>d. d\<lparr>min_server_read_len := ucast n\<rparr>))
     else if strcaseeq option ''MIN_RCV_TMO'' then with_number v (\<lambda>n.
       if n < 1 \<or> n > 56 then
         print_error EXIT_BAD_ARG ''Error: Minimum response timeout must be in range 1-56'' []
       else set_drive drive_no (\<lambda>d. d\<lparr>min_rcv_tmo_18_2_ticks_shr_2 := ticks_shr_2 n\<rparr>))
     else if strcaseeq option ''MAX_RCV_TMO'' then with_number v (\<lambda>n.
       if n < 1 \<or> n > 56 then
         print_error EXIT_BAD_ARG ''Error: Maximum response timeout must be in range 1-56'' []
       else set_drive drive_no (\<lambda>d. d\<lparr>max_rcv_tmo_18_2_ticks_shr_2 := ticks_shr_2 n\<rparr>))
     else if strcaseeq option ''MAX_RETRIES'' then with_number v (\<lambda>n.
       if sint n > 254 \<or> sint n < 0 then
         print_error EXIT_BAD_ARG ''Error: Maximum request retries must be in range 0-254'' []
       else set_drive drive_no (\<lambda>d. d\<lparr>max_request_retries := ucast n\<rparr>))
     else if strcaseeq option ''CHECKSUM_NETMOUNT'' then
       if strcaseeq v ''ENABLED'' then
         set_drive drive_no (\<lambda>d. d\<lparr>enabled_checksums := enabled_checksums d OR CHECKSUM_NETMOUNT_PROTO\<rparr>)
       else if strcaseeq v ''DISABLED'' then
         set_drive drive_no (\<lambda>d. d\<lparr>enabled_checksums := enabled_checksums d AND NOT CHECKSUM_NETMOUNT_PROTO\<rparr>)
       else print_error EXIT_BAD_ARG ''Error: Only ENABLED and DISABLED are valid values: '' v
     else if strcaseeq option ''CHECKSUM_IP_HEADER'' then
       if strcaseeq v ''ENABLED'' then
         set_drive drive_no (\<lambda>d. d\<lparr>enabled_checksums := enabled_checksums d OR CHECKSUM_IP_HEADER\<rparr>)
       else if strcaseeq v ''SEND_ONLY'' then
         set_drive drive_no (\<lambda>d. d\<lparr>enabled_checksums := enabled_checksums d AND NOT CHECKSUM_IP_HEADER\<rparr>)
       else print_error EXIT_BAD_ARG ''Error: Only ENABLED and SEND_ONLY are valid values: '' v
     else if strcaseeq option ''IP'' \<or> strcaseeq option ''PORT'' \<or> strcaseeq option ''DRIVE'' then
       print_error EXIT_BAD_ARG ''Error: Option is read-only and cannot be modified: '' option
     else print_error EXIT_BAD_ARG ''Error: Unknown option: '' option)"


section \<open>MAC\<close>

definition list_mac :: "ip_mac_map \<Rightarrow> (tool, unit) cm" where
  "list_mac m =
     (if im_ip m \<noteq> 0xFFFFFFFF then
        println (fmt_03d (put32 Little (im_ip m) ! 0) @ [ch_dot] @ fmt_03d (put32 Little (im_ip m) ! 1) @ [ch_dot]
          @ fmt_03d (put32 Little (im_ip m) ! 2) @ [ch_dot] @ fmt_03d (put32 Little (im_ip m) ! 3)
          @ bytes_of ''   '' @ fmt_mac (im_mac_addr m))
      else cm_return ())"

definition mac_list :: "(tool, unit) cm" where
  "mac_list = cm_bind (cm_get (\<lambda>t. ip_mac_maps (t_data t))) (for_each list_mac)"

text \<open>The bytes of an address in a base, each but the last followed by a separator; the first error ends
  the loop.\<close>

fun parse_bytes :: "int \<Rightarrow> byte \<Rightarrow> nat \<Rightarrow> byte list \<Rightarrow> byte list option" where
  "parse_bytes base sep 0 str =
     (case strtoul base str of (n, endptr) \<Rightarrow>
        if n > 255 \<or> endptr = str \<or> endptr \<noteq> [] then None else Some [ucast n])"
| "parse_bytes base sep (Suc k) str =
     (case strtoul base str of (n, endptr) \<Rightarrow>
        if n > 255 \<or> endptr = str \<or> take 1 endptr \<noteq> [sep] then None
        else map_option ((#) (ucast n)) (parse_bytes base sep k (tl endptr)))"

definition parse_ip_arg :: "byte list \<Rightarrow> u32 option" where
  "parse_ip_arg str = map_option (load32 Little) (parse_bytes 10 ch_dot 3 str)"

definition parse_mac_arg :: "byte list \<Rightarrow> mac_addr option" where
  "parse_mac_arg str = parse_bytes 16 ch_colon 5 str"

text \<open>The first slot of an address.\<close>

fun mac_slot :: "u32 \<Rightarrow> nat \<Rightarrow> ip_mac_map list \<Rightarrow> nat option" where
  "mac_slot ip i [] = None"
| "mac_slot ip i (m # ms) = (if im_ip m = ip then Some i else mac_slot ip (Suc i) ms)"

definition with_ip :: "byte list \<Rightarrow> (u32 \<Rightarrow> (tool, int) cm) \<Rightarrow> (tool, int) cm" where
  "with_ip str f =
     (case parse_ip_arg str of
        None \<Rightarrow> print_error EXIT_BAD_ARG ''Error: The value is not a valid IPv4 address: '' str
      | Some ip \<Rightarrow>
          if ip = 0xFFFFFFFF then
            print_error EXIT_UNKNOWN_ARG ''Error: The specified IP address is a broadcast address: '' str
          else f ip)"

definition mac_get :: "byte list \<Rightarrow> (tool, int) cm" where
  "mac_get str = with_ip str (\<lambda>ip.
     cm_bind (cm_get (\<lambda>t. ip_mac_maps (t_data t))) (\<lambda>ms.
     case mac_slot ip 0 ms of
       Some i \<Rightarrow> cm_bind (println (fmt_mac (im_mac_addr (ms ! i)))) (\<lambda>_. cm_return EXIT_OK)
     | None \<Rightarrow> print_error EXIT_UNKNOWN_ARG ''Error: IP address not in NetMount IP-to-MAC table: '' str))"

definition mac_set :: "byte list \<Rightarrow> byte list \<Rightarrow> (tool, int) cm" where
  "mac_set str mac_str = with_ip str (\<lambda>ip.
     case parse_mac_arg mac_str of
       None \<Rightarrow> print_error EXIT_BAD_ARG ''Error: The value is not a valid MAC address: '' mac_str
     | Some mac \<Rightarrow>
         cm_bind (cm_get (\<lambda>t. ip_mac_maps (t_data t))) (\<lambda>ms.
         case mac_slot ip 0 ms of
           Some i \<Rightarrow> set_data (\<lambda>d. d\<lparr>ip_mac_maps := ms[i := (ms ! i)\<lparr>im_mac_addr := mac\<rparr>]\<rparr>)
         | None \<Rightarrow> print_error EXIT_UNKNOWN_ARG ''Error: IP address not in NetMount IP-to-MAC table: '' str))"


section \<open>The program\<close>

definition print_help :: "(tool, unit) cm" where
  "print_help = for_each (\<lambda>l. println (bytes_of l))
      [''NMManage '' @ NMMANAGE_VERSION,
       ''Copyright 2025-2026 Jaroslav Rohel <jaroslav.rohel@gmail.com>'',
       ''NMManage comes with ABSOLUTELY NO WARRANTY.'',
       ''This is free software, and you are welcome to redistribute it'',
       ''under the terms of the GNU General Public License, version 2.'',
       [],
       ''Usage:'',
       ''NMMANAGE INFO'',
       ''NMMANAGE NET INFO'',
       ''NMMANAGE NET GET <get_net_option>'',
       ''NMMANAGE NET SET <set_net_option> <value>'',
       ''NMMANAGE DRIVES'',
       ''NMMANAGE DRIVE <local_drive_letter> INFO'',
       ''NMMANAGE DRIVE <local_drive_letter> GET <get_drive_option>'',
       ''NMMANAGE DRIVE <local_drive_letter> SET <set_drive_option> <value>'',
       ''NMMANAGE MACS'',
       ''NMMANAGE MAC GET <ipv4_addr>'',
       ''NMMANAGE MAC SET <ipv4_addr> <mac_addr>'',
       [],
       ''Commands:'',
       ''INFO                  Show info about NMManager and detected installed NetMount'',
       ''NET INFO              Show current NetMount network settings'',
       ''NET GET               Get value of a network option'',
       ''NET SET               Set value of a network option'',
       ''DRIVES                List all mounted network drives'',
       ''DRIVE INFO            Show details (all options) for a specific mounted drive'',
       ''DRIVE GET             Get value of a drive mount option'',
       ''DRIVE SET             Set value of a drive mount option'',
       ''MACS                  List IP-to-MAC address table entries'',
       ''MAC GET               Get MAC address for IP'',
       ''MAC SET               Set MAC address for IP'',
       ''/?                    Display this help'',
       [],
       ''Arguments:'',
       ''<local_drive_letter>  Specifies the mounted drive to work with (e.g. H)'',
       ''<get_net_option>      IP, MASK, GW, PORT, MTU, ARP_REQUESTS, PKT_INT, MAC'',
       ''<set_net_option>      PORT, MTU, ARP_REQUESTS'',
       ''<get_drive_option>    IP, PORT, DRIVE, HAS_EXTENDED_FEATURES, MIN_READ_LEN,'',
       ''                      MIN_RCV_TMO, MAX_RCV_TMO, MAX_RETRIES, CHECKSUM_NETMOUNT,'',
       ''                      CHECKSUM_IP_HEADER'',
       ''<set_drive_option>    MIN_READ_LEN, MIN_RCV_TMO, MAX_RCV_TMO,'',
       ''                      MAX_RETRIES, CHECKSUM_NETMOUNT, CHECKSUM_IP_HEADER'',
       ''<value>               Specifies value to set'',
       ''<ipv4_addr>           Specifies the IPv4 address to work with'',
       ''<mac_addr>            Specifies the MAC address to set'']"

definition display_help :: string where
  "display_help = ''Use '' @ [CHR 0x22] @ ''/?'' @ [CHR 0x22] @ '' to display help.''"

definition missing_argument :: "(tool, int) cm" where
  "missing_argument = print_error EXIT_MISSING_ARG (''Error: Missing argument. '' @ display_help) []"

definition too_many_arguments :: "(tool, int) cm" where
  "too_many_arguments = print_error EXIT_UNKNOWN_ARG (''Error: Too many arguments. '' @ display_help) []"

abbreviation then_ok :: "(tool, unit) cm \<Rightarrow> (tool, int) cm" where
  "then_ok m \<equiv> cm_bind m (\<lambda>_. cm_return EXIT_OK)"

definition net_cmd :: "byte list list \<Rightarrow> (tool, int) cm" where
  "net_cmd args =
     (case args of
        [] \<Rightarrow> missing_argument
      | arg # as \<Rightarrow>
          if strcaseeq arg ''INFO'' then
            if length as > 0 then too_many_arguments else then_ok net_info
          else if strcaseeq arg ''GET'' then
            if length as < 1 then missing_argument
            else if length as > 1 then too_many_arguments
            else net_get (as ! 0)
          else if strcaseeq arg ''SET'' then
            if length as < 2 then missing_argument
            else if length as > 2 then too_many_arguments
            else net_set (as ! 0) (as ! 1)
          else print_error EXIT_UNKNOWN_ARG ''Error: Unknown argument: '' arg)"

definition drive_cmd :: "byte list list \<Rightarrow> (tool, int) cm" where
  "drive_cmd args =
     (case args of
        letter # arg # as \<Rightarrow>
          let drive_no = ascii_to_upper (case letter of [] \<Rightarrow> 0 | c # _ \<Rightarrow> c) - ch_A in
          if unat drive_no \<ge> CLIENT_DRIVES_COUNT then
            print_error EXIT_BAD_DRIVE_LETTER ''Error: Bad local drive letter'' []
          else if strcaseeq arg ''INFO'' then
            if length as > 0 then too_many_arguments else drive_info_cmd drive_no
          else if strcaseeq arg ''GET'' then
            if length as < 1 then missing_argument
            else if length as > 1 then too_many_arguments
            else drive_get drive_no (as ! 0)
          else if strcaseeq arg ''SET'' then
            if length as < 2 then missing_argument
            else if length as > 2 then too_many_arguments
            else drive_set drive_no (as ! 0) (as ! 1)
          else print_error EXIT_UNKNOWN_ARG ''Error: Unknown argument: '' arg
      | _ \<Rightarrow> missing_argument)"

definition mac_cmd :: "byte list list \<Rightarrow> (tool, int) cm" where
  "mac_cmd args =
     (case args of
        [] \<Rightarrow> missing_argument
      | arg # as \<Rightarrow>
          if strcaseeq arg ''GET'' then
            if length as < 1 then missing_argument
            else if length as > 1 then too_many_arguments
            else mac_get (as ! 0)
          else if strcaseeq arg ''SET'' then
            if length as < 2 then missing_argument
            else if length as > 2 then too_many_arguments
            else mac_set (as ! 0) (as ! 1)
          else print_error EXIT_UNKNOWN_ARG ''Error: Unknown argument: '' arg)"

definition info_cmd :: "(tool, unit) cm" where
  "info_cmd = cm_bind nmmanage_info (\<lambda>_. cm_bind (println []) (\<lambda>_. netmount_info))"

text \<open>The tool has its own copy of the search for the resident client.\<close>

definition find_client :: "mux \<Rightarrow> bool \<times> u8" where
  "find_client mux = get_install_info mux"

definition nmmanage_main :: "mux \<Rightarrow> byte list list \<Rightarrow> (tool, int) cm" where
  "nmmanage_main mux args =
     (if list_ex (\<lambda>a. a = bytes_of ''/?'') args then then_ok print_help
      else case args of
        [] \<Rightarrow> print_error EXIT_MISSING_CMD (''Error: Missing command. '' @ display_help) []
      | cmd # as \<Rightarrow>
          if \<not> fst (find_client mux) then print_error EXIT_NOT_INSTALLED ''NetMount client is not installed'' []
          else cm_bind (cm_get (\<lambda>t. min_compatible_abi_version (t_data t))) (\<lambda>min_abi.
            if min_abi > ABI_VERSION then
              cm_bind (println (bytes_of ''NMManage is not compatible with installed NetMount client'')) (\<lambda>_.
              cm_bind info_cmd (\<lambda>_. cm_return EXIT_INCOMPATIBLE_VERSION))
            else if strcaseeq cmd ''INFO'' then
              if as \<noteq> [] then too_many_arguments else then_ok info_cmd
            else if strcaseeq cmd ''NET'' then net_cmd as
            else if strcaseeq cmd ''DRIVES'' then
              if as \<noteq> [] then too_many_arguments else then_ok drive_list
            else if strcaseeq cmd ''DRIVE'' then drive_cmd as
            else if strcaseeq cmd ''MACS'' then
              if as \<noteq> [] then too_many_arguments else then_ok mac_list
            else if strcaseeq cmd ''MAC'' then mac_cmd as
            else print_error EXIT_UNKNOWN_CMD ''Error: Unknown command: '' cmd))"

end
