(* ===== verification/Config.thy ===== *)
theory Config
  imports Manage
begin

text \<open>
  Well-formed configurations of the resident client, and that the configuration tool keeps them. The
  operations of the tool are run by weakest preconditions: \<open>wp m Q s\<close> says that \<open>m\<close> returns from \<open>s\<close>
  with a result and a state that satisfy \<open>Q\<close>, so it includes that no array index leaves its array. An
  operation that \<open>observes\<close> only prints.
\<close>

section \<open>Weakest preconditions\<close>

definition wp :: "('s, 'a) cm \<Rightarrow> ('a \<Rightarrow> 's \<Rightarrow> bool) \<Rightarrow> 's \<Rightarrow> bool" where
  "wp m Q s \<longleftrightarrow> (\<exists>x s'. m s = (Returns x, s') \<and> Q x s')"

named_theorems wp_simps \<open>weakest preconditions of the operations\<close>

lemma wp_return [wp_simps]: "wp (cm_return x) Q s = Q x s"
  and wp_get [wp_simps]: "wp (cm_get f) P s = P (f s) s"
  and wp_modify [wp_simps]: "wp (cm_modify g) R s = R () (g s)"
  and wp_nth [wp_simps]: "wp (cm_nth xs i) S s \<longleftrightarrow> i < length xs \<and> S (xs ! i) s"
  and wp_fault [wp_simps]: "wp cm_fault T s = False"
  by (auto simp: wp_def cm_defs cm_nth_def)

lemma wp_bind [wp_simps]: "wp (cm_bind m k) Q s = wp m (\<lambda>x. wp (k x) Q) s"
  by (auto simp: wp_def cm_defs split: prod.splits outcome.splits)

lemma wp_if [wp_simps]: "wp (if b then m else m') Q s = (if b then wp m Q s else wp m' Q s)"
  by simp

lemma wp_mono: "wp m Q s \<Longrightarrow> (\<And>x s'. Q x s' \<Longrightarrow> R x s') \<Longrightarrow> wp m R s"
  by (auto simp: wp_def)

lemma wp_run: "m s = (Returns x, s') \<Longrightarrow> wp m Q s \<Longrightarrow> Q x s'"
  by (auto simp: wp_def)

lemma wp_tool [wp_simps]:
  "wp (println bs) P t = P () (t\<lparr>t_out := t_out t @ bs @ [ch_lf]\<rparr>)"
  "wp (print_error code message arg) Q t = Q code (t\<lparr>t_out := t_out t @ bytes_of message @ arg @ [ch_lf]\<rparr>)"
  "wp (set_data f) Q t = Q EXIT_OK (t\<lparr>t_data := f (t_data t)\<rparr>)"
  "wp (data_nth g i) R t \<longleftrightarrow> unat i < length (g (t_data t)) \<and> R (g (t_data t) ! unat i) t"
  by (simp_all add: println_def print_def print_error_def set_data_def data_nth_def wp_simps)

lemma wp_case [wp_simps]:
  "wp (case v of None \<Rightarrow> m | Some x \<Rightarrow> k x) Q s = (case v of None \<Rightarrow> wp m Q s | Some x \<Rightarrow> wp (k x) Q s)"
  by (simp split: option.split)

lemma wp_with_number:
  assumes "\<And>n. wp (f n) Q t" and "\<And>bs. Q EXIT_BAD_ARG (t\<lparr>t_out := bs\<rparr>)"
  shows "wp (with_number v f) Q t"
  using assms by (simp add: with_number_def wp_simps split: prod.split)

lemma wp_for_each:
  assumes "\<And>x t. x \<in> set xs \<Longrightarrow> I t \<Longrightarrow> wp (f x) (\<lambda>_. I) t" and "I t"
  shows "wp (for_each f xs) (\<lambda>_. I) t"
  using assms
proof (induction xs arbitrary: t)
  case (Cons x xs)
  then have "wp (f x) (\<lambda>_. I) t" by simp
  then have "wp (f x) (\<lambda>_. wp (for_each f xs) (\<lambda>_. I)) t"
    by (rule wp_mono) (simp add: Cons)
  then show ?case by (simp add: wp_simps)
qed (simp add: wp_simps)


lemma nth_update: "xs[i := x] ! j = (if i = j \<and> j < length xs then x else xs ! j)"
  by (cases "i = j") (auto simp: list_update_beyond)


section \<open>Well-formed shared data\<close>

definition drive_ok :: "drive_info \<Rightarrow> bool" where
  "drive_ok d \<longleftrightarrow>
     remote_ip_idx d < 4 \<and> min_server_read_len d \<le> 64 \<and> min_server_read_len d AND (min_server_read_len d - 1) = 0 \<and>
     4 \<le> min_rcv_tmo_18_2_ticks_shr_2 d \<and> 4 \<le> max_rcv_tmo_18_2_ticks_shr_2 d \<and> max_request_retries d \<le> 254"

definition tables_ok :: "shared_data \<Rightarrow> bool" where
  "tables_ok sh \<longleftrightarrow>
     length (drive_map sh) = 26 \<and> length (drives sh) = 26 \<and> length (ip_mac_maps sh) = 4 \<and>
     length (has_drive_extended_features sh) = 4 \<and> 0 \<in> set (netmount_version sh)"

definition shared_ok :: "shared_data \<Rightarrow> bool" where
  "shared_ok sh \<longleftrightarrow>
     tables_ok sh \<and> local_port sh \<noteq> 0 \<and> 560 \<le> interface_mtu sh \<and> interface_mtu sh \<le> 1500 \<and>
     (gateway_ip_slot sh = 0xFF \<or> gateway_ip_slot sh < 4) \<and>
     (\<forall>i < 26. drive_map sh ! i \<noteq> 0xFF \<longrightarrow> drive_map sh ! i < 26 \<and> drive_ok (drives sh ! i))"

lemma shared_okD:
  assumes "shared_ok sh"
  shows "length (drive_map sh) = 26" "length (drives sh) = 26" "length (ip_mac_maps sh) = 4"
    "length (has_drive_extended_features sh) = 4" "0 \<in> set (netmount_version sh)"
    "gateway_ip_slot sh \<noteq> 0xFF \<Longrightarrow> unat (gateway_ip_slot sh) < 4"
    "i < 26 \<Longrightarrow> drive_map sh ! i \<noteq> 0xFF \<Longrightarrow> drive_ok (drives sh ! i)"
    "i < 26 \<Longrightarrow> drive_map sh ! i \<noteq> 0xFF \<Longrightarrow> unat (remote_ip_idx (drives sh ! i)) < 4"
  using assms by (auto simp: shared_ok_def tables_ok_def drive_ok_def word_less_nat_alt)

text \<open>What is left of the shared data without the options that the tool can set.\<close>

definition fixed_drive :: "drive_info \<Rightarrow> drive_info" where
  "fixed_drive d = d\<lparr>min_rcv_tmo_18_2_ticks_shr_2 := 0, max_rcv_tmo_18_2_ticks_shr_2 := 0,
     max_request_retries := 0, enabled_checksums := 0, min_server_read_len := 0\<rparr>"

definition fixed_part :: "shared_data \<Rightarrow> shared_data" where
  "fixed_part sh = sh\<lparr>local_port := 0, interface_mtu := 0, disable_sending_arp_request := 0,
     drives := map fixed_drive (drives sh),
     ip_mac_maps := map (\<lambda>m. m\<lparr>im_mac_addr := []\<rparr>) (ip_mac_maps sh)\<rparr>"

definition kept :: "shared_data \<Rightarrow> shared_data \<Rightarrow> bool" where
  "kept sh sh' \<longleftrightarrow> shared_ok sh' \<and> fixed_part sh' = fixed_part sh"

lemma kept_refl: "shared_ok sh \<Longrightarrow> kept sh sh"
  and kept_trans: "kept sh sh' \<Longrightarrow> kept sh' sh'' \<Longrightarrow> kept sh sh''"
  by (simp_all add: kept_def)

definition keeps_ok :: "(tool, 'a) cm \<Rightarrow> bool" where
  "keeps_ok m \<longleftrightarrow> (\<forall>t. shared_ok (t_data t) \<longrightarrow> wp m (\<lambda>_ t'. kept (t_data t) (t_data t')) t)"

definition observes :: "(tool, 'a) cm \<Rightarrow> bool" where
  "observes m \<longleftrightarrow> (\<forall>t. shared_ok (t_data t) \<longrightarrow> wp m (\<lambda>_ t'. t_data t' = t_data t) t)"

lemma observes_keeps_ok: "observes m \<Longrightarrow> keeps_ok m"
  unfolding observes_def keeps_ok_def by (metis (mono_tags, lifting) kept_refl wp_mono)

lemma observes_info: "observes nmmanage_info" "observes netmount_info" "observes info_cmd"
  by (simp_all add: observes_def info_cmd_def nmmanage_info_def netmount_info_def wp_simps shared_okD)

lemma observes_net: "observes net_info" "observes (net_get option)"
  by (auto simp: observes_def net_info_def net_get_def gateway_def wp_simps shared_okD Let_def)

lemma drive_div8: "unat drive_no < 26 \<Longrightarrow> unat (drive_no div 8) < 4"  for drive_no :: u8
  by (simp add: unat_div)

lemma observes_extended: "unat drive_no < 26 \<Longrightarrow> observes (extended_features drive_no)"
  by (simp add: observes_def extended_features_def wp_simps shared_okD drive_div8)

lemma observes_list_drive: "unat drive_no < 26 \<Longrightarrow> observes (list_drive drive_no)"
  by (simp add: observes_def list_drive_def wp_simps shared_okD)

lemma observes_for_each: "(\<And>x. x \<in> set xs \<Longrightarrow> observes (f x)) \<Longrightarrow> observes (for_each f xs)"
  unfolding observes_def by (intro allI impI wp_for_each) (auto simp: observes_def dest: sym)

lemma observes_lists: "observes drive_list" "observes mac_list" "observes print_help"
proof -
  show "observes drive_list"
    unfolding drive_list_def
    by (rule observes_for_each) (auto intro!: observes_list_drive simp: CLIENT_DRIVES_COUNT_def unat_of_nat)
  have "observes (for_each list_mac ms)" for ms
    by (rule observes_for_each) (simp add: list_mac_def observes_def wp_simps)
  then show "observes mac_list"
    by (simp add: mac_list_def observes_def wp_simps)
  show "observes print_help"
    unfolding print_help_def by (rule observes_for_each) (simp add: observes_def wp_simps)
qed

lemma observes_drive:
  assumes "unat drive_no < 26"
  shows "observes (drive_info_cmd drive_no)" "observes (drive_get drive_no option)"
  using assms
  by (auto simp: observes_def drive_info_cmd_def drive_get_def with_drive_no_def extended_features_def wp_simps shared_okD
      drive_div8 Let_def)

lemma observes_mac_get: "observes (mac_get str)"
  by (auto simp: observes_def mac_get_def with_ip_def wp_simps split: option.split)

section \<open>Commands that change it\<close>

lemma keeps_okI: "(\<And>t. shared_ok (t_data t) \<Longrightarrow> wp m (\<lambda>_ t'. kept (t_data t) (t_data t')) t) \<Longrightarrow> keeps_ok m"
  by (simp add: keeps_ok_def)

lemma kept_net:
  assumes "shared_ok sh"
  shows "port \<noteq> 0 \<Longrightarrow> kept sh (sh\<lparr>local_port := port\<rparr>)"
    "560 \<le> mtu \<Longrightarrow> mtu \<le> 1500 \<Longrightarrow> kept sh (sh\<lparr>interface_mtu := mtu\<rparr>)"
    "kept sh (sh\<lparr>disable_sending_arp_request := b\<rparr>)"
  using assms unfolding kept_def shared_ok_def tables_ok_def fixed_part_def by simp_all

lemma keeps_ok_net_set: "keeps_ok (net_set option v)"
proof (rule keeps_okI)
  fix t :: tool assume "shared_ok (t_data t)"
  then show "wp (net_set option v) (\<lambda>_ t'. kept (t_data t) (t_data t')) t"
    by (simp add: net_set_def wp_with_number wp_simps kept_net kept_refl not_le not_less)
qed

lemma kept_drive:
  assumes "shared_ok sh" "i < 26" "drive_map sh ! i \<noteq> 0xFF" "drive_ok (f (drives sh ! i))"
    and "\<And>d. fixed_drive (f d) = fixed_drive d"
  shows "kept sh (sh\<lparr>drives := (drives sh)[i := f (drives sh ! i)]\<rparr>)"
proof -
  have "map fixed_drive ((drives sh)[i := f (drives sh ! i)]) = map fixed_drive (drives sh)"
    by (rule nth_equalityI) (auto simp: nth_update assms(5))
  then show ?thesis
    using assms(1-4) unfolding kept_def shared_ok_def tables_ok_def fixed_part_def by (simp add: nth_list_update)
qed

lemma set_drive_wp:
  assumes "shared_ok (t_data t)" "unat drive_no < 26" "drive_map (t_data t) ! unat drive_no \<noteq> 0xFF"
    and "\<And>d. drive_ok d \<Longrightarrow> drive_ok (f d)" and "\<And>d. fixed_drive (f d) = fixed_drive d"
  shows "wp (set_drive drive_no f) (\<lambda>_ t'. kept (t_data t) (t_data t')) t"
  using assms by (simp add: set_drive_def wp_simps kept_drive shared_okD)

lemma small_word: "unat n \<le> k \<Longrightarrow> (\<forall>m \<in> set [0..<Suc k]. P (of_nat m)) \<Longrightarrow> P n" for n :: "'a :: len word"
  by (drule bspec [of _ _ "unat n"]) auto

lemma ticks_ok: "n \<noteq> 0 \<Longrightarrow> n \<le> 56 \<Longrightarrow> 4 \<le> ticks_shr_2 n"
  by (rule small_word [of n 56 "\<lambda>n. n \<noteq> 0 \<longrightarrow> 4 \<le> ticks_shr_2 n", THEN mp]) (simp add: word_le_nat_alt, code_simp)

lemma read_len_ok: "n \<le> 64 \<Longrightarrow> n AND (n - 1) = 0 \<Longrightarrow> ucast n \<le> (64 :: u8) \<and> ucast n AND (ucast n - 1) = (0 :: u8)" for n :: u16
  by (rule small_word [of n 64 "\<lambda>n. n AND (n - 1) = 0 \<longrightarrow> ucast n \<le> (64 :: u8) \<and> ucast n AND (ucast n - 1) = (0 :: u8)", THEN mp])
    (simp add: word_le_nat_alt, code_simp)

lemma retries_ok: "sint n \<le> 254 \<Longrightarrow> 0 \<le> sint n \<Longrightarrow> ucast n \<le> (254 :: u8)" for n :: u16
proof -
  assume "sint n \<le> 254" "0 \<le> sint n"
  then have "\<not> bit (uint n) 15" "take_bit 15 (uint n) \<le> 254"
    by (auto simp: sint_uint signed_take_bit_eq_if_positive)
  moreover have "take_bit (Suc 15) (uint n) = uint n"
    using uint_lt2p [of n] by (simp add: take_bit_int_eq_self)
  ultimately have "uint n \<le> 254"
    using take_bit_Suc_from_most [of 15 "uint n"] by simp
  then show ?thesis by (simp add: word_le_def unsigned_ucast_eq take_bit_int_eq_self)
qed

lemma wp_ifI: "(b \<Longrightarrow> wp m Q s) \<Longrightarrow> (\<not> b \<Longrightarrow> wp m' Q s) \<Longrightarrow> wp (if b then m else m') Q s"
  by simp

lemma wp_errorI: "shared_ok (t_data t) \<Longrightarrow> wp (print_error code message arg) (\<lambda>_ t'. kept (t_data t) (t_data t')) t"
  by (simp add: wp_simps kept_refl)

lemma wp_numberI:
  "shared_ok (t_data t) \<Longrightarrow> (\<And>n. wp (f n) (\<lambda>_ t'. kept (t_data t) (t_data t')) t) \<Longrightarrow>
   wp (with_number v f) (\<lambda>_ t'. kept (t_data t) (t_data t')) t"
  by (simp add: wp_with_number kept_refl)

lemma wp_with_driveI:
  assumes "shared_ok (t_data t)" "unat drive_no < 26"
    and "drive_map (t_data t) ! unat drive_no \<noteq> 0xFF \<Longrightarrow>
      wp (f (drive_map (t_data t) ! unat drive_no) (drives (t_data t) ! unat drive_no)) (\<lambda>_ t'. kept (t_data t) (t_data t')) t"
  shows "wp (with_drive_no drive_no f) (\<lambda>_ t'. kept (t_data t) (t_data t')) t"
  using assms by (simp add: with_drive_no_def wp_simps shared_okD kept_refl)

lemmas keeps_ok_intros = wp_ifI wp_errorI wp_numberI wp_with_driveI set_drive_wp

lemma keeps_ok_drive_set:
  assumes "unat drive_no < 26"
  shows "keeps_ok (drive_set drive_no option v)"
  unfolding drive_set_def
  by (intro keeps_okI keeps_ok_intros assms) (auto simp: fixed_drive_def drive_ok_def ticks_ok read_len_ok retries_ok not_less)

lemma keeps_ok_mac_set: "keeps_ok (mac_set str mac_str)"
proof (rule keeps_okI)
  fix t :: tool assume ok: "shared_ok (t_data t)"
  let ?ms = "ip_mac_maps (t_data t)"
  have "map (\<lambda>m. m\<lparr>im_mac_addr := []\<rparr>) (?ms[i := (?ms ! i)\<lparr>im_mac_addr := mac\<rparr>]) = map (\<lambda>m. m\<lparr>im_mac_addr := []\<rparr>) ?ms" for i mac
    by (rule nth_equalityI) (auto simp: nth_update)
  then have "kept (t_data t) (t_data t\<lparr>ip_mac_maps := ?ms[i := (?ms ! i)\<lparr>im_mac_addr := mac\<rparr>]\<rparr>)" for i mac
    using ok by (simp add: kept_def fixed_part_def shared_ok_def tables_ok_def)
  then show "wp (mac_set str mac_str) (\<lambda>_ t'. kept (t_data t) (t_data t')) t"
    using ok by (auto simp: mac_set_def with_ip_def wp_simps kept_refl split: option.split)
qed

lemma keeps_ok_messages: "keeps_ok missing_argument" "keeps_ok too_many_arguments" "keeps_ok (print_error code message arg)"
  by (auto simp: missing_argument_def too_many_arguments_def intro!: keeps_okI wp_errorI)

lemma keeps_ok_bind: "keeps_ok m \<Longrightarrow> (\<And>x. keeps_ok (f x)) \<Longrightarrow> keeps_ok (cm_bind m f)"
  unfolding keeps_ok_def wp_bind by (smt (verit) kept_def kept_trans wp_mono)

lemma keeps_ok_basic: "keeps_ok (cm_return x)" "keeps_ok (cm_get f)" "keeps_ok (println bs)"
  by (simp_all add: keeps_ok_def wp_simps kept_refl)

lemma keeps_ok_if: "(b \<Longrightarrow> keeps_ok m) \<Longrightarrow> (\<not> b \<Longrightarrow> keeps_ok m') \<Longrightarrow> keeps_ok (if b then m else m')"
  by simp

lemmas keeps_ok_rules = keeps_ok_if keeps_ok_bind keeps_ok_basic keeps_ok_messages keeps_ok_net_set
  keeps_ok_drive_set keeps_ok_mac_set
  observes_info [THEN observes_keeps_ok] observes_net [THEN observes_keeps_ok] observes_lists [THEN observes_keeps_ok]
  observes_drive [THEN observes_keeps_ok] observes_mac_get [THEN observes_keeps_ok]

lemma keeps_ok_cmds: "keeps_ok (net_cmd args)" "keeps_ok (drive_cmd args)" "keeps_ok (mac_cmd args)"
proof -
  show "keeps_ok (net_cmd args)" "keeps_ok (mac_cmd args)"
    by (auto simp: net_cmd_def mac_cmd_def keeps_ok_rules split: list.split)
  show "keeps_ok (drive_cmd args)"
    unfolding drive_cmd_def Let_def CLIENT_DRIVES_COUNT_def
    by (auto simp: keeps_ok_rules not_le split: list.split)
qed

lemma nmmanage_keeps_ok: "keeps_ok (nmmanage_main mux args)"
  unfolding nmmanage_main_def
  by (cases args) (auto intro!: keeps_ok_rules keeps_ok_cmds)

end
