(* ===== verification/Resident.thy ===== *)
theory Resident
  imports Config ClientLink
begin

text \<open>
  The configurations that the commands of the DOS programs can reach. \<open>resident\<close> is the inductive set of the
  states of the shared data and of the current directory structures of DOS after INSTALL and any sequence of
  MOUNT, UMOUNT and NMMANAGE; the invariant \<open>setup_ok\<close> is kept by each of them. The requests of the resident part
  change other fields of the shared data and are not steps of this relation.
\<close>

section \<open>Slots of server addresses\<close>

abbreviation slot_ip :: "shared_data \<Rightarrow> nat \<Rightarrow> u32" where
  "slot_ip sh j \<equiv> im_ip (ip_mac_maps sh ! j)"

lemma slot_search_spec:
  assumes "slot_search ip i free ms = (a, f)" "unat i + length ms < 255"
  shows "((\<exists>k < length ms. im_ip (ms ! k) = ip \<and> a = i + of_nat k \<and> (f = free \<or> f < a)) \<or>
         (a = 0xFF \<and> (f = free \<or> (\<exists>j < length ms. im_ip (ms ! j) = 0xFFFFFFFF \<and> f = i + of_nat j))))"
  using assms
proof (induction ms arbitrary: i free)
  case Nil
  then show ?case by simp
next
  case (Cons m ms)
  show ?case
  proof (cases "im_ip m = ip")
    case True
    then show ?thesis using Cons.prems by auto
  next
    case False
    let ?free = "if im_ip m = 0xFFFFFFFF then i else free"
    have i: "unat (i + 1) = unat i + 1"
      using Cons.prems(2) by (simp add: unat_word_ariths)
    have run: "slot_search ip (i + 1) ?free ms = (a, f)"
      using False Cons.prems(1) by simp
    have "unat (i + 1) + length ms < 255"
      using i Cons.prems(2) by simp
    from Cons.IH [OF run this] consider
        (found) k where "k < length ms" "im_ip (ms ! k) = ip" "a = i + 1 + of_nat k" "f = ?free \<or> f < a"
      | (none) "a = 0xFF" "f = ?free"
      | (free) j where "a = 0xFF" "j < length ms" "im_ip (ms ! j) = 0xFFFFFFFF" "f = i + 1 + of_nat j"
      by blast
    then show ?thesis
    proof cases
      case found
      then have "i < a"
        using Cons.prems(2) by (simp add: word_less_nat_alt unat_word_ariths unat_of_nat)
      then show ?thesis
        using found by (intro disjI1 exI [of _ "Suc k"]) (auto split: if_splits)
    next
      case none
      then show ?thesis by (auto split: if_splits intro!: exI [of _ 0])
    next
      case free
      then show ?thesis by (intro disjI2 conjI exI [of _ "Suc j"]) auto
    qed
  qed
qed

definition frees :: "shared_data \<Rightarrow> nat \<Rightarrow> bool" where
  "frees sh j \<longleftrightarrow> slot_ip sh j = 0xFFFFFFFF \<or> reusable_slot sh j"

text \<open>The address gets a slot, and no slot in use changes.\<close>

lemma assign_slot_spec:
  assumes run: "assign_remote_ip_addr_slot ip sh = (slot, sh')" and len: "length (ip_mac_maps sh) = 4"
  shows "slot = 0xFF \<and> sh' = sh \<or>
    unat slot < 4 \<and> slot_ip sh' (unat slot) = ip \<and>
    (sh' = sh \<or> frees sh (unat slot) \<and>
       sh' = sh\<lparr>ip_mac_maps := (ip_mac_maps sh)[unat slot := \<lparr>im_ip = ip, im_mac_addr = replicate 6 0xFF\<rparr>]\<rparr>)"
proof -
  obtain a f where s: "slot_search ip 0 0xFF (ip_mac_maps sh) = (a, f)"
    by (cases "slot_search ip 0 0xFF (ip_mac_maps sh)")
  from slot_search_spec [OF s] len consider
      (found) k where "k < 4" "slot_ip sh k = ip" "a = of_nat k" "f = 0xFF \<or> f < a"
    | (none) "a = 0xFF" "f = 0xFF"
    | (free) j where "a = 0xFF" "j < 4" "slot_ip sh j = 0xFFFFFFFF" "f = of_nat j"
    by auto
  then show ?thesis
  proof cases
    case found
    then have a: "unat a = k" by (simp add: unat_of_nat)
    then have "a \<noteq> 0xFF" using found by auto
    moreover have "a \<noteq> f" using found \<open>a \<noteq> 0xFF\<close> by auto
    ultimately show ?thesis
      using run s found a by (auto simp: assign_remote_ip_addr_slot_def Let_def)
  next
    case none
    show ?thesis
    proof (cases "find (reusable_slot sh) [0..<4]")
      case None
      then show ?thesis using run s none len by (auto simp: assign_remote_ip_addr_slot_def Let_def)
    next
      case (Some j)
      then have "j < 4" "reusable_slot sh j" by (auto simp: find_Some_iff)
      then show ?thesis
        using run s none len Some by (auto simp: assign_remote_ip_addr_slot_def Let_def unat_of_nat frees_def split: if_splits)
    qed
  next
    case free
    then have f: "unat f = j" by (simp add: unat_of_nat)
    then have "f \<noteq> 0xFF" using free by auto
    with f show ?thesis
      using run s free len by (auto simp: assign_remote_ip_addr_slot_def Let_def frees_def)
  qed
qed


section \<open>INSTALL\<close>

text \<open>The shared data in the image of the program.\<close>

definition image_ok :: "shared_data \<Rightarrow> bool" where
  "image_ok sh \<longleftrightarrow>
     length (drive_map sh) = 26 \<and> length (drives sh) = 26 \<and> length (ip_mac_maps sh) = 4 \<and>
     length (has_drive_extended_features sh) = 4 \<and> netmount_version sh = replicate 8 0"

definition settings_ok :: "shared_data \<Rightarrow> bool" where
  "settings_ok sh \<longleftrightarrow> image_ok sh \<and> local_port sh \<noteq> 0 \<and> 560 \<le> interface_mtu sh \<and> interface_mtu sh \<le> 1500 \<and>
     (gateway_ip_slot sh = 0xFF \<or> gateway_ip_slot sh < 4)"

lemma settings_ok_defaults: "image_ok sh \<Longrightarrow> settings_ok (install_defaults sh)"
  by (simp add: settings_ok_def image_ok_def install_defaults_def DRIVE_PROTO_UDP_PORT_def)

lemma assign_slot_cases:
  assumes "assign_remote_ip_addr_slot ip sh = (slot, sh')" "length (ip_mac_maps sh) = 4"
  obtains (none) "slot = 0xFF" "sh' = sh"
  | (used) "unat slot < 4" "slot_ip sh (unat slot) = ip" "sh' = sh"
  | (new) "unat slot < 4" "frees sh (unat slot)"
      "sh' = sh\<lparr>ip_mac_maps := (ip_mac_maps sh)[unat slot := \<lparr>im_ip = ip, im_mac_addr = replicate 6 0xFF\<rparr>]\<rparr>"
proof -
  note spec = assign_slot_spec [OF assms]
  show ?thesis
  proof (cases "slot = 0xFF \<and> sh' = sh")
    case True
    then show ?thesis by (intro none) simp_all
  next
    case False
    with spec have rest: "unat slot < 4 \<and> slot_ip sh' (unat slot) = ip \<and> (sh' = sh \<or> frees sh (unat slot) \<and>
        sh' = sh\<lparr>ip_mac_maps := (ip_mac_maps sh)[unat slot := \<lparr>im_ip = ip, im_mac_addr = replicate 6 0xFF\<rparr>]\<rparr>)"
      by blast
    show ?thesis
    proof (cases "sh' = sh")
      case True
      with rest show ?thesis by (intro used) simp_all
    next
      case False
      with rest show ?thesis by (intro new) (elim conjE disjE; assumption | simp)+
    qed
  qed
qed

lemma assign_slot_frame:
  assumes "assign_remote_ip_addr_slot ip sh = (slot, sh')" "length (ip_mac_maps sh) = 4"
  obtains ms where "sh' = sh\<lparr>ip_mac_maps := ms\<rparr>" "length ms = 4" "slot = 0xFF \<or> slot < 4"
  using assms
proof (cases rule: assign_slot_cases)
  case none
  then show ?thesis using assms(2) by (intro that [of "ip_mac_maps sh"]) simp_all
next
  case used
  then show ?thesis using assms(2) by (intro that [of "ip_mac_maps sh"]) (simp_all add: word_less_nat_alt)
next
  case new
  then show ?thesis using assms(2) by (intro that [OF new(3)]) (simp_all add: word_less_nat_alt)
qed

lemma settings_ok_upd:
  assumes "settings_ok sh"
  shows "settings_ok (sh\<lparr>local_ipv4 := ip\<rparr>)" "settings_ok (sh\<lparr>net_mask := m\<rparr>)"
    "settings_ok (sh\<lparr>requested_pktdrv_int := n\<rparr>)" "settings_ok (sh\<lparr>disable_sending_arp_request := b\<rparr>)"
    "port \<noteq> 0 \<Longrightarrow> settings_ok (sh\<lparr>local_port := port\<rparr>)"
    "560 \<le> mtu \<Longrightarrow> mtu \<le> 1500 \<Longrightarrow> settings_ok (sh\<lparr>interface_mtu := mtu\<rparr>)"
  using assms by (simp_all add: settings_ok_def image_ok_def)

lemma assign_slot_settings:
  assumes "assign_remote_ip_addr_slot ip sh = (slot, sh')" "settings_ok sh"
  shows "settings_ok (sh'\<lparr>gateway_ip_slot := slot\<rparr>)"
proof -
  have "length (ip_mac_maps sh) = 4" using assms(2) by (simp add: settings_ok_def image_ok_def)
  from assign_slot_frame [OF assms(1) this] obtain ms
    where "sh' = sh\<lparr>ip_mac_maps := ms\<rparr>" "length ms = 4" "slot = 0xFF \<or> slot < 4" by blast
  then show ?thesis using assms(2) by (simp add: settings_ok_def image_ok_def)
qed

lemma install_arg_settings:
  assumes "install_arg arg (sh, b) = Inr (sh', b')" "settings_ok sh"
  shows "settings_ok sh'"
proof -
  note install_arg_def [of arg "(sh, b)", unfolded Let_def prod.case]
  with assms show ?thesis
    by (simp split: if_split_asm option.split_asm list.split_asm prod.split_asm)
      (auto simp: settings_ok_upd not_less dest: assign_slot_settings)
qed

lemma install_args_settings:
  "install_args args (sh, b) = Inr (sh', b') \<Longrightarrow> settings_ok sh \<Longrightarrow> settings_ok sh'"
  by (induction args arbitrary: sh b) (auto split: sum.splits dest: install_arg_settings)


lemma settings_ok_pktdrv:
  assumes "settings_ok sh"
  shows "settings_ok (sh\<lparr>used_pktdrv_int := n\<rparr>)" "settings_ok (sh\<lparr>arp_pkthandle := h\<rparr>)"
    "settings_ok (sh\<lparr>ipv4_pkthandle := h\<rparr>)" "settings_ok (sh\<lparr>local_mac_addr := a\<rparr>)"
  using assms by (simp_all add: settings_ok_def image_ok_def)

lemma pktdrv_init_settings: "settings_ok sh \<Longrightarrow> settings_ok (fst (snd (pktdrv_init pd n (sh, h))))"
  by (auto simp: pktdrv_init_def Let_def settings_ok_pktdrv split: sum.split prod.split)

lemma pktdrv_detect_settings: "settings_ok sh \<Longrightarrow> settings_ok (fst (pktdrv_detect pd is (sh, h)))"
proof (induction "is" arbitrary: sh h)
  case (Cons i "is")
  then have "settings_ok (fst (snd (pktdrv_init pd i (sh, h))))" by (simp add: pktdrv_init_settings)
  then show ?case using Cons.IH by (auto split: prod.split)
qed simp

lemma settings_ok_installed:
  assumes "settings_ok sh"
  shows "shared_ok (sh\<lparr>drive_map := map (\<lambda>_. 0xFF) (drive_map sh), abi_version := 2,
     min_compatible_abi_version := 1, netmount_version := overwrite (netmount_version sh) 0 (bytes_of ''1.8.1''),
     psp_segment := psp, orig_INT2F_handler := h, int2F_redirector_offset := off, pktdrv_INT_handler := h'\<rparr>)"
proof -
  have "overwrite (replicate 8 0) 0 (bytes_of ''1.8.1'') = bytes_of ''1.8.1'' @ [0, 0, 0 :: byte]"
    by code_simp
  then show ?thesis
    using assms by (simp add: shared_ok_def tables_ok_def settings_ok_def image_ok_def)
qed

lemma install_shared:
  assumes "install mux pd psp h off args s = Inr s'" "image_ok (c_shared s)"
  obtains sh h' where "settings_ok sh" "c_shared s' = sh\<lparr>drive_map := map (\<lambda>_. 0xFF) (drive_map sh), abi_version := 2,
     min_compatible_abi_version := 1, netmount_version := overwrite (netmount_version sh) 0 (bytes_of ''1.8.1''),
     psp_segment := psp, orig_INT2F_handler := h, int2F_redirector_offset := off, pktdrv_INT_handler := h'\<rparr>"
proof -
  obtain sh b where args: "install_args args (install_defaults (c_shared s), False) = Inr (sh, b)"
    using assms(1) by (auto simp: install_def split: prod.splits if_splits sum.splits)
  define sh0 where "sh0 = sh\<lparr>used_pktdrv_int := 0\<rparr>"
  define drv where "drv = (if requested_pktdrv_int sh = 0 then pktdrv_detect pd (map of_nat [0x60..<0x81]) (sh0, 0)
      else snd (pktdrv_init pd (requested_pktdrv_int sh) (sh0, 0)))"
  obtain sh1 handler where drv: "drv = (sh1, handler)" by (cases drv)
  have "settings_ok sh0"
    using install_args_settings [OF args settings_ok_defaults [OF assms(2)]] by (simp add: sh0_def settings_ok_pktdrv)
  then have "settings_ok (fst drv)"
    by (simp add: drv_def pktdrv_detect_settings pktdrv_init_settings del: pktdrv_detect.simps upt_conv_Cons upt_rec_numeral)
  then have ok: "settings_ok sh1" by (simp add: drv)
  have "c_shared s' = sh1\<lparr>drive_map := map (\<lambda>_. 0xFF) (drive_map sh1), abi_version := 2,
     min_compatible_abi_version := 1, netmount_version := overwrite (netmount_version sh1) 0 (bytes_of ''1.8.1''),
     psp_segment := psp, orig_INT2F_handler := h, int2F_redirector_offset := off, pktdrv_INT_handler := handler\<rparr>"
    using assms(1) args drv
    by (auto simp: install_def install_frames_def drv_def sh0_def Let_def
        simp del: pktdrv_detect.simps upt_conv_Cons upt_rec_numeral split: prod.splits if_splits)
  then show ?thesis by (rule that [OF ok])
qed

lemma install_ok:
  assumes "install mux pd psp h off args s = Inr s'" "image_ok (c_shared s)"
  shows "shared_ok (c_shared s')" "i < 26 \<Longrightarrow> drive_map (c_shared s') ! i = 0xFF"
proof -
  obtain sh h' where ok: "settings_ok sh" and sh: "c_shared s' = sh\<lparr>drive_map := map (\<lambda>_. 0xFF) (drive_map sh),
      abi_version := 2, min_compatible_abi_version := 1,
      netmount_version := overwrite (netmount_version sh) 0 (bytes_of ''1.8.1''),
      psp_segment := psp, orig_INT2F_handler := h, int2F_redirector_offset := off, pktdrv_INT_handler := h'\<rparr>"
    using install_shared [OF assms] .
  show "shared_ok (c_shared s')" unfolding sh by (rule settings_ok_installed [OF ok])
  show "i < 26 \<Longrightarrow> drive_map (c_shared s') ! i = 0xFF"
    using ok by (simp add: sh settings_ok_def image_ok_def)
qed


section \<open>MOUNT and UMOUNT\<close>

definition opts_ok :: "mount_opts \<Rightarrow> bool" where
  "opts_ok opts \<longleftrightarrow>
     mo_min_rcv_tmo_sec opts \<noteq> 0 \<and> mo_min_rcv_tmo_sec opts \<le> 56 \<and>
     mo_max_rcv_tmo_sec opts \<noteq> 0 \<and> mo_max_rcv_tmo_sec opts \<le> 56 \<and>
     mo_max_request_retries opts \<le> 254 \<and> mo_min_server_read_len opts \<le> 64 \<and>
     mo_min_server_read_len opts AND (mo_min_server_read_len opts - 1) = 0 \<and>
     (case mo_drive opts of None \<Rightarrow> True | Some (_, port, remote, drive_no) \<Rightarrow>
        port \<noteq> 0 \<and> unat remote < 26 \<and> unat drive_no < 26)"

lemma mount_drive_opts: "mount_drive arg as opts = Inr (opts', as') \<Longrightarrow> opts_ok opts \<Longrightarrow> opts_ok opts'"
  unfolding mount_drive_def Let_def
  by (simp split: option.split_asm prod.split_asm list.split_asm if_split_asm;
      simp add: opts_ok_def CLIENT_DRIVES_COUNT_def not_le; auto)

lemma mount_arg_opts: "mount_arg arg opts = Inr opts' \<Longrightarrow> opts_ok opts \<Longrightarrow> opts_ok opts'"
  unfolding mount_arg_def Let_def
  by (simp split: option.split_asm prod.split_asm if_split_asm)
    (auto simp: opts_ok_def not_less retries_ok)

lemma mount_args_opts: "mount_args args opts = Inr opts' \<Longrightarrow> opts_ok opts \<Longrightarrow> opts_ok opts'"
  by (induction args opts rule: mount_args.induct)
    (auto split: if_splits sum.splits prod.splits dest: mount_drive_opts mount_arg_opts)

lemma default_opts_ok: "opts_ok default_mount_opts"
  by (simp add: opts_ok_def default_mount_opts_def)

lemma mount_info_ok: "opts_ok opts \<Longrightarrow> ip_idx < 4 \<Longrightarrow> drive_ok (mount_info opts ip_idx port)"
  by (simp add: drive_ok_def mount_info_def opts_ok_def ticks_ok)


lemma mount_drive_error: "mount_drive arg as opts = Inl e \<Longrightarrow> e \<noteq> EXIT_OK"
  by (auto simp: mount_drive_def Let_def EXIT_OK_def EXIT_BAD_ARG_def EXIT_BAD_DRIVE_LETTER_def
      split: option.splits prod.splits list.splits if_splits)

lemma mount_arg_error: "mount_arg arg opts = Inl e \<Longrightarrow> e \<noteq> EXIT_OK"
  by (auto simp: mount_arg_def Let_def EXIT_OK_def EXIT_BAD_ARG_def EXIT_UNKNOWN_ARG_def
      split: option.splits prod.splits if_splits)

lemma mount_args_error: "mount_args args opts = Inl e \<Longrightarrow> e \<noteq> EXIT_OK"
  by (induction args opts rule: mount_args.induct)
    (auto split: if_splits sum.splits prod.splits dest: mount_drive_error mount_arg_error)

text \<open>A mount that returns leaves the state, or fails for lack of a slot, or mounts the drive.\<close>

lemma mount_cases:
  assumes "mount args st = (Returns r, st')"
  obtains "st' = st" "r \<noteq> EXIT_OK"
  | ip sh where "assign_remote_ip_addr_slot ip (st_shared st) = (0xFF, sh)" "st' = st\<lparr>st_shared := sh\<rparr>" "r \<noteq> EXIT_OK"
  | opts ip port remote drive_no slot sh cds where "mount_args args default_mount_opts = Inr opts"
      "mo_drive opts = Some (ip, port, remote, drive_no)"
      "assign_remote_ip_addr_slot ip (st_shared st) = (slot, sh)" "slot \<noteq> 0xFF" "r = EXIT_OK"
      "st_shared st' = clear_ext_feature drive_no (sh\<lparr>drives := (drives sh)[unat drive_no := mount_info opts slot port],
         drive_map := (drive_map sh)[unat drive_no := remote]\<rparr>)"
      "st_cds st = Some cds" "unat drive_no < length cds" "cds_flags (cds ! unat drive_no) = 0"
      "st_cds st' = Some (cds[unat drive_no := \<lparr>cds_current_path = [ch_A + drive_no, ch_colon, ch_backslash],
         cds_flags = 0xC000\<rparr>])"
proof -
  have codes: "EXIT_MISSING_ARG \<noteq> EXIT_OK" "EXIT_DRIVE_LETTER_ALREADY_USED \<noteq> EXIT_OK"
    "EXIT_NOT_FREE_SLOT_FOR_REMOTE_IP \<noteq> EXIT_OK" "1 \<noteq> EXIT_OK"
    by (simp_all add: EXIT_OK_def EXIT_MISSING_ARG_def EXIT_DRIVE_LETTER_ALREADY_USED_def EXIT_NOT_FREE_SLOT_FOR_REMOTE_IP_def)
  show ?thesis
  proof (cases "mount_args args default_mount_opts")
    case (Inl e)
    then show ?thesis using assms that(1) mount_args_error [OF Inl] by (simp add: mount_def cm_return_def)
  next
    case (Inr opts)
    show ?thesis
    proof (cases "mo_drive opts")
      case None
      then show ?thesis using assms Inr that(1) codes by (simp add: mount_def cm_return_def)
    next
      case (Some d)
      obtain ip port remote drive_no where d: "d = (ip, port, remote, drive_no)" by (cases d)
      obtain slot sh where slot: "assign_remote_ip_addr_slot ip (st_shared st) = (slot, sh)"
        by (cases "assign_remote_ip_addr_slot ip (st_shared st)")
      have "st' = st \<and> r \<noteq> EXIT_OK \<or> slot = 0xFF \<and> st' = st\<lparr>st_shared := sh\<rparr> \<and> r \<noteq> EXIT_OK \<or>
        slot \<noteq> 0xFF \<and> r = EXIT_OK \<and>
        st_shared st' = clear_ext_feature drive_no (sh\<lparr>drives := (drives sh)[unat drive_no := mount_info opts slot port],
          drive_map := (drive_map sh)[unat drive_no := remote]\<rparr>) \<and>
        (\<exists>cds. st_cds st = Some cds \<and> unat drive_no < length cds \<and> cds_flags (cds ! unat drive_no) = 0 \<and>
          st_cds st' = Some (cds[unat drive_no := \<lparr>cds_current_path = [ch_A + drive_no, ch_colon, ch_backslash],
            cds_flags = 0xC000\<rparr>]))"
        using assms Inr Some d slot codes
        by (simp add: mount_def get_cds_def Let_def split: option.split_asm if_split_asm) (elim conjE, hypsubst, simp)
      then show ?thesis
        using Inr Some d slot that by blast
    qed
  qed
qed


lemma shared_ok_maps: "shared_ok sh \<Longrightarrow> length ms = 4 \<Longrightarrow> shared_ok (sh\<lparr>ip_mac_maps := ms\<rparr>)"
  by (simp add: shared_ok_def tables_ok_def)

lemma shared_ok_mounted:
  assumes "shared_ok sh" "drive_ok d" "unat remote < 26"
  shows "shared_ok (clear_ext_feature drive_no (sh\<lparr>drives := (drives sh)[i := d], drive_map := (drive_map sh)[i := remote]\<rparr>))"
  using assms unfolding shared_ok_def tables_ok_def clear_ext_feature_def Let_def
  by (simp add: nth_update word_less_nat_alt)

lemma mount_ok:
  assumes run: "mount args st = (Returns r, st')" and ok: "shared_ok (st_shared st)"
  shows "shared_ok (st_shared st')"
  using run
proof (cases rule: mount_cases)
  case 1
  then show ?thesis using ok by simp
next
  case (2 ip sh)
  then show ?thesis using ok by (auto elim!: assign_slot_frame simp: shared_ok_maps shared_okD)
next
  case (3 opts ip port remote drive_no slot sh cds)
  have opts: "opts_ok opts" by (rule mount_args_opts [OF 3(1) default_opts_ok])
  have "shared_ok sh \<and> slot < 4"
    using 3(3) ok \<open>slot \<noteq> 0xFF\<close> by (auto elim!: assign_slot_frame simp: shared_ok_maps shared_okD)
  moreover have "unat remote < 26" using opts 3(2) by (simp add: opts_ok_def)
  ultimately show ?thesis
    unfolding 3(6) using opts by (simp add: shared_ok_mounted mount_info_ok)
qed

text \<open>DOS knows every mounted drive.\<close>

definition cds_ok :: "dos_setup \<Rightarrow> bool" where
  "cds_ok st \<longleftrightarrow> (\<forall>i < 26. drive_map (st_shared st) ! i \<noteq> 0xFF \<longrightarrow>
     (\<exists>cds. st_cds st = Some cds \<and> i < length cds \<and> cds_flags (cds ! i) \<noteq> 0))"

lemma cds_okD:
  "cds_ok st \<Longrightarrow> i < 26 \<Longrightarrow> drive_map (st_shared st) ! i \<noteq> 0xFF \<Longrightarrow> st_cds st = Some cds \<Longrightarrow>
   i < length cds \<and> cds_flags (cds ! i) \<noteq> 0"
  by (auto simp: cds_ok_def)

definition setup_ok :: "dos_setup \<Rightarrow> bool" where
  "setup_ok st \<longleftrightarrow> shared_ok (st_shared st) \<and> cds_ok st"

lemma umount_ok: "umount drive_no st = (Returns r, st') \<Longrightarrow> setup_ok st \<Longrightarrow> setup_ok st'"
  unfolding umount_def get_cds_def Let_def setup_ok_def
  by (auto simp: shared_ok_def tables_ok_def cds_ok_def nth_update split: option.split_asm if_split_asm)

lemma umount_all_ok: "umount_all ds x st = (Returns r, st') \<Longrightarrow> setup_ok st \<Longrightarrow> setup_ok st'"
  by (induction ds arbitrary: x st)
    (auto simp: cm_defs split: prod.split_asm outcome.split_asm if_split_asm dest: umount_ok)

lemma umount_cmd_ok:
  assumes "umount_cmd args st = (Returns r, st')" "setup_ok st"
  shows "setup_ok st'"
  using assms unfolding umount_cmd_def Let_def
  by (auto simp: cm_defs split: list.split_asm if_split_asm dest: umount_ok umount_all_ok)


section \<open>Reachable configurations\<close>

text \<open>The commands that a user can give after the client was installed.\<close>

inductive resident :: "dos_setup \<Rightarrow> bool" where
  installed: "install mux pd psp handler offset args (s :: unit client) = Inr s' \<Longrightarrow> image_ok (c_shared s) \<Longrightarrow>
    resident \<lparr>st_shared = c_shared s', st_cds = cds\<rparr>"
| mounted: "resident st \<Longrightarrow> mount args st = (Returns r, st') \<Longrightarrow> resident st'"
| umounted: "resident st \<Longrightarrow> umount_cmd args st = (Returns r, st') \<Longrightarrow> resident st'"
| managed: "resident st \<Longrightarrow> nmmanage_main mux args \<lparr>t_data = st_shared st, t_out = []\<rparr> = (Returns r, t) \<Longrightarrow>
    resident (st\<lparr>st_shared := t_data t\<rparr>)"

inductive_cases resident_cases: "resident st"

lemma nmmanage_kept:
  assumes "nmmanage_main mux args t = (Returns r, t')" "shared_ok (t_data t)"
  shows "kept (t_data t) (t_data t')"
  using nmmanage_keeps_ok assms unfolding keeps_ok_def by (blast dest: wp_run)

lemma kept_drive_map: "kept sh sh' \<Longrightarrow> drive_map sh' = drive_map sh"
  unfolding kept_def fixed_part_def
  by (drule conjunct2, drule arg_cong [of _ _ drive_map]) simp

lemma mount_cds:
  assumes run: "mount args st = (Returns r, st')" and ok: "cds_ok st" and len: "length (ip_mac_maps (st_shared st)) = 4"
  shows "cds_ok st'"
  using run
proof (cases rule: mount_cases)
  case 1
  then show ?thesis using ok by simp
next
  case (2 ip sh)
  then show ?thesis using ok len by (auto elim!: assign_slot_frame simp: cds_ok_def)
next
  case (3 opts ip port remote drive_no slot sh cds)
  have "drive_map sh = drive_map (st_shared st)"
    using 3(3) len by (auto elim!: assign_slot_frame)
  then show ?thesis
    using ok 3 by (auto simp: cds_ok_def nth_update clear_ext_feature_def Let_def)
qed

lemma resident_ok: "resident st \<Longrightarrow> setup_ok st"
proof (induction rule: resident.induct)
  case (installed mux pd psp handler offset args s s' cds)
  then show ?case by (auto simp: setup_ok_def cds_ok_def dest: install_ok)
next
  case (mounted st args r st')
  then show ?case by (auto dest: mount_ok mount_cds simp: setup_ok_def shared_okD)
next
  case (umounted st args r st')
  then show ?case by (auto dest: umount_cmd_ok)
next
  case (managed st mux args r t)
  then have "kept (st_shared st) (t_data t)" by (auto simp: setup_ok_def dest: nmmanage_kept)
  then show ?case using managed by (simp add: setup_ok_def kept_drive_map cds_ok_def) (simp add: kept_def)
qed


section \<open>The server of a mounted drive\<close>

definition server_of :: "shared_data \<Rightarrow> nat \<Rightarrow> u32 \<times> u16 \<times> u8" where
  "server_of sh i = (slot_ip sh (unat (remote_ip_idx (drives sh ! i))), remote_port (drives sh ! i), drive_map sh ! i)"

lemma assign_slot_keeps:
  assumes "assign_remote_ip_addr_slot ip sh = (slot, sh')" "length (ip_mac_maps sh) = 4" "length (drives sh) = 26"
    and "i < 26" "slot_ip sh (unat (remote_ip_idx (drives sh ! i))) \<noteq> 0xFFFFFFFF"
  shows "slot_ip sh' (unat (remote_ip_idx (drives sh ! i))) = slot_ip sh (unat (remote_ip_idx (drives sh ! i)))"
proof -
  have "\<not> reusable_slot sh (unat (remote_ip_idx (drives sh ! i)))"
    using assms(3,4) by (auto simp: reusable_slot_def CLIENT_DRIVES_COUNT_def list_ex_iff)
  with assms(1,2) show ?thesis
    by (cases rule: assign_slot_cases) (use assms(5) in \<open>auto simp: frees_def nth_update\<close>)
qed

lemma mount_keeps_others:
  assumes ok: "setup_ok st" and run: "mount args st = (Returns r, st')"
    and i: "i < 26" "drive_map (st_shared st) ! i \<noteq> 0xFF" "fst (server_of (st_shared st) i) \<noteq> 0xFFFFFFFF"
  shows "drives (st_shared st') ! i = drives (st_shared st) ! i" "server_of (st_shared st') i = server_of (st_shared st) i"
proof -
  have len: "length (ip_mac_maps (st_shared st)) = 4" "length (drives (st_shared st)) = 26"
    using ok by (simp_all add: setup_ok_def shared_okD)
  have "drives (st_shared st') ! i = drives (st_shared st) ! i \<and> server_of (st_shared st') i = server_of (st_shared st) i"
    using run
  proof (cases rule: mount_cases)
    case (2 ip sh)
    moreover obtain ms where "sh = st_shared st\<lparr>ip_mac_maps := ms\<rparr>"
      using assign_slot_frame [OF 2(1) len(1)] by blast
    ultimately show ?thesis
      using assign_slot_keeps [OF 2(1) len i(1)] i(3) by (simp add: server_of_def)
  next
    case (3 opts ip port remote drive_no slot sh cds)
    then have "i \<noteq> unat drive_no"
      using ok i by (auto simp: setup_ok_def dest: cds_okD)
    moreover obtain ms where "sh = st_shared st\<lparr>ip_mac_maps := ms\<rparr>"
      using assign_slot_frame [OF 3(3) len(1)] by blast
    ultimately show ?thesis
      using assign_slot_keeps [OF 3(3) len i(1)] i(3)
      by (simp add: server_of_def 3(6) nth_update clear_ext_feature_def Let_def)
  qed simp
  then show "drives (st_shared st') ! i = drives (st_shared st) ! i" "server_of (st_shared st') i = server_of (st_shared st) i"
    by auto
qed

lemma mount_connects:
  assumes ok: "setup_ok st" and run: "mount args st = (Returns EXIT_OK, st')"
  obtains opts ip port remote drive_no where "mount_args args default_mount_opts = Inr opts"
    "mo_drive opts = Some (ip, port, remote, drive_no)" "server_of (st_shared st') (unat drive_no) = (ip, port, remote)"
    "drive_ok (drives (st_shared st') ! unat drive_no)"
  using run
proof (cases rule: mount_cases)
  case (3 opts ip port remote drive_no slot sh cds)
  have opts: "opts_ok opts" by (rule mount_args_opts [OF 3(1) default_opts_ok])
  have len: "length (ip_mac_maps (st_shared st)) = 4" "length (drives (st_shared st)) = 26" "length (drive_map (st_shared st)) = 26"
    using ok by (simp_all add: setup_ok_def shared_okD)
  obtain ms where sh: "sh = st_shared st\<lparr>ip_mac_maps := ms\<rparr>"
    using assign_slot_frame [OF 3(3) len(1)] by blast
  have n: "unat drive_no < 26" using 3(2) opts by (simp add: opts_ok_def)
  have slot: "slot_ip sh (unat slot) = ip" "slot < 4"
    using 3(3) len(1) by (cases rule: assign_slot_cases; use \<open>slot \<noteq> 0xFF\<close> len(1) in \<open>simp add: word_less_nat_alt\<close>)+
  have d: "drives (st_shared st') ! unat drive_no = mount_info opts slot port"
    "drive_map (st_shared st') ! unat drive_no = remote" "ip_mac_maps (st_shared st') = ms"
    using n len by (simp_all add: 3(6) sh clear_ext_feature_def Let_def)
  show ?thesis
  proof (rule that [OF 3(1,2)])
    show "server_of (st_shared st') (unat drive_no) = (ip, port, remote)"
      using slot(1) by (simp add: server_of_def d sh) (simp add: mount_info_def)
    show "drive_ok (drives (st_shared st') ! unat drive_no)"
      unfolding d(1) by (rule mount_info_ok [OF opts slot(2)])
  qed
qed auto



section \<open>A sample configuration\<close>

definition sample_mux :: "bool \<Rightarrow> mux" where
  "sample_mux installed ah = (if installed \<and> ah = 0xC5 then (0xFF, 0x4A41, 0x524F, 0x4E4D) else (0, 0, 0, 0))"

definition sample_pktdrv :: pktdrv where
  "sample_pktdrv = \<lparr>pd_signature = (\<lambda>n. if n = 0x60 then PKTDRV_SIGNATURE else []), pd_vector = (\<lambda>_. 0),
     pd_register_type = (\<lambda>_ _. Inr 1), pd_getaddr = (\<lambda>_ _. (6, [2, 0, 0, 0, 0, 1]))\<rparr>"

definition sample_install :: "int + unit client" where
  "sample_install = install (sample_mux False) sample_pktdrv 0x1000 0 0x1200 [bytes_of ''/IP:10.0.0.2'', bytes_of ''/GW:10.0.0.9''] (sample_client ())"

definition sample_setup :: dos_setup where
  "sample_setup = \<lparr>st_shared = c_shared (projr sample_install),
     st_cds = Some (replicate 26 \<lparr>cds_current_path = [], cds_flags = 0\<rparr>)\<rparr>"

definition sample_mount :: dos_setup where
  "sample_mount = snd (mount [bytes_of ''10.0.0.1:12345/C'', bytes_of ''H''] sample_setup)"

lemma sample_resident: "resident sample_setup"
proof -
  have "\<not> isl sample_install" by code_simp
  then have "install (sample_mux False) sample_pktdrv 0x1000 0 0x1200 [bytes_of ''/IP:10.0.0.2'', bytes_of ''/GW:10.0.0.9'']
      (sample_client ()) = Inr (projr sample_install)"
    by (simp add: sample_install_def)
  then show ?thesis
    unfolding sample_setup_def
    by (rule resident.installed) (simp add: image_ok_def sample_client_def sample_shared_def)
qed

lemma sample_mount_run: "mount [bytes_of ''10.0.0.1:12345/C'', bytes_of ''H''] sample_setup = (Returns EXIT_OK, sample_mount)"
proof -
  have "fst (mount [bytes_of ''10.0.0.1:12345/C'', bytes_of ''H''] sample_setup) = Returns EXIT_OK" by code_simp
  then show ?thesis by (simp add: sample_mount_def prod_eq_iff)
qed

lemma sample_mount_resident: "resident sample_mount"
  by (rule resident.mounted [OF sample_resident sample_mount_run])

text \<open>The address 255.255.255.255 marks a free slot. A drive that is mounted there uses a slot which a later MOUNT
  takes for another server.\<close>

lemma free_mark_overwritten:
  "let st = snd (mount [bytes_of ''255.255.255.255/C'', bytes_of ''J''] sample_mount);
       st' = fold (\<lambda>args st. snd (mount args st))
         [[bytes_of ''10.0.0.7/D'', bytes_of ''K''], [bytes_of ''10.0.0.8/D'', bytes_of ''L'']] st
   in server_of (st_shared st) 9 = (0xFFFFFFFF, 12200, 2) \<and> server_of (st_shared st') 9 = (0x0800000A, 12200, 2)"
  by code_simp


section \<open>Properties\<close>

text \<open>C10: Every configuration that INSTALL, MOUNT, UMOUNT and NMMANAGE can reach is well-formed: the tables
  have their sizes, the port and the MTU are in range, the gateway and every mounted drive name a slot of the
  address table, every mounted drive has time-outs, retries and a read length in range (zero or a power of two
  up to 64), and DOS has a current directory entry in use for it.\<close>

theorem configuration_invariant:
  assumes "resident st"
  shows "shared_ok (st_shared st) \<and> cds_ok st"
  using resident_ok [OF assms] by (simp add: setup_ok_def)

theorem configuration_invariant_witness: "shared_ok (st_shared sample_mount) \<and> cds_ok sample_mount"
  by (rule configuration_invariant [OF sample_mount_resident])

text \<open>C17: NMMANAGE returns an exit code for every list of arguments, on every configuration that can be
  reached: no index leaves its array. It leaves everything alone but the local port, the MTU, the ARP switch,
  the hardware addresses of the table and the five options of a drive, and the result is well-formed
  again.\<close>

theorem manage_returns:
  assumes "resident st"
  shows "\<exists>code t. nmmanage_main mux args \<lparr>t_data = st_shared st, t_out = out\<rparr> = (Returns code, t) \<and>
    shared_ok (t_data t) \<and> fixed_part (t_data t) = fixed_part (st_shared st)"
proof -
  have "shared_ok (st_shared st)" using resident_ok [OF assms] by (simp add: setup_ok_def)
  then have "wp (nmmanage_main mux args) (\<lambda>_ t'. kept (st_shared st) (t_data t')) \<lparr>t_data = st_shared st, t_out = out\<rparr>"
    using nmmanage_keeps_ok [of mux args, unfolded keeps_ok_def, THEN spec, of "\<lparr>t_data = st_shared st, t_out = out\<rparr>"] by simp
  then show ?thesis by (simp add: wp_def kept_def)
qed

theorem manage_returns_witness:
  "\<exists>code t. nmmanage_main (sample_mux True) [bytes_of ''DRIVE'', bytes_of ''H'', bytes_of ''INFO'']
     \<lparr>t_data = st_shared sample_mount, t_out = []\<rparr> = (Returns code, t) \<and>
     shared_ok (t_data t) \<and> fixed_part (t_data t) = fixed_part (st_shared sample_mount)"
  by (rule manage_returns [OF sample_mount_resident])

text \<open>C16: A MOUNT that succeeds connects the local drive it names with the server address, port and
  remote drive of its arguments, with options in range. No MOUNT, successful or not, changes the options or
  the server of a mounted drive, unless the server of this drive is 255.255.255.255: this address marks a
  slot of the address table as free.\<close>

theorem mount_effect:
  assumes "resident st" "mount args st = (Returns code, st')"
  shows "(code = EXIT_OK \<longrightarrow> (\<exists>opts ip port remote drive_no. mount_args args default_mount_opts = Inr opts \<and>
      mo_drive opts = Some (ip, port, remote, drive_no) \<and> server_of (st_shared st') (unat drive_no) = (ip, port, remote) \<and>
      drive_ok (drives (st_shared st') ! unat drive_no))) \<and>
    (\<forall>i < 26. drive_map (st_shared st) ! i \<noteq> 0xFF \<longrightarrow> fst (server_of (st_shared st) i) \<noteq> 0xFFFFFFFF \<longrightarrow>
      drives (st_shared st') ! i = drives (st_shared st) ! i \<and> server_of (st_shared st') i = server_of (st_shared st) i)"
proof (intro conjI allI impI)
  note ok = resident_ok [OF assms(1)]
  show "\<exists>opts ip port remote drive_no. mount_args args default_mount_opts = Inr opts \<and>
      mo_drive opts = Some (ip, port, remote, drive_no) \<and> server_of (st_shared st') (unat drive_no) = (ip, port, remote) \<and>
      drive_ok (drives (st_shared st') ! unat drive_no)" if "code = EXIT_OK"
    by (rule mount_connects [OF ok assms(2) [unfolded that]]) blast
  show "drives (st_shared st') ! i = drives (st_shared st) ! i" "server_of (st_shared st') i = server_of (st_shared st) i"
    if "i < 26" "drive_map (st_shared st) ! i \<noteq> 0xFF" "fst (server_of (st_shared st) i) \<noteq> 0xFFFFFFFF" for i
    by (rule mount_keeps_others [OF ok assms(2) that])+
qed

theorem mount_effect_witness:
  "drives (st_shared (snd (mount [bytes_of ''10.0.0.7/D'', bytes_of ''K''] sample_mount))) ! 7 = drives (st_shared sample_mount) ! 7 \<and>
   server_of (st_shared (snd (mount [bytes_of ''10.0.0.7/D'', bytes_of ''K''] sample_mount))) 7 = (0x0100000A, 12345, 2)"
proof -
  let ?m = "mount [bytes_of ''10.0.0.7/D'', bytes_of ''K''] sample_mount"
  have "fst ?m = Returns EXIT_OK" by code_simp
  then have run: "?m = (Returns EXIT_OK, snd ?m)" by (simp add: prod_eq_iff)
  have "drive_map (st_shared sample_mount) ! 7 \<noteq> 0xFF" "server_of (st_shared sample_mount) 7 = (0x0100000A, 12345, 2)"
    by code_simp+
  then show ?thesis
    using mount_effect [OF sample_mount_resident run] by (simp add: bytes_of_def)
qed

end
