(* ===== verification/ManageValues.thy ===== *)
theory ManageValues
  imports Resident
begin

text \<open>
  The values that the configuration tool reads and prints: numbers and addresses are read back as they
  are printed, by the client and by the tool, and a numeric option or a hardware address that was set is
  printed again with its value.
\<close>

section \<open>Decimal numbers\<close>

lemma digit_of_digit:
  assumes "digit c"
  shows "digit_of c = Some (c - ch_0)" "uint (c - ch_0) = int (unat c - 48)" "unat c - 48 < 10"
proof -
  have c: "48 \<le> unat c" "unat c \<le> 57" using assms by (simp_all add: digit_def word_le_nat_alt)
  then show "digit_of c = Some (c - ch_0)" by (simp add: digit_of_def word_le_nat_alt)
  have "unat (c - ch_0) = unat c - 48" using c by (subst unat_sub) (simp_all add: word_le_nat_alt)
  then show "uint (c - ch_0) = int (unat c - 48)" by (simp flip: uint_nat add: uint_nat)
  show "unat c - 48 < 10" using c by simp
qed

lemma scan_digits_decimal:
  "(\<forall>c \<in> set ds. digit c) \<Longrightarrow> scan_digits 10 (int a) (ds @ rest) = scan_digits 10 (int (decimal_value ds a)) rest"
proof (induction ds arbitrary: a)
  case (Cons c ds)
  then have "digit c" by simp
  from digit_of_digit [OF this] Cons show ?case
    using Cons.IH [of "10 * a + (unat c - 48)"] by (simp add: mult.commute add.commute)
qed simp

text \<open>A rest at which a number in a base ends.\<close>

definition stops :: "int \<Rightarrow> byte list \<Rightarrow> bool" where
  "stops base rest \<longleftrightarrow> (case rest of [] \<Rightarrow> True | c # _ \<Rightarrow> (case digit_of c of None \<Rightarrow> True | Some d \<Rightarrow> base \<le> uint d))"

lemma scan_digits_stops: "stops base rest \<Longrightarrow> scan_digits base n rest = (n, rest)"
  by (cases rest) (auto simp: stops_def split: option.splits)

lemma scan_to_chars: "stops 10 rest \<Longrightarrow> scan_digits 10 0 (to_chars n @ rest) = (int n, rest)"
  using scan_digits_decimal [OF to_chars_digits, of 0 n rest] by (simp add: decimal_value_to_chars scan_digits_stops)

lemma to_chars_hd:
  obtains c cs where "to_chars n = c # cs" "digit c" "c = ch_0 \<Longrightarrow> n = 0"
proof -
  have "\<exists>c cs. to_chars n = c # cs \<and> digit c \<and> (c = ch_0 \<longrightarrow> n = 0)"
  proof (induction n rule: to_chars.induct)
    case (1 n)
    show ?case
    proof (cases "n < 10")
      case True
      then show ?thesis
        using unat_digit [of n] by (intro exI [of _ "ch_0 + of_nat n"]) (auto simp: to_chars.simps [of n] digit_plus)
    next
      case False
      then show ?thesis using 1 by (auto simp: to_chars.simps [of n])
    qed
  qed
  then show thesis using that by blast
qed

lemma digit_not_prefix: "digit c \<Longrightarrow> \<not> is_space c" "digit c \<Longrightarrow> c \<noteq> 0x2D" "digit c \<Longrightarrow> c \<noteq> 0x2B"
  by (auto simp: digit_def is_space_def word_le_nat_alt)


lemma strtoul_decimal:
  assumes "int n \<le> 0xFFFFFFFF" "stops 10 rest" "base = 10 \<or> base = 0 \<and> rest = []"
  shows "strtoul base (to_chars n @ rest) = (of_nat n, rest)" "rest \<noteq> to_chars n @ rest"
proof -
  obtain c cs where c: "to_chars n = c # cs" "digit c" "c = ch_0 \<Longrightarrow> n = 0" by (rule to_chars_hd [of n]) blast
  then show "rest \<noteq> to_chars n @ rest" by (metis append_self_conv2 list.distinct(1))
  note skip = digit_not_prefix [OF c(2)]
  have "scan_number base (to_chars n @ rest) = Some (False, int n, rest)"
  proof (cases "base = 0 \<and> n = 0")
    case True
    then have "rest = []" using assms(3) by auto
    with True show ?thesis by (simp add: to_chars.simps [of 0]) code_simp
  next
    case False
    then have "(base = 0 \<or> base = 16) \<and> hex_prefix (c # cs @ rest) \<longleftrightarrow> False" "base = 0 \<Longrightarrow> c \<noteq> ch_0"
      using c(3) assms(3) by (auto simp: hex_prefix_def split: list.splits)
    then show ?thesis
      using scan_to_chars [OF assms(2), of n] skip assms(3) c(1)
      by (auto simp: scan_number_def Let_def)
  qed
  then show "strtoul base (to_chars n @ rest) = (of_nat n, rest)"
    using assms(1) by (simp add: strtoul_def)
qed

text \<open>The value is the number modulo 65536.\<close>

lemma with_number_decimal: "int n \<le> 0xFFFFFFFF \<Longrightarrow> with_number (to_chars n) f = f (of_nat n)"
proof -
  assume n: "int n \<le> 0xFFFFFFFF"
  have "ucast (of_nat n :: u32) = (of_nat n :: u16)"
    by (rule bit_word_eqI) (simp add: bit_simps)
  then show ?thesis using strtoul_decimal [of n "[]" 0] n by (simp add: with_number_def stops_def)
qed


section \<open>Addresses\<close>

lemma ucast_back: "ucast (ucast x :: u32) = x" for x :: byte
  by (rule bit_word_eqI) (simp add: bit_simps)

lemma strtoul_byte:
  "stops 10 rest \<Longrightarrow> strtoul 10 (to_chars (unat b) @ rest) = (of_nat (unat b), rest) \<and> rest \<noteq> to_chars (unat b) @ rest" for b :: byte
  using strtoul_decimal [of "unat b" rest 10] uint_lt2p [of b] by simp

lemma parse_bytes_decimal:
  "parse_bytes 10 ch_dot 3 (to_chars (unat a) @ [ch_dot] @ to_chars (unat b) @ [ch_dot] @ to_chars (unat c) @ [ch_dot] @ to_chars (unat d)) =
    Some [a, b, c, d]" for a b c d :: byte
proof -
  have s: "stops 10 (ch_dot # rest)" "stops 10 []" for rest by (simp_all add: stops_def digit_of_def)
  have le: "\<not> 255 < (of_nat (unat x) :: u32)" for x :: byte
    using uint_lt2p [of x] by (simp add: word_less_def unsigned_ucast_eq take_bit_int_eq_self)
  show ?thesis
    using strtoul_byte [OF s(1)] strtoul_byte [OF s(2), of d] le
    by (simp add: numeral_3_eq_3 ucast_back)
qed

lemma parse_fmt_ip: "parse_ip_arg (fmt_ip ip) = Some ip"
proof -
  obtain a b c d where ip: "put32 Little ip = [a, b, c, d]"
    by (simp add: put32_def store32_def)
  then have "fmt_ip ip = to_chars (unat a) @ [ch_dot] @ to_chars (unat b) @ [ch_dot] @ to_chars (unat c) @ [ch_dot] @ to_chars (unat d)"
    by (simp add: fmt_ip_def)
  then have "parse_ip_arg (fmt_ip ip) = Some (load32 Little (put32 Little ip))"
    by (simp only: parse_ip_arg_def parse_bytes_decimal ip option.map)
  then show ?thesis by (simp add: put32_def to_little32_def load32_store32 [where r = "[]", simplified])
qed


text \<open>The parser of the client.\<close>

lemma strto_loop_decimal:
  assumes "\<forall>c \<in> set ds. digit c"
  shows "strto_loop 10 (of_nat a) (ds @ rest) = strto_loop 10 (of_nat (decimal_value ds a)) rest"
  using assms
proof (induction ds arbitrary: a)
  case (Cons c ds)
  then have "digit c" by simp
  note c = digit_of_digit [OF this]
  have u: "ucast (c - ch_0) = (of_nat (unat c - 48) :: u16)"
    using c(2) by (metis of_int_of_nat_eq ucast_eq)
  have "\<not> (10 :: u16) \<le> of_nat (unat c - 48)"
    using c(3) by (simp add: word_le_nat_alt unat_of_nat)
  then show ?case
    using c(1) u Cons.IH [of "10 * a + (unat c - 48)"] Cons.prems by (simp add: mult.commute add.commute)
qed simp

lemma strto_ui16_decimal:
  assumes "rest = [] \<or> (\<exists>r. rest = ch_dot # r)"
  shows "strto_ui16 (to_chars n @ rest) = (of_nat n, rest)"
proof -
  obtain c cs where c: "to_chars n = c # cs" "digit c" "c = ch_0 \<Longrightarrow> n = 0" by (rule to_chars_hd [of n]) blast
  have "strto_loop 10 (of_nat 0) (to_chars n @ rest) = strto_loop 10 (of_nat n) rest"
    unfolding strto_loop_decimal [OF to_chars_digits] decimal_value_to_chars ..
  then have run: "strto_loop 10 0 (to_chars n @ rest) = (of_nat n, rest)"
    using assms by (auto simp: digit_of_def)
  have "c = ch_0 \<Longrightarrow> cs = []" using c(1,3) by (simp add: to_chars.simps [of 0])
  then have "strto_ui16 (to_chars n @ rest) = strto_loop 10 0 (to_chars n @ rest)"
    using assms c(1) by (auto simp: strto_ui16_def simp del: strto_loop.simps split: list.split)
  then show ?thesis using run by simp
qed

lemma client_parse_fmt_ip: "parse_ipv4_addr (fmt_ip ip) = Some (ip, [])"
proof -
  obtain a b c d where ip: "put32 Little ip = [a, b, c, d]"
    by (simp add: put32_def store32_def)
  have u: "ucast (ucast x :: u16) = x" for x :: byte
    by (rule bit_word_eqI) (simp add: bit_simps)
  have ne: "rest \<noteq> to_chars k @ rest" for rest k
    by (rule to_chars_hd [of k]) simp
  have "parse_ipv4_loop 3 [] (fmt_ip ip) = Some ([a, b, c, d], [])"
    using ne ne [of "[]", simplified] strto_ui16_decimal [of "[]", simplified]
    by (simp add: fmt_ip_def ip numeral_3_eq_3 strto_ui16_decimal u)
  then have "parse_ipv4_addr (fmt_ip ip) = Some (load32 Little (put32 Little ip), [])"
    by (simp add: parse_ipv4_addr_def ip)
  then show ?thesis by (simp add: put32_def to_little32_def load32_store32 [where r = "[]", simplified])
qed

text \<open>Hardware addresses.\<close>

lemma digit_of_hex_char: "n < 16 \<Longrightarrow> digit_of (hex_char n) = Some n"
  by (rule small_word [of n 15 "\<lambda>n. digit_of (hex_char n) = Some n"]) (simp add: word_less_nat_alt, code_simp)

lemma hex_char_plain:
  "n < 16 \<Longrightarrow> \<not> is_space (hex_char n) \<and> hex_char n \<noteq> 0x2D \<and> hex_char n \<noteq> 0x2B \<and> hex_char n \<noteq> 0x78 \<and> hex_char n \<noteq> 0x58"
  by (rule small_word [of n 15 "\<lambda>n. \<not> is_space (hex_char n) \<and> hex_char n \<noteq> 0x2D \<and> hex_char n \<noteq> 0x2B \<and>
      hex_char n \<noteq> 0x78 \<and> hex_char n \<noteq> 0x58"]) (simp add: word_less_nat_alt, code_simp)

lemma nibbles: "drop_bit 4 b < 16" "b AND 0x0F < 16" "uint (drop_bit 4 b) * 16 + uint (b AND 0x0F) = uint b" for b :: byte
proof -
  have "b AND 0x0F = take_bit 4 b"
    unfolding take_bit_eq_mask by (rule arg_cong [of _ _ "(AND) b"]) code_simp
  then have "uint (b AND 0x0F) = take_bit 4 (uint b)" by (simp only: unsigned_take_bit_eq)
  then have lo: "uint (b AND 0x0F) = uint b mod 16" by (simp add: take_bit_eq_mod)
  have "uint (drop_bit 4 b) = drop_bit 4 (take_bit LENGTH(8) (uint b))" by (simp only: unsigned_drop_bit_eq)
  then have hi: "uint (drop_bit 4 b) = uint b div 16" using uint_lt2p [of b] by (simp add: drop_bit_eq_div take_bit_int_eq_self)
  show "drop_bit 4 b < 16" "b AND 0x0F < 16"
    using uint_lt2p [of b] by (auto simp: word_less_def hi lo)
  show "uint (drop_bit 4 b) * 16 + uint (b AND 0x0F) = uint b"
    unfolding hi lo by simp
qed

lemma strtoul_hex:
  assumes "stops 16 rest"
  shows "strtoul 16 (fmt_02X b @ rest) = (ucast b, rest)" "rest \<noteq> fmt_02X b @ rest"
proof -
  note h = digit_of_hex_char [OF nibbles(1)] digit_of_hex_char [OF nibbles(2)] hex_char_plain [OF nibbles(1)] hex_char_plain [OF nibbles(2)]
  have lt: "uint (drop_bit 4 b) < 16" "uint (b AND 0x0F) < 16"
    using nibbles(1,2) [of b] by (simp_all add: word_less_def)
  have "scan_number 16 (fmt_02X b @ rest) = Some (False, uint b, rest)"
    using h [of b] lt nibbles(3) [of b] scan_digits_stops [OF assms]
    by (auto simp: scan_number_def fmt_02X_def hex_prefix_def Let_def split: list.splits)
  then show "strtoul 16 (fmt_02X b @ rest) = (ucast b, rest)"
    using uint_lt2p [of b] by (simp add: strtoul_def)
  show "rest \<noteq> fmt_02X b @ rest" by (simp add: fmt_02X_def)
qed

lemma parse_fmt_mac: "length m = Suc k \<Longrightarrow> parse_bytes 16 ch_colon k (fmt_mac m) = Some m"
proof (induction k arbitrary: m)
  have s: "stops 16 (ch_colon # rest)" "stops 16 []" for rest by (simp_all add: stops_def digit_of_def)
  have le: "\<not> 255 < (ucast x :: u32)" for x :: byte
    using uint_lt2p [of x] by (simp add: word_less_def unsigned_ucast_eq take_bit_int_eq_self)
  {
    case 0
    then obtain b where "m = [b]" by (auto simp: length_Suc_conv)
    then show ?case using strtoul_hex [OF s(2), where b = b] le [of b] ucast_back [of b] by simp
  next
    case (Suc k)
    then obtain b c m' where m: "m = b # c # m'" by (auto simp: length_Suc_conv)
    then show ?case
      using strtoul_hex [OF s(1) [of "fmt_mac (c # m')"], where b = b] le [of b] ucast_back [of b] Suc.IH [of "c # m'"] Suc.prems
      by (simp add: fmt_02X_def)
  }
qed


text \<open>The printed forms are codecs.\<close>

interpretation ip_text: codec fmt_ip parse_ip_arg "\<lambda>_. True"
  by unfold_locales (simp add: parse_fmt_ip)

interpretation mac_text: codec fmt_mac parse_mac_arg "\<lambda>m. length m = 6"
  by unfold_locales (simp add: parse_mac_arg_def parse_fmt_mac)


section \<open>Setting and reading an option\<close>

lemma mac_slot_spec: "mac_slot ip i ms = Some j \<Longrightarrow> i \<le> j \<and> j - i < length ms \<and> im_ip (ms ! (j - i)) = ip"
proof (induction ms arbitrary: i)
  case (Cons m ms)
  show ?case
  proof (cases "im_ip m = ip")
    case False
    with Cons have "Suc i \<le> j \<and> j - Suc i < length ms \<and> im_ip (ms ! (j - Suc i)) = ip" by simp
    moreover from this have "j - i = Suc (j - Suc i)" by linarith
    ultimately show ?thesis by simp
  qed (use Cons.prems in simp)
qed simp

lemma mac_slot_update:
  "map im_ip ms' = map im_ip ms \<Longrightarrow> mac_slot ip i ms' = mac_slot ip i ms"
proof (induction ms arbitrary: ms' i)
  case (Cons m ms)
  then obtain m' ms'' where "ms' = m' # ms''" "im_ip m' = im_ip m" "map im_ip ms'' = map im_ip ms" by (cases ms') auto
  then show ?case using Cons.IH [of ms'' "Suc i"] by simp
qed simp

lemma fmt_d_small: "n < 32768 \<Longrightarrow> fmt_d (of_nat n) = to_chars n"
proof -
  assume n: "n < 32768"
  have "sint (of_nat n :: u16) = int n"
    using n by (simp add: sint_uint uint_nat unat_of_nat signed_take_bit_int_eq_self)
  then show ?thesis by (simp add: fmt_d_def)
qed

definition numeric_option :: "byte list \<Rightarrow> nat \<Rightarrow> bool" where
  "numeric_option option n \<longleftrightarrow>
     strcaseeq option ''MIN_READ_LEN'' \<and> n \<in> {0, 1, 2, 4, 8, 16, 32, 64} \<or>
     strcaseeq option ''MIN_RCV_TMO'' \<and> 1 \<le> n \<and> n \<le> 56 \<or>
     strcaseeq option ''MAX_RCV_TMO'' \<and> 1 \<le> n \<and> n \<le> 56 \<or>
     strcaseeq option ''MAX_RETRIES'' \<and> n \<le> 254"

lemma tmo_roundtrip: "1 \<le> n \<Longrightarrow> n \<le> 56 \<Longrightarrow> compute_rcv_tmo (ticks_shr_2 (of_nat n)) = of_nat n"
proof -
  have "\<forall>n \<in> set [1..<57]. compute_rcv_tmo (ticks_shr_2 (of_nat n)) = of_nat n" by code_simp
  then show "1 \<le> n \<Longrightarrow> n \<le> 56 \<Longrightarrow> ?thesis" by (auto dest!: bspec [of _ _ n])
qed


lemma strcaseeq_distinct: "strcaseeq s a \<Longrightarrow> map ascii_to_lower (bytes_of a) \<noteq> map ascii_to_lower (bytes_of b) \<Longrightarrow> \<not> strcaseeq s b"
  by (simp add: strcaseeq_def)

lemma strcaseeq_bytes_of: "strcaseeq (bytes_of a) b \<longleftrightarrow> map ascii_to_lower (bytes_of a) = map ascii_to_lower (bytes_of b)"
  by (simp add: strcaseeq_def)

lemma run_with_drive:
  assumes "shared_ok (t_data t)" "unat drive_no < 26" "drive_map (t_data t) ! unat drive_no \<noteq> 0xFF"
  shows "with_drive_no drive_no f t = f (drive_map (t_data t) ! unat drive_no) (drives (t_data t) ! unat drive_no) t"
  using assms by (simp add: with_drive_no_def data_nth_def cm_defs cm_nth_def shared_okD)

lemma run_println: "println bs t = (Returns (), t\<lparr>t_out := t_out t @ bs @ [ch_lf]\<rparr>)"
  and run_set_drive: "set_drive drive_no f t = (Returns EXIT_OK,
    t\<lparr>t_data := t_data t\<lparr>drives := (drives (t_data t))[unat drive_no := f (drives (t_data t) ! unat drive_no)]\<rparr>\<rparr>)"
  by (simp_all add: println_def print_def set_drive_def set_data_def cm_defs)

definition mounted_at :: "u8 \<Rightarrow> shared_data \<Rightarrow> bool" where
  "mounted_at drive_no sh \<longleftrightarrow> shared_ok sh \<and> unat drive_no < 26 \<and> drive_map sh ! unat drive_no \<noteq> 0xFF"

lemma set_get_option:
  assumes m: "mounted_at drive_no (t_data t)"
    and set: "drive_set drive_no option v t = set_drive drive_no f t"
    and get: "\<And>t'. mounted_at drive_no (t_data t') \<Longrightarrow> drive_get drive_no option t' =
        cm_bind (println (fmt_d (g (drives (t_data t') ! unat drive_no)))) (\<lambda>_. cm_return EXIT_OK) t'"
    and val: "\<And>d. fmt_d (g (f d)) = v"
  obtains t1 where "drive_set drive_no option v t = (Returns EXIT_OK, t1)" "t_out t1 = t_out t"
    "drive_get drive_no option t1 = (Returns EXIT_OK, t1\<lparr>t_out := t_out t1 @ v @ [ch_lf]\<rparr>)"
proof -
  let ?t1 = "snd (set_drive drive_no f t)"
  have run: "drive_set drive_no option v t = (Returns EXIT_OK, ?t1)"
    by (simp add: set run_set_drive)
  have "keeps_ok (drive_set drive_no option v)" using m by (simp add: mounted_at_def keeps_ok_drive_set)
  then have "wp (drive_set drive_no option v) (\<lambda>_ t'. kept (t_data t) (t_data t')) t"
    using m by (simp add: keeps_ok_def mounted_at_def)
  then have "kept (t_data t) (t_data ?t1)"
    by (rule wp_run [where m = "drive_set drive_no option v" and s = t, OF run])
  then have "mounted_at drive_no (t_data ?t1)"
    using m by (simp add: mounted_at_def kept_drive_map) (simp add: kept_def)
  from get [OF this] val have "drive_get drive_no option ?t1 = (Returns EXIT_OK, ?t1\<lparr>t_out := t_out ?t1 @ v @ [ch_lf]\<rparr>)"
    using m by (simp add: cm_defs run_println run_set_drive mounted_at_def shared_okD)
  moreover have "t_out ?t1 = t_out t" by (simp add: run_set_drive)
  ultimately show thesis by (intro that [OF run])
qed

lemma run_drive_set: "mounted_at drive_no (t_data t) \<Longrightarrow> with_drive_no drive_no (\<lambda>_ _. m) t = m t"
  and run_drive_get: "mounted_at drive_no (t_data t) \<Longrightarrow>
    with_drive_no drive_no f t = f (drive_map (t_data t) ! unat drive_no) (drives (t_data t) ! unat drive_no) t"
  by (simp_all add: mounted_at_def run_with_drive)

lemma option_names:
  "strcaseeq s ''MIN_READ_LEN'' \<Longrightarrow> \<not> strcaseeq s ''IP'' \<and> \<not> strcaseeq s ''PORT'' \<and> \<not> strcaseeq s ''DRIVE'' \<and>
     \<not> strcaseeq s ''HAS_EXTENDED_FEATURES''"
  "strcaseeq s ''MIN_RCV_TMO'' \<Longrightarrow> \<not> strcaseeq s ''IP'' \<and> \<not> strcaseeq s ''PORT'' \<and> \<not> strcaseeq s ''DRIVE'' \<and>
     \<not> strcaseeq s ''HAS_EXTENDED_FEATURES'' \<and> \<not> strcaseeq s ''MIN_READ_LEN''"
  "strcaseeq s ''MAX_RCV_TMO'' \<Longrightarrow> \<not> strcaseeq s ''IP'' \<and> \<not> strcaseeq s ''PORT'' \<and> \<not> strcaseeq s ''DRIVE'' \<and>
     \<not> strcaseeq s ''HAS_EXTENDED_FEATURES'' \<and> \<not> strcaseeq s ''MIN_READ_LEN'' \<and> \<not> strcaseeq s ''MIN_RCV_TMO''"
  "strcaseeq s ''MAX_RETRIES'' \<Longrightarrow> \<not> strcaseeq s ''IP'' \<and> \<not> strcaseeq s ''PORT'' \<and> \<not> strcaseeq s ''DRIVE'' \<and>
     \<not> strcaseeq s ''HAS_EXTENDED_FEATURES'' \<and> \<not> strcaseeq s ''MIN_READ_LEN'' \<and> \<not> strcaseeq s ''MIN_RCV_TMO'' \<and>
     \<not> strcaseeq s ''MAX_RCV_TMO''"
  by (simp_all only: strcaseeq_def) code_simp+

lemma option_set_get:
  assumes m: "mounted_at drive_no (t_data t)" and opt: "numeric_option option n"
  obtains t1 where "drive_set drive_no option (to_chars n) t = (Returns EXIT_OK, t1)" "t_out t1 = t_out t"
    "drive_get drive_no option t1 = (Returns EXIT_OK, t1\<lparr>t_out := t_out t1 @ to_chars n @ [ch_lf]\<rparr>)"
proof -
  have small: "n \<le> 254" using opt by (auto simp: numeric_option_def)
  then have "int n \<le> 0xFFFFFFFF" by simp
  note set = drive_set_def run_drive_set [OF m] with_number_decimal [OF this]
  note get = drive_get_def run_drive_get Let_def
  have d: "fmt_d (ucast (of_nat n :: u8)) = to_chars n"
    using small by (simp add: unsigned_of_nat take_bit_nat_eq_self fmt_d_small)
  have u: "unat (of_nat n :: u16) = n" using small by (simp add: unat_of_nat)
  show thesis
    using opt unfolding numeric_option_def
  proof (elim disjE conjE)
    assume o: "strcaseeq option ''MIN_READ_LEN''" and n: "n \<in> {0, 1, 2, 4, 8, 16, 32, 64}"
    have "drive_set drive_no option (to_chars n) t = set_drive drive_no (\<lambda>d. d\<lparr>min_server_read_len := of_nat n\<rparr>) t"
      using o n by (auto simp: set)
    from m this show thesis
      by (rule set_get_option [where g = "\<lambda>d. ucast (min_server_read_len d)"])
        (use o option_names(1) [OF o] d that in \<open>simp_all add: get\<close>)
  next
    assume o: "strcaseeq option ''MIN_RCV_TMO''" and n: "1 \<le> n" "n \<le> 56"
    have "drive_set drive_no option (to_chars n) t =
        set_drive drive_no (\<lambda>d. d\<lparr>min_rcv_tmo_18_2_ticks_shr_2 := ticks_shr_2 (of_nat n)\<rparr>) t"
      using o option_names(2) [OF o] n u by (simp add: set word_less_nat_alt)
    from m this show thesis
      by (rule set_get_option [where g = "\<lambda>d. ucast (compute_rcv_tmo (min_rcv_tmo_18_2_ticks_shr_2 d))"])
        (use o option_names(2) [OF o] d tmo_roundtrip [OF n] that in \<open>simp_all add: get\<close>)
  next
    assume o: "strcaseeq option ''MAX_RCV_TMO''" and n: "1 \<le> n" "n \<le> 56"
    have "drive_set drive_no option (to_chars n) t =
        set_drive drive_no (\<lambda>d. d\<lparr>max_rcv_tmo_18_2_ticks_shr_2 := ticks_shr_2 (of_nat n)\<rparr>) t"
      using o option_names(3) [OF o] n u by (simp add: set word_less_nat_alt)
    from m this show thesis
      by (rule set_get_option [where g = "\<lambda>d. ucast (compute_rcv_tmo (max_rcv_tmo_18_2_ticks_shr_2 d))"])
        (use o option_names(3) [OF o] d tmo_roundtrip [OF n] that in \<open>simp_all add: get\<close>)
  next
    assume o: "strcaseeq option ''MAX_RETRIES''" and n: "n \<le> 254"
    have "sint (of_nat n :: u16) = int n"
      using n by (simp add: sint_uint uint_nat unat_of_nat signed_take_bit_int_eq_self)
    then have "drive_set drive_no option (to_chars n) t = set_drive drive_no (\<lambda>d. d\<lparr>max_request_retries := of_nat n\<rparr>) t"
      using o option_names(4) [OF o] n by (simp add: set unsigned_of_nat take_bit_nat_eq_self)
    from m this show thesis
      by (rule set_get_option [where g = "\<lambda>d. ucast (max_request_retries d)"])
        (use o option_names(4) [OF o] d that in \<open>simp_all add: get\<close>)
  qed
qed


lemma mac_set_get:
  assumes "shared_ok (t_data t)" "length m = 6" "ip \<noteq> 0xFFFFFFFF" "ip \<in> set (map im_ip (ip_mac_maps (t_data t)))"
  obtains t1 where "mac_set (fmt_ip ip) (fmt_mac m) t = (Returns EXIT_OK, t1)" "t_out t1 = t_out t"
    "mac_get (fmt_ip ip) t1 = (Returns EXIT_OK, t1\<lparr>t_out := t_out t1 @ fmt_mac m @ [ch_lf]\<rparr>)"
proof -
  let ?ms = "ip_mac_maps (t_data t)"
  have "mac_slot ip i ms \<noteq> None" if "ip \<in> set (map im_ip ms)" for i ms
    using that by (induction ms arbitrary: i) auto
  then obtain i where i: "mac_slot ip 0 ?ms = Some i" using assms(4) by blast
  let ?ms' = "?ms[i := (?ms ! i)\<lparr>im_mac_addr := m\<rparr>]"
  have len: "i < length ?ms" using mac_slot_spec [OF i] by simp
  have "map im_ip ?ms' = map im_ip ?ms" by (rule nth_equalityI) (auto simp: nth_update)
  then have i': "mac_slot ip 0 ?ms' = Some i" using i mac_slot_update by metis
  note mac = mac_text.dec_enc [OF assms(2)]
  show thesis
  proof (rule that)
    show "mac_set (fmt_ip ip) (fmt_mac m) t = (Returns EXIT_OK, t\<lparr>t_data := t_data t\<lparr>ip_mac_maps := ?ms'\<rparr>\<rparr>)"
      using assms(3) i mac by (simp add: mac_set_def with_ip_def parse_fmt_ip set_data_def cm_defs)
  qed (use assms(3) i' len in \<open>simp_all add: mac_get_def with_ip_def parse_fmt_ip cm_defs run_println\<close>)
qed


section \<open>Commands\<close>

definition manageable :: "mux \<Rightarrow> shared_data \<Rightarrow> bool" where
  "manageable mux sh \<longleftrightarrow> fst (find_client mux) \<and> \<not> min_compatible_abi_version sh > ABI_VERSION"

lemma command_names:
  "\<not> strcaseeq (bytes_of ''DRIVE'') ''INFO''" "\<not> strcaseeq (bytes_of ''DRIVE'') ''NET''" "\<not> strcaseeq (bytes_of ''DRIVE'') ''DRIVES''"
  "strcaseeq (bytes_of ''DRIVE'') ''DRIVE''" "\<not> strcaseeq (bytes_of ''MAC'') ''INFO''" "\<not> strcaseeq (bytes_of ''MAC'') ''NET''"
  "\<not> strcaseeq (bytes_of ''MAC'') ''DRIVES''" "\<not> strcaseeq (bytes_of ''MAC'') ''DRIVE''" "\<not> strcaseeq (bytes_of ''MAC'') ''MACS''"
  "strcaseeq (bytes_of ''MAC'') ''MAC''" "\<not> strcaseeq (bytes_of ''SET'') ''INFO''" "\<not> strcaseeq (bytes_of ''SET'') ''GET''"
  "strcaseeq (bytes_of ''SET'') ''SET''" "\<not> strcaseeq (bytes_of ''GET'') ''INFO''" "strcaseeq (bytes_of ''GET'') ''GET''"
  "bytes_of ''DRIVE'' \<noteq> bytes_of ''/?''" "bytes_of ''MAC'' \<noteq> bytes_of ''/?''" "bytes_of ''SET'' \<noteq> bytes_of ''/?''" "bytes_of ''GET'' \<noteq> bytes_of ''/?''"
  by code_simp+

lemma no_help_option: "numeric_option option n \<Longrightarrow> option \<noteq> bytes_of ''/?''"
proof -
  have "\<not> numeric_option (bytes_of ''/?'') n" unfolding numeric_option_def strcaseeq_def by code_simp
  then show "numeric_option option n \<Longrightarrow> option \<noteq> bytes_of ''/?''" by metis
qed


lemma not_help: "digit_of c \<noteq> None \<Longrightarrow> c # cs \<noteq> bytes_of ''/?''"
proof
  have "digit_of 0x2F = None" "bytes_of ''/?'' = [0x2F, 0x3F]" by code_simp+
  then show "digit_of c \<noteq> None \<Longrightarrow> c # cs = bytes_of ''/?'' \<Longrightarrow> False" by simp
qed

lemma to_chars_no_help: "to_chars n @ rest \<noteq> bytes_of ''/?''"
  by (rule to_chars_hd [of n]) (metis append_Cons digit_of_digit(1) not_help option.distinct(1))

lemma fmt_no_help: "fmt_ip ip \<noteq> bytes_of ''/?''" "m \<noteq> [] \<Longrightarrow> fmt_mac m \<noteq> bytes_of ''/?''"
proof -
  show "fmt_ip ip \<noteq> bytes_of ''/?''"
    using to_chars_no_help by (simp add: fmt_ip_def put32_def store32_def)
  show "m \<noteq> [] \<Longrightarrow> fmt_mac m \<noteq> bytes_of ''/?''"
    by (cases m rule: fmt_mac.cases) (simp_all add: fmt_02X_def not_help digit_of_hex_char [OF nibbles(1)])
qed

lemma run_drive_command:
  assumes "manageable mux (t_data t)" "unat (ascii_to_upper c - ch_A) < 26" "option \<noteq> bytes_of ''/?''" "v \<noteq> bytes_of ''/?''"
  shows "nmmanage_main mux [bytes_of ''DRIVE'', [c], bytes_of ''SET'', option, v] t = drive_set (ascii_to_upper c - ch_A) option v t"
    "nmmanage_main mux [bytes_of ''DRIVE'', [c], bytes_of ''GET'', option] t = drive_get (ascii_to_upper c - ch_A) option t"
proof -
  have "[c] \<noteq> bytes_of ''/?''" by (simp add: bytes_of_def)
  then show "nmmanage_main mux [bytes_of ''DRIVE'', [c], bytes_of ''SET'', option, v] t = drive_set (ascii_to_upper c - ch_A) option v t"
    "nmmanage_main mux [bytes_of ''DRIVE'', [c], bytes_of ''GET'', option] t = drive_get (ascii_to_upper c - ch_A) option t"
    using assms by (simp_all add: nmmanage_main_def manageable_def command_names cm_defs drive_cmd_def
      CLIENT_DRIVES_COUNT_def Let_def not_le)
qed

lemma run_mac_command:
  assumes "manageable mux (t_data t)" "ip \<noteq> bytes_of ''/?''" "m \<noteq> bytes_of ''/?''"
  shows "nmmanage_main mux [bytes_of ''MAC'', bytes_of ''SET'', ip, m] t = mac_set ip m t"
    "nmmanage_main mux [bytes_of ''MAC'', bytes_of ''GET'', ip] t = mac_get ip t"
  using assms by (simp_all add: nmmanage_main_def manageable_def command_names cm_defs mac_cmd_def)

lemma kept_manageable: "kept sh sh' \<Longrightarrow> manageable mux sh' = manageable mux sh"
  unfolding kept_def fixed_part_def manageable_def
  by (drule conjunct2, drule arg_cong [of _ _ min_compatible_abi_version]) simp


section \<open>Properties\<close>

text \<open>C18: A numeric option of a mounted drive that NMMANAGE sets to a value in range is printed again by
  GET with that value: the minimum read length, the two time-outs, which are stored in clock ticks, and the
  number of retries.\<close>

theorem option_round_trip:
  assumes "resident st" "manageable mux (st_shared st)"
    and "drive_no = ascii_to_upper c - ch_A" "unat drive_no < 26" "drive_map (st_shared st) ! unat drive_no \<noteq> 0xFF"
    and "numeric_option option n"
  shows "\<exists>t. nmmanage_main mux [bytes_of ''DRIVE'', [c], bytes_of ''SET'', option, to_chars n]
      \<lparr>t_data = st_shared st, t_out = []\<rparr> = (Returns EXIT_OK, t) \<and>
    nmmanage_main mux [bytes_of ''DRIVE'', [c], bytes_of ''GET'', option] t =
      (Returns EXIT_OK, t\<lparr>t_out := to_chars n @ [ch_lf]\<rparr>)"
proof -
  let ?t = "\<lparr>t_data = st_shared st, t_out = []\<rparr>"
  have ok: "shared_ok (st_shared st)" using resident_ok [OF assms(1)] by (simp add: setup_ok_def)
  have m: "mounted_at drive_no (t_data ?t)" using ok assms(4,5) by (simp add: mounted_at_def)
  obtain t1 where t1: "drive_set drive_no option (to_chars n) ?t = (Returns EXIT_OK, t1)" "t_out t1 = t_out ?t"
    "drive_get drive_no option t1 = (Returns EXIT_OK, t1\<lparr>t_out := t_out t1 @ to_chars n @ [ch_lf]\<rparr>)"
    by (rule option_set_get [OF m assms(6)])
  have set: "nmmanage_main mux [bytes_of ''DRIVE'', [c], bytes_of ''SET'', option, to_chars n] ?t = (Returns EXIT_OK, t1)"
    using run_drive_command(1) [of mux ?t c option "to_chars n"] t1(1) assms(2-4) no_help_option [OF assms(6)]
      to_chars_no_help [of n "[]"] by simp
  have "manageable mux (t_data t1)"
    using nmmanage_kept [OF set] ok assms(2) by (simp add: kept_manageable)
  then have "nmmanage_main mux [bytes_of ''DRIVE'', [c], bytes_of ''GET'', option] t1 = drive_get drive_no option t1"
    using run_drive_command(2) assms(3,4) no_help_option [OF assms(6)] to_chars_no_help [of n "[]"] by simp
  with set t1 show ?thesis by (intro exI [of _ t1]) simp
qed

theorem option_round_trip_witness:
  "\<exists>t. nmmanage_main (sample_mux True) [bytes_of ''DRIVE'', [0x68], bytes_of ''SET'', bytes_of ''max_rcv_tmo'', to_chars 56]
      \<lparr>t_data = st_shared sample_mount, t_out = []\<rparr> = (Returns EXIT_OK, t) \<and>
    nmmanage_main (sample_mux True) [bytes_of ''DRIVE'', [0x68], bytes_of ''GET'', bytes_of ''max_rcv_tmo''] t =
      (Returns EXIT_OK, t\<lparr>t_out := to_chars 56 @ [ch_lf]\<rparr>)"
proof (rule option_round_trip [OF sample_mount_resident _ refl])
  show "manageable (sample_mux True) (st_shared sample_mount)" "unat (ascii_to_upper 0x68 - ch_A) < 26"
    "drive_map (st_shared sample_mount) ! unat (ascii_to_upper 0x68 - ch_A) \<noteq> 0xFF" "numeric_option (bytes_of ''max_rcv_tmo'') 56"
    by code_simp+
qed

text \<open>C19: A hardware address that NMMANAGE sets for an address of the table is printed again by GET, where
  both are given in the form that the program prints.\<close>

theorem mac_round_trip:
  assumes "resident st" "manageable mux (st_shared st)" "length m = 6"
    and "ip \<noteq> 0xFFFFFFFF" "ip \<in> set (map im_ip (ip_mac_maps (st_shared st)))"
  shows "\<exists>t. nmmanage_main mux [bytes_of ''MAC'', bytes_of ''SET'', fmt_ip ip, fmt_mac m]
      \<lparr>t_data = st_shared st, t_out = []\<rparr> = (Returns EXIT_OK, t) \<and>
    nmmanage_main mux [bytes_of ''MAC'', bytes_of ''GET'', fmt_ip ip] t =
      (Returns EXIT_OK, t\<lparr>t_out := fmt_mac m @ [ch_lf]\<rparr>)"
proof -
  let ?t = "\<lparr>t_data = st_shared st, t_out = []\<rparr>"
  have ok: "shared_ok (st_shared st)" using resident_ok [OF assms(1)] by (simp add: setup_ok_def)
  have "shared_ok (t_data ?t)" "ip \<in> set (map im_ip (ip_mac_maps (t_data ?t)))" using ok assms(5) by simp_all
  from mac_set_get [OF this(1) assms(3,4) this(2)] obtain t1 where
    t1: "mac_set (fmt_ip ip) (fmt_mac m) ?t = (Returns EXIT_OK, t1)" "t_out t1 = t_out ?t"
    "mac_get (fmt_ip ip) t1 = (Returns EXIT_OK, t1\<lparr>t_out := t_out t1 @ fmt_mac m @ [ch_lf]\<rparr>)" by blast
  have h: "fmt_ip ip \<noteq> bytes_of ''/?''" "fmt_mac m \<noteq> bytes_of ''/?''" using assms(3) by (auto intro!: fmt_no_help)
  have set: "nmmanage_main mux [bytes_of ''MAC'', bytes_of ''SET'', fmt_ip ip, fmt_mac m] ?t = (Returns EXIT_OK, t1)"
    using run_mac_command(1) [of mux ?t, OF _ h] t1(1) assms(2) by simp
  have "manageable mux (t_data t1)"
    using nmmanage_kept [OF set] ok assms(2) by (simp add: kept_manageable)
  then have "nmmanage_main mux [bytes_of ''MAC'', bytes_of ''GET'', fmt_ip ip] t1 = mac_get (fmt_ip ip) t1"
    using run_mac_command(2) [OF _ h] by simp
  with set t1 show ?thesis by (intro exI [of _ t1]) simp
qed

theorem mac_round_trip_witness:
  "\<exists>t. nmmanage_main (sample_mux True) [bytes_of ''MAC'', bytes_of ''SET'', fmt_ip 0x0100000A, fmt_mac [1, 2, 3, 0xAB, 0, 0xFF]]
      \<lparr>t_data = st_shared sample_mount, t_out = []\<rparr> = (Returns EXIT_OK, t) \<and>
    nmmanage_main (sample_mux True) [bytes_of ''MAC'', bytes_of ''GET'', fmt_ip 0x0100000A] t =
      (Returns EXIT_OK, t\<lparr>t_out := fmt_mac [1, 2, 3, 0xAB, 0, 0xFF] @ [ch_lf]\<rparr>)"
proof (rule mac_round_trip [OF sample_mount_resident])
  show "manageable (sample_mux True) (st_shared sample_mount)"
    "0x0100000A \<in> set (map im_ip (ip_mac_maps (st_shared sample_mount)))" by code_simp+
qed simp_all

text \<open>C37: Every address that the programs print is read back, by the parser of the client with the wrap-around of its
  16-bit numbers and by the parser of NMMANAGE.\<close>

theorem address_read_back:
  "parse_ipv4_addr (fmt_ip ip) = Some (ip, []) \<and> parse_ip_arg (fmt_ip ip) = Some ip"
  by (simp add: parse_fmt_ip client_parse_fmt_ip)

text \<open>NMMANAGE cuts a number to 16 bits before it checks the range, so an MTU of n plus any multiple of 65536
  is accepted and stored as n.\<close>

theorem oversized_mtu_accepted:
  assumes "560 \<le> n" "n \<le> 1500" "k < 65536"
  shows "net_set (bytes_of ''MTU'') (to_chars (65536 * k + n)) t =
    (Returns EXIT_OK, t\<lparr>t_data := t_data t\<lparr>interface_mtu := of_nat n\<rparr>\<rparr>)"
proof -
  have "(of_nat (65536 * k + n) :: u16) = of_nat n"
    by (simp add: word_of_nat_eq_iff take_bit_eq_mod del: of_nat_add of_nat_mult)
  moreover have "unat (of_nat n :: u16) = n" using assms by (simp add: unat_of_nat)
  moreover have "\<not> strcaseeq (bytes_of ''MTU'') ''PORT''" "strcaseeq (bytes_of ''MTU'') ''MTU''" by code_simp+
  ultimately show ?thesis
    using assms with_number_decimal [of "65536 * k + n"]
    by (simp add: net_set_def set_data_def cm_defs word_less_nat_alt)
qed

theorem oversized_mtu_accepted_witness:
  "net_set (bytes_of ''MTU'') (to_chars 67036) \<lparr>t_data = st_shared sample_mount, t_out = []\<rparr> =
    (Returns EXIT_OK, \<lparr>t_data = st_shared sample_mount\<lparr>interface_mtu := 1500\<rparr>, t_out = []\<rparr>)"
  using oversized_mtu_accepted [of 1500 1 "\<lparr>t_data = st_shared sample_mount, t_out = []\<rparr>"] by simp

end
