(* ===== verification/Ninstall.thy ===== *)
theory Ninstall
  imports Manage
begin

text \<open>
  The installer (\<^verbatim>\<open>ninstall/ninstall.c\<close>): it reads a configuration file in the format of mTCP character by
  character and runs NETMOUNT INSTALL with the settings it found. The file is the list of the characters that
  \<^verbatim>\<open>fgetc\<close> returns. A store outside of a buffer is the error \<open>Overflow\<close>.
\<close>

section \<open>State\<close>

datatype nstate = KEY | VALUE | IGNORE

datatype setting = IPADDR | NETMASK | GATEWAY | PACKETINT | MTUSIZE

datatype nerror = Exit int | Overflow

definition MAX_EXTRA_ARGS :: nat where "MAX_EXTRA_ARGS = 10"
definition MAX_KEY_LEN :: nat where "MAX_KEY_LEN = 9"
definition MAX_VALUE_LEN :: nat where "MAX_VALUE_LEN = 15"

record ninstall =
  n_state :: nstate
  n_key :: "byte list"
  n_idx :: nat
  n_current :: setting
  n_values :: "setting \<Rightarrow> byte list"
  n_set :: "setting \<Rightarrow> bool"

definition c_string :: "byte list \<Rightarrow> byte list" where
  "c_string buf = takeWhile (\<lambda>c. c \<noteq> 0) buf"

text \<open>The buffers behind the option names hold the value and its end; \<^verbatim>\<open>value\<close> points to none of them at
  first.\<close>

definition ninstall_init :: ninstall where
  "ninstall_init = \<lparr>n_state = KEY, n_key = replicate (MAX_KEY_LEN + 1) 0, n_idx = 0, n_current = IPADDR,
     n_values = (\<lambda>_. replicate (MAX_VALUE_LEN + 1) 0), n_set = (\<lambda>_. False)\<rparr>"

definition setting_of :: "byte list \<Rightarrow> setting option" where
  "setting_of key =
     (if key = bytes_of ''IPADDR'' then Some IPADDR
      else if key = bytes_of ''NETMASK'' then Some NETMASK
      else if key = bytes_of ''GATEWAY'' then Some GATEWAY
      else if key = bytes_of ''PACKETINT'' then Some PACKETINT
      else if key = bytes_of ''MTU'' then Some MTUSIZE
      else None)"

definition store_key :: "nat \<Rightarrow> byte \<Rightarrow> ninstall \<Rightarrow> nerror + ninstall" where
  "store_key i c n = (if i < length (n_key n) then Inr (n\<lparr>n_key := (n_key n)[i := c]\<rparr>) else Inl Overflow)"

definition store_value :: "nat \<Rightarrow> byte list \<Rightarrow> ninstall \<Rightarrow> nerror + ninstall" where
  "store_value i bs n =
     (let buf = n_values n (n_current n) in
      if i + length bs \<le> length buf then Inr (n\<lparr>n_values := (n_values n)(n_current n := overwrite buf i bs)\<rparr>)
      else Inl Overflow)"

definition nbind :: "nerror + 'a \<Rightarrow> ('a \<Rightarrow> nerror + 'b) \<Rightarrow> nerror + 'b" where
  "nbind m f = (case m of Inl e \<Rightarrow> Inl e | Inr x \<Rightarrow> f x)"

text \<open>\<^verbatim>\<open>strtol\<close> of a 32-bit long, which is cut to a 16-bit int.\<close>

definition strtol_int :: "byte list \<Rightarrow> int" where
  "strtol_int str =
     (case scan_number 0 str of
        None \<Rightarrow> 0
      | Some (neg, n, _) \<Rightarrow>
          let v = (if neg then max (- n) (- 0x80000000) else min n 0x7FFFFFFF) in sint (of_int v :: u16))"


section \<open>Reading the file\<close>

definition end_key :: "ninstall \<Rightarrow> nerror + ninstall" where
  "end_key n =
     nbind (store_key (n_idx n) 0 n) (\<lambda>n.
     let n = n\<lparr>n_key := map ascii_to_upper (c_string (n_key n)) @ drop (length (c_string (n_key n))) (n_key n)\<rparr> in
     case setting_of (c_string (n_key n)) of
       Some st \<Rightarrow> Inr (n\<lparr>n_current := st, n_idx := 0, n_state := VALUE\<rparr>)
     | None \<Rightarrow> Inr (n\<lparr>n_state := IGNORE\<rparr>))"

definition end_value :: "ninstall \<Rightarrow> nerror + ninstall" where
  "end_value n =
     nbind (store_value (n_idx n) [0] n) (\<lambda>n.
     nbind (if c_string (n_key n) = bytes_of ''PACKETINT'' then
         let pkt_interrupt = strtol_int (c_string (n_values n (n_current n))) in
         if pkt_interrupt < 0x10 \<or> pkt_interrupt > 0xFF then Inl (Exit 1)
         else store_value 0 (to_chars (nat pkt_interrupt) @ [0]) n
       else Inr n) (\<lambda>n.
     Inr (n\<lparr>n_set := (n_set n)(n_current n := True), n_idx := 0, n_state := KEY\<rparr>)))"

definition ninstall_step :: "byte \<Rightarrow> ninstall \<Rightarrow> nerror + ninstall" where
  "ninstall_step ch n =
     (case n_state n of
        KEY \<Rightarrow>
          if n_idx n = 0 \<and> ch = ch_hash then Inr (n\<lparr>n_state := IGNORE\<rparr>)
          else if n_idx n = 0 \<and> (ch = ch_cr \<or> ch = ch_lf) then Inr n
          else if ch = ch_space then end_key n
          else if n_idx n < MAX_KEY_LEN then
            nbind (store_key (n_idx n) ch n) (\<lambda>n. Inr (n\<lparr>n_idx := n_idx n + 1\<rparr>))
          else Inr (n\<lparr>n_state := IGNORE\<rparr>)
      | VALUE \<Rightarrow>
          if ch = ch_cr \<or> ch = ch_lf then end_value n
          else if n_idx n < MAX_VALUE_LEN then
            nbind (store_value (n_idx n) [ch] n) (\<lambda>n. Inr (n\<lparr>n_idx := n_idx n + 1\<rparr>))
          else Inr (n\<lparr>n_state := IGNORE\<rparr>)
      | IGNORE \<Rightarrow>
          if ch = ch_cr \<or> ch = ch_lf then Inr (n\<lparr>n_idx := 0, n_state := KEY\<rparr>) else Inr n)"

fun ninstall_read :: "byte list \<Rightarrow> ninstall \<Rightarrow> nerror + ninstall" where
  "ninstall_read [] n = Inr n"
| "ninstall_read (ch # f) n = nbind (ninstall_step ch n) (ninstall_read f)"


section \<open>The program\<close>

text \<open>The arguments of NETMOUNT.\<close>

definition ninstall_args :: "byte list list \<Rightarrow> ninstall \<Rightarrow> byte list list" where
  "ninstall_args extra n =
     (let arg = (\<lambda>name st. bytes_of name @ c_string (n_values n st));
          opt = (\<lambda>name st. if n_set n st then [arg name st] else [])
      in [bytes_of ''NETMOUNT'', bytes_of ''INSTALL'', arg ''/IP:'' IPADDR]
         @ opt ''/MASK:'' NETMASK @ opt ''/GW:'' GATEWAY @ opt ''/PKT_INT:'' PACKETINT @ opt ''/MTU:'' MTUSIZE @ extra)"

text \<open>The exit code, or the arguments with which NETMOUNT is run. \<open>fopen\<close> gives the contents of a file.\<close>

definition ninstall_main :: "(byte list \<Rightarrow> byte list option) \<Rightarrow> byte list list \<Rightarrow> nerror + byte list list" where
  "ninstall_main fopen args =
     (case args of
        [] \<Rightarrow> Inl (Exit 1)
      | file # extra \<Rightarrow>
          if length extra > MAX_EXTRA_ARGS then Inl (Exit 1)
          else case fopen file of
            None \<Rightarrow> Inl (Exit 1)
          | Some f \<Rightarrow>
              nbind (ninstall_read f ninstall_init) (\<lambda>n.
              if n_values n IPADDR ! 0 = 0 then Inl (Exit 1) else Inr (ninstall_args extra n)))"

end
