(* ===== verification/NinstallFacts.thy ===== *)
theory NinstallFacts
  imports Ninstall
begin

text \<open>
  Correctness of the installer: no store leaves its buffer, whatever the file contains, and on files that consist of
  comments, blank lines and settings the character-wise reader computes what a reference definition on lines computes.
\<close>

section \<open>Buffers\<close>

definition n_ok :: "ninstall \<Rightarrow> bool" where
  "n_ok n \<longleftrightarrow>
     length (n_key n) = 10 \<and> (\<forall>st. length (n_values n st) = 16 \<and> n_values n st ! 15 = 0) \<and>
     (n_state n = KEY \<longrightarrow> n_idx n \<le> 9) \<and> (n_state n = VALUE \<longrightarrow> n_idx n \<le> 15)"

text \<open>A result that is no overflow, and whose state is well-formed.\<close>

definition n_result :: "nerror + ninstall \<Rightarrow> bool" where
  "n_result r \<longleftrightarrow> (case r of Inl e \<Rightarrow> e \<noteq> Overflow | Inr n \<Rightarrow> n_ok n)"

lemma nbind_simps [simp]: "nbind (Inl e) f = Inl e" "nbind (Inr x) f = f x"
  by (simp_all add: nbind_def)

lemma nth_overwrite: "i < length xs \<Longrightarrow> off + length ys \<le> length xs \<Longrightarrow>
    overwrite xs off ys ! i = (if i < off then xs ! i else if i < off + length ys then ys ! (i - off) else xs ! i)"
  by (auto simp: overwrite_def nth_append)

lemma to_chars_interrupt: "i \<le> 255 \<Longrightarrow> length (to_chars (nat i)) \<le> 3"
  using length_to_chars [of "nat i"] by (auto simp: counter_len_def)

lemma c_string_le: "length (c_string xs) \<le> length xs"
  by (simp add: c_string_def length_takeWhile_le)

lemma end_key_ok: "n_ok n \<Longrightarrow> n_state n = KEY \<Longrightarrow> n_result (end_key n)"
  using c_string_le [of "(n_key n)[n_idx n := 0]"]
  by (auto simp: end_key_def store_key_def n_ok_def n_result_def Let_def split: option.split)

lemma end_value_ok: "n_ok n \<Longrightarrow> n_state n = VALUE \<Longrightarrow> n_result (end_value n)"
  using to_chars_interrupt [of "strtol_int (c_string (overwrite (n_values n (n_current n)) (n_idx n) [0]))"]
  by (auto simp: end_value_def store_value_def n_ok_def n_result_def Let_def length_overwrite nth_overwrite)

lemma ninstall_step_ok: "n_ok n \<Longrightarrow> n_result (ninstall_step ch n)"
proof (cases "n_state n")
  case KEY
  assume "n_ok n"
  then show ?thesis using KEY end_key_ok
    by (auto simp: ninstall_step_def store_key_def n_result_def) (auto simp: n_ok_def MAX_KEY_LEN_def)
next
  case VALUE
  assume "n_ok n"
  then show ?thesis using VALUE end_value_ok
    by (auto simp: ninstall_step_def store_value_def n_result_def Let_def)
      (auto simp: n_ok_def MAX_VALUE_LEN_def length_overwrite nth_overwrite)
next
  case IGNORE
  assume "n_ok n"
  then show ?thesis using IGNORE by (auto simp: ninstall_step_def n_ok_def n_result_def)
qed

lemma ninstall_read_ok: "n_ok n \<Longrightarrow> n_result (ninstall_read f n)"
proof (induction f arbitrary: n)
  case (Cons ch f)
  from ninstall_step_ok [OF Cons.prems, of ch] show ?case
    by (cases "ninstall_step ch n") (use Cons.IH in \<open>auto simp: n_result_def\<close>)
qed (simp add: n_result_def)

lemma init_ok: "n_ok ninstall_init"
  by (simp add: n_ok_def ninstall_init_def MAX_KEY_LEN_def MAX_VALUE_LEN_def)

lemma c_string_length: "length buf = 16 \<Longrightarrow> buf ! 15 = 0 \<Longrightarrow> length (c_string buf) \<le> 15"
proof (rule ccontr)
  assume buf: "length buf = 16" "buf ! 15 = 0" "\<not> length (c_string buf) \<le> 15"
  then have "15 < length (takeWhile (\<lambda>c. c \<noteq> 0) buf)" by (simp add: c_string_def)
  from nth_mem [OF this] takeWhile_nth [OF this] show False
    using buf(2) by (auto dest: set_takeWhileD)
qed


section \<open>A reference definition on lines\<close>

datatype cfg_line = Comment "byte list" | Setting "byte list" "byte list" | Blank

fun render :: "byte list \<Rightarrow> cfg_line \<Rightarrow> byte list" where
  "render eol (Comment txt) = ch_hash # txt @ eol"
| "render eol (Setting k v) = k @ [ch_space] @ v @ eol"
| "render eol Blank = eol"

definition no_eol :: "byte list \<Rightarrow> bool" where
  "no_eol xs \<longleftrightarrow> ch_cr \<notin> set xs \<and> ch_lf \<notin> set xs"

fun line_ok :: "cfg_line \<Rightarrow> bool" where
  "line_ok (Comment txt) = no_eol txt"
| "line_ok (Setting k v) \<longleftrightarrow> k \<noteq> [] \<and> hd k \<noteq> ch_hash \<and> ch_space \<notin> set k \<and> 0 \<notin> set k \<and> no_eol k \<and> no_eol v \<and>
     (setting_of (map ascii_to_upper k) \<noteq> None \<longrightarrow> length v \<le> 15 \<and> 0 \<notin> set v)"
| "line_ok Blank = True"

type_synonym settings = "setting \<rightharpoonup> byte list"

fun apply_line :: "cfg_line \<Rightarrow> settings \<Rightarrow> settings option" where
  "apply_line (Setting k v) s =
     (case setting_of (map ascii_to_upper k) of
        None \<Rightarrow> Some s
      | Some PACKETINT \<Rightarrow>
          let i = strtol_int v in if i < 0x10 \<or> i > 0xFF then None else Some (s(PACKETINT \<mapsto> to_chars (nat i)))
      | Some st \<Rightarrow> Some (s(st \<mapsto> v)))"
| "apply_line _ s = Some s"

fun apply_lines :: "cfg_line list \<Rightarrow> settings \<Rightarrow> settings option" where
  "apply_lines [] s = Some s"
| "apply_lines (l # ls) s = (case apply_line l s of None \<Rightarrow> None | Some s \<Rightarrow> apply_lines ls s)"

definition netmount_args :: "byte list list \<Rightarrow> settings \<Rightarrow> byte list list" where
  "netmount_args extra s =
     (let opt = (\<lambda>name st. case s st of None \<Rightarrow> [] | Some v \<Rightarrow> [bytes_of name @ v]) in
      [bytes_of ''NETMOUNT'', bytes_of ''INSTALL''] @ opt ''/IP:'' IPADDR
      @ opt ''/MASK:'' NETMASK @ opt ''/GW:'' GATEWAY @ opt ''/PKT_INT:'' PACKETINT @ opt ''/MTU:'' MTUSIZE @ extra)"


section \<open>Runs of the reader\<close>

lemma read_append: "ninstall_read (xs @ ys) n = nbind (ninstall_read xs n) (ninstall_read ys)"
  by (induction xs arbitrary: n) (simp_all add: nbind_def split: sum.split)

lemma read_ignore: "n_state n = IGNORE \<Longrightarrow> no_eol xs \<Longrightarrow> ninstall_read xs n = Inr n"
  by (induction xs) (auto simp: ninstall_step_def no_eol_def)

lemma overwrite_snoc: "i + Suc (length ys) \<le> length xs \<Longrightarrow>
    overwrite (overwrite xs i [y]) (Suc i) ys = overwrite xs i (y # ys)"
  by (simp add: overwrite_def ac_simps)

lemma list_update_overwrite: "i < length xs \<Longrightarrow> xs[i := y] = overwrite xs i [y]"
  by (simp add: overwrite_def upd_conv_take_nth_drop)

lemma read_key:
  assumes "n_ok n" "n_state n = KEY" "ch_space \<notin> set xs" "n_idx n + length xs \<le> 9"
    and "n_idx n = 0 \<Longrightarrow> xs \<noteq> [] \<Longrightarrow> hd xs \<noteq> ch_hash \<and> hd xs \<noteq> ch_cr \<and> hd xs \<noteq> ch_lf"
  shows "ninstall_read xs n = Inr (n\<lparr>n_key := overwrite (n_key n) (n_idx n) xs, n_idx := n_idx n + length xs\<rparr>)"
  using assms
proof (induction xs arbitrary: n)
  case Nil
  then show ?case by (simp add: overwrite_def)
next
  case (Cons x xs)
  let ?n = "n\<lparr>n_key := overwrite (n_key n) (n_idx n) [x], n_idx := n_idx n + 1\<rparr>"
  have len: "length (n_key n) = 10" using Cons.prems(1) by (simp add: n_ok_def)
  have "ninstall_step x n = Inr ?n"
    using Cons.prems len by (auto simp: ninstall_step_def store_key_def MAX_KEY_LEN_def list_update_overwrite)
  moreover have "n_ok ?n" using Cons.prems len by (simp add: n_ok_def length_overwrite)
  ultimately show ?case
    using Cons.IH [of ?n] Cons.prems len by (simp add: overwrite_snoc)
qed

lemma read_value:
  assumes "n_ok n" "n_state n = VALUE" "no_eol xs" "n_idx n + length xs \<le> 15"
  shows "ninstall_read xs n = Inr (n\<lparr>n_values := (n_values n)(n_current n := overwrite (n_values n (n_current n)) (n_idx n) xs),
    n_idx := n_idx n + length xs\<rparr>)"
  using assms
proof (induction xs arbitrary: n)
  case Nil
  then show ?case by (simp add: overwrite_def)
next
  case (Cons x xs)
  let ?n = "n\<lparr>n_values := (n_values n)(n_current n := overwrite (n_values n (n_current n)) (n_idx n) [x]), n_idx := n_idx n + 1\<rparr>"
  have len: "length (n_values n st) = 16" for st using Cons.prems(1) by (simp add: n_ok_def)
  have "ninstall_step x n = Inr ?n"
    using Cons.prems len by (auto simp: ninstall_step_def store_value_def MAX_VALUE_LEN_def no_eol_def)
  moreover have "n_ok ?n" using Cons.prems len by (auto simp: n_ok_def length_overwrite nth_overwrite)
  ultimately show ?case
    using Cons.IH [of ?n] Cons.prems len by (simp add: overwrite_snoc no_eol_def cong: if_cong)
qed


section \<open>One line\<close>

text \<open>Between two lines the reader holds the settings of the lines so far.\<close>

definition holds :: "ninstall \<Rightarrow> settings \<Rightarrow> bool" where
  "holds n s \<longleftrightarrow> n_ok n \<and> n_state n = KEY \<and> n_idx n = 0 \<and>
     (\<forall>st. n_set n st = (s st \<noteq> None) \<and> c_string (n_values n st) = (case s st of None \<Rightarrow> [] | Some v \<Rightarrow> v))"

lemma c_string_overwrite: "0 \<notin> set xs \<Longrightarrow> length xs < length buf \<Longrightarrow> c_string (overwrite buf 0 (xs @ [0])) = xs"
  unfolding c_string_def overwrite_def by (simp, subst takeWhile_append2) auto

definition is_eol :: "byte list \<Rightarrow> bool" where
  "is_eol eol \<longleftrightarrow> eol = [ch_lf] \<or> eol = [ch_cr, ch_lf]"

lemma read_eol_key: "is_eol eol \<Longrightarrow> n_state n = KEY \<Longrightarrow> n_idx n = 0 \<Longrightarrow> ninstall_read eol n = Inr n"
  by (auto simp: is_eol_def ninstall_step_def)

lemma read_eol_ignore:
  "is_eol eol \<Longrightarrow> n_state n = IGNORE \<Longrightarrow> ninstall_read eol n = Inr (n\<lparr>n_idx := 0, n_state := KEY\<rparr>)"
  by (auto simp: is_eol_def ninstall_step_def)

lemma read_eol_value:
  "is_eol eol \<Longrightarrow> n_state n = VALUE \<Longrightarrow> ninstall_read eol n = end_value n"
  by (auto simp: is_eol_def ninstall_step_def end_value_def nbind_def split: sum.split if_split)

lemma holds_ignored:
  "holds n s \<Longrightarrow> length k = 10 \<Longrightarrow> holds (n\<lparr>n_key := k, n_idx := 0, n_state := KEY\<rparr>) s"
  by (simp add: holds_def n_ok_def)

definition starts_key :: "byte list \<Rightarrow> bool" where
  "starts_key k \<longleftrightarrow> k \<noteq> [] \<and> hd k \<noteq> ch_hash \<and> hd k \<noteq> ch_cr \<and> hd k \<noteq> ch_lf \<and> ch_space \<notin> set k"

lemma starts_keyI: "k \<noteq> [] \<Longrightarrow> hd k \<noteq> ch_hash \<Longrightarrow> no_eol k \<Longrightarrow> ch_space \<notin> set k \<Longrightarrow> starts_key k"
  by (cases k) (auto simp: starts_key_def no_eol_def)

lemma key_stored:
  assumes "n_ok n" "n_state n = KEY" "n_idx n = 0" "starts_key k" "length k \<le> 9"
  shows "ninstall_read k n = Inr (n\<lparr>n_key := overwrite (n_key n) 0 k, n_idx := length k\<rparr>)"
  using assms read_key [of n k] by (simp add: starts_key_def)

lemma read_long_key:
  assumes "n_ok n" "n_state n = KEY" "n_idx n = 0" "starts_key k" "no_eol (drop 10 k)" "9 < length k"
  obtains key where "ninstall_read k n = Inr (n\<lparr>n_key := key, n_idx := 9, n_state := IGNORE\<rparr>)" "length key = 10"
proof -
  define a x b where "a = take 9 k" and "x = k ! 9" and "b = drop 10 k"
  have k: "k = a @ x # b" "length a = 9"
    using assms(6) id_take_nth_drop [of 9 k] by (simp_all add: a_def x_def b_def)
  let ?m = "n\<lparr>n_key := overwrite (n_key n) 0 a, n_idx := 9\<rparr>"
  have "a \<noteq> []" using k by auto
  then have "starts_key a" using assms(4) by (auto simp: k starts_key_def)
  then have "ninstall_read a n = Inr ?m"
    using key_stored [OF assms(1-3)] k(2) by simp
  moreover have "ninstall_step x ?m = Inr (?m\<lparr>n_state := IGNORE\<rparr>)"
    using assms(2,4) k by (auto simp: ninstall_step_def MAX_KEY_LEN_def starts_key_def)
  moreover have "ninstall_read b (?m\<lparr>n_state := IGNORE\<rparr>) = Inr (?m\<lparr>n_state := IGNORE\<rparr>)"
    using assms(5) by (intro read_ignore) (simp_all add: b_def)
  ultimately have "ninstall_read k n = Inr (?m\<lparr>n_state := IGNORE\<rparr>)"
    by (simp add: k read_append)
  then show thesis
    by (rule that) (use assms(1) k in \<open>simp add: n_ok_def length_overwrite\<close>)
qed

lemma upper_nul: "0 \<notin> set k \<Longrightarrow> 0 \<notin> set (map ascii_to_upper k)"
  using ascii_to_upper_eq_iff [of 0] by auto

lemma end_key_run:
  assumes "length key = 10" "length k \<le> 9" "0 \<notin> set k"
    and n: "n = n0\<lparr>n_key := overwrite key 0 k, n_idx := length k\<rparr>"
  obtains key' where "length key' = 10" "c_string key' = map ascii_to_upper k"
    "end_key n = Inr (case setting_of (map ascii_to_upper k) of
       Some st \<Rightarrow> n0\<lparr>n_key := key', n_current := st, n_idx := 0, n_state := VALUE\<rparr>
     | None \<Rightarrow> n0\<lparr>n_key := key', n_idx := length k, n_state := IGNORE\<rparr>)"
proof -
  define tail where "tail = drop (Suc (length k)) key"
  have "(overwrite key 0 k)[length k := 0] = k @ 0 # tail"
    using assms(1,2) by (simp add: overwrite_def tail_def list_update_append Cons_nth_drop_Suc [symmetric])
  moreover have c: "c_string (xs @ 0 # tail) = xs" if "0 \<notin> set xs" for xs
    using that unfolding c_string_def by (subst takeWhile_append2) auto
  ultimately have "end_key n = Inr (case setting_of (map ascii_to_upper k) of
       Some st \<Rightarrow> n0\<lparr>n_key := map ascii_to_upper k @ 0 # tail, n_current := st, n_idx := 0, n_state := VALUE\<rparr>
     | None \<Rightarrow> n0\<lparr>n_key := map ascii_to_upper k @ 0 # tail, n_idx := length k, n_state := IGNORE\<rparr>)"
    using assms(1-3) upper_nul [OF assms(3)]
    by (simp add: n end_key_def store_key_def length_overwrite Let_def split: option.split)
  then show thesis
    by (rule that [rotated 2]) (use assms(1,2) c [OF upper_nul [OF assms(3)]] in \<open>simp_all add: tail_def\<close>)
qed

lemma setting_of_length: "setting_of k = Some st \<Longrightarrow> length k \<le> 9"
  by (auto simp: setting_of_def bytes_of_def split: if_splits)

lemma setting_of_no_lf: "ch_lf \<in> set k \<Longrightarrow> setting_of k = None"
proof -
  have "ch_lf \<notin> set (bytes_of ''IPADDR'')" "ch_lf \<notin> set (bytes_of ''NETMASK'')" "ch_lf \<notin> set (bytes_of ''GATEWAY'')"
    "ch_lf \<notin> set (bytes_of ''PACKETINT'')" "ch_lf \<notin> set (bytes_of ''MTU'')" by code_simp+
  then show "ch_lf \<in> set k \<Longrightarrow> setting_of k = None" by (auto simp: setting_of_def)
qed

lemma setting_of_packetint: "setting_of k = Some st \<Longrightarrow> k = bytes_of ''PACKETINT'' \<longleftrightarrow> st = PACKETINT"
  by (auto simp: setting_of_def bytes_of_def split: if_splits)

lemma value_stored:
  assumes "length buf = 16" "buf ! 15 = 0" "length w \<le> 15" "0 \<notin> set w"
  shows "length (overwrite buf 0 (w @ [0])) = 16 \<and> overwrite buf 0 (w @ [0]) ! 15 = 0 \<and> c_string (overwrite buf 0 (w @ [0])) = w"
proof -
  have "(w @ [0]) ! 15 = 0" if "\<not> length w < 15" using that assms(3) by (simp add: nth_append)
  then show ?thesis using assms by (auto simp: length_overwrite nth_overwrite c_string_overwrite)
qed

lemma holds_stored:
  assumes "n_ok n0" "length key = 10" "length buf = 16 \<and> buf ! 15 = 0 \<and> c_string buf = w"
    and "\<And>x. n_set n0 x = (s x \<noteq> None)" "\<And>x. c_string (n_values n0 x) = (case s x of None \<Rightarrow> [] | Some v \<Rightarrow> v)"
  shows "holds (n0\<lparr>n_key := key, n_current := c, n_values := (n_values n0)(st := buf), n_set := (n_set n0)(st := True),
    n_idx := 0, n_state := KEY\<rparr>) (s(st \<mapsto> w))"
  using assms by (simp add: holds_def n_ok_def)

lemma to_chars_nul: "0 \<notin> set (to_chars n)"
  using to_chars_digits [of n] by (auto simp: digit_def)

lemma end_value_run:
  assumes ok: "n_ok n0" and len: "length key = 10" "length v \<le> 15" "0 \<notin> set v"
    and key: "c_string key = map ascii_to_upper k" "setting_of (map ascii_to_upper k) = Some st"
    and h: "\<And>x. n_set n0 x = (s x \<noteq> None)" "\<And>x. c_string (n_values n0 x) = (case s x of None \<Rightarrow> [] | Some v \<Rightarrow> v)"
    and n: "n = n0\<lparr>n_key := key, n_current := st, n_state := VALUE,
      n_values := (n_values n0)(st := overwrite (n_values n0 st) 0 v), n_idx := length v\<rparr>"
  shows "case apply_line (Setting k v) s of None \<Rightarrow> end_value n = Inl (Exit 1)
    | Some s' \<Rightarrow> (\<exists>n'. end_value n = Inr n' \<and> holds n' s')"
proof -
  have l: "length (n_values n0 x) = 16" "n_values n0 x ! 15 = 0" for x using ok by (simp_all add: n_ok_def)
  define buf where "buf = overwrite (n_values n0 st) 0 (v @ [0])"
  have buf: "length buf = 16 \<and> buf ! 15 = 0 \<and> c_string buf = v"
    unfolding buf_def by (rule value_stored [OF l len(2,3)])
  have "overwrite (overwrite (n_values n0 st) 0 v) (length v) [0] = buf"
    using len l(1) [of st] by (simp add: overwrite_def buf_def)
  then have s1: "store_value (length v) [0] n = Inr (n\<lparr>n_values := (n_values n0)(st := buf)\<rparr>)"
    using len l by (simp add: n store_value_def Let_def length_overwrite)
  show ?thesis
  proof (cases "st = PACKETINT")
    case False
    then have "c_string key \<noteq> bytes_of ''PACKETINT''" using key setting_of_packetint by simp
    then have "end_value n = Inr (n0\<lparr>n_key := key, n_current := st, n_values := (n_values n0)(st := buf),
        n_set := (n_set n0)(st := True), n_idx := 0, n_state := KEY\<rparr>)"
      using s1 by (simp add: end_value_def n)
    moreover have "apply_line (Setting k v) s = Some (s(st \<mapsto> v))"
      using False key(2) by (cases st) simp_all
    ultimately show ?thesis using holds_stored [OF ok len(1) buf h] by auto
  next
    case True
    then have k: "c_string key = bytes_of ''PACKETINT''" using key setting_of_packetint by simp
    let ?i = "strtol_int v"
    let ?buf = "overwrite buf 0 (to_chars (nat ?i) @ [0])"
    show ?thesis
    proof (cases "?i < 0x10 \<or> ?i > 0xFF")
      case True
      then have "end_value n = Inl (Exit 1)" using s1 k buf by (simp add: end_value_def n Let_def)
      then show ?thesis using True key(2) \<open>st = PACKETINT\<close> by simp
    next
      case False
      then have short: "length (to_chars (nat ?i)) \<le> 3" by (intro to_chars_interrupt) simp
      then have b: "length ?buf = 16 \<and> ?buf ! 15 = 0 \<and> c_string ?buf = to_chars (nat ?i)"
        using buf by (intro value_stored to_chars_nul) simp_all
      have "end_value n = Inr (n0\<lparr>n_key := key, n_current := st, n_values := (n_values n0)(st := ?buf),
          n_set := (n_set n0)(st := True), n_idx := 0, n_state := KEY\<rparr>)"
        using s1 k buf False short by (simp add: end_value_def store_value_def n Let_def)
      moreover have "apply_line (Setting k v) s = Some (s(st \<mapsto> to_chars (nat ?i)))"
        using False True key(2) by simp
      ultimately show ?thesis using holds_stored [OF ok len(1) b h] by auto
    qed
  qed
qed

lemma read_ignored_line:
  assumes "holds n s" "is_eol eol" "ninstall_read xs n = Inr (n\<lparr>n_key := key, n_idx := i, n_state := IGNORE\<rparr>)" "no_eol ys" "length key = 10"
  shows "\<exists>n'. ninstall_read (xs @ ys @ eol) n = Inr n' \<and> holds n' s"
proof -
  let ?m = "n\<lparr>n_key := key, n_idx := i, n_state := IGNORE\<rparr>"
  have "ninstall_read (xs @ ys @ eol) n = Inr (n\<lparr>n_key := key, n_idx := 0, n_state := KEY\<rparr>)"
    using assms read_ignore [of ?m ys] read_eol_ignore [OF assms(2), of ?m] by (simp add: read_append)
  then show ?thesis using holds_ignored [OF assms(1,5)] by blast
qed

lemma read_key_space:
  assumes "n_ok n" "n_state n = KEY" "n_idx n = 0" "starts_key k" "0 \<notin> set k" "length k \<le> 9"
  obtains key where "length key = 10" "c_string key = map ascii_to_upper k"
    "ninstall_read (k @ [ch_space]) n = Inr (case setting_of (map ascii_to_upper k) of
       Some st \<Rightarrow> n\<lparr>n_key := key, n_current := st, n_idx := 0, n_state := VALUE\<rparr>
     | None \<Rightarrow> n\<lparr>n_key := key, n_idx := length k, n_state := IGNORE\<rparr>)"
proof -
  let ?m = "n\<lparr>n_key := overwrite (n_key n) 0 k, n_idx := length k\<rparr>"
  have "length (n_key n) = 10" using assms(1) by (simp add: n_ok_def)
  from end_key_run [OF this assms(6,5) refl, of n] obtain key where key: "length key = 10" "c_string key = map ascii_to_upper k"
    "end_key ?m = Inr (case setting_of (map ascii_to_upper k) of
       Some st \<Rightarrow> n\<lparr>n_key := key, n_current := st, n_idx := 0, n_state := VALUE\<rparr>
     | None \<Rightarrow> n\<lparr>n_key := key, n_idx := length k, n_state := IGNORE\<rparr>)" by blast
  have "ninstall_step ch_space ?m = end_key ?m" using assms(2,4) by (simp add: ninstall_step_def starts_key_def)
  then have "ninstall_read (k @ [ch_space]) n = end_key ?m"
    using key_stored [OF assms(1-4,6)] by (simp add: read_append nbind_def split: sum.split)
  then show thesis using key by (intro that) simp_all
qed

lemma read_line:
  assumes "holds n s" "line_ok l" "is_eol eol"
  shows "case apply_line l s of None \<Rightarrow> ninstall_read (render eol l) n = Inl (Exit 1)
    | Some s' \<Rightarrow> (\<exists>n'. ninstall_read (render eol l) n = Inr n' \<and> holds n' s')"
proof (cases l)
  case (Comment c)
  have "ninstall_step ch_hash n = Inr (n\<lparr>n_state := IGNORE\<rparr>)"
    using assms(1) by (simp add: holds_def ninstall_step_def)
  then show ?thesis
    using Comment assms read_ignore [of "n\<lparr>n_state := IGNORE\<rparr>" c] read_eol_ignore [OF assms(3), of "n\<lparr>n_state := IGNORE\<rparr>"]
    by (simp add: read_append) (simp add: holds_def n_ok_def)
next
  case Blank
  then show ?thesis using assms by (simp add: holds_def read_eol_key)
next
  case (Setting k v)
  then have k: "k \<noteq> []" "hd k \<noteq> ch_hash" "ch_space \<notin> set k" "0 \<notin> set k" "no_eol k" "no_eol v"
    and v: "setting_of (map ascii_to_upper k) \<noteq> None \<Longrightarrow> length v \<le> 15 \<and> 0 \<notin> set v"
    using assms(2) by auto
  have n: "n_ok n" "n_state n = KEY" "n_idx n = 0" "length (n_key n) = 10" using assms(1) by (simp_all add: holds_def n_ok_def)
  have start: "starts_key k" using k by (intro starts_keyI)
  have sp: "no_eol (ch_space # v)" using k(6) by (simp add: no_eol_def)
  show ?thesis
  proof (cases "length k \<le> 9")
    case False
    then have none: "setting_of (map ascii_to_upper k) = None"
      using setting_of_length [of "map ascii_to_upper k"] by fastforce
    have long: "9 < length k" "no_eol (drop 10 k)" using False k(5) by (auto simp: no_eol_def dest: in_set_dropD)
    obtain key where key: "ninstall_read k n = Inr (n\<lparr>n_key := key, n_idx := 9, n_state := IGNORE\<rparr>)" "length key = 10"
      by (rule read_long_key [OF n(1-3) start long(2,1)])
    then show ?thesis
      using read_ignored_line [OF assms(1,3) key(1) sp key(2)] none Setting by simp
  next
    case True
    obtain key where key: "length key = 10" "c_string key = map ascii_to_upper k"
      and run: "ninstall_read (k @ [ch_space]) n = Inr (case setting_of (map ascii_to_upper k) of
       Some st \<Rightarrow> n\<lparr>n_key := key, n_current := st, n_idx := 0, n_state := VALUE\<rparr>
     | None \<Rightarrow> n\<lparr>n_key := key, n_idx := length k, n_state := IGNORE\<rparr>)"
      by (rule read_key_space [OF n(1-3) start k(4) True])
    show ?thesis
    proof (cases "setting_of (map ascii_to_upper k)")
      case None
      then show ?thesis
        using read_ignored_line [OF assms(1,3) run [unfolded None option.case] k(6) key(1)] Setting by simp
    next
      case (Some st)
      let ?n = "n\<lparr>n_key := key, n_current := st, n_idx := 0, n_state := VALUE\<rparr>"
      let ?v = "n\<lparr>n_key := key, n_current := st, n_state := VALUE,
        n_values := (n_values n)(st := overwrite (n_values n st) 0 v), n_idx := length v\<rparr>"
      have vl: "length v \<le> 15" "0 \<notin> set v" using v Some by simp_all
      have "n_ok ?n" using n(1) key(1) by (simp add: n_ok_def)
      then have "ninstall_read v ?n = Inr ?v" using read_value [of ?n v] vl k(6) by simp
      then have "ninstall_read ((k @ [ch_space]) @ v @ eol) n = end_value ?v"
        unfolding read_append [of "k @ [ch_space]"] run
        using Some read_eol_value [OF assms(3), of ?v] by (simp add: read_append)
      then have eq: "ninstall_read (render eol l) n = end_value ?v" using Setting by simp
      have "n_set n x = (s x \<noteq> None)" "c_string (n_values n x) = (case s x of None \<Rightarrow> [] | Some v \<Rightarrow> v)" for x
        using assms(1) by (simp_all add: holds_def)
      from end_value_run [OF n(1) key(1) vl key(2) Some this refl] show ?thesis
        unfolding eq by (simp only: Setting)
    qed
  qed
qed


lemma read_lines:
  assumes "holds n s" "\<forall>l \<in> set ls. line_ok l" "is_eol eol"
  shows "case apply_lines ls s of None \<Rightarrow> ninstall_read (concat (map (render eol) ls)) n = Inl (Exit 1)
    | Some s' \<Rightarrow> (\<exists>n'. ninstall_read (concat (map (render eol) ls)) n = Inr n' \<and> holds n' s')"
  using assms(1,2)
proof (induction ls arbitrary: n s)
  case (Cons l ls)
  have line: "case apply_line l s of None \<Rightarrow> ninstall_read (render eol l) n = Inl (Exit 1)
    | Some s' \<Rightarrow> (\<exists>n'. ninstall_read (render eol l) n = Inr n' \<and> holds n' s')"
    using Cons.prems by (intro read_line [OF _ _ assms(3)]) simp_all
  show ?case
  proof (cases "apply_line l s")
    case None
    then show ?thesis using line by (simp add: read_append)
  next
    case (Some s')
    then obtain n' where "ninstall_read (render eol l) n = Inr n'" "holds n' s'" using line by auto
    then show ?thesis using Some Cons.IH [of n' s'] Cons.prems(2)
      by (cases "apply_lines ls s'") (simp_all add: read_append)
  qed
qed simp

lemma init_holds: "holds ninstall_init Map.empty"
  using init_ok by (simp add: holds_def ninstall_init_def c_string_def MAX_VALUE_LEN_def)

lemma holds_args: "holds n s \<Longrightarrow> s IPADDR \<noteq> None \<Longrightarrow> ninstall_args extra n = netmount_args extra s"
  by (auto simp: holds_def ninstall_args_def netmount_args_def Let_def split: option.splits)

lemma holds_ip: "holds n s \<Longrightarrow> n_values n IPADDR ! 0 = 0 \<longleftrightarrow> (case s IPADDR of None \<Rightarrow> True | Some v \<Rightarrow> v = [])"
proof -
  assume h: "holds n s"
  then have "length (n_values n IPADDR) = 16" by (simp add: holds_def n_ok_def)
  then obtain c cs where c: "n_values n IPADDR = c # cs" by (cases "n_values n IPADDR") auto
  moreover have "c_string (n_values n IPADDR) = (case s IPADDR of None \<Rightarrow> [] | Some v \<Rightarrow> v)" using h by (simp add: holds_def)
  ultimately show ?thesis by (auto simp: c_string_def split: option.splits if_splits)
qed


section \<open>Properties\<close>

text \<open>C11: On a file that consists of comments, blank lines and settings with a value of at most 15 characters, each ended
  by LF or CR LF, the installer runs NETMOUNT with exactly the arguments of the reference definition: the last value of each
  supported key, whatever the case of its letters, the packet interrupt in decimal, and the extra arguments. It fails when
  the packet interrupt is out of range or the address is missing.\<close>

theorem ninstall_refines_lines:
  assumes "\<forall>l \<in> set ls. line_ok l" "is_eol eol" "length extra \<le> 10"
  shows "ninstall_main (\<lambda>_. Some (concat (map (render eol) ls))) (cfg # extra) =
    (case apply_lines ls Map.empty of
       None \<Rightarrow> Inl (Exit 1)
     | Some s \<Rightarrow> (case s IPADDR of
         None \<Rightarrow> Inl (Exit 1) | Some v \<Rightarrow> if v = [] then Inl (Exit 1) else Inr (netmount_args extra s)))"
proof (cases "apply_lines ls Map.empty")
  case None
  then show ?thesis
    using read_lines [OF init_holds assms(1,2)] assms(3) by (simp add: ninstall_main_def MAX_EXTRA_ARGS_def)
next
  case (Some s)
  then obtain n where "ninstall_read (concat (map (render eol) ls)) ninstall_init = Inr n" "holds n s"
    using read_lines [OF init_holds assms(1,2)] by auto
  then show ?thesis
    using Some assms(3) holds_ip [of n s] holds_args [of n s]
    by (auto simp: ninstall_main_def MAX_EXTRA_ARGS_def split: option.splits)
qed

definition sample_lines :: "cfg_line list" where
  "sample_lines = [Comment (bytes_of ''mTCP''), Setting (bytes_of ''PACKETINT'') (bytes_of ''0x60''), Blank,
     Setting (bytes_of ''ipaddr'') (bytes_of ''10.0.0.2''), Setting (bytes_of ''HOSTNAME'') (bytes_of ''DOSBOX'')]"

theorem ninstall_refines_lines_witness:
  "ninstall_main (\<lambda>_. Some (concat (map (render [ch_cr, ch_lf]) sample_lines))) [bytes_of ''MTCP.CFG''] =
    Inr [bytes_of ''NETMOUNT'', bytes_of ''INSTALL'', bytes_of ''/IP:10.0.0.2'', bytes_of ''/PKT_INT:96'']"
proof -
  have "\<forall>l \<in> set sample_lines. line_ok l" by code_simp
  note ninstall_refines_lines [OF this, of "[ch_cr, ch_lf]" "[]" "bytes_of ''MTCP.CFG''"]
  moreover have "(case apply_lines sample_lines Map.empty of
       None \<Rightarrow> Inl (Exit 1)
     | Some s \<Rightarrow> (case s IPADDR of
         None \<Rightarrow> Inl (Exit 1) | Some v \<Rightarrow> if v = [] then Inl (Exit 1) else Inr (netmount_args [] s))) =
    Inr [bytes_of ''NETMOUNT'', bytes_of ''INSTALL'', bytes_of ''/IP:10.0.0.2'', bytes_of ''/PKT_INT:96'']"
    by code_simp
  ultimately show ?thesis by (simp add: is_eol_def)
qed

text \<open>C38: Whatever the file contains, no store of the installer leaves its buffer, each of the values it passes on has at
  most 15 characters, and the argument vector of 18 entries holds the arguments and the final null pointer.\<close>

theorem ninstall_in_bounds:
  "case ninstall_main fopen args of
     Inl e \<Rightarrow> e \<noteq> Overflow
   | Inr out \<Rightarrow> length out < 18 \<and> (\<exists>n. out = ninstall_args (tl args) n \<and> (\<forall>st. length (c_string (n_values n st)) \<le> 15))"
proof (cases args)
  case (Cons cfg extra)
  have args: "length extra \<le> 10 \<Longrightarrow> length (ninstall_args extra n) < 18" for n
    by (simp add: ninstall_args_def Let_def)
  have len: "n_ok n \<Longrightarrow> length (c_string (n_values n st)) \<le> 15" for n st
    by (rule c_string_length) (simp_all add: n_ok_def)
  show ?thesis
  proof (cases "length extra \<le> 10 \<and> fopen cfg \<noteq> None")
    case True
    then obtain f where f: "fopen cfg = Some f" "\<not> length extra > MAX_EXTRA_ARGS" by (auto simp: MAX_EXTRA_ARGS_def)
    have "n_result (ninstall_read f ninstall_init)" by (rule ninstall_read_ok [OF init_ok])
    then show ?thesis
      using Cons f True args len
      by (cases "ninstall_read f ninstall_init") (auto simp: ninstall_main_def n_result_def)
  qed (use Cons in \<open>auto simp: ninstall_main_def MAX_EXTRA_ARGS_def split: option.split\<close>)
qed (simp add: ninstall_main_def)

text \<open>C40: A line that is no setting can hide the line behind it: when it has one to nine characters, is no comment
  (does not start with \<^verbatim>\<open>#\<close>) and has neither a space nor a zero byte, its end becomes part of the key, and the setting on
  the next line has no effect.\<close>

theorem short_line_hides_setting:
  assumes "length k \<le> 9" "starts_key k" "0 \<notin> set k" "no_eol k" "line_ok (Setting key v)" "holds n s"
  shows "\<exists>n'. ninstall_read (k @ [ch_lf] @ render [ch_lf] (Setting key v)) n = Inr n' \<and> holds n' s"
proof -
  let ?k = "k @ ch_lf # key"
  have n: "n_ok n" "n_state n = KEY" "n_idx n = 0" using assms(6) by (simp_all add: holds_def)
  have key: "ch_space \<notin> set key" "0 \<notin> set key" "no_eol key" "no_eol v" using assms(5) by simp_all
  have start: "starts_key ?k" "0 \<notin> set ?k" using assms(2,3) key by (auto simp: starts_key_def)
  have eol: "is_eol [ch_lf]" by (simp add: is_eol_def)
  show ?thesis
  proof (cases "length ?k \<le> 9")
    case True
    have "ch_lf \<in> set (map ascii_to_upper ?k)" by (simp add: ascii_to_upper_def)
    then have none: "setting_of (map ascii_to_upper ?k) = None" by (rule setting_of_no_lf)
    obtain buf where "length buf = 10"
      "ninstall_read (?k @ [ch_space]) n = Inr (n\<lparr>n_key := buf, n_idx := length ?k, n_state := IGNORE\<rparr>)"
      by (rule read_key_space [OF n start True, unfolded none option.case])
    from read_ignored_line [OF assms(6) eol this(2) key(4) this(1)] show ?thesis by simp
  next
    case False
    have "no_eol (drop 10 ?k)" using assms(1) key(3) by (auto simp: no_eol_def drop_Cons' dest: in_set_dropD)
    then obtain buf where "ninstall_read ?k n = Inr (n\<lparr>n_key := buf, n_idx := 9, n_state := IGNORE\<rparr>)" "length buf = 10"
      using read_long_key [OF n start(1)] False by auto
    from read_ignored_line [OF assms(6) eol this(1) _ this(2), of "ch_space # v"] key(4) show ?thesis
      by (simp add: no_eol_def)
  qed
qed

theorem short_line_hides_setting_witness:
  "\<exists>n'. ninstall_read (bytes_of ''DNS'' @ [ch_lf] @ render [ch_lf] (Setting (bytes_of ''IPADDR'') (bytes_of ''10.0.0.2''))) ninstall_init = Inr n' \<and>
    holds n' Map.empty"
proof (rule short_line_hides_setting [OF _ _ _ _ _ init_holds])
  show "length (bytes_of ''DNS'') \<le> 9" "starts_key (bytes_of ''DNS'')" "0 \<notin> set (bytes_of ''DNS'')" "no_eol (bytes_of ''DNS'')"
    "line_ok (Setting (bytes_of ''IPADDR'') (bytes_of ''10.0.0.2''))" by code_simp+
qed

end
