(* ===== verification/Bounded.thy ===== *)
theory Bounded
  imports Serving
begin

text \<open>
  The server answers. No operation of a drive leaves an array, except a read request that asks for
  more than a reply can hold, and every error of the file system is turned into a DOS error code:
  a request whose length fits its function gets an answer, also when the drive is broken.
\<close>

named_theorems bounded_intros \<open>rules that show that an operation stays inside its arrays\<close>

definition bounded :: "('s, 'a) sx \<Rightarrow> bool" where
  "bounded m \<longleftrightarrow> (\<forall>s. fst (m s) \<noteq> Inl OutOfBounds)"

lemma boundedD: "bounded m \<Longrightarrow> fst (m s) \<noteq> Inl OutOfBounds"
  by (simp add: bounded_def)

lemma bounded_basic [bounded_intros]:
  "bounded (sx_return x)" "bounded sx_get" "bounded (sx_modify f)"
  by (simp_all add: bounded_def sx_defs)

lemma bounded_throw [bounded_intros]: "e \<noteq> OutOfBounds \<Longrightarrow> bounded (sx_throw e)"
  by (simp add: bounded_def sx_defs)

lemma bounded_guard [bounded_intros]: "e \<noteq> OutOfBounds \<Longrightarrow> bounded (sx_guard b e)"
  by (simp add: bounded_def sx_defs)

lemma bounded_bind [bounded_intros]: "bounded m \<Longrightarrow> (\<And>x. bounded (f x)) \<Longrightarrow> bounded (sx_bind m f)"
  unfolding bounded_def sx_bind_def by (auto split: prod.split sum.split; metis fst_conv)

lemma bounded_catch [bounded_intros]:
  "bounded m \<Longrightarrow> (\<And>e. e \<noteq> OutOfBounds \<Longrightarrow> bounded (h e)) \<Longrightarrow> bounded (sx_catch m h)"
  unfolding bounded_def sx_catch_def by (auto split: prod.split sum.split; metis fst_conv)

lemma bounded_if [bounded_intros]:
  "(b \<Longrightarrow> bounded m) \<Longrightarrow> (\<not> b \<Longrightarrow> bounded n) \<Longrightarrow> bounded (if b then m else n)"
  by simp

lemma bounded_case_prod [bounded_intros]:
  "(\<And>a b. p = (a, b) \<Longrightarrow> bounded (f a b)) \<Longrightarrow> bounded (case p of (a, b) \<Rightarrow> f a b)"
  by (cases p) simp

lemma bounded_case_option [bounded_intros]:
  "(x = None \<Longrightarrow> bounded m) \<Longrightarrow> (\<And>y. x = Some y \<Longrightarrow> bounded (f y)) \<Longrightarrow>
   bounded (case x of None \<Rightarrow> m | Some y \<Rightarrow> f y)"
  by (cases x) simp_all

lemma bounded_case_sum [bounded_intros]:
  "(\<And>e. x = Inl e \<Longrightarrow> bounded (g e)) \<Longrightarrow> (\<And>y. x = Inr y \<Longrightarrow> bounded (f y)) \<Longrightarrow>
   bounded (case x of Inl e \<Rightarrow> g e | Inr y \<Rightarrow> f y)"
  by (cases x) simp_all

lemma bounded_case_list_step [bounded_intros]:
  "bounded a \<Longrightarrow> bounded b \<Longrightarrow> (\<And>es. bounded (c es)) \<Longrightarrow>
   bounded (case x of ListFailed \<Rightarrow> a | ListFull \<Rightarrow> b | ListEntries es \<Rightarrow> c es)"
  by (cases x) simp_all

lemma bounded_case_io_result [bounded_intros]:
  "bounded a \<Longrightarrow> bounded b \<Longrightarrow> (\<And>x. bounded (c x)) \<Longrightarrow>
   bounded (case r of OpenFailed \<Rightarrow> a | SeekFailed \<Rightarrow> b | Done x \<Rightarrow> c x)"
  by (cases r) simp_all


section \<open>Host functions\<close>

lemma bounded_host_calls [bounded_intros]:
  "bounded (fs_query f)" "bounded (fs_call g)" "bounded (fs_do g')" "bounded (fs_gets f')"
  by (simp_all add: bounded_def fs_defs case_prod_unfold)

lemma bounded_attrs_native [bounded_intros]:
  "bounded (get_dos_attrs_native p)" "bounded (set_dos_attrs_native p a)"
  by (simp_all add: bounded_def get_dos_attrs_native_def set_dos_attrs_native_def Let_def
      split: sum.split prod.split)

lemma bounded_get_extended [bounded_intros]: "bounded (get_dos_attrs_from_extended p)"
  using std_error_not_oob
  by (fastforce simp: bounded_def get_dos_attrs_from_extended_def fs_defs sx_defs split: sum.split)

lemma bounded_set_extended [bounded_intros]: "bounded (set_dos_attrs_to_extended p a)"
  unfolding set_dos_attrs_to_extended_def Let_def by (intro bounded_intros) simp_all

lemma bounded_item_attrs [bounded_intros]:
  "bounded (set_item_attrs p a mode)" "bounded (get_item_attrs p mode)"
  unfolding set_item_attrs_def get_item_attrs_def by (intro bounded_intros; simp)+

lemma bounded_properties [bounded_intros]: "bounded (get_path_dos_properties env p mode)"
  unfolding get_path_dos_properties_def Let_def by (intro bounded_intros)

lemma bounded_host_functions [bounded_intros]:
  "bounded (make_dir p)" "bounded (delete_dir p)" "bounded (change_dir p)"
  "bounded (create_or_truncate_file env p a mode)" "bounded (try_open_file p om)"
  "bounded (resize_file p n)" "bounded (delete_file p)" "bounded (rename_file p q)" "bounded (fs_space_info p)"
  unfolding make_dir_def delete_dir_def change_dir_def create_or_truncate_file_def try_open_file_def
    resize_file_def delete_file_def rename_file_def fs_space_info_def Let_def
  by (intro bounded_intros; simp)+


section \<open>Operations of the drive\<close>

lemma bounded_on_host [bounded_intros]: "bounded m \<Longrightarrow> bounded (on_host m)"
  by (simp add: bounded_def on_host_def case_prod_unfold)

lemma bounded_state [bounded_intros]:
  "bounded (gets_drive f)" "bounded (update_item n g)" "bounded (update_last_used_timestamp n)"
  "bounded (get_item n)" "bounded (get_handle p)"
  by (simp_all add: bounded_def gets_drive_def update_item_def update_last_used_timestamp_def get_item_def
      get_handle_def Let_def split: prod.split sum.split)

lemma bounded_guards [bounded_intros]:
  "bounded ro_guard" "bounded (not_root_guard p)" "bounded m \<Longrightarrow> bounded (forget m)"
  unfolding ro_guard_def not_root_guard_def forget_def by (intro bounded_intros; simp)+

lemma bounded_directory_list_loop [bounded_intros]: "bounded (directory_list_loop env d p fnames dl names)"
proof (induction fnames arbitrary: dl names)
  case (Cons fname fnames)
  show ?case
    unfolding directory_list_loop.simps first_entries_def dot_entry_def Let_def by (intro bounded_intros Cons.IH)
qed (simp add: bounded_basic)

lemma bounded_listing [bounded_intros]: "bounded (create_directory_list env n)"
  unfolding create_directory_list_def by (intro bounded_intros)

lemma bounded_get_server_name [bounded_intros]: "bounded (get_server_name env n fcb c)"
  unfolding get_server_name_def Let_def by (intro bounded_intros)

lemma bounded_server_path_loop [bounded_intros]: "bounded (server_path_loop env c p parts)"
proof (induction parts arbitrary: p)
  case (Cons part parts)
  show ?case unfolding server_path_loop.simps Let_def by (intro bounded_intros Cons.IH) simp
qed (simp add: bounded_basic)

lemma bounded_create_server_path [bounded_intros]: "bounded (create_server_path env p c)"
  unfolding create_server_path_def Let_def by (intro bounded_intros; simp)

lemma bounded_files [bounded_intros]:
  "bounded (get_handle_path n)" "bounded (read_file n off len)" "bounded (write_file bs n off)"
  "bounded (get_file_size env n)" "bounded (set_file_date_time env n t)" "bounded (find_file env n tmpl attr pos)"
  unfolding get_handle_path_def read_file_def write_file_def get_file_size_def set_file_date_time_def
    find_file_def Let_def
  by (intro bounded_intros; simp)+

lemma bounded_attrs [bounded_intros]:
  "bounded (get_server_path_attrs p)" "bounded (attrs_or_none p)" "bounded (get_server_path_dos_properties env p)"
  unfolding get_server_path_attrs_def attrs_or_none_def get_server_path_dos_properties_def
  by (intro bounded_intros)+

lemma bounded_delete_host_entries [bounded_intros]: "bounded (delete_host_entries dir fcb fnames)"
proof (induction fnames)
  case (Cons fname fnames)
  show ?case unfolding delete_host_entries.simps Let_def by (intro bounded_intros Cons.IH)
qed (simp add: bounded_basic)

lemma bounded_delete_listed [bounded_intros]: "bounded (delete_listed dir fcb ps)"
proof (induction ps)
  case (Cons p ps)
  show ?case unfolding delete_listed.simps Let_def by (intro bounded_intros Cons.IH)
qed (simp add: bounded_basic)

lemma bounded_drive_operations [bounded_intros]:
  "bounded (drive_make_dir env p)" "bounded (drive_delete_dir env p)" "bounded (drive_change_dir env p)"
  "bounded (drive_set_item_attrs env p a)" "bounded (get_dos_properties env p)"
  "bounded (drive_rename_file env p q)" "bounded (delete_files env p)"
  "bounded (drive_create_or_truncate_file env p a cur)" "bounded (drive_try_open_file p om cur)"
  "bounded space_info"
  unfolding drive_make_dir_def drive_delete_dir_def drive_change_dir_def drive_set_item_attrs_def
    get_dos_properties_def drive_rename_file_def delete_files_def drive_create_or_truncate_file_def
    drive_try_open_file_def space_info_def Let_def
  by (intro bounded_intros; simp)+

lemma bounded_open_create [bounded_intros]:
  "bounded (do_open_file env p a)" "bounded (do_create_file env p q a)"
  "bounded (do_extended_open_create env p q req)"
  unfolding do_open_file_def do_create_file_def do_extended_open_create_def Let_def
  by (intro bounded_intros; simp)+



section \<open>Requests\<close>

text \<open>Computations that return normally from every state.\<close>

definition returns :: "('s, 'a) sx \<Rightarrow> bool" where
  "returns m \<longleftrightarrow> (\<forall>s. \<exists>x. fst (m s) = Inr x)"

lemma returns_return: "returns (sx_return x)"
  by (simp add: returns_def sx_defs)

lemma returns_bind: "returns m \<Longrightarrow> (\<And>x. returns (f x)) \<Longrightarrow> returns (sx_bind m f)"
  unfolding returns_def sx_bind_def by (auto split: prod.split sum.split; metis fst_conv sum.distinct(1))

lemma returns_catch: "bounded m \<Longrightarrow> (\<And>e. returns (h e)) \<Longrightarrow> returns (sx_catch m h)"
  unfolding returns_def bounded_def sx_catch_def by (auto split: prod.split sum.split; metis fst_conv)

lemma returns_answer_errors: "bounded m \<Longrightarrow> returns (answer_errors c m)"
  unfolding answer_errors_def by (intro returns_catch returns_return)

lemma returns_if: "(b \<Longrightarrow> returns m) \<Longrightarrow> (\<not> b \<Longrightarrow> returns n) \<Longrightarrow> returns (if b then m else n)"
  by simp

lemma returns_done_ok: "returns done_ok"
  by (simp add: done_ok_def returns_return)

lemma returns_case_prod: "(\<And>a b. returns (f a b)) \<Longrightarrow> returns (case p of (a, b) \<Rightarrow> f a b)"
  by (cases p) simp

lemma returns_state:
  "returns (gets_drive f)" "returns (update_item n g)" "returns (update_last_used_timestamp n)"
  by (simp_all add: returns_def gets_drive_def update_item_def update_last_used_timestamp_def Let_def)

lemmas returns_intros = returns_return returns_done_ok returns_case_prod returns_state returns_bind returns_answer_errors returns_catch returns_if

lemma bounded_done_ok [bounded_intros]: "bounded done_ok"
  by (simp add: done_ok_def bounded_basic)

text \<open>The one request that is not bounded by itself asks for more than a reply can hold.\<close>

definition long_read :: "endian \<Rightarrow> int2f \<Rightarrow> byte list \<Rightarrow> bool" where
  "long_read native f data \<longleftrightarrow> f = INT2F_READ_FILE \<and> length data = 8 \<and> REPLY_DATA_SIZE < unat (rf_length (readf_of native data))"

lemma returns_read_file:
  assumes "\<not> long_read (e_native env) INT2F_READ_FILE data"
  shows "returns (req_read_file env data)"
  unfolding returns_def
proof
  fix s
  let ?r = "readf_of (e_native env) data"
  obtain r s1 where r: "read_file (rf_start_cluster ?r) (rf_offset ?r) (rf_length ?r) s = (r, s1)" by fastforce
  show "\<exists>x. fst (req_read_file env data s) = Inr x"
    using r assms read_file_bound [of "rf_start_cluster ?r" "rf_offset ?r" "rf_length ?r" s _ s1]
      read_file_no_oob [of "rf_start_cluster ?r" "rf_offset ?r" "rf_length ?r" s]
    by (cases r) (auto simp: req_read_file_def answer_errors_def sx_defs long_read_def Let_def dest: order_trans)
qed

lemma returns_handle_function:
  assumes "\<not> long_read (e_native env) f data" "f \<noteq> INT2F_FIND_FIRST"
  shows "returns (handle_function env ext f data)"
proof (cases "f = INT2F_READ_FILE")
  case True
  then show ?thesis using returns_read_file assms(1) by simp
next
  case False
  then show ?thesis using assms(2)
    by (cases f; simp only: handle_function.simps req_defs Let_def;
      (intro returns_intros bounded_intros; (simp split: prod.split add: returns_return)?)?)
qed


text \<open>A search looks into the listing outside of the \<^verbatim>\<open>try\<close> block. Its handle is always good, because the
  directory of a path below the absolute root of a share is not the empty path.\<close>

definition live :: "dstate \<Rightarrow> bool" where
  "live s \<longleftrightarrow> length (d_items (s_drive s)) \<le> MAX_HANDLE_COUNT \<and> (d_used (s_drive s) \<longrightarrow> p_abs (d_root (s_drive s)))"

lemma live_set_items: "live s \<Longrightarrow> length is \<le> MAX_HANDLE_COUNT \<Longrightarrow> live (set_items is s)"
  by (simp add: live_def set_items_def)

lemma live_get_handle: "keeps live (get_handle p)"
  unfolding keeps_def
proof (intro allI impI)
  fix s assume s: "live s"
  then have "length (d_items (s_drive s)) \<le> MAX_HANDLE_COUNT" by (simp add: live_def)
  from get_handle_spec [OF this, of p] obtain i items' where
    "get_handle p s = (Inr (of_nat i), set_items items' s)"
    "handed_out p (h_clock (s_host s)) i (d_items (s_drive s)) items'" by metis
  then show "live (snd (get_handle p s))"
    using s by (auto simp: handed_out_def live_def set_items_def)
qed

lemma live_host: "live (s\<lparr>s_host := h\<rparr>) = live s"
  by (simp add: live_def)

lemma live_update_item: "keeps live (update_item n f)"
  by (intro keeps_update_item live_set_items) (simp_all add: live_def)

interpretation upkeep: server_invariant live
proof
  note [keeps_intros] = live_get_handle live_update_item
  show touch [keeps_intros]: "keeps live (update_last_used_timestamp n)" for n
    using keepsD [OF live_update_item] by (intro keeps_touch)
  show [keeps_intros]: "keeps live (create_directory_list env n)" for env n
    unfolding create_directory_list_def by (intro keeps_intros keeps_look)
  show "keeps live (get_server_name env n fcb c)" for env n fcb c
    unfolding get_server_name_def Let_def by (intro keeps_intros keeps_look)
qed (simp_all add: live_host live_get_handle)

text \<open>Paths of the server stay absolute.\<close>

lemma path_append_abs: "p_abs p \<Longrightarrow> p_abs (path_append p q)" "p_abs p \<Longrightarrow> p_abs (append_name p nm)"
  "p_abs (parent_path p) = p_abs p"
  by (simp_all add: path_append_def append_name_def parent_path_def Let_def)

lemma keeps_True: "keeps (\<lambda>_. True) m"
  by (simp add: keeps_def)

lemma server_path_loop_abs: "p_abs p \<Longrightarrow> yields (\<lambda>_. True) (\<lambda>(q, ex). p_abs q) (server_path_loop env c p parts)"
proof (induction parts arbitrary: p)
  case (Cons part parts)
  then show ?case
    unfolding server_path_loop.simps Let_def
    by (intro yields_bind yields_if yields_return yields_throw Cons.IH keeps_True) (simp_all add: path_append_abs)
qed (simp add: yields_return)


lemma create_server_path_abs:
  assumes "p_abs (d_root (s_drive s))" "create_server_path env cp c s = (Inr (q, ex), s')"
  shows "p_abs q"
proof -
  let ?d = "s_drive s"
  have loop: "p_abs q" if "server_path_loop env c (d_root ?d) (path_parts cp) s = (Inr (q, ex), s')"
    using yieldsD [OF server_path_loop_abs [OF assms(1)] _ that] by simp
  have off: "p_abs (path_append (d_root ?d) cp)" using assms(1) by (rule path_append_abs)
  show ?thesis
    using assms loop off unfolding create_server_path_def
    by (auto simp: gets_drive_def sx_defs Let_def split: if_splits option.splits prod.splits sum.splits)
qed

lemma returns_listing: "returns (create_directory_list env n)"
  unfolding create_directory_list_def by (intro returns_intros bounded_intros)

lemma find_file_returns:
  assumes "live s" "get_handle p s = (Inr h, s1)" "\<not> path_is_empty p"
  shows "\<exists>x. fst (find_file env h tmpl attr pos s1) = Inr x"
proof -
  have "length (d_items (s_drive s)) \<le> MAX_HANDLE_COUNT" using assms(1) by (simp add: live_def)
  from get_handle_spec [OF this, of p] obtain i items' where
    i: "get_handle p s = (Inr (of_nat i), set_items items' s)"
      "handed_out p (h_clock (s_host s)) i (d_items (s_drive s)) items'" by metis
  then have h: "unat h = i" "s1 = set_items items' s"
    using assms(2) by (auto simp: handed_out_def unat_of_handle)
  then have item: "get_item h s1 = (Inr (items' ! i), s1)"
    using i(2) assms(3) by (simp add: get_item_def set_items_def handed_out_def)
  have "\<exists>x. fst (create_directory_list env h s1) = Inr x"
    using returns_listing by (auto simp: returns_def)
  then show ?thesis
    using item by (cases "attr = FAT_VOLUME") (auto simp: find_file_def sx_defs gets_drive_def split: prod.splits sum.splits option.splits)
qed


lemma find_first_returns:
  assumes "live s" "d_used (s_drive s)"
  shows "\<exists>x. fst (req_find_first env data s) = Inr x"
proof (cases "length data \<le> 1")
  case True
  then show ?thesis by (simp add: req_find_first_def sx_defs)
next
  case False
  let ?cp = "create_relative_path (drop 1 data)"
  obtain r s1 where c: "create_server_path env ?cp False s = (r, s1)" by fastforce
  show ?thesis
  proof (cases r)
    case (Inl e)
    with c have "e \<noteq> OutOfBounds" using boundedD [OF bounded_create_server_path, of env ?cp False s] by auto
    with Inl c False show ?thesis by (simp add: req_find_first_def sx_defs Let_def)
  next
    case (Inr qe)
    obtain q ex where qe: "qe = (q, ex)" by fastforce
    have abs: "p_abs q" using create_server_path_abs [of s env ?cp False q ex s1] assms c Inr qe by (simp add: live_def)
    have s1: "live s1" using keepsD [OF upkeep.create_server_path_keeps assms(1), of env ?cp False] c by simp
    obtain h s2 where g: "get_handle (parent_path q) s1 = (Inr h, s2)"
      using get_handle_spec [of s1 "parent_path q"] s1 unfolding live_def by metis
    have "\<exists>x. fst (find_file env h tmpl attr 0 s2) = Inr x" for tmpl attr
      using find_file_returns [OF s1 g] abs by (simp add: path_is_empty_def path_append_abs)
    then have "\<exists>x s3. find_file env h tmpl attr 0 s2 = (Inr x, s3)" for tmpl attr
      by (metis prod.collapse)
    then obtain x s3 where "find_file env h (short_name_to_fcb (filename ?cp)) (data ! 0) 0 s2 = (Inr x, s3)"
      by blast
    then show ?thesis using c Inr qe g False
      by (auto simp: req_find_first_def sx_defs Let_def split: option.split)
  qed
qed

text \<open>The lengths that the functions expect.\<close>

fun sized :: "bool \<Rightarrow> int2f \<Rightarrow> byte list \<Rightarrow> bool" where
  "sized ext INT2F_CLOSE_FILE data \<longleftrightarrow> length data = (if ext then 6 else 2)"
| "sized ext INT2F_READ_FILE data \<longleftrightarrow> length data = 8"
| "sized ext INT2F_WRITE_FILE data \<longleftrightarrow> 6 \<le> length data"
| "sized ext INT2F_LOCK_UNLOCK_FILE data \<longleftrightarrow> 4 \<le> length data"
| "sized ext INT2F_UNLOCK_FILE data \<longleftrightarrow> 4 \<le> length data"
| "sized ext INT2F_DISK_INFO data \<longleftrightarrow> data = []"
| "sized ext INT2F_DISK_INFO_LARGE data \<longleftrightarrow> data = []"
| "sized ext INT2F_SET_ATTRS data \<longleftrightarrow> 2 \<le> length data"
| "sized ext INT2F_RENAME_FILE data \<longleftrightarrow> 3 \<le> length data \<and> unat (data ! 0) + 1 < length data"
| "sized ext INT2F_FIND_FIRST data \<longleftrightarrow> 2 \<le> length data"
| "sized ext INT2F_FIND_NEXT data \<longleftrightarrow> length data = 16"
| "sized ext INT2F_SEEK_FROM_END data \<longleftrightarrow> length data = 6"
| "sized ext INT2F_OPEN_FILE data \<longleftrightarrow> 7 \<le> length data"
| "sized ext INT2F_CREATE_FILE data \<longleftrightarrow> 7 \<le> length data"
| "sized ext INT2F_EXTENDED_OPEN_CREATE_FILE data \<longleftrightarrow> 7 \<le> length data"
| "sized ext INT2F_NETMOUNT_FEATURE_QUERY data \<longleftrightarrow> length data = 2"
| "sized ext _ data \<longleftrightarrow> data \<noteq> []"

lemma sized_answered:
  assumes "sized ext f data"
  shows "yields (\<lambda>_. True) (\<lambda>a. a \<noteq> None) (handle_function env ext f data)"
  using assms
  by (cases f; simp only: handle_function.simps sized.simps req_defs Let_def done_ok_def;
    intro yields_intros keeps_True; simp)

lemma handle_function_answers:
  assumes "live s" "d_used (s_drive s)" "\<not> long_read (e_native env) f data"
  obtains a t where "handle_function env ext f data s = (Inr a, t)" "sized ext f data \<Longrightarrow> a \<noteq> None"
proof -
  have "\<exists>a. fst (handle_function env ext f data s) = Inr a"
    using returns_handle_function [OF assms(3)] find_first_returns [OF assms(1,2)]
    by (cases "f = INT2F_FIND_FIRST") (auto simp: returns_def)
  then obtain a t where "handle_function env ext f data s = (Inr a, t)" by (metis prod.collapse)
  then show thesis using that yieldsD [OF sized_answered] by blast
qed

end
