(* ===== verification/Replying.thy ===== *)
theory Replying
  imports Bounded
begin

text \<open>
  Packets: what the server maintains from packet to packet, and that a packet whose request is well-formed
  is answered, a repeated one included.
\<close>

section \<open>Packets\<close>

text \<open>A request of a shared drive that has the right length, and the two kinds of request against which the
  server has no check: packets longer than an entry of the reply cache, and reads that do not fit into
  a reply.\<close>

definition served :: "endian \<Rightarrow> drive list \<Rightarrow> byte list \<Rightarrow> bool" where
  "served native ds request \<longleftrightarrow> hdr_size \<le> length request \<and>
     (let k = unat (hdr_drive request AND 0x1F) in 2 \<le> k \<and> k < length ds \<and> d_used (ds ! k)) \<and>
     (case int2f_of (hdr_function request) of
        None \<Rightarrow> False
      | Some f \<Rightarrow> sized (hdr_length_flags native request AND DRIVE_PROTO_FLAG_EXTENDED_FEATURES \<noteq> 0) f
          (drop hdr_size request))"

definition harmless :: "endian \<Rightarrow> byte list \<Rightarrow> bool" where
  "harmless native request \<longleftrightarrow> length request \<le> PACKET_SIZE \<and>
     (case int2f_of (hdr_function request) of
        None \<Rightarrow> True | Some f \<Rightarrow> \<not> long_read native f (drop hdr_size request))"

lemma process_request_returns:
  assumes len: "hdr_size \<le> length request" and old: "wf_reply_info (ps_info s)" and ok: "harmless (e_native env) request"
    and drives: "\<forall>k < length (ps_drives s). live (request_view s k) \<and> wf_names (request_view s k)"
  obtains r t q where "process_request env request s = (Inr r, t)"
    "ps_info t = (ps_info s)\<lparr>ri_send_packet := q\<rparr>" "length q = PACKET_SIZE"
    "\<forall>n. r = Some n \<longrightarrow> 0 < n \<and> n \<le> PACKET_SIZE"
    "served (e_native env) (ps_drives s) request \<and> (repeated request (ps_info s) \<longrightarrow> 0 < ri_send_len (ps_info s)) \<longrightarrow> r \<noteq> None"
proof -
  let ?k = "unat (hdr_drive request AND 0x1F)" and ?info = "ps_info s"
  let ?ext = "hdr_length_flags (e_native env) request AND DRIVE_PROTO_FLAG_EXTENDED_FEATURES \<noteq> 0"
  let ?q = "overwrite (ri_send_packet ?info) 0 (take hdr_size request)"
  have q: "length ?q = PACKET_SIZE" "length (ri_send_packet ?info) = PACKET_SIZE"
    using old len by (simp_all add: wf_reply_info_def overwrite_def PACKET_SIZE_def hdr_size_def)
  have ne: "request \<noteq> []" using len by (auto simp: hdr_size_def)
  consider (repeated) "repeated request ?info" | (ignored) "\<not> repeated request ?info" "\<not> (2 \<le> ?k \<and> ?k < length (ps_drives s) \<and>
      d_used (ps_drives s ! ?k)) \<or> int2f_of (hdr_function request) = None"
    | (new) f where "\<not> repeated request ?info" "2 \<le> ?k" "?k < length (ps_drives s)" "d_used (ps_drives s ! ?k)"
      "int2f_of (hdr_function request) = Some f" by blast
  then show thesis
  proof cases
    case repeated
    have "hdr_sequence (ri_recv_packet ?info) = hdr_sequence request"
      using repeated len nth_take [of 5 "length request" "ri_recv_packet ?info"]
      by (simp add: repeated_def hdr_sequence_def hdr_size_def)
    then have "process_request env request s = (Inr (if ri_send_len ?info > 0 then Some (ri_send_len ?info) else None), s)"
      using repeated ne len by (simp add: process_request_def repeated_def sx_defs Let_def)
    then show thesis using old repeated q(2)
      by (intro that [of _ s "ri_send_packet ?info"]) (auto simp: wf_reply_info_def split: if_splits)
  next
    case ignored
    then have "process_request env request s = (Inr None, s\<lparr>ps_info := ?info\<lparr>ri_send_packet := ?q\<rparr>\<rparr>)"
      using len by (auto simp: process_request_def repeated_def sx_defs put_send_packet_def Let_def)
    then show thesis using ignored q by (intro that) (auto simp: served_def Let_def)
  next
    case new
    have lr: "\<not> long_read (e_native env) f (drop hdr_size request)" using ok new by (simp add: harmless_def)
    have v: "live (request_view s ?k)" "wf_names (request_view s ?k)" using drives new(3) by auto
    obtain a t where h: "handle_function env ?ext f (drop hdr_size request) (request_view s ?k) = (Inr a, t)"
      and sz: "sized ?ext f (drop hdr_size request) \<Longrightarrow> a \<noteq> None"
      using handle_function_answers [OF v(1) _ lr] new(4) by auto
    have fit: "fits a" using yieldsD [OF handle_function_fits v(2) h] .
    show thesis
    proof (cases a)
      case None
      then have "process_request env request s = (Inr None, s\<lparr>ps_info := ?info\<lparr>ri_send_packet := ?q\<rparr>,
          ps_drives := (ps_drives s)[?k := s_drive t], ps_host := s_host t\<rparr>)"
        using new len h by (auto simp: process_request_def repeated_def sx_defs put_send_packet_def with_drive_def Let_def)
      then show thesis using q sz None new by (intro that) (auto simp: served_def)
    next
      case (Some cd)
      obtain code data where cd: "cd = (code, data)" by fastforce
      have "8 \<le> length request" "8 \<le> length (ri_send_packet ?info)"
        using len q(2) by (simp_all add: hdr_size_def PACKET_SIZE_def)
      moreover have "length (draft (e_native env) request flags code data (ri_send_packet ?info)) = PACKET_SIZE" for flags
        using fit Some cd q(2) by (simp add: draft_def fits_def REPLY_DATA_SIZE_def PACKET_SIZE_def)
      ultimately show thesis
        using process_request_answer [of request s ?k f env code data t] new h Some cd fit
        by (intro that) (auto simp: hdr_size_def fits_def REPLY_DATA_SIZE_def PACKET_SIZE_def)
    qed
  qed
qed


text \<open>What the server maintains between two packets. The last line of \<open>answered_cache\<close> is the reason that a
  repeated request is answered, too: a request is remembered without a reply only if it is not served.\<close>

definition answered_cache :: "endian \<Rightarrow> drive list \<Rightarrow> reply_info list \<Rightarrow> bool" where
  "answered_cache native ds cache \<longleftrightarrow> (\<forall>info \<in> set cache. 0 < ri_recv_len info \<and>
     served native ds (take (ri_recv_len info) (ri_recv_packet info)) \<longrightarrow> 0 < ri_send_len info)"

definition serving :: "env \<Rightarrow> server \<Rightarrow> bool" where
  "serving env s \<longleftrightarrow> wf_cache (sv_cache s) \<and> answered_cache (e_native env) (sv_drives s) (sv_cache s) \<and>
     (\<forall>k < length (sv_drives s). live (drive_view s k) \<and> wf_names (drive_view s k))"

lemma served_cong: "map d_used ds = map d_used ds' \<Longrightarrow> served native ds r = served native ds' r"
  unfolding served_def Let_def by (metis length_map nth_map)

lemma used_drives_kept: "map d_used (sv_drives (snd (serve_packet env packet ip port s))) = map d_used (sv_drives s)"
proof -
  let ?Q = "\<lambda>ds (h :: host). map d_used ds = map d_used (sv_drives s)"
  have "request_keeps k ?Q" for k
    unfolding request_keeps_def keeps_def
  proof (intro allI impI)
    fix env ext f data and t :: pstate assume t: "map d_used (ps_drives t) = map d_used (sv_drives s)"
    let ?r = "handle_function env ext f data (request_view t k)"
    have "d_used (s_drive (snd ?r)) = d_used (ps_drives t ! k)"
      using used_kept [of env ext f data "request_view t k" "fst ?r" "snd ?r"] by simp
    then have "map d_used ((ps_drives t)[k := s_drive (snd ?r)]) = map d_used (ps_drives t)"
      by (cases "k < length (ps_drives t)") (simp_all add: map_update list_update_same_conv list_update_beyond not_less)
    then show "map d_used (ps_drives (snd (with_drive k (handle_function env ext f data) t))) = map d_used (sv_drives s)"
      using t by (simp add: with_drive_def case_prod_unfold)
  qed
  from keepsD [OF serve_packet_keeps [where Q = ?Q, OF this]] show ?thesis by simp
qed

lemma answered_update:
  assumes "answered_cache native ds cache" "0 < ri_recv_len info \<Longrightarrow>
    served native ds (take (ri_recv_len info) (ri_recv_packet info)) \<Longrightarrow> 0 < ri_send_len info"
  shows "answered_cache native ds (cache[i := info])"
  using assms by (auto simp: answered_cache_def dest!: set_update_subset_insert [THEN subsetD])

lemma answered_get_reply_info:
  assumes "get_reply_info ip port cache = (i, cache')" "cache \<noteq> []" "answered_cache native ds cache"
  shows "answered_cache native ds cache'"
  unfolding answered_cache_def
proof (intro ballI impI)
  note g = get_reply_info_spec [OF assms(1,2)]
  fix info assume "info \<in> set cache'" and info: "0 < ri_recv_len info \<and> served native ds (take (ri_recv_len info) (ri_recv_packet info))"
  then obtain j where j: "j < length cache'" "cache' ! j = info" by (auto simp: in_set_conv_nth)
  then have "info \<in> set cache" using g info by (metis less_irrefl nth_mem)
  then show "0 < ri_send_len info" using assms(3) info by (auto simp: answered_cache_def)
qed


lemma serve_packet_returns:
  assumes sv: "serving env s" and acc: "accept_packet (e_native env) packet = Some request"
    and ok: "harmless (e_native env) request"
  obtains r s' where "serve_packet env packet ip port s = (Inr r, s')" "serving env s'"
    "map d_used (sv_drives s') = map d_used (sv_drives s)"
    "served (e_native env) (sv_drives s) request \<Longrightarrow> r \<noteq> None"
proof -
  have len: "hdr_size \<le> length request" "request \<noteq> []"
    using accept_packet_length [OF acc] by (auto simp: hdr_size_def)
  have cache: "wf_cache (sv_cache s)" "sv_cache s \<noteq> []" "answered_cache (e_native env) (sv_drives s) (sv_cache s)"
    using sv by (auto simp: serving_def wf_cache_def REPLY_CACHE_SIZE_def)
  obtain i items where g: "get_reply_info ip port (sv_cache s) = (i, items)" by fastforce
  have i: "i < length items" "wf_reply_info (items ! i)" "wf_cache items"
    and ans: "answered_cache (e_native env) (sv_drives s) items"
    using get_reply_info_spec [OF g cache(2)] get_reply_info_wf [OF g cache(1)]
      answered_get_reply_info [OF g cache(2,3)] by auto
  let ?p = "\<lparr>ps_info = items ! i, ps_drives = sv_drives s, ps_host = sv_host s\<rparr>"
  have views: "\<forall>k < length (ps_drives ?p). live (request_view ?p k) \<and> wf_names (request_view ?p k)"
    using sv by (simp add: serving_def drive_view_def)
  have old: "wf_reply_info (ps_info ?p)" using i(2) by simp
  obtain r t q where pr: "process_request env request ?p = (Inr r, t)" "ps_info t = (items ! i)\<lparr>ri_send_packet := q\<rparr>"
    and q: "length q = PACKET_SIZE" "\<forall>n. r = Some n \<longrightarrow> 0 < n \<and> n \<le> PACKET_SIZE"
    and a: "served (e_native env) (sv_drives s) request \<and> (repeated request (items ! i) \<longrightarrow> 0 < ri_send_len (items ! i)) \<longrightarrow> r \<noteq> None"
    using process_request_returns [OF len(1) old ok views, unfolded pstate.select_convs] by blast
  have "0 < ri_send_len (items ! i)" if "repeated request (items ! i)" "served (e_native env) (sv_drives s) request"
    using that ans i(1) len by (auto simp: answered_cache_def repeated_def)
  then have some: "r \<noteq> None" if "served (e_native env) (sv_drives s) request" using a that by blast
  have run: "run_request env i request (s\<lparr>sv_cache := items\<rparr>) = (Inr r, s\<lparr>sv_cache := items[i := ps_info t],
      sv_drives := ps_drives t, sv_host := ps_host t\<rparr>)"
    using pr(1) by (simp add: run_request_def)
  let ?seal = "\<lambda>n. seal_reply (e_native env) (checksum_flag (e_native env) packet)
      (d_read_only (ps_drives t ! unat (hdr_drive request AND 0x1F))) n q"
  let ?info = "(items ! i)\<lparr>ri_recv_packet := overwrite (ri_recv_packet (items ! i)) 0 request, ri_recv_len := length request,
      ri_send_len := (case r of None \<Rightarrow> 0 | Some n \<Rightarrow> n), ri_timestamp := h_clock (sv_host s),
      ri_send_packet := (case r of None \<Rightarrow> q | Some n \<Rightarrow> ?seal n)\<rparr>"
  let ?s' = "s\<lparr>sv_drives := ps_drives t, sv_host := ps_host t, sv_cache := items[i := ?info]\<rparr>"
  have fit: "length request \<le> PACKET_SIZE" using ok by (simp add: harmless_def)
  have step: "serve_packet env packet ip port s = (Inr (map_option (\<lambda>n. take n (?seal n)) r), ?s')"
    using acc g run fit i(1) pr(2)
    by (cases r; cases "items ! i") (simp_all add: serve_packet_def sx_defs update_cache_def Let_def)
  have used: "map d_used (ps_drives t) = map d_used (sv_drives s)"
    using used_drives_kept [of env packet ip port s] step by simp
  have "length (?seal n) = PACKET_SIZE" for n
    using q(1) by (subst length_seal_reply) (simp_all add: PACKET_SIZE_def)
  then have "wf_reply_info ?info"
    using i(2) q fit by (auto simp: wf_reply_info_def overwrite_def split: option.split)
  then have wf: "wf_cache (items[i := ?info])"
    using i(3) by (auto simp: wf_cache_def list_all_iff dest!: set_update_subset_insert [THEN subsetD])
  have "take (length request) (overwrite (ri_recv_packet (items ! i)) 0 request) = request"
    by (simp add: overwrite_def)
  then have "answered_cache (e_native env) (sv_drives s) (items[i := ?info])"
    using some q(2) by (intro answered_update ans) (auto split: option.split)
  then have "answered_cache (e_native env) (ps_drives t) (items[i := ?info])"
    using served_cong [OF used] by (simp add: answered_cache_def)
  moreover have "\<forall>k < length (sv_drives s). live (drive_view s k)" "\<forall>k < length (sv_drives s). wf_names (drive_view s k)"
    using sv by (simp_all add: serving_def)
  note upkeep.drives_kept [OF this(1), of env packet ip port] names.drives_kept [OF this(2), of env packet ip port]
  ultimately have "serving env ?s'"
    using wf unfolding serving_def step by simp
  from that [OF step this] show thesis using used some by simp
qed

end
