(* ===== verification/UdpSocket.thy ===== *)
theory UdpSocket
  imports Server
begin

text \<open>
  Model of \<^verbatim>\<open>netmount-server/udp_socket.cpp\<close>, the UDP socket of the POSIX builds, and of the set-up of the
  serial line in \<^verbatim>\<open>serial_port.cpp\<close>. The answers of the system calls are arguments. A socket keeps the
  address of the last sender in the byte order of the network; \<open>us_sent\<close> collects what was given to
  \<^verbatim>\<open>sendto\<close>.
\<close>

section \<open>The UDP socket\<close>

datatype wait_result = TIMEOUT | READY | SIGNAL

datatype errno = EINTR | other_errno

datatype select_ret = SelectFailed errno | Selected nat

record sockaddr_in =
  sin_addr :: u32
  sin_port :: u16

record udp_socket =
  us_local :: "sockaddr_in option"
  us_last_remote_addr :: sockaddr_in
  us_last_remote_ip :: "byte list"
  us_sent :: "(sockaddr_in \<times> byte list) list"

definition INADDR_ANY :: u32 where "INADDR_ANY = 0"

text \<open>The constructor; \<^verbatim>\<open>last_remote_addr\<close> has no value before the first packet.\<close>

definition udp_socket_new :: "bool \<Rightarrow> exn + udp_socket" where
  "udp_socket_new created =
     (if created then Inr \<lparr>us_local = None, us_last_remote_addr = \<lparr>sin_addr = 0, sin_port = 0\<rparr>,
        us_last_remote_ip = [], us_sent = []\<rparr>
      else Inl RuntimeError)"

text \<open>\<open>inet_pton\<close> gives the address in network order, \<open>None\<close> for a result that is not positive;
  \<open>os_bind\<close> tells whether \<^verbatim>\<open>::bind\<close> accepts the address.\<close>

definition udp_bind ::
  "endian \<Rightarrow> (byte list \<Rightarrow> u32 option) \<Rightarrow> (sockaddr_in \<Rightarrow> bool) \<Rightarrow> byte list \<Rightarrow> u16 \<Rightarrow> (udp_socket, unit) sx" where
  "udp_bind native inet_pton os_bind local_ip local_port s =
     (case (if local_ip \<noteq> [] then inet_pton local_ip else Some INADDR_ANY) of
        None \<Rightarrow> (Inl RuntimeError, s)
      | Some addr \<Rightarrow>
          let bind_addr = \<lparr>sin_addr = addr, sin_port = to_big16 native local_port\<rparr>
          in if os_bind bind_addr then (Inr (), s\<lparr>us_local := Some bind_addr\<rparr>) else (Inl RuntimeError, s))"

text \<open>Seconds and microseconds for \<^verbatim>\<open>select\<close>.\<close>

definition select_timeout :: "u16 \<Rightarrow> nat \<times> nat" where
  "select_timeout timeout_ms = (unat (timeout_ms div 1000), unat (timeout_ms mod 1000) * 1000)"

definition wait_for_data :: "(nat \<times> nat \<Rightarrow> select_ret) \<Rightarrow> u16 \<Rightarrow> (udp_socket, wait_result) sx" where
  "wait_for_data os_select timeout_ms =
     (case os_select (select_timeout timeout_ms) of
        SelectFailed e \<Rightarrow> if e = EINTR then sx_return SIGNAL else sx_throw RuntimeError
      | Selected n \<Rightarrow> if n = 0 then sx_return TIMEOUT else sx_return READY)"

text \<open>\<open>recvfrom\<close> is the datagram and its sender, \<open>None\<close> for -1; what does not fit into the buffer is
  lost.\<close>

definition udp_receive :: "(byte list \<times> sockaddr_in) option \<Rightarrow> nat \<Rightarrow> (udp_socket, byte list) sx" where
  "udp_receive recvfrom buffer_size s =
     (case recvfrom of
        None \<Rightarrow> (Inl RuntimeError, s)
      | Some (datagram, addr) \<Rightarrow> (Inr (take buffer_size datagram), s\<lparr>us_last_remote_addr := addr\<rparr>))"

text \<open>\<open>sendto\<close> is the number of bytes sent, \<open>None\<close> for -1; it is returned as a 16-bit value.\<close>

definition udp_send_reply :: "nat option \<Rightarrow> byte list \<Rightarrow> (udp_socket, u16) sx" where
  "udp_send_reply sendto data s =
     (let s = s\<lparr>us_sent := us_sent s @ [(us_last_remote_addr s, data)]\<rparr>
      in case sendto of None \<Rightarrow> (Inl RuntimeError, s) | Some sent_bytes \<Rightarrow> (Inr (of_nat sent_bytes), s))"

definition udp_last_remote_ip :: "endian \<Rightarrow> udp_socket \<Rightarrow> u32" where
  "udp_last_remote_ip native s = from_big32 native (sin_addr (us_last_remote_addr s))"

definition udp_last_remote_port :: "endian \<Rightarrow> udp_socket \<Rightarrow> u16" where
  "udp_last_remote_port native s = from_big16 native (sin_port (us_last_remote_addr s))"

definition udp_last_remote_ip_str :: "(u32 \<Rightarrow> byte list option) \<Rightarrow> (udp_socket, byte list) sx" where
  "udp_last_remote_ip_str inet_ntop s =
     (case inet_ntop (sin_addr (us_last_remote_addr s)) of
        None \<Rightarrow> (Inl RuntimeError, s)
      | Some str \<Rightarrow> (Inr str, s\<lparr>us_last_remote_ip := str\<rparr>))"


section \<open>The serial line\<close>

text \<open>\<^verbatim>\<open>struct termios\<close> with the bits of Linux; \<open>c_vmin\<close> and \<open>c_vtime\<close> are two of its control characters.\<close>

record termios =
  c_iflag :: u32
  c_oflag :: u32
  c_cflag :: u32
  c_lflag :: u32
  c_vmin :: u8
  c_vtime :: u8
  c_speed :: u32

definition CSIZE :: u32 where "CSIZE = 0x30"
definition CS8 :: u32 where "CS8 = 0x30"
definition CSTOPB :: u32 where "CSTOPB = 0x40"
definition CREAD :: u32 where "CREAD = 0x80"
definition PARENB :: u32 where "PARENB = 0x100"
definition PARODD :: u32 where "PARODD = 0x200"
definition CLOCAL :: u32 where "CLOCAL = 0x800"
definition CRTSCTS :: u32 where "CRTSCTS = 0x80000000"

text \<open>\<^verbatim>\<open>IXON | IXOFF | IXANY\<close> and \<^verbatim>\<open>IGNBRK | BRKINT | PARMRK | ISTRIP | INLCR | IGNCR | ICRNL\<close>\<close>

definition flow_iflags :: u32 where "flow_iflags = 0x400 OR 0x1000 OR 0x800"
definition special_iflags :: u32 where
  "special_iflags = 0x1 OR 0x2 OR 0x8 OR 0x20 OR 0x40 OR 0x80 OR 0x100"

text \<open>The \<^verbatim>\<open>switch\<close> over the baud rates with the values of \<^verbatim>\<open>B1200\<close> to \<^verbatim>\<open>B230400\<close>.\<close>

definition speed_of_baudrate :: "u32 \<Rightarrow> u32 option" where
  "speed_of_baudrate baudrate =
     map_of [(1200, 9), (2400, 11), (4800, 12), (9600, 13), (19200, 14), (38400, 15),
       (57600, 0x1001), (115200, 0x1002), (230400, 0x1003)] baudrate"


text \<open>\<open>tcgetattr\<close> is the state of the terminal, \<open>None\<close> for an error; \<open>tcsetattr\<close> tells whether the new state is
  accepted. The result is the new state.\<close>

definition serial_setup :: "termios option \<Rightarrow> (termios \<Rightarrow> bool) \<Rightarrow> u32 \<Rightarrow> bool \<Rightarrow> exn + termios" where
  "serial_setup tcgetattr tcsetattr baudrate hw_flow_control =
     (case tcgetattr of
        None \<Rightarrow> Inl RuntimeError
      | Some tty \<Rightarrow>
          (case speed_of_baudrate baudrate of
             None \<Rightarrow> Inl RuntimeError
           | Some speed \<Rightarrow>
               let cflag = c_cflag tty OR (CLOCAL OR CREAD);
                   cflag = (cflag AND NOT CSIZE) OR CS8;
                   cflag = cflag AND NOT (PARENB OR PARODD);
                   cflag = cflag AND NOT CSTOPB;
                   cflag = (if hw_flow_control then cflag OR CRTSCTS else cflag AND NOT CRTSCTS);
                   tty = tty\<lparr>c_speed := speed, c_cflag := cflag, c_lflag := 0,
                     c_iflag := c_iflag tty AND NOT flow_iflags AND NOT special_iflags,
                     c_oflag := 0, c_vmin := 0, c_vtime := 10\<rparr>
               in if tcsetattr tty then Inr tty else Inl RuntimeError))"

text \<open>The bytes of a frame pass the line unchanged: no special characters, no translation, no software flow
  control.\<close>

lemma serial_setup_raw:
  assumes "serial_setup tcgetattr tcsetattr baudrate flow = Inr tty"
  shows "c_lflag tty = 0 \<and> c_oflag tty = 0 \<and> c_iflag tty AND (flow_iflags OR special_iflags) = 0"
proof -
  have "(x AND NOT f AND NOT g) AND (f OR g) = 0" for x f g :: u32
    by (simp add: bit_eq_iff bit_simps) blast
  then show ?thesis
    using assms by (auto simp: serial_setup_def Let_def split: option.splits if_splits)
qed

end
