(* ===== verification/MainLoop.thy ===== *)
theory MainLoop
  imports UdpSocket Options
begin

text \<open>
  Model of \<^verbatim>\<open>main\<close> of \<^verbatim>\<open>netmount-server/netmount-server.cpp\<close> behind the command line: the transport, the
  signal handler, the transliteration map and the main loop. What the system answers during one turn of
  the loop, the signals that arrive and what other processes do to the files are a \<open>turn\<close>; a run is a
  finite list of turns. The table of the shares and the log are output only.
\<close>

section \<open>Signals and turns\<close>

datatype signal_number = SIGINT | SIGQUIT | SIGTERM | other_signal

text \<open>The new value of \<^verbatim>\<open>exit_flag\<close>; \<^verbatim>\<open>signal_stop\<close> of a POSIX socket does nothing.\<close>

definition signal_handler :: "signal_number \<Rightarrow> bool \<Rightarrow> bool" where
  "signal_handler sig_number exit_flag =
     (case sig_number of SIGINT \<Rightarrow> True | SIGQUIT \<Rightarrow> True | SIGTERM \<Rightarrow> True | _ \<Rightarrow> exit_flag)"

record turn =
  os_select :: "nat \<times> nat \<Rightarrow> select_ret"
  os_recvfrom :: "(byte list \<times> sockaddr_in) option"
  os_inet_ntop :: "u32 \<Rightarrow> byte list option"
  os_sendto :: "nat option"
  os_signals :: "signal_number list"
  os_files :: "host \<Rightarrow> host"

datatype transport = Sock udp_socket | SlipLine slip_udp_serial

record running =
  rn_server :: server
  rn_transport :: transport

definition REQUEST_PACKET_SIZE :: nat where "REQUEST_PACKET_SIZE = 2048"


section \<open>One turn\<close>

text \<open>The reply of \<open>serve_packet\<close> is sent; a short write is only logged.\<close>

definition udp_turn :: "env \<Rightarrow> turn \<Rightarrow> (server \<times> udp_socket, unit) sx" where
  "udp_turn env t s =
     (let (server, sock) = s in
      case wait_for_data (os_select t) 10000 sock of
        (Inl e, sock) \<Rightarrow> (Inl e, (server, sock))
      | (Inr TIMEOUT, sock) \<Rightarrow> (Inr (), (server, sock))
      | (Inr SIGNAL, sock) \<Rightarrow> (Inr (), (server, sock))
      | (Inr READY, sock) \<Rightarrow>
          (case udp_receive (os_recvfrom t) REQUEST_PACKET_SIZE sock of
             (Inl e, sock) \<Rightarrow> (Inl e, (server, sock))
           | (Inr request_packet, sock) \<Rightarrow>
               let last_remote_ip = udp_last_remote_ip (e_native env) sock;
                   last_remote_port = udp_last_remote_port (e_native env) sock
               in (case udp_last_remote_ip_str (os_inet_ntop t) sock of
                     (Inl e, sock) \<Rightarrow> (Inl e, (server, sock))
                   | (Inr _, sock) \<Rightarrow>
                       (case serve_packet env request_packet last_remote_ip last_remote_port server of
                          (Inl e, server) \<Rightarrow> (Inl e, (server, sock))
                        | (Inr None, server) \<Rightarrow> (Inr (), (server, sock))
                        | (Inr (Some reply), server) \<Rightarrow>
                            (case udp_send_reply (os_sendto t) reply sock of
                               (Inl e, sock) \<Rightarrow> (Inl e, (server, sock))
                             | (Inr sent_bytes, sock) \<Rightarrow> (Inr (), (server, sock)))))))"

definition main_turn :: "env \<Rightarrow> u16 \<Rightarrow> turn \<Rightarrow> (running, unit) sx" where
  "main_turn env bind_port t s =
     (case rn_transport s of
        Sock sock \<Rightarrow>
          (case udp_turn env t (rn_server s, sock) of
             (r, server, sock) \<Rightarrow> (r, \<lparr>rn_server = server, rn_transport = Sock sock\<rparr>))
      | SlipLine slip \<Rightarrow>
          (case slip_turn env bind_port \<lparr>ss_server = rn_server s, ss_slip = slip\<rparr> of
             (r, ss) \<Rightarrow> (r, \<lparr>rn_server = ss_server ss, rn_transport = SlipLine (ss_slip ss)\<rparr>)))"


section \<open>The loop\<close>

text \<open>\<open>Running\<close>: the turns are used up and the loop goes on. \<open>Ended\<close>: the loop was left, because of the
  exit flag or of an exception that is only logged; \<^verbatim>\<open>main\<close> returns 0. \<open>Undefined\<close>: an array was left.
  All exceptions of the type \<open>exn\<close> are caught here: \<^verbatim>\<open>FilesystemError\<close> and \<^verbatim>\<open>std::filesystem::filesystem_error\<close> are derived from
  \<^verbatim>\<open>std::runtime_error\<close>, too. Other exceptions, such as \<^verbatim>\<open>std::bad_alloc\<close>, are not modelled.\<close>

datatype run_state = Running | Ended | Undefined

definition elapse :: "turn \<Rightarrow> running \<Rightarrow> running" where
  "elapse t s = s\<lparr>rn_server := (rn_server s)\<lparr>sv_host := os_files t (sv_host (rn_server s))\<rparr>\<rparr>"

fun main_loop :: "env \<Rightarrow> u16 \<Rightarrow> turn list \<Rightarrow> bool \<Rightarrow> running \<Rightarrow> run_state \<times> running" where
  "main_loop env bind_port [] exit_flag s = (if exit_flag then Ended else Running, s)"
| "main_loop env bind_port (t # ts) exit_flag s =
     (if exit_flag then (Ended, s)
      else case main_turn env bind_port t (elapse t s) of
        (Inl e, s) \<Rightarrow> (if e = OutOfBounds then Undefined else Ended, s)
      | (Inr _, s) \<Rightarrow> main_loop env bind_port ts (fold signal_handler (os_signals t) exit_flag) s)"


section \<open>The start\<close>

text \<open>What the system answers when the server starts: the socket calls, the serial line as it is after
  opening, and the content of the transliteration map.\<close>

record startup =
  st_socket :: bool
  st_inet_pton :: "byte list \<Rightarrow> u32 option"
  st_bind :: "sockaddr_in \<Rightarrow> bool"
  st_serial :: "byte list \<Rightarrow> serial_port option"
  st_tcgetattr :: "termios option"
  st_tcsetattr :: "termios \<Rightarrow> bool"
  st_translit :: "byte list \<Rightarrow> byte list option"

text \<open>The constructor of \<^verbatim>\<open>SlipUdpSerial\<close>\<close>

definition slip_udp_serial_new :: "serial_port \<Rightarrow> slip_udp_serial" where
  "slip_udp_serial_new serial = \<lparr>su_serial = serial, su_rx_buffer = replicate MTU 0, su_tx_buffer = replicate (MTU * 2) 0,
     su_last_udp_data_len = 0, su_last_rx_udp_data = None, su_last_remote_ip = 0, su_last_remote_port = 0,
     su_last_remote_ip_str = [], su_last_dst_ip = 0, su_last_dst_port = 0, su_last_dst_ip_str = [],
     su_last_sent_packet_id = 0\<rparr>"

definition open_transport :: "endian \<Rightarrow> startup \<Rightarrow> options \<Rightarrow> exn + transport" where
  "open_transport native st opts =
     (if o_slip_dev opts = [] then
        (case udp_socket_new (st_socket st) of
           Inl e \<Rightarrow> Inl e
         | Inr sock \<Rightarrow>
             (case udp_bind native (st_inet_pton st) (st_bind st) (o_bind_addr opts) (o_bind_port opts) sock of
                (Inl e, _) \<Rightarrow> Inl e
              | (Inr _, sock) \<Rightarrow> Inr (Sock sock)))
      else
        (case st_serial st (o_slip_dev opts) of
           None \<Rightarrow> Inl RuntimeError
         | Some serial \<Rightarrow>
             (case serial_setup (st_tcgetattr st) (st_tcsetattr st) (o_slip_speed opts) (o_slip_hw_flow_control opts) of
                Inl e \<Rightarrow> Inl e
              | Inr _ \<Rightarrow> Inr (SlipLine (slip_udp_serial_new serial)))))"

text \<open>The transliteration map and the exit flag with which the loop starts; \<open>None\<close> when reading the map
  leaves a line.\<close>

definition start_translit :: "startup \<Rightarrow> options \<Rightarrow> drive list \<Rightarrow> (transliteration_map \<times> bool) option" where
  "start_translit st opts drives =
     (if list_ex (\<lambda>d. d_used d \<and> d_name_conversion d \<noteq> OFF) drives \<and> o_translit_map_path opts \<noteq> [] then
        (case load_transliteration_map Map.empty (st_translit st (o_translit_map_path opts)) of
           Inl _ \<Rightarrow> Some (Map.empty, True)
         | Inr None \<Rightarrow> None
         | Inr (Some tm) \<Rightarrow> Some (tm, False))
      else Some (Map.empty, False))"

text \<open>\<open>Inl\<close> is the exit code of a server that does not start. The transliteration map of the environment is
  replaced by the one that is loaded.\<close>

definition server_main ::
  "env \<Rightarrow> startup \<Rightarrow> host \<Rightarrow> byte list list \<Rightarrow> turn list \<Rightarrow> int + (run_state \<times> running)" where
  "server_main env st h args turns =
     (case configure h args of
        Inl code \<Rightarrow> Inl code
      | Inr (opts, drives) \<Rightarrow>
          (case open_transport (e_native env) st opts of
             Inl _ \<Rightarrow> Inl (- 1)
           | Inr transport \<Rightarrow>
               let s = \<lparr>rn_server = \<lparr>sv_cache = empty_cache, sv_drives = drives, sv_host = h\<rparr>, rn_transport = transport\<rparr>
               in case start_translit st opts drives of
                    None \<Rightarrow> Inr (Undefined, s)
                  | Some (tm, exit_flag) \<Rightarrow>
                      Inr (main_loop (env\<lparr>e_translit := tm\<rparr>) (o_bind_port opts) turns exit_flag s)))"

end
