(* ===== verification/Liveness.thy ===== *)
theory Liveness
  imports Replying MainLoop
begin

text \<open>
  The server keeps serving: with a working socket no packet ends the main loop that has at most 1500 bytes
  and does not ask for more than 1492 bytes, and a well-formed request of a shared drive is answered in
  the turn in which it arrives. A reply that the system refuses to send ends the server.
\<close>

section \<open>Working turns\<close>

lemma wait_timeout [simp]: "select_timeout 10000 = (10, 0)"
  by code_simp

definition arrival :: "turn \<Rightarrow> (byte list \<times> sockaddr_in) option" where
  "arrival t = (case os_select t (10, 0) of
     SelectFailed _ \<Rightarrow> None
   | Selected n \<Rightarrow> if n = 0 then None
       else map_option (\<lambda>(datagram, addr). (take REQUEST_PACKET_SIZE datagram, addr)) (os_recvfrom t))"

text \<open>The socket calls succeed, or \<^verbatim>\<open>select\<close> was interrupted by a signal that does not stop the server, and
  the packet is not one of those against which the server has no check.\<close>

definition socket_works :: "turn \<Rightarrow> bool" where
  "socket_works t \<longleftrightarrow> (case os_select t (10, 0) of
     SelectFailed e \<Rightarrow> e = EINTR
   | Selected n \<Rightarrow> n = 0 \<or> (case os_recvfrom t of
         None \<Rightarrow> False
       | Some (_, addr) \<Rightarrow> os_inet_ntop t (sin_addr addr) \<noteq> None \<and> os_sendto t \<noteq> None))"

definition arrives_harmless :: "endian \<Rightarrow> turn \<Rightarrow> bool" where
  "arrives_harmless native t \<longleftrightarrow> (case arrival t of
     None \<Rightarrow> True
   | Some (packet, _) \<Rightarrow> (case accept_packet native packet of None \<Rightarrow> True | Some request \<Rightarrow> harmless native request))"

definition working :: "endian \<Rightarrow> turn \<Rightarrow> bool" where
  "working native t \<longleftrightarrow> socket_works t \<and> arrives_harmless native t \<and> list_all (\<lambda>sig. sig = other_signal) (os_signals t)"

definition asks :: "endian \<Rightarrow> drive list \<Rightarrow> turn \<Rightarrow> sockaddr_in \<Rightarrow> bool" where
  "asks native ds t addr \<longleftrightarrow> (case arrival t of
     None \<Rightarrow> False
   | Some (packet, sender) \<Rightarrow> sender = addr \<and>
       (case accept_packet native packet of None \<Rightarrow> False | Some request \<Rightarrow> served native ds request))"

lemma serving_host: "serving env (s\<lparr>sv_host := h\<rparr>) = serving env s"
proof -
  have "live (drive_view (s\<lparr>sv_host := h\<rparr>) k) = live (drive_view s k)"
    "wf_names (drive_view (s\<lparr>sv_host := h\<rparr>) k) = wf_names (drive_view s k)" for k
    by (simp_all add: live_def wf_names_def drive_view_def)
  then show ?thesis by (simp add: serving_def)
qed

lemma serve_any_packet:
  assumes "serving env s" "case accept_packet (e_native env) packet of None \<Rightarrow> True | Some request \<Rightarrow> harmless (e_native env) request"
  obtains r s' where "serve_packet env packet ip port s = (Inr r, s')" "serving env s'"
    "map d_used (sv_drives s') = map d_used (sv_drives s)"
    "\<forall>request. accept_packet (e_native env) packet = Some request \<and> served (e_native env) (sv_drives s) request \<longrightarrow> r \<noteq> None"
proof (cases "accept_packet (e_native env) packet")
  case None
  then have "serve_packet env packet ip port s = (Inr None, s)" by (simp add: serve_packet_def sx_return_def)
  from that [OF this assms(1)] None show thesis by simp
next
  case (Some request)
  then obtain r s' where "serve_packet env packet ip port s = (Inr r, s')" "serving env s'"
    "map d_used (sv_drives s') = map d_used (sv_drives s)" "served (e_native env) (sv_drives s) request \<longrightarrow> r \<noteq> None"
    using serve_packet_returns [OF assms(1) Some] assms(2) by (metis option.simps(5))
  from that [OF this(1,2,3)] this(4) Some show thesis by simp
qed

lemma udp_turn_works:
  assumes "serving env srv" "socket_works t" "arrives_harmless (e_native env) t"
  obtains srv' sock' out where "udp_turn env t (srv, sock) = (Inr (), srv', sock')" "serving env srv'"
    "map d_used (sv_drives srv') = map d_used (sv_drives srv)" "us_sent sock' = us_sent sock @ out"
    "\<forall>addr. asks (e_native env) (sv_drives srv) t addr \<longrightarrow> (\<exists>reply. out = [(addr, reply)])"
proof (cases "arrival t")
  case None
  then have "udp_turn env t (srv, sock) = (Inr (), srv, sock)"
    using assms(2) by (auto simp: udp_turn_def wait_for_data_def socket_works_def arrival_def sx_defs
        split: select_ret.splits if_splits option.splits)
  from that [OF this assms(1)] None show thesis by (simp add: asks_def)
next
  case (Some pa)
  then obtain n datagram addr where t: "os_select t (10, 0) = Selected n" "n \<noteq> 0" "os_recvfrom t = Some (datagram, addr)"
    "pa = (take REQUEST_PACKET_SIZE datagram, addr)"
    by (auto simp: arrival_def split: select_ret.splits if_splits)
  then obtain str sent where os: "os_inet_ntop t (sin_addr addr) = Some str" "os_sendto t = Some sent"
    using assms(2) by (auto simp: socket_works_def)
  let ?packet = "take REQUEST_PACKET_SIZE datagram"
  let ?sock = "sock\<lparr>us_last_remote_addr := addr, us_last_remote_ip := str\<rparr>"
  let ?ip = "from_big32 (e_native env) (sin_addr addr)" and ?port = "from_big16 (e_native env) (sin_port addr)"
  have "case accept_packet (e_native env) ?packet of None \<Rightarrow> True | Some request \<Rightarrow> harmless (e_native env) request"
    using assms(3) Some t(4) by (simp add: arrives_harmless_def)
  then obtain r srv' where sv: "serve_packet env ?packet ?ip ?port srv = (Inr r, srv')" "serving env srv'"
    "map d_used (sv_drives srv') = map d_used (sv_drives srv)"
    and ans: "\<forall>request. accept_packet (e_native env) ?packet = Some request \<and> served (e_native env) (sv_drives srv) request \<longrightarrow> r \<noteq> None"
    using serve_any_packet [OF assms(1)] by metis
  let ?out = "case r of None \<Rightarrow> [] | Some reply \<Rightarrow> [(addr, reply)]"
  have "udp_turn env t (srv, sock) = (Inr (), srv', ?sock\<lparr>us_sent := us_sent sock @ ?out\<rparr>)"
    using t os sv(1)
    by (cases r) (simp_all add: udp_turn_def wait_for_data_def udp_receive_def udp_last_remote_ip_def udp_last_remote_port_def
        udp_last_remote_ip_str_def udp_send_reply_def sx_defs Let_def)
  from that [OF this sv(2,3)] show thesis
    using ans Some t(4) by (auto simp: asks_def split: option.splits)
qed

text \<open>The loop over any number of working turns.\<close>

definition on_socket :: "server \<Rightarrow> udp_socket \<Rightarrow> running" where
  "on_socket srv sock = \<lparr>rn_server = srv, rn_transport = Sock sock\<rparr>"

lemma asks_cong: "map d_used ds = map d_used ds' \<Longrightarrow> asks native ds t addr = asks native ds' t addr"
  using served_cong [of ds ds' native] by (simp add: asks_def split: option.split)

lemma working_signals: "working native t \<Longrightarrow> fold signal_handler (os_signals t) False = False"
proof -
  have "fold signal_handler sigs False = False" if "list_all (\<lambda>sig. sig = other_signal) sigs" for sigs
    using that by (induction sigs) (simp_all add: signal_handler_def)
  then show "working native t \<Longrightarrow> fold signal_handler (os_signals t) False = False" by (simp add: working_def)
qed

lemma main_loop_works:
  assumes "serving env srv" "list_all (working (e_native env)) turns"
  obtains srv' sock' where "main_loop env port turns False (on_socket srv sock) = (Running, on_socket srv' sock')"
    "serving env srv'" "map d_used (sv_drives srv') = map d_used (sv_drives srv)"
    "\<And>rest. main_loop env port (turns @ rest) False (on_socket srv sock) = main_loop env port rest False (on_socket srv' sock')"
proof -
  have "\<exists>srv' sock'. serving env srv' \<and> map d_used (sv_drives srv') = map d_used (sv_drives srv) \<and>
    (\<forall>rest. main_loop env port (turns @ rest) False (on_socket srv sock) = main_loop env port rest False (on_socket srv' sock'))"
    using assms
  proof (induction turns arbitrary: srv sock)
    case (Cons t turns)
    let ?srv = "srv\<lparr>sv_host := os_files t (sv_host srv)\<rparr>"
    have w: "socket_works t" "arrives_harmless (e_native env) t" "fold signal_handler (os_signals t) False = False"
      using Cons.prems(2) working_signals by (auto simp: working_def)
    obtain srv1 sock1 where 1: "udp_turn env t (?srv, sock) = (Inr (), srv1, sock1)" "serving env srv1"
      "map d_used (sv_drives srv1) = map d_used (sv_drives ?srv)"
      using udp_turn_works [of env ?srv t sock] Cons.prems(1) w by (metis serving_host)
    then have "main_loop env port ((t # turns) @ rest) False (on_socket srv sock) =
        main_loop env port (turns @ rest) False (on_socket srv1 sock1)" for rest
      using w(3) by (simp add: on_socket_def elapse_def main_turn_def)
    moreover obtain srv' sock' where "serving env srv'" "map d_used (sv_drives srv') = map d_used (sv_drives srv1)"
      "\<forall>rest. main_loop env port (turns @ rest) False (on_socket srv1 sock1) = main_loop env port rest False (on_socket srv' sock')"
      using Cons.IH [OF 1(2), of sock1] Cons.prems(2) by auto
    ultimately show ?case using 1(3) by (intro exI [of _ srv'] exI [of _ sock']) simp
  qed auto
  then obtain srv' sock' where "serving env srv'" "map d_used (sv_drives srv') = map d_used (sv_drives srv)"
    and rest: "\<forall>rest. main_loop env port (turns @ rest) False (on_socket srv sock) = main_loop env port rest False (on_socket srv' sock')"
    by blast
  moreover from rest have "main_loop env port turns False (on_socket srv sock) = (Running, on_socket srv' sock')"
    using rest [THEN spec, of "[]"] by simp
  ultimately show thesis using that by blast
qed



section \<open>The start\<close>

text \<open>A drive as the command line leaves it: no handles yet, and the root of a share is absolute.\<close>

definition new_share :: "drive \<Rightarrow> bool" where
  "new_share d \<longleftrightarrow> d_items d = [] \<and> wf_fcb (d_volume_label d) \<and> (d_used d \<longrightarrow> p_abs (d_root d))"

lemma new_share_label: "new_share d \<Longrightarrow> new_share (set_volume_label label d)"
  by (auto simp: new_share_def set_volume_label_def wf_fcb_def pad_blank_def)

lemma new_share_option:
  "share_option h nm val d labelled = Inr (d', labelled') \<Longrightarrow> new_share d \<Longrightarrow> new_share d'"
  using new_share_label [of d] by (auto simp: share_option_def Let_def new_share_def split: if_splits)

lemma new_share_options: "new_share d \<Longrightarrow> new_share (fst (snd (share_options h share offset d labelled)))"
proof (induction h share offset d labelled rule: share_options.induct)
  case (1 h share offset d labelled)
  show ?case
    using "1.prems" "1.IH" new_share_option
    by (subst share_options.simps) (auto simp: Let_def split: prod.split sum.split)
qed

lemma canonical_abs: "canonical h p = Inr root \<Longrightarrow> p_abs root"
  by (cases "access_node SysStat True h p") (auto simp: canonical_def)

lemma drive_index: "\<not> (drive_char < ch_C \<or> drive_char > ch_Z) \<Longrightarrow> unat (drive_char - ch_A) < MAX_DRIVES_COUNT"
  by (auto simp: not_less MAX_DRIVES_COUNT_def word_le_nat_alt unat_sub)

definition new_shares :: "drive list \<Rightarrow> bool" where
  "new_shares ds \<longleftrightarrow> length ds = MAX_DRIVES_COUNT \<and> list_all new_share ds"

lemma new_shares_update: "new_shares ds \<Longrightarrow> new_share d \<Longrightarrow> new_shares (ds[n := d])"
  by (auto simp: new_shares_def list_all_iff dest!: set_update_subset_insert [THEN subsetD])

lemma new_share_definition:
  assumes "new_shares ds"
  shows "new_shares (snd (parse_share_definition h share ds))"
proof (cases "ascii_to_upper (share ! 0) < ch_C \<or> ascii_to_upper (share ! 0) > ch_Z")
  case False
  let ?n = "unat (ascii_to_upper (share ! 0) - ch_A)"
  have "new_share (ds ! ?n)" using drive_index [OF False] assms by (simp add: new_shares_def list_all_length)
  then have "new_share (fst (snd (share_options h share offset d False)))"
    if "canonical h p = Inr root" "set_root root (ds ! ?n) = Inr d" for p root d offset
    using that canonical_abs [OF that(1)]
    by (intro new_share_options) (auto simp: set_root_def new_share_def split: if_splits)
  then show ?thesis
    using assms new_shares_update [OF assms] new_share_label False
    by (auto simp: parse_share_definition_def Let_def split: sum.split prod.split) (metis fst_conv snd_conv)+
qed (auto simp: parse_share_definition_def Let_def assms)


lemma new_shares_argument:
  "new_shares (snd st) \<Longrightarrow> parse_argument h arg st = Inr st' \<Longrightarrow> new_shares (snd st')"
  using new_share_definition [of "snd st" h arg]
  by (auto simp: parse_argument_def Let_def split: if_splits prod.splits list.splits)

lemma new_shares_arguments:
  "new_shares (snd st) \<Longrightarrow> parse_arguments h args st = Inr st' \<Longrightarrow> new_shares (snd st')"
  by (induction h args st rule: parse_arguments.induct) (auto simp: new_shares_argument split: sum.splits)

lemma configure_shares:
  assumes "configure h args = Inr (opts, ds)"
  shows "new_shares ds"
proof -
  obtain ds0 where p: "parse_arguments h args (default_options, replicate MAX_DRIVES_COUNT default_drive) = Inr (opts, ds0)"
    and ds: "ds = map (resolve_attrs_mode h) ds0"
    using assms by (auto simp: configure_def split: sum.splits prod.splits if_splits)
  have "new_shares (replicate MAX_DRIVES_COUNT default_drive)"
    by (simp add: new_shares_def list_all_iff new_share_def default_drive_def wf_fcb_def)
  then have "new_shares ds0" using new_shares_arguments [OF _ p] by simp
  moreover have "new_share (resolve_attrs_mode h d) = new_share d" for d
    by (simp add: resolve_attrs_mode_def new_share_def)
  ultimately show ?thesis unfolding ds by (simp add: new_shares_def list_all_iff)
qed

lemma started_serving:
  assumes "new_shares ds"
  shows "serving env \<lparr>sv_cache = empty_cache, sv_drives = ds, sv_host = h\<rparr>"
proof -
  have "new_share (ds ! k)" if "k < length ds" for k
    using assms that by (simp add: new_shares_def list_all_length)
  moreover have "answered_cache (e_native env) ds empty_cache"
    by (simp add: answered_cache_def empty_cache_def empty_reply_info_def)
  ultimately show ?thesis
    by (auto simp: serving_def wf_empty_cache live_def drive_view_def
        wf_names_def wf_label_and_lists_def new_share_def)
qed

text \<open>A start that works: the socket can be bound, and the transliteration map can be read if it is needed.\<close>

definition starts :: "env \<Rightarrow> startup \<Rightarrow> options \<Rightarrow> drive list \<Rightarrow> bool" where
  "starts env st opts ds \<longleftrightarrow>
     (case open_transport (e_native env) st opts of Inr (Sock _) \<Rightarrow> True | _ \<Rightarrow> False) \<and>
     (case start_translit st opts ds of Some (_, exit_flag) \<Rightarrow> \<not> exit_flag | None \<Rightarrow> False)"

definition sent_datagrams :: "running \<Rightarrow> (sockaddr_in \<times> byte list) list" where
  "sent_datagrams s = (case rn_transport s of Sock sock \<Rightarrow> us_sent sock | SlipLine _ \<Rightarrow> [])"

text \<open>A server with one share, a turn without a packet and a turn with a request.\<close>

definition sample_start :: startup where
  "sample_start = \<lparr>st_socket = True, st_inet_pton = (\<lambda>_. None), st_bind = (\<lambda>_. True), st_serial = (\<lambda>_. None),
     st_tcgetattr = None, st_tcsetattr = (\<lambda>_. False), st_translit = (\<lambda>_. Some [])\<rparr>"

definition sample_args :: "byte list list" where
  "sample_args = [bytes_of ''C=/s'']"

definition sample_sender :: sockaddr_in where
  "sample_sender = \<lparr>sin_addr = 0x0100007F, sin_port = 0x1234\<rparr>"

definition idle_turn :: turn where
  "idle_turn = \<lparr>os_select = (\<lambda>_. SelectFailed EINTR), os_recvfrom = None, os_inet_ntop = (\<lambda>_. None), os_sendto = None,
     os_signals = [other_signal], os_files = (\<lambda>h. h)\<rparr>"

definition query_turn :: turn where
  "query_turn = \<lparr>os_select = (\<lambda>_. Selected 1), os_recvfrom = Some (sample_query, sample_sender),
     os_inet_ntop = (\<lambda>_. Some (bytes_of ''127.0.0.1'')), os_sendto = Some 8, os_signals = [], os_files = (\<lambda>h. h)\<rparr>"

definition sample_shares :: "options \<times> drive list" where
  "sample_shares = (case configure sample_host sample_args of Inr r \<Rightarrow> r | Inl _ \<Rightarrow> (default_options, []))"

lemma sample_configured: "configure sample_host sample_args = Inr sample_shares"
  by code_simp

lemma sample_starts: "starts sample_env sample_start (fst sample_shares) (snd sample_shares)"
  by code_simp

lemma sample_turns:
  "list_all (working (e_native sample_env)) ([idle_turn] @ [query_turn])"
  "asks (e_native sample_env) (snd sample_shares) query_turn sample_sender"
  by code_simp+

text \<open>After any number of working turns the server is in the middle of its loop.\<close>

lemma server_main_works:
  assumes "configure h args = Inr (opts, ds)" "starts env st opts ds" "list_all (working (e_native env)) turns"
  obtains srv sock tm where "serving (env\<lparr>e_translit := tm\<rparr>) srv" "map d_used (sv_drives srv) = map d_used ds"
    "\<forall>ts. server_main env st h args (turns @ ts) = Inr (main_loop (env\<lparr>e_translit := tm\<rparr>) (o_bind_port opts) ts False (on_socket srv sock))"
proof -
  obtain sock tm where st: "open_transport (e_native env) st opts = Inr (Sock sock)" "start_translit st opts ds = Some (tm, False)"
    using assms(2) by (auto simp: starts_def split: sum.splits transport.splits option.splits)
  let ?env = "env\<lparr>e_translit := tm\<rparr>" and ?port = "o_bind_port opts"
  let ?srv = "\<lparr>sv_cache = empty_cache, sv_drives = ds, sv_host = h\<rparr>"
  have run: "server_main env st h args ts = Inr (main_loop ?env ?port ts False (on_socket ?srv sock))" for ts
    using assms(1) st by (simp add: server_main_def on_socket_def)
  have w: "list_all (working (e_native ?env)) turns" using assms(3) by simp
  show thesis
    using main_loop_works [OF started_serving [OF configure_shares [OF assms(1)]] w] that run
    by (metis server.select_convs(2))
qed

text \<open>On the other hand one reply that the system refuses to send ends the server, with the exit code of a
  normal end.\<close>

lemma refused_reply_throws:
  assumes "serving env srv" "socket_works (t\<lparr>os_sendto := Some n\<rparr>)" "arrives_harmless (e_native env) t"
    "asks (e_native env) (sv_drives srv) t addr" "os_sendto t = None"
  shows "\<exists>s. udp_turn env t (srv, sock) = (Inl RuntimeError, s)"
proof -
  obtain packet request where a: "arrival t = Some (packet, addr)" "accept_packet (e_native env) packet = Some request"
    "served (e_native env) (sv_drives srv) request"
    using assms(4) by (auto simp: asks_def split: option.splits)
  obtain k datagram where t: "os_select t (10, 0) = Selected k" "k \<noteq> 0" "os_recvfrom t = Some (datagram, addr)"
    "packet = take REQUEST_PACKET_SIZE datagram"
    using a(1) by (auto simp: arrival_def split: select_ret.splits if_splits)
  obtain str where str: "os_inet_ntop t (sin_addr addr) = Some str" using assms(2) t by (auto simp: socket_works_def)
  let ?ip = "from_big32 (e_native env) (sin_addr addr)" and ?udp_port = "from_big16 (e_native env) (sin_port addr)"
  have "harmless (e_native env) request" using assms(3) a by (simp add: arrives_harmless_def)
  then obtain r srv' where "serve_packet env packet ?ip ?udp_port srv = (Inr r, srv')" "r \<noteq> None"
    using serve_packet_returns [OF assms(1) a(2)] a(3) by metis
  then show ?thesis
    using t str assms(5)
    by (auto simp: udp_turn_def wait_for_data_def udp_receive_def udp_last_remote_ip_def udp_last_remote_port_def
        udp_last_remote_ip_str_def udp_send_reply_def sx_defs Let_def)
qed

text \<open>C39: One reply that the system refuses to send ends the server: when \<^verbatim>\<open>sendto\<close> fails for the reply to a
  well-formed request, the exception leaves the loop, and the server ends, as if it had been told to, without
  looking at what arrives later. This holds after any number of working turns, for the limits of the next property.\<close>

theorem refused_reply_ends_server:
  assumes "configure h args = Inr (opts, ds)" "starts env st opts ds" "list_all (working (e_native env)) turns"
    "socket_works (t\<lparr>os_sendto := Some n\<rparr>)" "arrives_harmless (e_native env) t" "asks (e_native env) ds t addr" "os_sendto t = None"
  shows "\<exists>s. server_main env st h args (turns @ t # rest) = Inr (Ended, s)"
proof -
  obtain srv sock tm where 1: "serving (env\<lparr>e_translit := tm\<rparr>) srv" "map d_used (sv_drives srv) = map d_used ds"
    "\<forall>ts. server_main env st h args (turns @ ts) = Inr (main_loop (env\<lparr>e_translit := tm\<rparr>) (o_bind_port opts) ts False (on_socket srv sock))"
    by (rule server_main_works [OF assms(1-3)])
  let ?srv = "srv\<lparr>sv_host := os_files t (sv_host srv)\<rparr>"
  have "asks (e_native env) (sv_drives ?srv) t addr"
    using asks_cong [of "sv_drives srv" ds] 1(2) assms(6) by simp
  then obtain s where "udp_turn (env\<lparr>e_translit := tm\<rparr>) t (?srv, sock) = (Inl RuntimeError, s)"
    using refused_reply_throws [where env = "env\<lparr>e_translit := tm\<rparr>" and srv = ?srv and t = t and n = n and addr = addr and sock = sock] 1(1) assms(4,5,7) by (auto simp: serving_host)
  then show ?thesis
    using 1(3) by (auto simp: on_socket_def elapse_def main_turn_def split: prod.split)
qed

text \<open>A network that is unreachable for a moment.\<close>

theorem refused_reply_ends_server_witness:
  "\<exists>s. server_main sample_env sample_start sample_host sample_args
     [idle_turn, query_turn\<lparr>os_sendto := None\<rparr>, query_turn] = Inr (Ended, s)"
proof -
  have "list_all (working (e_native sample_env)) [idle_turn]"
    "socket_works (query_turn\<lparr>os_sendto := None, os_sendto := Some 8\<rparr>)"
    "arrives_harmless (e_native sample_env) (query_turn\<lparr>os_sendto := None\<rparr>)"
    "asks (e_native sample_env) (snd sample_shares) (query_turn\<lparr>os_sendto := None\<rparr>) sample_sender"
    by code_simp+
  then show ?thesis
    using refused_reply_ends_server [OF _ sample_starts, where turns = "[idle_turn]" and rest = "[query_turn]" and n = 8
        and t = "query_turn\<lparr>os_sendto := None\<rparr>"] sample_configured by simp
qed

text \<open>C7: Apart from packets of more than 1500 bytes and requests to read more than 1492 bytes, for which
  the server leaves its arrays, no packet ends the server. Started with a command line that it accepts
  and with a socket that works, it is still running after any number of turns with timeouts, interrupted
  waits, damaged, malformed and valid packets within these limits, while other processes change the files
  as they like; and a well-formed request for a shared drive is answered, to its sender, in the turn in
  which it arrives.\<close>

theorem server_keeps_serving:
  assumes "configure h args = Inr (opts, ds)" "starts env st opts ds"
    "list_all (working (e_native env)) (turns @ [t])" "asks (e_native env) ds t addr"
  shows "\<exists>s before reply. server_main env st h args (turns @ [t]) = Inr (Running, s) \<and>
    sent_datagrams s = before @ [(addr, reply)]"
proof -
  have w: "list_all (working (e_native env)) turns" "working (e_native env) t" using assms(3) by simp_all
  obtain srv sock tm where 1: "serving (env\<lparr>e_translit := tm\<rparr>) srv" "map d_used (sv_drives srv) = map d_used ds"
    "\<forall>ts. server_main env st h args (turns @ ts) = Inr (main_loop (env\<lparr>e_translit := tm\<rparr>) (o_bind_port opts) ts False (on_socket srv sock))"
    by (rule server_main_works [OF assms(1,2) w(1)])
  let ?env = "env\<lparr>e_translit := tm\<rparr>" and ?srv = "srv\<lparr>sv_host := os_files t (sv_host srv)\<rparr>"
  have a: "asks (e_native ?env) (sv_drives ?srv) t addr"
    using asks_cong [of "sv_drives srv" ds] 1(2) assms(4) by simp
  have "serving ?env ?srv" "socket_works t" "arrives_harmless (e_native ?env) t"
    using 1(1) w(2) by (simp_all add: serving_host working_def)
  then obtain srv2 sock2 out where "udp_turn ?env t (?srv, sock) = (Inr (), srv2, sock2)" "us_sent sock2 = us_sent sock @ out"
    "\<exists>reply. out = [(addr, reply)]"
    using udp_turn_works a by metis
  then show ?thesis
    using 1(3) working_signals [OF w(2)]
    by (auto simp: on_socket_def elapse_def main_turn_def sent_datagrams_def)
qed


theorem server_keeps_serving_witness:
  "\<exists>s before reply. server_main sample_env sample_start sample_host sample_args [idle_turn, query_turn] = Inr (Running, s) \<and>
     sent_datagrams s = before @ [(sample_sender, reply)]"
  using server_keeps_serving [OF _ sample_starts sample_turns] sample_configured by simp

end
