(* ===== verification/Platforms.thy ===== *)
theory Platforms
  imports Files
begin

text \<open>
  The storage of DOS attributes in the other builds of the server: \<^verbatim>\<open>fs_freebsd.cpp\<close>, \<^verbatim>\<open>fs_macos.cpp\<close> and
  \<^verbatim>\<open>fs_win.cpp\<close>; the one of Linux is in \<open>FsOps\<close>. The calls of these systems are arguments, with what their
  manuals promise as the locales \<open>flag_calls\<close>, \<open>xattr_calls\<close> and \<open>win_calls\<close>. Every build fulfils the contract
  \<open>attr_storage\<close>.
\<close>

section \<open>FreeBSD\<close>

text \<open>The name of the file system type, from \<^verbatim>\<open>statfs\<close>.\<close>

definition is_on_fat :: "(host \<Rightarrow> path \<Rightarrow> errc + byte list) \<Rightarrow> host \<Rightarrow> path \<Rightarrow> bool" where
  "is_on_fat statfs h path =
     (case statfs h path of Inl _ \<Rightarrow> False | Inr f_fstypename \<Rightarrow> f_fstypename = bytes_of ''msdosfs'')"

definition freebsd_is_dos_attrs_native_supported :: "(host \<Rightarrow> path \<Rightarrow> errc + byte list) \<Rightarrow> host \<Rightarrow> path \<Rightarrow> bool" where
  "freebsd_is_dos_attrs_native_supported statfs h path = is_on_fat statfs h path"

text \<open>The flags of \<^verbatim>\<open>sys/stat.h\<close>\<close>

definition UF_SYSTEM :: u32 where "UF_SYSTEM = 0x80"
definition UF_ARCHIVE :: u32 where "UF_ARCHIVE = 0x800"
definition UF_READONLY :: u32 where "UF_READONLY = 0x1000"
definition UF_HIDDEN :: u32 where "UF_HIDDEN = 0x8000"

lemmas uf_consts = UF_SYSTEM_def UF_ARCHIVE_def UF_READONLY_def UF_HIDDEN_def

text \<open>\<open>stat_flags\<close> is \<^verbatim>\<open>st_flags\<close> of \<^verbatim>\<open>stat\<close>.\<close>

definition freebsd_get_dos_attrs_native :: "(host \<Rightarrow> path \<Rightarrow> errc + u32) \<Rightarrow> path \<Rightarrow> (host, u8) sx" where
  "freebsd_get_dos_attrs_native stat_flags path h =
     (case stat_flags h path of
        Inl _ \<Rightarrow> (Inl RuntimeError, h)
      | Inr st_flags \<Rightarrow>
          (Inr ((if st_flags AND UF_READONLY \<noteq> 0 then FAT_RO else 0)
             OR (if st_flags AND UF_HIDDEN \<noteq> 0 then FAT_HIDDEN else 0)
             OR (if st_flags AND UF_SYSTEM \<noteq> 0 then FAT_SYSTEM else 0)
             OR (if st_flags AND UF_ARCHIVE \<noteq> 0 then FAT_ARCHIVE else 0)), h))"

definition freebsd_set_dos_attrs_native ::
  "(path \<Rightarrow> u32 \<Rightarrow> host \<Rightarrow> (errc + unit) \<times> host) \<Rightarrow> path \<Rightarrow> u8 \<Rightarrow> (host, unit) sx" where
  "freebsd_set_dos_attrs_native chflags path attrs h =
     (let flags = (if attrs AND FAT_RO \<noteq> 0 then UF_READONLY else 0)
            OR (if attrs AND FAT_HIDDEN \<noteq> 0 then UF_HIDDEN else 0)
            OR (if attrs AND FAT_SYSTEM \<noteq> 0 then UF_SYSTEM else 0)
            OR (if attrs AND FAT_ARCHIVE \<noteq> 0 then UF_ARCHIVE else 0)
      in case chflags path flags h of
           (Inl _, h') \<Rightarrow> (Inl RuntimeError, h')
         | (Inr _, h') \<Rightarrow> (Inr (), h'))"

text \<open>\<^verbatim>\<open>extattr_get_file\<close> with the size of the buffer, \<^verbatim>\<open>extattr_set_file\<close> and \<^verbatim>\<open>extattr_delete_file\<close> for the user
  attribute \<^verbatim>\<open>NetMountAttrs\<close>; \<open>no_message_available\<close> stands for \<^verbatim>\<open>ENOATTR\<close>.\<close>

type_synonym xattr_get = "host \<Rightarrow> path \<Rightarrow> nat \<Rightarrow> errc + byte list"
type_synonym xattr_set = "path \<Rightarrow> byte list \<Rightarrow> host \<Rightarrow> (errc + unit) \<times> host"
type_synonym xattr_remove = "path \<Rightarrow> host \<Rightarrow> (errc + unit) \<times> host"

definition freebsd_is_dos_attrs_in_extended_supported :: "xattr_get \<Rightarrow> host \<Rightarrow> path \<Rightarrow> bool" where
  "freebsd_is_dos_attrs_in_extended_supported extattr_get_file h path =
     (case extattr_get_file h path 0 of Inl e \<Rightarrow> e = no_message_available | Inr _ \<Rightarrow> True)"

definition freebsd_get_dos_attrs_from_extended :: "xattr_get \<Rightarrow> path \<Rightarrow> (host, u8) sx" where
  "freebsd_get_dos_attrs_from_extended extattr_get_file path h =
     (case extattr_get_file h path 8 of
        Inl e \<Rightarrow>
          if e = no_message_available then
            sx_bind (fs_query (\<lambda>h. is_directory h path)) (\<lambda>d. sx_return (if d then FAT_NONE else FAT_ARCHIVE)) h
          else (Inl RuntimeError, h)
      | Inr v \<Rightarrow> (Inr ((case v of [] \<Rightarrow> 0 | a # _ \<Rightarrow> a) AND (FAT_ARCHIVE OR FAT_HIDDEN OR FAT_RO OR FAT_SYSTEM)), h))"

definition freebsd_set_dos_attrs_to_extended :: "xattr_set \<Rightarrow> xattr_remove \<Rightarrow> path \<Rightarrow> u8 \<Rightarrow> (host, unit) sx" where
  "freebsd_set_dos_attrs_to_extended extattr_set_file extattr_delete_file path attrs =
     (let attrs = attrs AND (FAT_ARCHIVE OR FAT_HIDDEN OR FAT_RO OR FAT_SYSTEM) in
      sx_bind (if attrs = FAT_NONE then fs_query (\<lambda>h. is_directory h path)
               else if attrs = FAT_ARCHIVE then
                 sx_bind (fs_query (\<lambda>h. is_directory h path)) (\<lambda>d. sx_return (\<not> d))
               else sx_return False) (\<lambda>default_attrs.
      if default_attrs then
        sx_bind (fs_do (extattr_delete_file path)) (\<lambda>r.
          case r of
            Inl e \<Rightarrow> if e = no_message_available then sx_return () else sx_throw RuntimeError
          | Inr _ \<Rightarrow> sx_return ())
      else
        sx_bind (fs_do (extattr_set_file path [attrs])) (\<lambda>r.
          case r of Inl _ \<Rightarrow> sx_throw RuntimeError | Inr _ \<Rightarrow> sx_return ())))"


section \<open>macOS\<close>

text \<open>\<^verbatim>\<open>getxattr\<close>, \<^verbatim>\<open>setxattr\<close> and \<^verbatim>\<open>removexattr\<close> with two more arguments that are zero; here, too,
  \<open>no_message_available\<close> stands for \<^verbatim>\<open>ENOATTR\<close>, and \<open>not_supported\<close> for \<^verbatim>\<open>ENOTSUP\<close>.\<close>

definition macos_is_dos_attrs_in_extended_supported :: "xattr_get \<Rightarrow> host \<Rightarrow> path \<Rightarrow> bool" where
  "macos_is_dos_attrs_in_extended_supported getx h path \<longleftrightarrow> getx h path 0 \<noteq> Inl not_supported"

definition macos_get_dos_attrs_from_extended :: "xattr_get \<Rightarrow> path \<Rightarrow> (host, u8) sx" where
  "macos_get_dos_attrs_from_extended getx path h =
     (case getx h path 8 of
        Inl e \<Rightarrow>
          if e = no_message_available then
            sx_bind (fs_query (\<lambda>h. is_directory h path)) (\<lambda>d. sx_return (if d then FAT_NONE else FAT_ARCHIVE)) h
          else (Inl RuntimeError, h)
      | Inr v \<Rightarrow> (Inr ((case v of [] \<Rightarrow> 0 | a # _ \<Rightarrow> a) AND (FAT_ARCHIVE OR FAT_HIDDEN OR FAT_RO OR FAT_SYSTEM)), h))"

definition macos_set_dos_attrs_to_extended :: "xattr_set \<Rightarrow> xattr_remove \<Rightarrow> path \<Rightarrow> u8 \<Rightarrow> (host, unit) sx" where
  "macos_set_dos_attrs_to_extended setx removex path attrs =
     (let attrs = attrs AND (FAT_ARCHIVE OR FAT_HIDDEN OR FAT_RO OR FAT_SYSTEM) in
      sx_bind (if attrs = FAT_NONE then fs_query (\<lambda>h. is_directory h path)
               else if attrs = FAT_ARCHIVE then
                 sx_bind (fs_query (\<lambda>h. is_directory h path)) (\<lambda>d. sx_return (\<not> d))
               else sx_return False) (\<lambda>default_attrs.
      if default_attrs then
        sx_bind (fs_do (removex path)) (\<lambda>r.
          case r of
            Inl e \<Rightarrow> if e = no_message_available then sx_return () else sx_throw RuntimeError
          | Inr _ \<Rightarrow> sx_return ())
      else
        sx_bind (fs_do (setx path [attrs])) (\<lambda>r.
          case r of Inl _ \<Rightarrow> sx_throw RuntimeError | Inr _ \<Rightarrow> sx_return ())))"


section \<open>Windows\<close>

definition FILE_ATTRIBUTE_READONLY :: u32 where "FILE_ATTRIBUTE_READONLY = 0x1"
definition FILE_ATTRIBUTE_HIDDEN :: u32 where "FILE_ATTRIBUTE_HIDDEN = 0x2"
definition FILE_ATTRIBUTE_SYSTEM :: u32 where "FILE_ATTRIBUTE_SYSTEM = 0x4"
definition FILE_ATTRIBUTE_ARCHIVE :: u32 where "FILE_ATTRIBUTE_ARCHIVE = 0x20"
definition INVALID_FILE_ATTRIBUTES :: u32 where "INVALID_FILE_ATTRIBUTES = 0xFFFFFFFF"

lemmas file_attribute_consts = FILE_ATTRIBUTE_READONLY_def FILE_ATTRIBUTE_HIDDEN_def FILE_ATTRIBUTE_SYSTEM_def
  FILE_ATTRIBUTE_ARCHIVE_def

definition win_is_dos_attrs_native_supported :: "path \<Rightarrow> bool" where
  "win_is_dos_attrs_native_supported path \<longleftrightarrow> True"

definition win_get_dos_attrs_native :: "(host \<Rightarrow> path \<Rightarrow> u32) \<Rightarrow> path \<Rightarrow> (host, u8) sx" where
  "win_get_dos_attrs_native GetFileAttributesW path h =
     (let attrs = GetFileAttributesW h path in
      if attrs = INVALID_FILE_ATTRIBUTES then (Inl RuntimeError, h)
      else (Inr ((if attrs AND FILE_ATTRIBUTE_READONLY \<noteq> 0 then FAT_RO else 0)
              OR (if attrs AND FILE_ATTRIBUTE_HIDDEN \<noteq> 0 then FAT_HIDDEN else 0)
              OR (if attrs AND FILE_ATTRIBUTE_SYSTEM \<noteq> 0 then FAT_SYSTEM else 0)
              OR (if attrs AND FILE_ATTRIBUTE_ARCHIVE \<noteq> 0 then FAT_ARCHIVE else 0)), h))"

definition win_set_dos_attrs_native :: "(path \<Rightarrow> u32 \<Rightarrow> host \<Rightarrow> bool \<times> host) \<Rightarrow> path \<Rightarrow> u8 \<Rightarrow> (host, unit) sx" where
  "win_set_dos_attrs_native SetFileAttributesW path attrs h =
     (let win_attrs = (if attrs AND FAT_RO \<noteq> 0 then FILE_ATTRIBUTE_READONLY else 0)
            OR (if attrs AND FAT_HIDDEN \<noteq> 0 then FILE_ATTRIBUTE_HIDDEN else 0)
            OR (if attrs AND FAT_SYSTEM \<noteq> 0 then FILE_ATTRIBUTE_SYSTEM else 0)
            OR (if attrs AND FAT_ARCHIVE \<noteq> 0 then FILE_ATTRIBUTE_ARCHIVE else 0)
      in case SetFileAttributesW path win_attrs h of
           (ok, h') \<Rightarrow> (if ok then Inr () else Inl RuntimeError, h'))"



section \<open>The contract\<close>

text \<open>A storage for DOS attributes: what is set is what is read, and only the four attributes are kept.\<close>

locale attr_storage =
  fixes get :: "path \<Rightarrow> (host, u8) sx" and set :: "path \<Rightarrow> u8 \<Rightarrow> (host, unit) sx"
  assumes get_set: "set p a h = (Inr (), h') \<Longrightarrow> get p h' = (Inr (a AND ext_mask), h')"
    and get_masked: "get p h = (Inr a, h') \<Longrightarrow> a AND ext_mask = a \<and> h' = h"
begin

lemma get_set_masked: "set p a h = (Inr (), h') \<Longrightarrow> a AND ext_mask = a \<Longrightarrow> get p h' = (Inr a, h')"
  using get_set by fastforce

lemma set_read_value: "get p h = (Inr a, h1) \<Longrightarrow> set q a h1 = (Inr (), h2) \<Longrightarrow> get q h2 = (Inr a, h2)"
  using get_masked get_set_masked by blast

end

text \<open>Attributes that are read from one storage and written to another one.\<close>

locale attr_copy = source: attr_storage get1 set1 + target: attr_storage get2 set2
  for get1 set1 get2 set2
begin

lemma copied: "get1 p h = (Inr a, h1) \<Longrightarrow> set2 q a h2 = (Inr (), h3) \<Longrightarrow> get2 q h3 = (Inr a, h3)"
  using source.get_masked target.get_set_masked by blast

end


section \<open>Flags of the file system\<close>

text \<open>\<^verbatim>\<open>chflags\<close> sets the flags that \<^verbatim>\<open>stat\<close> reports.\<close>

locale flag_calls =
  fixes stat_flags :: "host \<Rightarrow> path \<Rightarrow> errc + u32" and chflags :: "path \<Rightarrow> u32 \<Rightarrow> host \<Rightarrow> (errc + unit) \<times> host"
  assumes flags_set: "chflags p f h = (Inr (), h') \<Longrightarrow> stat_flags h' p = Inr f"

text \<open>\<^verbatim>\<open>SetFileAttributesW\<close> sets the four attributes; \<^verbatim>\<open>GetFileAttributesW\<close> reports them among others.\<close>

definition win_mask :: u32 where
  "win_mask = FILE_ATTRIBUTE_READONLY OR FILE_ATTRIBUTE_HIDDEN OR FILE_ATTRIBUTE_SYSTEM OR FILE_ATTRIBUTE_ARCHIVE"

locale win_calls =
  fixes get_attributes :: "host \<Rightarrow> path \<Rightarrow> u32" and set_attributes :: "path \<Rightarrow> u32 \<Rightarrow> host \<Rightarrow> bool \<times> host"
  assumes attributes_set: "set_attributes p f h = (True, h') \<Longrightarrow>
    get_attributes h' p \<noteq> INVALID_FILE_ATTRIBUTES \<and> get_attributes h' p AND win_mask = f AND win_mask"

text \<open>Each of the four bits is read as it was written.\<close>

lemma four_attrs: "(if a AND FAT_RO \<noteq> 0 then FAT_RO else 0) OR (if a AND FAT_HIDDEN \<noteq> 0 then FAT_HIDDEN else 0) OR
    (if a AND FAT_SYSTEM \<noteq> 0 then FAT_SYSTEM else 0) OR (if a AND FAT_ARCHIVE \<noteq> 0 then FAT_ARCHIVE else 0) = a AND ext_mask"
  by (simp add: ext_mask_split fat_one_bit)

lemma four_attrs_masked: "((if ro then FAT_RO else 0) OR (if hi then FAT_HIDDEN else 0) OR (if sy then FAT_SYSTEM else 0) OR
    (if ar then FAT_ARCHIVE else 0)) AND ext_mask =
   (if ro then FAT_RO else 0) OR (if hi then FAT_HIDDEN else 0) OR (if sy then FAT_SYSTEM else 0) OR (if ar then FAT_ARCHIVE else 0)"
  by (simp add: fat_consts ext_mask_def)

sublocale flag_calls \<subseteq> freebsd_native: attr_storage "freebsd_get_dos_attrs_native stat_flags" "freebsd_set_dos_attrs_native chflags"
proof
  fix p a h h' assume set: "freebsd_set_dos_attrs_native chflags p a h = (Inr (), h')"
  let ?f = "(if a AND FAT_RO \<noteq> 0 then UF_READONLY else 0) OR (if a AND FAT_HIDDEN \<noteq> 0 then UF_HIDDEN else 0) OR
    (if a AND FAT_SYSTEM \<noteq> 0 then UF_SYSTEM else 0) OR (if a AND FAT_ARCHIVE \<noteq> 0 then UF_ARCHIVE else 0)"
  have "stat_flags h' p = Inr ?f"
    using set by (intro flags_set) (auto simp: freebsd_set_dos_attrs_native_def Let_def split: prod.splits sum.splits)
  moreover have "?f AND UF_READONLY \<noteq> 0 \<longleftrightarrow> a AND FAT_RO \<noteq> 0" "?f AND UF_HIDDEN \<noteq> 0 \<longleftrightarrow> a AND FAT_HIDDEN \<noteq> 0"
    "?f AND UF_SYSTEM \<noteq> 0 \<longleftrightarrow> a AND FAT_SYSTEM \<noteq> 0" "?f AND UF_ARCHIVE \<noteq> 0 \<longleftrightarrow> a AND FAT_ARCHIVE \<noteq> 0"
    unfolding uf_consts by simp_all
  ultimately show "freebsd_get_dos_attrs_native stat_flags p h' = (Inr (a AND ext_mask), h')"
    using four_attrs [of a] by (simp only: freebsd_get_dos_attrs_native_def sum.case)
next
  show "a AND ext_mask = a \<and> h' = h" if "freebsd_get_dos_attrs_native stat_flags p h = (Inr a, h')" for p h a h'
    using that by (auto simp: freebsd_get_dos_attrs_native_def four_attrs_masked split: sum.splits split del: if_split)
qed

sublocale win_calls \<subseteq> win_native: attr_storage "win_get_dos_attrs_native get_attributes" "win_set_dos_attrs_native set_attributes"
proof
  fix p a h h' assume set: "win_set_dos_attrs_native set_attributes p a h = (Inr (), h')"
  let ?f = "(if a AND FAT_RO \<noteq> 0 then FILE_ATTRIBUTE_READONLY else 0) OR (if a AND FAT_HIDDEN \<noteq> 0 then FILE_ATTRIBUTE_HIDDEN else 0) OR
    (if a AND FAT_SYSTEM \<noteq> 0 then FILE_ATTRIBUTE_SYSTEM else 0) OR (if a AND FAT_ARCHIVE \<noteq> 0 then FILE_ATTRIBUTE_ARCHIVE else 0)"
  let ?g = "get_attributes h' p"
  have stored: "set_attributes p ?f h = (True, h')"
    using set unfolding win_set_dos_attrs_native_def Let_def
    by (cases "set_attributes p ?f h"; cases "fst (set_attributes p ?f h)") (simp_all split del: if_split)
  note g = attributes_set [OF stored, THEN conjunct1] attributes_set [OF stored, THEN conjunct2]
  have bit: "?g AND m = ?f AND m" if "win_mask AND m = m" for m
  proof -
    have "?g AND m = (?g AND win_mask) AND m" by (simp only: and.assoc that)
    also have "\<dots> = (?f AND win_mask) AND m" by (simp only: g(2))
    also have "\<dots> = ?f AND m" by (simp only: and.assoc that)
    finally show ?thesis .
  qed
  have "?g AND FILE_ATTRIBUTE_READONLY \<noteq> 0 \<longleftrightarrow> a AND FAT_RO \<noteq> 0" "?g AND FILE_ATTRIBUTE_HIDDEN \<noteq> 0 \<longleftrightarrow> a AND FAT_HIDDEN \<noteq> 0"
    "?g AND FILE_ATTRIBUTE_SYSTEM \<noteq> 0 \<longleftrightarrow> a AND FAT_SYSTEM \<noteq> 0" "?g AND FILE_ATTRIBUTE_ARCHIVE \<noteq> 0 \<longleftrightarrow> a AND FAT_ARCHIVE \<noteq> 0"
    by (subst bit, simp add: win_mask_def file_attribute_consts, simp add: file_attribute_consts)+
  then show "win_get_dos_attrs_native get_attributes p h' = (Inr (a AND ext_mask), h')"
    using four_attrs [of a] g(1) by (simp only: win_get_dos_attrs_native_def Let_def if_False)
next
  show "a AND ext_mask = a \<and> h' = h" if "win_get_dos_attrs_native get_attributes p h = (Inr a, h')" for p h a h'
    using that by (cases "get_attributes h p = INVALID_FILE_ATTRIBUTES")
      (auto simp: win_get_dos_attrs_native_def Let_def four_attrs_masked split del: if_split)
qed



context flag_calls
begin

lemma freebsd_native_storage:
  "attr_storage (freebsd_get_dos_attrs_native stat_flags) (freebsd_set_dos_attrs_native chflags)"
  by (rule freebsd_native.attr_storage_axioms)

end

context win_calls
begin

lemma win_native_storage:
  "attr_storage (win_get_dos_attrs_native get_attributes) (win_set_dos_attrs_native set_attributes)"
  by (rule win_native.attr_storage_axioms)

end


section \<open>Extended attributes\<close>

text \<open>An attribute that was set can be read, one that was removed is missing, and neither makes a directory of
  a file.\<close>

locale xattr_calls =
  fixes getx :: xattr_get and setx :: xattr_set and removex :: xattr_remove
  assumes get_after_set: "setx p [b] h = (Inr (), h') \<Longrightarrow> getx h' p 8 = Inr [b]"
    and get_after_remove: "removex p h = (r, h') \<Longrightarrow> r = Inr () \<or> r = Inl no_message_available \<Longrightarrow>
      getx h' p 8 = Inl no_message_available \<and> is_directory h' p = is_directory h p"
begin

text \<open>The default attributes are stored by the absence of the extended attribute.\<close>

lemma set_extended_cases:
  assumes "macos_set_dos_attrs_to_extended setx removex p a h = (Inr (), h')"
  shows "if default_attrs h p (a AND ext_mask)
    then \<exists>r. removex p h = (r, h') \<and> (r = Inr () \<or> r = Inl no_message_available)
    else setx p [a AND ext_mask] h = (Inr (), h')"
proof -
  define m where "m = a AND ext_mask"
  have ne: "FAT_NONE \<noteq> FAT_ARCHIVE" by (simp add: fat_consts)
  show ?thesis
    unfolding m_def [symmetric] using assms
    unfolding macos_set_dos_attrs_to_extended_def ext_mask_def [symmetric] m_def [symmetric] Let_def default_attrs_def
    by (cases "is_directory h p"; cases "m = FAT_NONE"; cases "m = FAT_ARCHIVE")
      (auto simp: sx_defs fs_defs ne ne [symmetric] split: if_splits prod.splits sum.splits)
qed

end

lemma ext_mask_default: "FAT_NONE AND ext_mask = FAT_NONE" "FAT_ARCHIVE AND ext_mask = FAT_ARCHIVE"
  by (simp_all add: fat_consts ext_mask_def)

sublocale xattr_calls \<subseteq> macos_extended: attr_storage "macos_get_dos_attrs_from_extended getx" "macos_set_dos_attrs_to_extended setx removex"
proof
  fix p a h h' assume set: "macos_set_dos_attrs_to_extended setx removex p a h = (Inr (), h')"
  show "macos_get_dos_attrs_from_extended getx p h' = (Inr (a AND ext_mask), h')"
  proof (cases "default_attrs h p (a AND ext_mask)")
    case True
    then obtain d r where "is_directory h p = Inr d" "a AND ext_mask = (if d then FAT_NONE else FAT_ARCHIVE)"
      "removex p h = (r, h')" "r = Inr () \<or> r = Inl no_message_available"
      using set_extended_cases [OF set] by (auto simp: default_attrs_def)
    then show ?thesis
      using get_after_remove [of p h r h'] by (simp add: macos_get_dos_attrs_from_extended_def sx_defs fs_defs)
  next
    case False
    then show ?thesis
      using set_extended_cases [OF set] get_after_set [of p "a AND ext_mask" h h']
      by (simp add: macos_get_dos_attrs_from_extended_def ext_mask_def [symmetric] and.assoc)
  qed
next
  show "a AND ext_mask = a \<and> h' = h" if "macos_get_dos_attrs_from_extended getx p h = (Inr a, h')" for p h a h'
    using that ext_mask_default
    by (auto simp: macos_get_dos_attrs_from_extended_def ext_mask_def [symmetric] and.assoc sx_defs fs_defs
        split: sum.splits if_splits)
qed

text \<open>The code for FreeBSD differs only in the names of the calls.\<close>

lemma freebsd_extended_eq:
  "freebsd_get_dos_attrs_from_extended = macos_get_dos_attrs_from_extended"
  "freebsd_set_dos_attrs_to_extended = macos_set_dos_attrs_to_extended"
  by (intro ext, simp add: freebsd_get_dos_attrs_from_extended_def macos_get_dos_attrs_from_extended_def)
    (intro ext, simp add: freebsd_set_dos_attrs_to_extended_def macos_set_dos_attrs_to_extended_def)

sublocale xattr_calls \<subseteq> freebsd_extended: attr_storage "freebsd_get_dos_attrs_from_extended getx" "freebsd_set_dos_attrs_to_extended setx removex"
  unfolding freebsd_extended_eq by (rule macos_extended.attr_storage_axioms)



context xattr_calls
begin

lemma extended_storages:
  "attr_storage (macos_get_dos_attrs_from_extended getx) (macos_set_dos_attrs_to_extended setx removex)"
  "attr_storage (freebsd_get_dos_attrs_from_extended getx) (freebsd_set_dos_attrs_to_extended setx removex)"
  by (rule macos_extended.attr_storage_axioms freebsd_extended.attr_storage_axioms)+

end


section \<open>Linux\<close>

lemma ioctl_get_after_set:
  assumes "fat_ioctl_set p f h = (Inr (), h')"
  shows "fat_ioctl_get h' p = Inr f"
proof -
  obtain loc nd where acc: "access_node SysOpen True h p = Inr (loc, nd)" "h_fat_fs h" "h_faults h SysIoctl loc = None"
    and h': "h' = set_node loc (nd\<lparr>n_fat := f\<rparr>) h"
    using assms by (auto simp: fat_ioctl_set_def split: sum.splits option.splits if_splits)
  have t: "touched loc (nd\<lparr>n_fat := f\<rparr>) h h'"
    using acc(1) h' by (auto simp: touched_def access_node_def same_kind_def split: sum.splits option.splits inode.splits)
  show ?thesis
    using acc touched_access_node [OF t] touched_faults [OF t] h' by (simp add: fat_ioctl_get_def set_node_def)
qed

interpretation linux_ioctl: flag_calls fat_ioctl_get fat_ioctl_set
  by unfold_locales (rule ioctl_get_after_set)

interpretation linux_xattr: xattr_calls getxattr setxattr removexattr
proof
  show "getxattr h' p 8 = Inr [b]" if set: "setxattr p [b] h = (Inr (), h')" for p b h h'
  proof -
    obtain loc nd where "access_node SysXattr True h p = Inr (loc, nd)" "h_xattr_fs h"
      "h' = set_node loc (nd\<lparr>n_xattr := Some [b]\<rparr>) h"
      using set by (auto simp: setxattr_def split: sum.splits if_splits)
    then show ?thesis using get_after_xattr [of h p loc nd "Some [b]"] by simp
  qed
qed (rule remove_default_attrs)

lemma linux_extended_eq:
  "get_dos_attrs_from_extended = macos_get_dos_attrs_from_extended getxattr"
  "set_dos_attrs_to_extended = macos_set_dos_attrs_to_extended setxattr removexattr"
  by (intro ext, simp add: get_dos_attrs_from_extended_def macos_get_dos_attrs_from_extended_def ext_mask_def split: sum.split)
    (intro ext, simp add: set_dos_attrs_to_extended_def macos_set_dos_attrs_to_extended_def ext_mask_def)

interpretation linux_extended: attr_storage get_dos_attrs_from_extended set_dos_attrs_to_extended
  unfolding linux_extended_eq by (rule linux_xattr.macos_extended.attr_storage_axioms)

interpretation linux_native: attr_storage get_dos_attrs_native set_dos_attrs_native
proof
  show "a AND ext_mask = a \<and> h' = h" if "get_dos_attrs_native p h = (Inr a, h')" for p h a h'
    using that by (auto simp: get_dos_attrs_native_def four_attrs_masked split: sum.splits split del: if_split)
qed (rule set_dos_attrs_native_result)

text \<open>The attributes of a FAT file system as Windows shows them.\<close>

definition fat_get_attributes :: "host \<Rightarrow> path \<Rightarrow> u32" where
  "fat_get_attributes h p = (case fat_ioctl_get h p of Inl _ \<Rightarrow> INVALID_FILE_ATTRIBUTES | Inr f \<Rightarrow> f AND 0x3F)"

definition fat_set_attributes :: "path \<Rightarrow> u32 \<Rightarrow> host \<Rightarrow> bool \<times> host" where
  "fat_set_attributes p f h = (case fat_ioctl_set p f h of (Inl _, h') \<Rightarrow> (False, h') | (Inr _, h') \<Rightarrow> (True, h'))"

interpretation windows_fat: win_calls fat_get_attributes fat_set_attributes
proof
  fix p f h h' assume "fat_set_attributes p f h = (True, h')"
  then have "fat_ioctl_set p f h = (Inr (), h')" by (auto simp: fat_set_attributes_def split: prod.splits sum.splits)
  then have g: "fat_get_attributes h' p = f AND 0x3F" by (simp add: fat_get_attributes_def ioctl_get_after_set)
  moreover have "(f AND 0x3F) AND win_mask = f AND win_mask"
    by (simp add: win_mask_def file_attribute_consts and.assoc)
  moreover have "f AND 0x3F \<noteq> INVALID_FILE_ATTRIBUTES"
  proof
    assume "f AND 0x3F = INVALID_FILE_ATTRIBUTES"
    then have "(f AND 0x3F) AND 0x40 = INVALID_FILE_ATTRIBUTES AND 0x40" by simp
    then show False by (simp add: INVALID_FILE_ATTRIBUTES_def and.assoc)
  qed
  ultimately show "fat_get_attributes h' p \<noteq> INVALID_FILE_ATTRIBUTES \<and> fat_get_attributes h' p AND win_mask = f AND win_mask"
    by simp
qed


text \<open>From a FAT file system to one with extended attributes.\<close>

interpretation linux_copy: attr_copy get_dos_attrs_native set_dos_attrs_native get_dos_attrs_from_extended set_dos_attrs_to_extended
  by unfold_locales


section \<open>All builds\<close>

datatype attr_build = Linux_native | Linux_extended | FreeBSD_native | FreeBSD_extended | MacOS_extended | Windows_native

record attr_os =
  ao_stat_flags :: "host \<Rightarrow> path \<Rightarrow> errc + u32"
  ao_chflags :: "path \<Rightarrow> u32 \<Rightarrow> host \<Rightarrow> (errc + unit) \<times> host"
  ao_get :: xattr_get
  ao_set :: xattr_set
  ao_remove :: xattr_remove
  ao_get_attributes :: "host \<Rightarrow> path \<Rightarrow> u32"
  ao_set_attributes :: "path \<Rightarrow> u32 \<Rightarrow> host \<Rightarrow> bool \<times> host"

fun build_get_attrs :: "attr_os \<Rightarrow> attr_build \<Rightarrow> path \<Rightarrow> (host, u8) sx" where
  "build_get_attrs os Linux_native = get_dos_attrs_native"
| "build_get_attrs os Linux_extended = get_dos_attrs_from_extended"
| "build_get_attrs os FreeBSD_native = freebsd_get_dos_attrs_native (ao_stat_flags os)"
| "build_get_attrs os FreeBSD_extended = freebsd_get_dos_attrs_from_extended (ao_get os)"
| "build_get_attrs os MacOS_extended = macos_get_dos_attrs_from_extended (ao_get os)"
| "build_get_attrs os Windows_native = win_get_dos_attrs_native (ao_get_attributes os)"

fun build_set_attrs :: "attr_os \<Rightarrow> attr_build \<Rightarrow> path \<Rightarrow> u8 \<Rightarrow> (host, unit) sx" where
  "build_set_attrs os Linux_native = set_dos_attrs_native"
| "build_set_attrs os Linux_extended = set_dos_attrs_to_extended"
| "build_set_attrs os FreeBSD_native = freebsd_set_dos_attrs_native (ao_chflags os)"
| "build_set_attrs os FreeBSD_extended = freebsd_set_dos_attrs_to_extended (ao_set os) (ao_remove os)"
| "build_set_attrs os MacOS_extended = macos_set_dos_attrs_to_extended (ao_set os) (ao_remove os)"
| "build_set_attrs os Windows_native = win_set_dos_attrs_native (ao_set_attributes os)"

text \<open>The calls do what their manuals say.\<close>

definition documented_os :: "attr_os \<Rightarrow> bool" where
  "documented_os os \<longleftrightarrow> flag_calls (ao_stat_flags os) (ao_chflags os) \<and> xattr_calls (ao_get os) (ao_set os) (ao_remove os) \<and>
     win_calls (ao_get_attributes os) (ao_set_attributes os)"

lemma build_attr_storage:
  assumes "documented_os os"
  shows "attr_storage (build_get_attrs os b) (build_set_attrs os b)"
proof -
  have calls: "flag_calls (ao_stat_flags os) (ao_chflags os)" "xattr_calls (ao_get os) (ao_set os) (ao_remove os)"
    "win_calls (ao_get_attributes os) (ao_set_attributes os)"
    using assms by (simp_all add: documented_os_def)
  note sub = flag_calls.freebsd_native_storage [OF calls(1)] xattr_calls.extended_storages [OF calls(2)]
    win_calls.win_native_storage [OF calls(3)]
  show ?thesis
  proof (cases b)
    case Linux_native
    then show ?thesis by (simp add: linux_native.attr_storage_axioms)
  next
    case Linux_extended
    then show ?thesis by (simp add: linux_extended.attr_storage_axioms)
  qed (use sub in simp_all)
qed

text \<open>C29: Every build of the server stores DOS attributes without loss: the value that one build reads, in the
  file system of Linux, FreeBSD or Windows or in an extended attribute of Linux, FreeBSD or macOS, is the
  value that is read after any build has set it, for every file and directory. The calls of FreeBSD,
  macOS and Windows are assumed to do what their manuals say.\<close>

theorem attrs_portable:
  assumes "documented_os os" "build_get_attrs os from_build p h = (Inr a, h1)" "build_set_attrs os to_build q a h2 = (Inr (), h3)"
  shows "build_get_attrs os to_build q h3 = (Inr a, h3)"
proof -
  have "attr_copy (build_get_attrs os from_build) (build_set_attrs os from_build) (build_get_attrs os to_build) (build_set_attrs os to_build)"
    using build_attr_storage [OF assms(1)] by (intro attr_copy.intro)
  from attr_copy.copied [OF this assms(2,3)] show ?thesis .
qed

definition sample_os :: attr_os where
  "sample_os = \<lparr>ao_stat_flags = fat_ioctl_get, ao_chflags = fat_ioctl_set, ao_get = getxattr, ao_set = setxattr, ao_remove = removexattr,
     ao_get_attributes = fat_get_attributes, ao_set_attributes = fat_set_attributes\<rparr>"

lemma sample_os_documented: "documented_os sample_os"
  by (simp add: documented_os_def sample_os_def linux_ioctl.flag_calls_axioms linux_xattr.xattr_calls_axioms
      windows_fat.win_calls_axioms)

definition fat_host :: host where
  "fat_host = sample_host\<lparr>h_fat_fs := True\<rparr>"

text \<open>From an extended attribute of macOS to the flags of FreeBSD.\<close>

theorem attrs_portable_witness:
  "\<exists>h3. build_get_attrs sample_os MacOS_extended (append_name sample_root (bytes_of ''a.txt'')) fat_host = (Inr FAT_ARCHIVE, fat_host) \<and>
     build_set_attrs sample_os FreeBSD_native (append_name sample_root (bytes_of ''d'')) FAT_ARCHIVE fat_host = (Inr (), h3) \<and>
     build_get_attrs sample_os FreeBSD_native (append_name sample_root (bytes_of ''d'')) h3 = (Inr FAT_ARCHIVE, h3)"
proof -
  let ?get = "build_get_attrs sample_os MacOS_extended (append_name sample_root (bytes_of ''a.txt'')) fat_host"
  let ?set = "build_set_attrs sample_os FreeBSD_native (append_name sample_root (bytes_of ''d'')) FAT_ARCHIVE fat_host"
  have "fst ?get = Inr FAT_ARCHIVE" "fst ?set = Inr ()" by code_simp+
  then have get: "?get = (Inr FAT_ARCHIVE, snd ?get)" and set: "?set = (Inr (), snd ?set)" by (simp_all add: prod_eq_iff)
  have "snd ?get = fat_host"
    using attr_storage.get_masked [OF build_attr_storage [OF sample_os_documented] get] by simp
  then show ?thesis
    using attrs_portable [OF sample_os_documented get set] get set by (intro exI [of _ "snd ?set"]) simp
qed

end
