(* ===== verification/WinSocket.thy ===== *)
theory WinSocket
  imports UdpSocket
begin

text \<open>
  Model of \<^verbatim>\<open>netmount-server/udp_socket_win.cpp\<close> and \<^verbatim>\<open>serial_port_win.cpp\<close>. The socket library is loaded when the
  server starts; functions that old versions of Windows lack are replaced. A stop signal closes the
  socket from another thread, so that every call that waits on it fails. Without such a signal the
  socket does what the one of POSIX does.
\<close>

section \<open>The socket library\<close>

text \<open>What the system offers: whether \<^verbatim>\<open>ws2_32.dll\<close> can be loaded, which functions it has, and whether
  \<^verbatim>\<open>WSAStartup\<close> succeeds. \<open>dl_handle\<close> is a handle that is not null.\<close>

record win_library =
  wl_load :: bool
  wl_proc :: "string \<Rightarrow> bool"
  wl_startup :: bool

record dynamic_library =
  dl_handle :: bool
  dl_freed :: nat

definition unload :: "dynamic_library \<Rightarrow> dynamic_library" where
  "unload d = (if dl_handle d then d\<lparr>dl_handle := False, dl_freed := Suc (dl_freed d)\<rparr> else d)"

definition load_library :: "win_library \<Rightarrow> dynamic_library \<Rightarrow> bool \<times> dynamic_library" where
  "load_library os d = (let d = (unload d)\<lparr>dl_handle := wl_load os\<rparr> in (dl_handle d, d))"

definition get_function :: "win_library \<Rightarrow> dynamic_library \<Rightarrow> string \<Rightarrow> bool" where
  "get_function os d function_name \<longleftrightarrow> dl_handle d \<and> wl_proc os function_name"

definition required_functions :: "string list" where
  "required_functions = [''WSAStartup'', ''WSACleanup'', ''WSAGetLastError'', ''socket'', ''closesocket'', ''bind'',
     ''recvfrom'', ''sendto'', ''select'']"

record win_socket =
  ws_library :: dynamic_library
  ws_loaded :: bool
  ws_inet_ntop :: bool
  ws_inet_pton :: bool
  ws_open :: bool
  ws_closed :: nat
  ws_cleaned :: nat
  ws_signaled :: bool
  ws_socket :: udp_socket

definition init_library :: "win_library \<Rightarrow> (win_socket, unit) sx" where
  "init_library os s =
     (if ws_loaded s then (Inr (), s)
      else
        let (ok, lib) = load_library os (ws_library s); s = s\<lparr>ws_library := lib\<rparr> in
        if \<not> ok then (Inl RuntimeError, s)
        else if \<not> list_all (get_function os lib) required_functions then (Inl RuntimeError, s)
        else
          let s = s\<lparr>ws_inet_ntop := get_function os lib ''inet_ntop''\<rparr> in
          if \<not> ws_inet_ntop s \<and> \<not> get_function os lib ''inet_ntoa'' then (Inl RuntimeError, s)
          else
            let s = s\<lparr>ws_inet_pton := get_function os lib ''inet_pton''\<rparr> in
            if \<not> ws_inet_pton s \<and> \<not> get_function os lib ''inet_addr'' then (Inl RuntimeError, s)
            else if \<not> wl_startup os then (Inl RuntimeError, s)
            else (Inr (), s\<lparr>ws_loaded := True\<rparr>))"

definition library_cleanup :: "win_socket \<Rightarrow> win_socket" where
  "library_cleanup s =
     (let s = (if ws_loaded s then s\<lparr>ws_cleaned := Suc (ws_cleaned s)\<rparr> else s)
      in s\<lparr>ws_library := unload (ws_library s), ws_loaded := False\<rparr>)"


section \<open>The socket\<close>

definition new_win_socket :: win_socket where
  "new_win_socket = \<lparr>ws_library = \<lparr>dl_handle = False, dl_freed = 0\<rparr>, ws_loaded = False, ws_inet_ntop = False,
     ws_inet_pton = False, ws_open = False, ws_closed = 0, ws_cleaned = 0, ws_signaled = False,
     ws_socket = \<lparr>us_local = None, us_last_remote_addr = \<lparr>sin_addr = 0, sin_port = 0\<rparr>, us_last_remote_ip = [], us_sent = []\<rparr>\<rparr>"

text \<open>The constructor; \<open>created\<close> tells whether \<^verbatim>\<open>socket\<close> succeeds. When it throws, the members are destroyed.\<close>

definition win_socket_new :: "win_library \<Rightarrow> bool \<Rightarrow> (exn + unit) \<times> win_socket" where
  "win_socket_new os created =
     (case init_library os new_win_socket of
        (Inl e, s) \<Rightarrow> (Inl e, s\<lparr>ws_library := unload (ws_library s)\<rparr>)
      | (Inr _, s) \<Rightarrow>
          if \<not> created then (Inl RuntimeError, library_cleanup s)
          else (Inr (), s\<lparr>ws_open := True\<rparr>))"

definition signal_stop :: "win_socket \<Rightarrow> win_socket" where
  "signal_stop s =
     (if ws_signaled s then s else s\<lparr>ws_signaled := True, ws_closed := Suc (ws_closed s), ws_open := False\<rparr>)"

definition win_socket_destroy :: "win_socket \<Rightarrow> win_socket" where
  "win_socket_destroy s = library_cleanup (signal_stop s)"

text \<open>\<open>inet_pton\<close> gives the result and the address; \<open>inet_addr\<close> the address or \<^verbatim>\<open>INADDR_NONE\<close>.\<close>

definition INADDR_NONE :: u32 where "INADDR_NONE = 0xFFFFFFFF"

definition ip_from_string :: "(byte list \<Rightarrow> int \<times> u32) \<Rightarrow> (byte list \<Rightarrow> u32) \<Rightarrow> byte list \<Rightarrow> (win_socket, u32) sx" where
  "ip_from_string inet_pton inet_addr src s =
     (if ws_inet_pton s then
        (case inet_pton src of (ret, addr) \<Rightarrow> (if ret = 1 then Inr addr else Inl RuntimeError, s))
      else
        let addr = inet_addr src in
        (if addr \<noteq> INADDR_NONE \<or> src = bytes_of ''255.255.255.255'' then Inr addr else Inl RuntimeError, s))"

text \<open>The buffer has 16 bytes, the last one is set to zero.\<close>

definition ip_to_string :: "(u32 \<Rightarrow> byte list option) \<Rightarrow> (u32 \<Rightarrow> byte list option) \<Rightarrow> u32 \<Rightarrow> (win_socket, byte list) sx" where
  "ip_to_string inet_ntop inet_ntoa src s =
     (if ws_inet_ntop s then
        (case inet_ntop src of None \<Rightarrow> (Inl RuntimeError, s) | Some str \<Rightarrow> (Inr str, s))
      else
        (case inet_ntoa src of None \<Rightarrow> (Inl RuntimeError, s) | Some str \<Rightarrow> (Inr (take 15 str), s)))"

definition win_bind ::
  "endian \<Rightarrow> (byte list \<Rightarrow> int \<times> u32) \<Rightarrow> (byte list \<Rightarrow> u32) \<Rightarrow> (sockaddr_in \<Rightarrow> bool) \<Rightarrow> byte list \<Rightarrow> u16 \<Rightarrow> (win_socket, unit) sx" where
  "win_bind native inet_pton inet_addr os_bind local_ip local_port s =
     (case (if local_ip \<noteq> [] then ip_from_string inet_pton inet_addr local_ip s else (Inr INADDR_ANY, s)) of
        (Inl e, s) \<Rightarrow> (Inl e, s)
      | (Inr addr, s) \<Rightarrow>
          let bind_addr = \<lparr>sin_addr = addr, sin_port = to_big16 native local_port\<rparr>
          in if os_bind bind_addr then (Inr (), s\<lparr>ws_socket := (ws_socket s)\<lparr>us_local := Some bind_addr\<rparr>\<rparr>)
             else (Inl RuntimeError, s))"

text \<open>\<open>p_select\<close> is \<open>None\<close> for \<^verbatim>\<open>SOCKET_ERROR\<close>.\<close>

definition win_wait_for_data :: "(nat \<times> nat \<Rightarrow> nat option) \<Rightarrow> u16 \<Rightarrow> (win_socket, wait_result) sx" where
  "win_wait_for_data p_select timeout_ms s =
     (case p_select (select_timeout timeout_ms) of
        None \<Rightarrow> (Inl RuntimeError, s)
      | Some select_ret \<Rightarrow>
          (Inr (if ws_signaled s then SIGNAL else if select_ret = 0 then TIMEOUT else READY), s))"

text \<open>\<^verbatim>\<open>receive\<close> and \<^verbatim>\<open>send_reply\<close> throw for an error in any case; the signal only changes the message.\<close>

definition win_receive :: "(byte list \<times> sockaddr_in) option \<Rightarrow> nat \<Rightarrow> (win_socket, byte list) sx" where
  "win_receive p_recvfrom buffer_size s =
     (case p_recvfrom of
        None \<Rightarrow> (Inl RuntimeError, s)
      | Some (datagram, addr) \<Rightarrow>
          (Inr (take buffer_size datagram), s\<lparr>ws_socket := (ws_socket s)\<lparr>us_last_remote_addr := addr\<rparr>\<rparr>))"

definition win_send_reply :: "nat option \<Rightarrow> byte list \<Rightarrow> (win_socket, u16) sx" where
  "win_send_reply p_sendto data s =
     (let sock = ws_socket s;
          s = s\<lparr>ws_socket := sock\<lparr>us_sent := us_sent sock @ [(us_last_remote_addr sock, data)]\<rparr>\<rparr>
      in case p_sendto of None \<Rightarrow> (Inl RuntimeError, s) | Some sent_bytes \<Rightarrow> (Inr (of_nat sent_bytes), s))"

definition win_last_remote_ip :: "endian \<Rightarrow> win_socket \<Rightarrow> u32" where
  "win_last_remote_ip native s = from_big32 native (sin_addr (us_last_remote_addr (ws_socket s)))"

definition win_last_remote_port :: "endian \<Rightarrow> win_socket \<Rightarrow> u16" where
  "win_last_remote_port native s = from_big16 native (sin_port (us_last_remote_addr (ws_socket s)))"

definition win_last_remote_ip_str ::
  "(u32 \<Rightarrow> byte list option) \<Rightarrow> (u32 \<Rightarrow> byte list option) \<Rightarrow> (win_socket, byte list) sx" where
  "win_last_remote_ip_str inet_ntop inet_ntoa s =
     (case ip_to_string inet_ntop inet_ntoa (sin_addr (us_last_remote_addr (ws_socket s))) s of
        (Inl e, s) \<Rightarrow> (Inl e, s)
      | (Inr str, s) \<Rightarrow> (Inr str, s\<lparr>ws_socket := (ws_socket s)\<lparr>us_last_remote_ip := str\<rparr>\<rparr>))"



section \<open>The serial line\<close>

record dcb =
  BaudRate :: u32
  ByteSize :: u8
  Parity :: u8
  StopBits :: u8
  fRtsControl :: u8

definition RTS_CONTROL_DISABLE :: u8 where "RTS_CONTROL_DISABLE = 0"
definition RTS_CONTROL_HANDSHAKE :: u8 where "RTS_CONTROL_HANDSHAKE = 2"

record comm_timeouts =
  ReadIntervalTimeout :: u32
  ReadTotalTimeoutMultiplier :: u32
  ReadTotalTimeoutConstant :: u32
  WriteTotalTimeoutMultiplier :: u32
  WriteTotalTimeoutConstant :: u32

text \<open>\<open>GetCommState\<close> is the state of the line, \<open>None\<close> for an error; no parity and one stop bit are both zero. The
  result is what is given to \<^verbatim>\<open>SetCommState\<close> and \<^verbatim>\<open>SetCommTimeouts\<close>; every speed is left to the system.\<close>

definition win_serial_setup ::
  "dcb option \<Rightarrow> (dcb \<Rightarrow> bool) \<Rightarrow> u32 \<Rightarrow> bool \<Rightarrow> exn + dcb \<times> comm_timeouts" where
  "win_serial_setup get_comm_state set_comm_state baudrate hw_flow_control =
     (case get_comm_state of
        None \<Rightarrow> Inl RuntimeError
      | Some dcb \<Rightarrow>
          let dcb = dcb\<lparr>BaudRate := baudrate, ByteSize := 8, Parity := 0, StopBits := 0,
                fRtsControl := (if hw_flow_control then RTS_CONTROL_HANDSHAKE else RTS_CONTROL_DISABLE)\<rparr>
          in if \<not> set_comm_state dcb then Inl RuntimeError
             else Inr (dcb, \<lparr>ReadIntervalTimeout = 0, ReadTotalTimeoutMultiplier = 0, ReadTotalTimeoutConstant = 1000,
               WriteTotalTimeoutMultiplier = 0, WriteTotalTimeoutConstant = 0\<rparr>))"

text \<open>\<^verbatim>\<open>ReadFile\<close> of one byte and \<^verbatim>\<open>WriteFile\<close>, on the serial port of \<open>Slip\<close>\<close>

definition win_read_byte :: "serial_port \<Rightarrow> (exn + byte option) \<times> serial_port" where
  "win_read_byte p =
     (case serial_in p of
        [] \<Rightarrow> (Inr None, p)
      | Got b # xs \<Rightarrow> (Inr (Some b), p\<lparr>serial_in := xs\<rparr>)
      | Timeout # xs \<Rightarrow> (Inr None, p\<lparr>serial_in := xs\<rparr>)
      | ReadError # xs \<Rightarrow> (Inl RuntimeError, p\<lparr>serial_in := xs\<rparr>))"

definition win_write_bytes :: "byte list \<Rightarrow> serial_port \<Rightarrow> (exn + nat) \<times> serial_port" where
  "win_write_bytes data p =
     (case serial_room p of
        None \<Rightarrow> (Inl RuntimeError, p)
      | Some n \<Rightarrow> (Inr (min n (length data)), p\<lparr>serial_out := serial_out p @ take n data\<rparr>))"


section \<open>The interface\<close>

text \<open>What the main loop relies on: a packet that is received is a datagram cut to the buffer, its sender is
  remembered, and a reply goes to the sender that is remembered.\<close>

locale udp_interface =
  fixes recv :: "(byte list \<times> sockaddr_in) option \<Rightarrow> nat \<Rightarrow> ('s, byte list) sx"
    and ip_str :: "(u32 \<Rightarrow> byte list option) \<Rightarrow> ('s, byte list) sx"
    and reply :: "nat option \<Rightarrow> byte list \<Rightarrow> ('s, u16) sx"
    and sender :: "'s \<Rightarrow> sockaddr_in" and sent :: "'s \<Rightarrow> (sockaddr_in \<times> byte list) list"
  assumes recv_some: "recv r n s = (Inr d, s') \<Longrightarrow> \<exists>datagram. r = Some (datagram, sender s') \<and> d = take n datagram \<and> sent s' = sent s"
    and ip_str_keeps: "sender (snd (ip_str ntop s)) = sender s" "sent (snd (ip_str ntop s)) = sent s"
    and reply_sent: "sent (snd (reply k d s)) = sent s @ [(sender s, d)]"
begin

lemma reply_to_sender:
  assumes "recv (Some (datagram, addr)) n s = (Inr d, s1)" "ip_str ntop s1 = (x, s2)" "reply k answer s2 = (y, s3)"
  shows "sent s3 = sent s @ [(addr, answer)]"
  using recv_some [OF assms(1)] ip_str_keeps [of ntop s1] reply_sent [of k answer s2] assms(2,3) by simp

end

interpretation posix_udp: udp_interface udp_receive udp_last_remote_ip_str udp_send_reply us_last_remote_addr us_sent
  by unfold_locales (auto simp: udp_receive_def udp_last_remote_ip_str_def udp_send_reply_def Let_def split: option.splits prod.splits)

interpretation win_udp: udp_interface win_receive "\<lambda>ntop. win_last_remote_ip_str ntop ntop" win_send_reply
    "\<lambda>s. us_last_remote_addr (ws_socket s)" "\<lambda>s. us_sent (ws_socket s)"
  by unfold_locales (auto simp: win_receive_def win_last_remote_ip_str_def ip_to_string_def win_send_reply_def Let_def
      split: option.splits prod.splits)

text \<open>Without a stop signal the socket of Windows answers like the one of POSIX.\<close>

definition posix_select :: "(nat \<times> nat \<Rightarrow> nat option) \<Rightarrow> nat \<times> nat \<Rightarrow> select_ret" where
  "posix_select p_select tv = (case p_select tv of None \<Rightarrow> SelectFailed other_errno | Some n \<Rightarrow> Selected n)"

lemma win_wait_refines:
  "\<not> ws_signaled s \<Longrightarrow> fst (win_wait_for_data p_select tmo s) = fst (wait_for_data (posix_select p_select) tmo (ws_socket s))"
  by (simp add: win_wait_for_data_def wait_for_data_def posix_select_def sx_defs split: option.split)

lemma win_transfer_refines:
  "fst (win_receive r n s) = fst (udp_receive r n (ws_socket s))"
  "ws_socket (snd (win_receive r n s)) = snd (udp_receive r n (ws_socket s))"
  "fst (win_send_reply r' d s) = fst (udp_send_reply r' d (ws_socket s))"
  "ws_socket (snd (win_send_reply r' d s)) = snd (udp_send_reply r' d (ws_socket s))"
  by (simp_all add: win_receive_def udp_receive_def win_send_reply_def udp_send_reply_def Let_def split: option.split prod.split)

text \<open>However often it is stopped and destroyed, the socket is closed once and the library is cleaned up once.\<close>

lemma win_closed_once:
  assumes "win_socket_new os True = (Inr (), s)"
  shows "ws_closed (win_socket_destroy ((signal_stop ^^ n) s)) = 1 \<and> ws_cleaned (win_socket_destroy ((signal_stop ^^ n) s)) = 1 \<and>
    \<not> ws_open (win_socket_destroy ((signal_stop ^^ n) s)) \<and> \<not> dl_handle (ws_library (win_socket_destroy ((signal_stop ^^ n) s)))"
proof -
  have s: "ws_loaded s" "ws_closed s = 0" "ws_cleaned s = 0" "\<not> ws_signaled s"
    using assms by (auto simp: win_socket_new_def init_library_def new_win_socket_def Let_def split: prod.splits if_splits)
  have "(signal_stop ^^ n) s = (if n = 0 then s else signal_stop s)"
    by (induction n) (auto simp: signal_stop_def)
  with s show ?thesis
    by (simp add: win_socket_destroy_def library_cleanup_def signal_stop_def unload_def Let_def)
qed

text \<open>A stop signal that closes the socket while \<^verbatim>\<open>select\<close> waits is not reported as \<^verbatim>\<open>SIGNAL\<close>: the error is thrown
  before the signal is looked at.\<close>

lemma win_stop_throws: "p_select (select_timeout tmo) = None \<Longrightarrow> win_wait_for_data p_select tmo (signal_stop s) = (Inl RuntimeError, signal_stop s)"
  by (simp add: win_wait_for_data_def)

end
