(* ===== verification/TranslitWin.thy ===== *)
theory TranslitWin
  imports Translit
begin

text \<open>
  The conversion of file names of the Windows build (\<^verbatim>\<open>convert_windows_unicode_to_ascii\<close> of
  \<^verbatim>\<open>unicode_to_ascii.cpp\<close>), and that it agrees with the one of the POSIX builds: a name gets the same ASCII
  characters from its UTF-16 form as from its UTF-8 form.
\<close>

fun convert_windows_unicode_to_ascii :: "transliteration_map \<Rightarrow> u16 list \<Rightarrow> byte list" where
  "convert_windows_unicode_to_ascii tm [] = []"
| "convert_windows_unicode_to_ascii tm (wc # ws) =
     (case ws of
        wc2 # ws2 \<Rightarrow>
          if 0xD800 \<le> wc \<and> wc \<le> 0xDBFF \<and> 0xDC00 \<le> wc2 \<and> wc2 \<le> 0xDFFF then
            let cp = (push_bit 10 (ucast wc - 0xD800) OR (ucast wc2 - 0xDC00)) + 0x10000 :: u32
            in translit_codepoint tm cp @ convert_windows_unicode_to_ascii tm ws2
          else
            (let cp = ucast wc :: u32 in if cp \<le> 0x7F then [ucast cp] else translit_codepoint tm cp)
              @ convert_windows_unicode_to_ascii tm ws
      | [] \<Rightarrow>
          (let cp = ucast wc :: u32 in if cp \<le> 0x7F then [ucast cp] else translit_codepoint tm cp))"

text \<open>The reference encoder of RFC 2781, and the characters of Unicode: no surrogates.\<close>

definition utf16_encode :: "u32 \<Rightarrow> u16 list" where
  "utf16_encode cp =
     (if cp < 0x10000 then [ucast cp]
      else let v = cp - 0x10000 in [0xD800 + ucast (drop_bit 10 v), 0xDC00 + ucast (take_bit 10 v)])"

definition scalar_value :: "u32 \<Rightarrow> bool" where
  "scalar_value cp \<longleftrightarrow> cp < 0xD800 \<or> 0xDFFF < cp \<and> cp < 0x110000"

text \<open>Ten bits behind the first surrogate, and back.\<close>

lemma surrogate_half:
  fixes x :: u32 and base :: u16
  assumes "x < 0x400" "unat base \<le> 0xDC00"
  shows "unat (base + ucast x) = unat base + unat x" "ucast (base + ucast x) - ucast base = x"
proof -
  have x: "unat x < 1024" using assms(1) by (simp add: word_less_nat_alt)
  then have u: "unat (ucast x :: u16) = unat x" by (simp add: unat_ucast_down)
  then show sum: "unat (base + ucast x) = unat base + unat x"
    using x assms(2) by (simp add: unat_word_ariths)
  have "unat (ucast (base + ucast x) - ucast base :: u32) = unat x"
    using x assms(2) sum by (subst unat_sub) (simp_all add: word_le_nat_alt unat_ucast_up)
  then show "ucast (base + ucast x) - ucast base = x" by (simp add: word_unat_eq_iff)
qed

lemma split_ten_bits: "push_bit 10 (drop_bit 10 v) OR take_bit 10 v = (v :: u32)"
  by (rule bit_word_eqI) (auto simp: bit_simps)

lemma surrogate_pair:
  fixes v :: u32
  assumes "v < 0x100000"
  defines "wc \<equiv> 0xD800 + ucast (drop_bit 10 v) :: u16" and "wc2 \<equiv> 0xDC00 + ucast (take_bit 10 v) :: u16"
  shows "0xD800 \<le> wc \<and> wc \<le> 0xDBFF \<and> 0xDC00 \<le> wc2 \<and> wc2 \<le> 0xDFFF"
    "push_bit 10 (ucast wc - 0xD800) OR (ucast wc2 - 0xDC00) = v"
proof -
  have hi: "drop_bit 10 v < 0x400"
  proof -
    have "unat (drop_bit 10 v) = unat v div 1024" by (simp only: unat_drop_bit_eq) (simp add: drop_bit_eq_div)
    then show ?thesis using assms(1) by (simp add: word_less_nat_alt less_mult_imp_div_less)
  qed
  have lo: "take_bit 10 v < 0x400"
    using take_bit_nat_less_exp [of 10 "unat v"] by (simp add: word_less_nat_alt unsigned_take_bit_eq)
  note h = surrogate_half [OF hi, of "0xD800", folded wc_def] and l = surrogate_half [OF lo, of "0xDC00", folded wc2_def]
  show "0xD800 \<le> wc \<and> wc \<le> 0xDBFF \<and> 0xDC00 \<le> wc2 \<and> wc2 \<le> 0xDFFF"
    using h(1) l(1) hi lo by (simp add: word_le_nat_alt word_less_nat_alt)
  show "push_bit 10 (ucast wc - 0xD800) OR (ucast wc2 - 0xDC00) = v"
    using h(2) l(2) split_ten_bits [of v] by simp
qed

lemma convert_plain_unit:
  assumes "\<not> (0xD800 \<le> wc \<and> wc \<le> 0xDBFF)"
  shows "convert_windows_unicode_to_ascii tm (wc # ws) =
    (let cp = ucast wc in if cp \<le> 0x7F then [ucast cp] else translit_codepoint tm cp) @ convert_windows_unicode_to_ascii tm ws"
proof (cases ws)
  case (Cons wc2 ws2)
  have "\<not> (0xD800 \<le> wc \<and> wc \<le> 0xDBFF \<and> 0xDC00 \<le> wc2 \<and> wc2 \<le> 0xDFFF)" using assms by blast
  then show ?thesis
    unfolding Cons by (simp only: convert_windows_unicode_to_ascii.simps(2) [of tm wc] list.case if_False)
qed simp

lemma convert_utf16_char:
  assumes "scalar_value cp"
  shows "convert_windows_unicode_to_ascii tm (utf16_encode cp @ rest) =
    ascii_of_codepoint tm cp @ convert_windows_unicode_to_ascii tm rest"
proof (cases "cp < 0x10000")
  case True
  then have small: "unat cp < 65536" by (simp add: word_less_nat_alt)
  then have u: "unat (ucast cp :: u16) = unat cp" by (simp add: unat_ucast_down)
  then have same: "ucast (ucast cp :: u16) = cp" by (simp add: word_unat_eq_iff unat_ucast_up)
  have plain: "\<not> (0xD800 \<le> (ucast cp :: u16) \<and> (ucast cp :: u16) \<le> 0xDBFF)"
    using assms u by (auto simp: scalar_value_def word_le_nat_alt word_less_nat_alt)
  have "cp \<le> 0x7F \<longleftrightarrow> cp < 0x80" by (auto simp: word_le_nat_alt word_less_nat_alt)
  with same have one: "(let c = ucast (ucast cp :: u16) in if c \<le> 0x7F then [ucast c] else translit_codepoint tm c)
      = ascii_of_codepoint tm cp"
    by (simp add: ascii_of_codepoint_def)
  have "utf16_encode cp = [ucast cp]" using True by (simp add: utf16_encode_def)
  then show ?thesis by (simp only: append_Cons append_Nil convert_plain_unit [OF plain] one)
next
  case False
  have v: "cp - 0x10000 < 0x100000"
    using False assms by (auto simp: scalar_value_def word_less_nat_alt unat_sub word_le_nat_alt not_less)
  have "\<not> cp < 0x80" using False by (auto simp: word_less_nat_alt)
  then show ?thesis
    using False surrogate_pair [OF v] by (simp add: utf16_encode_def ascii_of_codepoint_def Let_def)
qed

text \<open>C30: A file name gets the same DOS characters on every platform: the conversion of its UTF-16 form in the
  Windows build and the conversion of its UTF-8 form in the other builds give the same characters,
  for every sequence of Unicode characters and every transliteration map.\<close>

theorem conversions_agree:
  assumes "list_all scalar_value cps"
  shows "convert_windows_unicode_to_ascii tm (concat (map utf16_encode cps)) = convert_utf8_to_ascii tm (concat (map utf8_encode cps))"
proof -
  have "\<forall>cp \<in> set cps. cp < 0x110000"
    using assms by (force simp: list_all_iff scalar_value_def word_less_nat_alt)
  then have "convert_utf8_to_ascii tm (concat (map utf8_encode cps)) = concat (map (ascii_of_codepoint tm) cps)"
    by (rule convert_utf8_to_ascii_spec)
  moreover have "convert_windows_unicode_to_ascii tm (concat (map utf16_encode cps)) = concat (map (ascii_of_codepoint tm) cps)"
    using assms by (induction cps) (simp_all add: convert_utf16_char)
  ultimately show ?thesis by simp
qed

theorem conversions_agree_witness:
  "convert_windows_unicode_to_ascii [0xE9 \<mapsto> [ch_a], 0x1F600 \<mapsto> [ch_z]] [0x41, 0xE9, 0xD83D, 0xDE00] = [ch_A, ch_a, ch_z] \<and>
   convert_utf8_to_ascii [0xE9 \<mapsto> [ch_a], 0x1F600 \<mapsto> [ch_z]] [0x41, 0xC3, 0xA9, 0xF0, 0x9F, 0x98, 0x80] = [ch_A, ch_a, ch_z]"
proof -
  let ?tm = "[0xE9 \<mapsto> [ch_a], 0x1F600 \<mapsto> [ch_z]] :: transliteration_map" and ?cps = "[0x41, 0xE9, 0x1F600] :: u32 list"
  have ok: "list_all scalar_value ?cps" by code_simp
  have enc: "concat (map utf16_encode ?cps) = [0x41, 0xE9, 0xD83D, 0xDE00]"
    "concat (map utf8_encode ?cps) = [0x41, 0xC3, 0xA9, 0xF0, 0x9F, 0x98, 0x80]" by code_simp+
  have "convert_utf8_to_ascii ?tm [0x41, 0xC3, 0xA9, 0xF0, 0x9F, 0x98, 0x80] = [ch_A, ch_a, ch_z]" by code_simp
  then show ?thesis using conversions_agree [OF ok, of ?tm] enc by simp
qed

end
