(* ===== verification/Spec2Isabelle.thy ===== *)
theory Spec2Isabelle
  imports Options Handles ReadOnly Retransmit Listing Containment Packets Files Answers ClientWait EndToEnd ManageValues NinstallFacts
    Liveness Platforms WinSocket TranslitWin
begin

text \<open>
  \<^bold>\<open>NetMount.\<close> NetMount lets a DOS machine use directories of another machine as drives. The repository has a
  server in C++ (\<^verbatim>\<open>src/netmount-server\<close>), a resident client in C for 16-bit DOS (\<^verbatim>\<open>src/netmount\<close>), two tools for the client
  (\<^verbatim>\<open>src/nmmanage\<close>, \<^verbatim>\<open>src/ninstall\<close>) and the headers they share (\<^verbatim>\<open>src/shared\<close>). DOS calls the client by INT 2F; the
  client turns a call into a request packet, sends it by UDP through a packet driver, and waits for the reply; the server
  checks the packet, executes the request on the shared directory, remembers the reply, and answers. The theories of this
  development model these parts one by one and prove what makes them correct, alone and connected.

  \<^bold>\<open>The server.\<close>
  \<^item> \<open>Prelude\<close>: machine integers as words, byte buffers, the exception monad \<open>sx\<close> in which the server code is written, and the
    contracts \<open>codec\<close> (a round trip) and of a kept state predicate.
  \<^item> \<open>Utils\<close> (\<^verbatim>\<open>utils.hpp\<close>), \<open>Checksums\<close> (\<^verbatim>\<open>bsd_checksum\<close> of server and client, \<^verbatim>\<open>internet_checksum\<close>), \<open>Translit\<close>
    (\<^verbatim>\<open>unicode_to_ascii.cpp\<close>), \<open>Fcb\<close> (8.3 names of \<^verbatim>\<open>fs.cpp\<close>), \<open>FatTime\<close> (time stamps of \<^verbatim>\<open>fs.cpp\<close>), \<open>Slip\<close>
    (\<^verbatim>\<open>slip_udp_serial.cpp\<close>, \<^verbatim>\<open>serial_port.cpp\<close>): the helpers, each with its lemmas.
  \<^item> \<open>HostFs\<close>: the part of the C++ library and of POSIX that the server uses, on an explicit store from locations to nodes.
    \<open>FsOps\<close>: the functions of \<^verbatim>\<open>fs.cpp\<close> and \<^verbatim>\<open>fs_linux.cpp\<close> on host paths and DOS attributes.
  \<^item> \<open>Drive\<close> (class \<^verbatim>\<open>Drive\<close> of \<^verbatim>\<open>fs.hpp\<close> and \<^verbatim>\<open>fs.cpp\<close>): the state of a share is the record \<open>drive\<close> with its table of handles;
    one definition for each method. \<open>Protocol\<close> (\<^verbatim>\<open>drvproto.h\<close>): packets. \<open>ReplyCache\<close> and \<open>Request\<close>: the class \<^verbatim>\<open>ReplyCache\<close> and
    the function \<^verbatim>\<open>process_request\<close> of \<^verbatim>\<open>netmount-server.cpp\<close>, one definition for each request. \<open>Server\<close>: one turn of the
    main loop. \<open>Options\<close>: the command line, the choice of the attribute storage and the filter of the log.
  \<^item> \<open>UdpSocket\<close> (\<^verbatim>\<open>udp_socket.cpp\<close>, the terminal settings of \<^verbatim>\<open>serial_port.cpp\<close>): the socket with the results of the system calls
    as arguments. \<open>MainLoop\<close>: the rest of \<^verbatim>\<open>main\<close> -- opening the transport, loading the transliteration map, the signal handler and the
    loop; what the system answers in one turn of the loop is a record \<open>turn\<close>, a run is a list of turns.
  \<^item> The other builds: \<open>Platforms\<close> (\<^verbatim>\<open>fs_freebsd.cpp\<close>, \<^verbatim>\<open>fs_macos.cpp\<close>, \<^verbatim>\<open>fs_win.cpp\<close>), \<open>WinSocket\<close> (\<^verbatim>\<open>udp_socket_win.cpp\<close>,
    \<^verbatim>\<open>serial_port_win.cpp\<close>) and \<open>TranslitWin\<close> (the UTF-16 conversion of \<^verbatim>\<open>unicode_to_ascii.cpp\<close>).
  \<^item> \<open>Samples\<close>: a small server for concrete runs.

  \<^bold>\<open>What is shown of the server.\<close>
  \<^item> \<open>Invariants\<close> states the changes that requests can make to the host as a step relation, and what a predicate on a
    drive has to satisfy so that every operation, every request and every packet keeps it (locales \<open>reading\<close>,
    \<open>drive_invariant\<close>, \<open>server_invariant\<close>). \<open>ReadOnly\<close> (a read-only share never changes), \<open>Containment\<close> (on a share with
    name conversion and a host without symbolic links, what is made of a client path lies in the shared directory, except
    for disguised names of the parent directory, which it shows to escape) and \<open>Names\<close> (DOS names have eight and three bytes) interpret them.
  \<^item> \<open>Handles\<close>: the table of handles finds again what it gave out and evicts the least recently used path only when it is
    full. \<open>Listing\<close>: listings are complete, names unambiguous, searches find exactly the matching entries.
  \<^item> \<open>Retransmit\<close>: a repeated request is answered from the cache without effect, as long as its entry in the cache is not
    given to another client; the inductive relation \<open>meanwhile\<close> says what may happen in between. \<open>Packets\<close>: damaged requests are dropped, replies
    have the header the client checks. \<open>Files\<close>, \<open>Answers\<close>: what is written is read, attributes are kept, numbers in answers
    are right or limited where the code limits them.
  \<^item> \<open>Bounded\<close> and \<open>Replying\<close>: no request makes the server leave an array or throw out of the loop, except a read of more than fits
    into a reply; every well-formed request for a shared drive gets a reply. \<open>Liveness\<close> lifts this to runs of \<open>server_main\<close>: the
    server keeps running and answers each such request in the turn in which it arrives; a reply that the system refuses to send
    ends it. All this is for packets of at most 1500 bytes and reads of at most 1492 bytes; for others the server leaves its arrays.
  \<^item> \<open>Platforms\<close> states what the storage of DOS attributes promises (locale \<open>attr_storage\<close>) and derives it for every build from
    what the system calls promise (\<open>flag_calls\<close>, \<open>xattr_calls\<close>, \<open>win_calls\<close>), so attributes carry over between builds. \<open>WinSocket\<close>:
    the Windows socket refines the POSIX one until it is stopped and is closed once. \<open>TranslitWin\<close>: both conversions of names agree.

  \<^bold>\<open>The client.\<close>
  \<^item> \<open>ClientData\<close> (\<^verbatim>\<open>shdata.h\<close>, \<^verbatim>\<open>dos.h\<close>, \<^verbatim>\<open>i86.h\<close>, the string helpers of \<^verbatim>\<open>netmount.c\<close>): the record \<open>client\<close> is the resident memory
    with the DOS structures. A run returns, leaves an array (\<open>Faults\<close>) or needs more interrupts than the trace has (\<open>Waits\<close>).
  \<^item> \<open>ClientNet\<close>: frames, the calls of the packet driver, ARP and \<open>send_request\<close>. The interrupts of the timer and of the packet driver
    are an explicit trace, which covers every order of interrupts and turns of the waiting loops (an interrupt between two reads
    of the same turn is not covered); the network is an argument.
    \<open>ClientRedirector\<close>: every case of \<^verbatim>\<open>handle_request_for_our_drive\<close> and the handler of INT 2F. \<open>ClientSetup\<close>: the commands INSTALL,
    MOUNT, UMOUNT and UNINSTALL.
  \<^item> \<open>ClientLink\<close> and \<open>ClientWait\<close>: the request frames are accepted by the server; \<open>send_request\<close> ends when the timer
    ticks and says when it returns a result; with a packet driver that copies a frame in one interrupt it accepts only answers of the
    server; it is blocked by a late reply. \<open>Serving\<close>, \<open>RemoteCall\<close>: a request over a network that delivers
    frames is a call of the server's \<open>handle_function\<close>. \<open>ClientFiles\<close> proves the read and write handlers with the read buffer correct
    against an abstract file (locales \<open>file_reader\<close>, \<open>file_service\<close>); \<open>EndToEnd\<close> interprets them on the connected client and
    server: a read or write of a DOS program is the read or write of the file on the host.

  \<^bold>\<open>The tools.\<close>
  \<^item> \<open>Manage\<close> (\<^verbatim>\<open>nmmanage.c\<close>): every command with its output on the shared data. \<open>Config\<close> gives the weakest preconditions of its
    operations and shows that it keeps well-formed data well-formed and changes only its options. \<open>Resident\<close> is the inductive set of
    the configurations that INSTALL, MOUNT, UMOUNT and NMMANAGE reach, with its invariant and the effect of MOUNT. \<open>ManageValues\<close>:
    values and addresses are read back as they are printed.
  \<^item> \<open>Ninstall\<close> (\<^verbatim>\<open>ninstall.c\<close>): the character-wise reader of the configuration file. \<open>NinstallFacts\<close>: it stays in its buffers, and
    equals a reference definition on lines.

  \<^bold>\<open>Bounds and fuel.\<close> Loops are structural recursion or have a measure. Two loops of the client, \<open>read_chunks\<close> and \<open>write_chunks\<close>, run
  on a 16-bit count of bytes that each turn reduces by the length of a reply, which may be zero only in the last turn: they have a fuel of
  65536 turns, and the theorems of \<open>ClientFiles\<close> show that they return. The waiting loops consume the trace of interrupts;
  termination is shown for every network on which the timer ticks, by one at a time, for a minute after each transmission, which
  is longer than the longest time-out. Where the server writes into fixed buffers, the model has
  the error \<open>OutOfBounds\<close> for a store outside of them.

  \<^bold>\<open>Not modelled.\<close> Operating systems, the socket library and DOS are arguments of the model, apart from the calls in \<open>HostFs\<close>. Output
  is left out where nothing depends on it: the log with \<^verbatim>\<open>dump_packet\<close>, the table of shares that the server prints at its start, the
  messages and the help of the server and of \<^verbatim>\<open>netmount.c\<close>; so are the texts of exceptions. The saving of registers and the switching of stacks in
  the assembler code of the client have no counterpart in a model with typed memory. \<^verbatim>\<open>fs_posix.cpp\<close> has
  only preprocessor checks. The simulated packet loss is a debugging option that \<^verbatim>\<open>utils.hpp\<close> leaves off. A host directory is read at
  once, without an error behind its first entries. Constants of type \<^verbatim>\<open>unsigned long\<close> in the server have 64 bits.
\<close>

end
